(* ===== verification/CP_Prelude.thy ===== *)
theory CP_Prelude
  imports Main "HOL-Library.Multiset" "HOL-Library.Sublist" "HOL-Library.Char_ord" "HOL-Library.List_Lexorder"
begin

text \<open>
  Shared vocabulary of the CrossPatch development: the result type that stands for
  Python's raise/return, the string predicates behind the regular expressions the code
  uses again and again (identifiers, SHA-256 digests), splitting and joining of strings,
  and the generic lemmas the component theories rely on.

  A Python \<^verbatim>\<open>str\<close> is represented by its UTF-8 bytes (a list of \<^typ>\<open>char\<close>), so
  \<^verbatim>\<open>.encode("utf-8")\<close> is the identity and the order of two strings (code-point order in
  Python) is the lexicographic order of their bytes.
\<close>

section \<open>Results\<close>

type_synonym ('e, 'a) result = "'e + 'a"

named_theorems result_simps \<open>inversion of successful and failing computations\<close>

definition rbind :: "('e, 'a) result \<Rightarrow> ('a \<Rightarrow> ('e, 'b) result) \<Rightarrow> ('e, 'b) result" where
  "rbind m f = (case m of Inl e \<Rightarrow> Inl e | Inr x \<Rightarrow> f x)"

definition require :: "bool \<Rightarrow> 'e \<Rightarrow> ('e, unit) result" where
  "require b e = (if b then Inr () else Inl e)"

definition map_error :: "('e \<Rightarrow> 'f) \<Rightarrow> ('e, 'a) result \<Rightarrow> ('f, 'a) result" where
  "map_error g m = (case m of Inl e \<Rightarrow> Inl (g e) | Inr x \<Rightarrow> Inr x)"

fun map_result :: "('a \<Rightarrow> ('e, 'b) result) \<Rightarrow> 'a list \<Rightarrow> ('e, 'b list) result" where
  "map_result f [] = Inr []"
| "map_result f (x # xs) = rbind (f x) (\<lambda>y. rbind (map_result f xs) (\<lambda>ys. Inr (y # ys)))"

definition is_ok :: "('e, 'a) result \<Rightarrow> bool" where
  "is_ok m = (case m of Inl _ \<Rightarrow> False | Inr _ \<Rightarrow> True)"

section \<open>Characters and strings\<close>

abbreviation code :: "char \<Rightarrow> nat" where
  "code c \<equiv> of_char c"

definition is_digit :: "char \<Rightarrow> bool" where
  "is_digit c \<longleftrightarrow> 48 \<le> code c \<and> code c \<le> 57"

definition is_lower :: "char \<Rightarrow> bool" where
  "is_lower c \<longleftrightarrow> 97 \<le> code c \<and> code c \<le> 122"

definition is_upper :: "char \<Rightarrow> bool" where
  "is_upper c \<longleftrightarrow> 65 \<le> code c \<and> code c \<le> 90"

definition is_alnum :: "char \<Rightarrow> bool" where
  "is_alnum c \<longleftrightarrow> is_digit c \<or> is_lower c \<or> is_upper c"

definition is_hex :: "char \<Rightarrow> bool" where
  "is_hex c \<longleftrightarrow> is_digit c \<or> (97 \<le> code c \<and> code c \<le> 102)"

definition is_ascii :: "string \<Rightarrow> bool" where
  "is_ascii s \<longleftrightarrow> list_all (\<lambda>c. code c < 128) s"

text \<open>The full match of \<^verbatim>\<open>[0-9a-f]{64}\<close>.\<close>

definition is_sha256 :: "string \<Rightarrow> bool" where
  "is_sha256 s \<longleftrightarrow> length s = 64 \<and> list_all is_hex s"

text \<open>The full match of \<^verbatim>\<open>[A-Za-z0-9][A-Za-z0-9._:-]{0,127}\<close>.\<close>

definition is_identifier_char :: "char \<Rightarrow> bool" where
  "is_identifier_char c \<longleftrightarrow> is_alnum c \<or> c \<in> set ''._:-''"

definition is_identifier :: "string \<Rightarrow> bool" where
  "is_identifier s \<longleftrightarrow>
     (case s of [] \<Rightarrow> False
      | c # cs \<Rightarrow> is_alnum c \<and> length cs \<le> 127 \<and> list_all is_identifier_char cs)"

text \<open>The full match of \<^verbatim>\<open>[A-Za-z0-9][A-Za-z0-9._-]{0,127}\<close>.\<close>

definition is_storage_id :: "string \<Rightarrow> bool" where
  "is_storage_id s \<longleftrightarrow> is_identifier s \<and> CHR '':'' \<notin> set s"

text \<open>\<^verbatim>\<open>s.split(sep)\<close> for a one-character separator: never empty, keeps empty fields.\<close>

fun split_on :: "char \<Rightarrow> string \<Rightarrow> string list" where
  "split_on d [] = [[]]"
| "split_on d (c # cs) =
     (if c = d then [] # split_on d cs
      else (case split_on d cs of [] \<Rightarrow> [[c]] | w # ws \<Rightarrow> (c # w) # ws))"

fun join :: "string \<Rightarrow> string list \<Rightarrow> string" where
  "join sep [] = []"
| "join sep [x] = x"
| "join sep (x # y # ys) = x @ sep @ join sep (y # ys)"

definition newline :: string where
  "newline = [CHR 0x0A]"

text \<open>
  The number of bytes of the whitespace character a text starts with (0 if it starts with none):
  the characters of \<^verbatim>\<open>str.isspace\<close>, which \<^verbatim>\<open>\s\<close> and \<^verbatim>\<open>strip\<close> use.
\<close>

definition ws_len :: "string \<Rightarrow> nat" where
  "ws_len s =
     (case s of [] \<Rightarrow> 0
      | c # cs \<Rightarrow>
          if (9 \<le> code c \<and> code c \<le> 13) \<or> (28 \<le> code c \<and> code c \<le> 32) then 1
          else if prefix [CHR 0xC2, CHR 0x85] s \<or> prefix [CHR 0xC2, CHR 0xA0] s then 2
          else if prefix [CHR 0xE1, CHR 0x9A, CHR 0x80] s \<or> prefix [CHR 0xE2, CHR 0x81, CHR 0x9F] s \<or>
                  prefix [CHR 0xE3, CHR 0x80, CHR 0x80] s then 3
          else if prefix [CHR 0xE2, CHR 0x80] s \<and> 3 \<le> length s \<and>
                  (128 \<le> code (s ! 2) \<and> code (s ! 2) \<le> 138 \<or> code (s ! 2) \<in> {168, 169, 175}) then 3
          else 0)"

fun no_whitespace :: "string \<Rightarrow> bool" where
  "no_whitespace [] = True"
| "no_whitespace (c # cs) = (ws_len (c # cs) = 0 \<and> no_whitespace cs)"

text \<open>The line boundaries of \<^verbatim>\<open>str.splitlines\<close>, in bytes.\<close>

definition break_len :: "string \<Rightarrow> nat" where
  "break_len s =
     (case s of [] \<Rightarrow> 0
      | c # cs \<Rightarrow>
          if prefix [CHR 0x0D, CHR 0x0A] s then 2
          else if (10 \<le> code c \<and> code c \<le> 13) \<or> (28 \<le> code c \<and> code c \<le> 30) then 1
          else if prefix [CHR 0xC2, CHR 0x85] s then 2
          else if prefix [CHR 0xE2, CHR 0x80, CHR 0xA8] s \<or> prefix [CHR 0xE2, CHR 0x80, CHR 0xA9] s then 3
          else 0)"

fun take_line :: "string \<Rightarrow> string \<times> string" where
  "take_line [] = ([], [])"
| "take_line (c # cs) =
     (if 0 < break_len (c # cs) then ([], drop (break_len (c # cs)) (c # cs))
      else (let (l, r) = take_line cs in (c # l, r)))"

lemma take_line_shorter: "s \<noteq> [] \<Longrightarrow> length (snd (take_line s)) < length s"
proof (induction s)
  case Nil
  then show ?case by simp
next
  case (Cons c cs)
  then show ?case by (cases "cs = []") (auto simp: Let_def case_prod_beta)
qed

function splitlines :: "string \<Rightarrow> string list" where
  "splitlines s = (if s = [] then [] else fst (take_line s) # splitlines (snd (take_line s)))"
  by pat_completeness auto
termination
  by (relation "measure length") (auto simp: take_line_shorter)

declare splitlines.simps [simp del]

text \<open>Well-formed UTF-8: no overlong forms, no surrogates, at most U+10FFFF.\<close>

definition is_cont :: "char \<Rightarrow> bool" where
  "is_cont c \<longleftrightarrow> 128 \<le> code c \<and> code c \<le> 191"

text \<open>The number of bytes a lead byte announces (0 if it is none), and what the bytes after it must be;
  \<open>pass\<close> lets surrogates through, as the \<^verbatim>\<open>surrogatepass\<close> error handler does.\<close>

definition utf8_width :: "char \<Rightarrow> nat" where
  "utf8_width a =
     (if code a < 128 then 1 else if code a < 194 then 0 else if code a < 224 then 2
      else if code a < 240 then 3 else if code a < 245 then 4 else 0)"

definition utf8_tail :: "bool \<Rightarrow> char \<Rightarrow> string \<Rightarrow> bool" where
  "utf8_tail pass a t \<longleftrightarrow>
     list_all is_cont t \<and> (code a = 224 \<longrightarrow> 160 \<le> code (hd t)) \<and>
     (code a = 237 \<longrightarrow> code (hd t) \<le> 159 \<or> pass) \<and>
     (code a = 240 \<longrightarrow> 144 \<le> code (hd t)) \<and> (code a = 244 \<longrightarrow> code (hd t) \<le> 143)"

text \<open>The number of bytes of the well-formed character a text starts with, 0 if there is none.\<close>

definition utf8_unit :: "bool \<Rightarrow> string \<Rightarrow> nat" where
  "utf8_unit pass s =
     (case s of [] \<Rightarrow> 0
      | a # r \<Rightarrow>
          if utf8_width a \<le> Suc (length r) \<and> utf8_tail pass a (take (utf8_width a - 1) r)
          then utf8_width a else 0)"

function utf8_decodable :: "bool \<Rightarrow> string \<Rightarrow> bool" where
  "utf8_decodable pass s \<longleftrightarrow>
     (if s = [] then True
      else if utf8_unit pass s = 0 then False
      else utf8_decodable pass (drop (utf8_unit pass s) s))"
  by pat_completeness auto
termination
  by (relation "measure (length \<circ> snd)") auto

declare utf8_decodable.simps [simp del]

definition utf8_valid :: "string \<Rightarrow> bool" where
  "utf8_valid s \<longleftrightarrow> utf8_decodable False s"

section \<open>Lemmas on results\<close>

lemma rbind_Inr [simp]: "rbind (Inr x) f = f x"
  by (simp add: rbind_def)

lemma rbind_Inl [simp]: "rbind (Inl e) f = Inl e"
  by (simp add: rbind_def)

lemma rbind_eq_Inr [result_simps]: "rbind m f = Inr y \<longleftrightarrow> (\<exists>x. m = Inr x \<and> f x = Inr y)"
  by (cases m) auto

lemma rbind_eq_Inl [result_simps]:
  "rbind m f = Inl e \<longleftrightarrow> m = Inl e \<or> (\<exists>x. m = Inr x \<and> f x = Inl e)"
  by (cases m) auto

lemma rbind_cong [fundef_cong]:
  "m = m' \<Longrightarrow> (\<And>x. m' = Inr x \<Longrightarrow> f x = g x) \<Longrightarrow> rbind m f = rbind m' g"
  by (cases m') auto

lemma require_eq_Inr [result_simps]: "require b e = Inr u \<longleftrightarrow> b"
  by (simp add: require_def)

lemma require_eq_Inl [result_simps]: "require b e = Inl e' \<longleftrightarrow> \<not> b \<and> e' = e"
  by (auto simp: require_def)

lemma require_simps [simp]: "require True e = Inr ()" "require False e = Inl e"
  by (simp_all add: require_def)

lemma map_error_eq_Inr [result_simps]: "map_error g m = Inr x \<longleftrightarrow> m = Inr x"
  by (cases m) (simp_all add: map_error_def)

lemma map_error_eq_Inl [result_simps]: "map_error g m = Inl e \<longleftrightarrow> (\<exists>e'. m = Inl e' \<and> e = g e')"
  by (cases m) (auto simp: map_error_def)

lemma map_error_simps [simp]: "map_error g (Inr x) = Inr x" "map_error g (Inl e) = Inl (g e)"
  by (simp_all add: map_error_def)

lemma is_ok_simps [simp]: "is_ok (Inr x)" "\<not> is_ok (Inl e)"
  by (simp_all add: is_ok_def)

lemma map_result_eq_Inr:
  "map_result f xs = Inr ys \<longleftrightarrow> list_all2 (\<lambda>x y. f x = Inr y) xs ys"
proof (induction xs arbitrary: ys)
  case Nil
  then show ?case by (cases ys) auto
next
  case (Cons x xs)
  then show ?case by (cases ys) (auto simp: result_simps)
qed

lemma map_result_length: "map_result f xs = Inr ys \<Longrightarrow> length ys = length xs"
  by (auto simp: map_result_eq_Inr dest: list_all2_lengthD)

lemma map_result_cong [fundef_cong]:
  "xs = ys \<Longrightarrow> (\<And>x. x \<in> set ys \<Longrightarrow> f x = g x) \<Longrightarrow> map_result f xs = map_result g ys"
  by (induction ys arbitrary: xs) auto

section \<open>Lemmas on strings\<close>

lemma split_on_nonempty [simp]: "split_on d s \<noteq> []"
  by (induction s) (auto split: list.splits)

lemma split_on_no_sep: "w \<in> set (split_on d s) \<Longrightarrow> d \<notin> set w"
  by (induction s arbitrary: w) (auto split: list.splits if_splits)

lemma join_Cons: "xs \<noteq> [] \<Longrightarrow> join sep (x # xs) = x @ sep @ join sep xs"
  by (cases xs) auto

lemma join_cons_first: "join sep ((c # w) # ws) = c # join sep (w # ws)"
  by (cases ws) auto

lemma join_split_on: "join [d] (split_on d s) = s"
proof (induction s)
  case Nil
  then show ?case by simp
next
  case (Cons c cs)
  then show ?case
    by (cases "split_on d cs") (auto simp: join_Cons join_cons_first simp del: join.simps(3))
qed

lemma split_on_append_sep: "d \<notin> set w \<Longrightarrow> split_on d (w @ d # s) = w # split_on d s"
  by (induction w) auto

lemma split_on_single: "d \<notin> set w \<Longrightarrow> split_on d w = [w]"
  by (induction w) auto

lemma split_on_join:
  "ws \<noteq> [] \<Longrightarrow> (\<forall>w \<in> set ws. d \<notin> set w) \<Longrightarrow> split_on d (join [d] ws) = ws"
proof (induction ws)
  case Nil
  then show ?case by simp
next
  case (Cons x xs)
  then show ?case
    by (cases "xs = []") (simp_all add: join_Cons split_on_single split_on_append_sep)
qed

lemma is_sha256_length: "is_sha256 s \<Longrightarrow> length s = 64"
  by (simp add: is_sha256_def)

lemma append_eq_same_length:
  "length a = length b \<Longrightarrow> a @ x = b @ y \<longleftrightarrow> a = b \<and> x = y"
  by auto

text \<open>A field closed by a delimiter that cannot occur in it is determined by the whole.\<close>

lemma delimited_field_inject:
  assumes "a @ d # x = b @ d # y" and "d \<notin> set a" and "d \<notin> set b"
  shows "a = b \<and> x = y"
  using assms
proof (induction a arbitrary: b)
  case Nil
  then show ?case by (cases b) auto
next
  case (Cons c cs)
  then show ?case by (cases b) auto
qed

text \<open>Printable ASCII text has no line boundary inside, so lines closed by LF are read back.\<close>

definition printable :: "string \<Rightarrow> bool" where
  "printable s \<longleftrightarrow> list_all (\<lambda>c. 32 \<le> code c \<and> code c < 127) s"

lemma break_len_printable: "32 \<le> code c \<Longrightarrow> code c < 127 \<Longrightarrow> break_len (c # cs) = 0"
  by (auto simp: break_len_def)

lemma break_len_newline [simp]: "break_len (CHR 0x0A # s) = 1"
  by (simp add: break_len_def)

lemma take_line_printable: "printable l \<Longrightarrow> take_line (l @ CHR 0x0A # s) = (l, s)"
  by (induction l) (simp_all add: printable_def break_len_printable)

lemma splitlines_lines:
  "\<forall>l \<in> set ls. printable l \<Longrightarrow> splitlines (concat (map (\<lambda>l. l @ newline) ls)) = ls"
proof (induction ls)
  case Nil
  then show ?case by (simp add: splitlines.simps)
next
  case (Cons l ls)
  then show ?case
    by (subst splitlines.simps) (simp add: newline_def take_line_printable)
qed

lemma utf8_decodable_Nil [simp]: "utf8_decodable p []"
  by (simp add: utf8_decodable.simps)

lemma utf8_unit_ascii [simp]: "code c < 128 \<Longrightarrow> utf8_unit p (c # s) = 1"
  by (simp add: utf8_unit_def utf8_width_def utf8_tail_def)

lemma utf8_decodable_ascii_Cons: "code c < 128 \<Longrightarrow> utf8_decodable p (c # s) \<longleftrightarrow> utf8_decodable p s"
  by (subst utf8_decodable.simps) simp

lemma utf8_decodable_ascii: "is_ascii s \<Longrightarrow> utf8_decodable p s"
  by (induction s) (simp_all add: is_ascii_def utf8_decodable_ascii_Cons)

lemma utf8_valid_ascii: "is_ascii s \<Longrightarrow> utf8_valid s"
  by (simp add: utf8_valid_def utf8_decodable_ascii)

lemma utf8_unit_bound: "utf8_unit p s \<le> length s"
  by (cases s) (simp_all add: utf8_unit_def)

lemma utf8_unit_append: "0 < utf8_unit p a \<Longrightarrow> utf8_unit p (a @ b) = utf8_unit p a"
  by (cases a) (simp_all add: utf8_unit_def split: if_splits)

lemma utf8_unit_take: "0 < utf8_unit p s \<Longrightarrow> utf8_unit p (take (utf8_unit p s) s) = utf8_unit p s"
  by (cases s) (auto simp: utf8_unit_def take_Cons' split: if_splits)

lemma utf8_decodable_append: "utf8_decodable p a \<Longrightarrow> utf8_decodable p (a @ b) \<longleftrightarrow> utf8_decodable p b"
proof (induction p a rule: utf8_decodable.induct)
  case (1 p a)
  show ?case
  proof (cases "a = []")
    case False
    then have a: "0 < utf8_unit p a" "utf8_decodable p (drop (utf8_unit p a) a)"
      using "1.prems" utf8_decodable.simps [of p a] by (auto split: if_splits)
    then show ?thesis
      using "1.IH" False utf8_unit_bound [of p a]
      by (subst utf8_decodable.simps) (simp add: utf8_unit_append)
  qed simp
qed

lemma utf8_unit_pass: "0 < utf8_unit False s \<Longrightarrow> utf8_unit True s = utf8_unit False s"
  by (cases s) (auto simp: utf8_unit_def utf8_tail_def split: if_splits)

lemma utf8_decodable_pass: "utf8_decodable False s \<Longrightarrow> utf8_decodable True s"
proof (induction "False" s rule: utf8_decodable.induct)
  case (1 s)
  then show ?case
    by (subst utf8_decodable.simps) (use utf8_decodable.simps [of False s] in \<open>auto simp: utf8_unit_pass split: if_splits\<close>)
qed

lemma is_ascii_append [simp]: "is_ascii (a @ b) \<longleftrightarrow> is_ascii a \<and> is_ascii b"
  by (simp add: is_ascii_def)

lemma printable_ascii: "printable s \<Longrightarrow> is_ascii s"
  by (auto simp: printable_def is_ascii_def list_all_iff)

end
