(* ===== verification/CP_Json.thy ===== *)
theory CP_Json
  imports CP_Prelude
begin

text \<open>
  The canonical byte encoding of \<^verbatim>\<open>domain/hashing.py\<close>: Python values as a datatype,
  \<^verbatim>\<open>_normalize\<close> into JSON values, \<^verbatim>\<open>json.dumps\<close> with sorted keys and compact
  separators, \<^verbatim>\<open>canonical_json\<close> and \<^verbatim>\<open>sha256_hex\<close>. Unicode NFC normalisation and the
  SHA-256 function are arguments of the definitions that use them.
  The main results: the text of a canonical JSON value determines the value, so equal
  canonical bytes mean equal normalised values; and normalisation is a fixed point on its
  own results.
  Strings are byte strings in UTF-8, so the \<^verbatim>\<open>UnicodeEncodeError\<close> that \<^verbatim>\<open>canonical_json\<close> raises for a string with a
  lone surrogate has no counterpart here, and integers are printed without the interpreter's limit on
  the number of digits.
\<close>

section \<open>Timestamps\<close>

text \<open>
  A \<^verbatim>\<open>datetime\<close> is the number of microseconds since 0001-01-01T00:00:00, with a flag for
  whether it carries a UTC offset: \<open>Aware u off\<close> is the instant \<open>u\<close> in UTC seen at offset
  \<open>off\<close>, \<open>Naive u\<close> has no zone.
\<close>

datatype datetime = Naive nat | Aware nat int

definition is_aware :: "datetime \<Rightarrow> bool" where
  "is_aware t = (case t of Naive _ \<Rightarrow> False | Aware _ _ \<Rightarrow> True)"

definition instant :: "datetime \<Rightarrow> nat" where
  "instant t = (case t of Naive u \<Rightarrow> u | Aware u _ \<Rightarrow> u)"

definition astimezone_utc :: "datetime \<Rightarrow> datetime" where
  "astimezone_utc t = Aware (instant t) 0"

definition is_leap :: "nat \<Rightarrow> bool" where
  "is_leap y \<longleftrightarrow> 4 dvd y \<and> (\<not> 100 dvd y \<or> 400 dvd y)"

definition year_length :: "nat \<Rightarrow> nat" where
  "year_length y = (if is_leap y then 366 else 365)"

function year_and_day :: "nat \<Rightarrow> nat \<Rightarrow> nat \<times> nat" where
  "year_and_day y d = (if d < year_length y then (y, d) else year_and_day (Suc y) (d - year_length y))"
  by pat_completeness auto
termination
  by (relation "measure snd") (auto simp: year_length_def)

declare year_and_day.simps [simp del]

definition month_lengths :: "nat \<Rightarrow> nat list" where
  "month_lengths y = [31, if is_leap y then 29 else 28, 31, 30, 31, 30, 31, 31, 30, 31, 30, 31]"

fun month_and_day :: "nat list \<Rightarrow> nat \<Rightarrow> nat \<Rightarrow> nat \<times> nat" where
  "month_and_day [] m d = (m, d)"
| "month_and_day (l # ls) m d = (if d < l then (m, d) else month_and_day ls (Suc m) (d - l))"

definition digit :: "nat \<Rightarrow> char" where
  "digit n = char_of (48 + n)"

fun pad :: "nat \<Rightarrow> nat \<Rightarrow> string" where
  "pad 0 n = []"
| "pad (Suc w) n = pad w (n div 10) @ [digit (n mod 10)]"

definition civil :: "nat \<Rightarrow> nat \<times> nat \<times> nat" where
  "civil days =
     (let (y, doy) = year_and_day 1 days; (m, dom) = month_and_day (month_lengths y) 1 doy
      in (y, m, Suc dom))"

text \<open>\<^verbatim>\<open>isoformat(timespec="microseconds")\<close> of an instant in UTC, without its zone suffix.\<close>

definition iso_utc :: "nat \<Rightarrow> string" where
  "iso_utc u =
     (let s = u div 1000000; sec = s mod 86400; (y, m, d) = civil (s div 86400)
      in pad 4 y @ ''-'' @ pad 2 m @ ''-'' @ pad 2 d @ ''T'' @
         pad 2 (sec div 3600) @ '':'' @ pad 2 (sec div 60 mod 60) @ '':'' @ pad 2 (sec mod 60) @
         ''.'' @ pad 6 (u mod 1000000))"

text \<open>\<^verbatim>\<open>datetime.MAXYEAR\<close> is 9999.\<close>

definition representable :: "nat \<Rightarrow> bool" where
  "representable u \<longleftrightarrow> fst (civil (u div 1000000 div 86400)) \<le> 9999"

section \<open>Python values and JSON values\<close>

datatype pyfloat = Finite string | NonFinite string

datatype pyval =
    PyNone
  | PyBool bool
  | PyInt int
  | PyFloat pyfloat
  | PyStr string
  | PyEnum pyval
  | PyDatetime datetime
  | PyDate nat nat nat
  | PyRootModel pyval
  | PyBaseModel pyval
  | PyMap "(pyval \<times> pyval) list"
  | PySet "pyval list"
  | PyList "pyval list"
  | PyOther string

datatype json =
    JNull
  | JBool bool
  | JInt int
  | JFloat string
  | JStr string
  | JObj "(string \<times> json) list"
  | JArr "json list"

datatype canonicalization_error =
    NaiveDatetimeNotCanonical
  | NonFiniteNotCanonical
  | KeyNotString
  | DuplicateNormalizedKey string
  | UnsupportedCanonicalType string

section \<open>json.dumps\<close>

definition hex_digit :: "nat \<Rightarrow> char" where
  "hex_digit n = (if n < 10 then char_of (48 + n) else char_of (87 + n))"

definition escape_char :: "char \<Rightarrow> string" where
  "escape_char c =
     (if c = CHR 0x22 then [CHR 0x5C, CHR 0x22]
      else if c = CHR 0x5C then [CHR 0x5C, CHR 0x5C]
      else if c = CHR 0x08 then [CHR 0x5C, CHR ''b'']
      else if c = CHR 0x09 then [CHR 0x5C, CHR ''t'']
      else if c = CHR 0x0A then [CHR 0x5C, CHR ''n'']
      else if c = CHR 0x0C then [CHR 0x5C, CHR ''f'']
      else if c = CHR 0x0D then [CHR 0x5C, CHR ''r'']
      else if code c < 32
      then [CHR 0x5C, CHR ''u'', CHR ''0'', CHR ''0'', hex_digit (code c div 16), hex_digit (code c mod 16)]
      else [c])"

definition quote :: "string \<Rightarrow> string" where
  "quote s = CHR 0x22 # concat (map escape_char s) @ [CHR 0x22]"

fun show_nat :: "nat \<Rightarrow> string" where
  "show_nat n = (if n < 10 then [digit n] else show_nat (n div 10) @ [digit (n mod 10)])"

declare show_nat.simps [simp del]

definition show_int :: "int \<Rightarrow> string" where
  "show_int i = (if i < 0 then CHR ''-'' # show_nat (nat (- i)) else show_nat (nat i))"

definition member_text :: "string \<times> string \<Rightarrow> string" where
  "member_text kv = quote (fst kv) @ '':'' @ snd kv"

fun dumps :: "json \<Rightarrow> string" where
  "dumps JNull = ''null''"
| "dumps (JBool b) = (if b then ''true'' else ''false'')"
| "dumps (JInt i) = show_int i"
| "dumps (JFloat s) = s"
| "dumps (JStr s) = quote s"
| "dumps (JObj kvs) =
     ''{'' @ join '','' (map member_text (sort_key fst (map (\<lambda>(k, v). (k, dumps v)) kvs))) @ ''}''"
| "dumps (JArr vs) = ''['' @ join '','' (map dumps vs) @ '']''"

text \<open>The code point of a well-formed character.\<close>

definition code_point :: "string \<Rightarrow> nat" where
  "code_point u =
     (case u of
        [a] \<Rightarrow> code a
      | [a, b] \<Rightarrow> (code a - 192) * 64 + (code b - 128)
      | [a, b, c] \<Rightarrow> (code a - 224) * 4096 + (code b - 128) * 64 + (code c - 128)
      | [a, b, c, d] \<Rightarrow> (code a - 240) * 262144 + (code b - 128) * 4096 + (code c - 128) * 64 + (code d - 128)
      | _ \<Rightarrow> 0)"

definition u_escape :: "nat \<Rightarrow> string" where
  "u_escape n =
     [CHR 0x5C, CHR ''u'', hex_digit (n div 4096), hex_digit (n div 256 mod 16), hex_digit (n div 16 mod 16),
      hex_digit (n mod 16)]"

definition escape_point :: "nat \<Rightarrow> string" where
  "escape_point n =
     (if n < 65536 then u_escape n
      else u_escape (55296 + (n - 65536) div 1024) @ u_escape (56320 + (n - 65536) mod 1024))"

text \<open>\<^verbatim>\<open>ensure_ascii=True\<close>: the text of \<^verbatim>\<open>ensure_ascii=False\<close> with every character outside space to tilde,
  which only strings contain, written as an escape.\<close>

function ascii_escape :: "string \<Rightarrow> string" where
  "ascii_escape s =
     (case s of [] \<Rightarrow> []
      | c # r \<Rightarrow>
          if 32 \<le> code c \<and> code c < 127 then c # ascii_escape r
          else (let n = max 1 (utf8_unit True s)
                in escape_point (code_point (take n s)) @ ascii_escape (drop n s)))"
  by pat_completeness auto
termination
  by (relation "measure length") auto

declare ascii_escape.simps [simp del]

section \<open>\_normalize and canonical\_json\<close>

fun key_string :: "pyval \<Rightarrow> string option" where
  "key_string (PyStr s) = Some s"
| "key_string (PyEnum (PyStr s)) = Some s"
| "key_string _ = None"

fun normalize :: "(string \<Rightarrow> string) \<Rightarrow> pyval \<Rightarrow> canonicalization_error + json"
  and normalize_list :: "(string \<Rightarrow> string) \<Rightarrow> pyval list \<Rightarrow> canonicalization_error + json list"
  and normalize_items :: "(string \<Rightarrow> string) \<Rightarrow> (string \<times> json) list \<Rightarrow> (pyval \<times> pyval) list
        \<Rightarrow> canonicalization_error + (string \<times> json) list"
where
  "normalize nfc (PyRootModel v) = normalize nfc v"
| "normalize nfc (PyBaseModel v) = normalize nfc v"
| "normalize nfc (PyEnum v) = normalize nfc v"
| "normalize nfc (PyDatetime t) =
     (case t of Naive _ \<Rightarrow> Inl NaiveDatetimeNotCanonical
      | Aware u _ \<Rightarrow> Inr (JStr (iso_utc u @ ''Z'')))"
| "normalize nfc (PyDate y m d) = Inr (JStr (pad 4 y @ ''-'' @ pad 2 m @ ''-'' @ pad 2 d))"
| "normalize nfc (PyStr s) = Inr (JStr (nfc s))"
| "normalize nfc PyNone = Inr JNull"
| "normalize nfc (PyBool b) = Inr (JBool b)"
| "normalize nfc (PyInt i) = Inr (JInt i)"
| "normalize nfc (PyFloat f) =
     (case f of NonFinite _ \<Rightarrow> Inl NonFiniteNotCanonical | Finite s \<Rightarrow> Inr (JFloat s))"
| "normalize nfc (PyMap items) =
     rbind (normalize_items nfc [] items) (\<lambda>kvs. Inr (JObj (sort_key fst kvs)))"
| "normalize nfc (PySet vs) =
     rbind (normalize_list nfc vs) (\<lambda>js. Inr (JArr (sort_key dumps js)))"
| "normalize nfc (PyList vs) = rbind (normalize_list nfc vs) (\<lambda>js. Inr (JArr js))"
| "normalize nfc (PyOther ty) = Inl (UnsupportedCanonicalType ty)"
| "normalize_list nfc [] = Inr []"
| "normalize_list nfc (v # vs) =
     rbind (normalize nfc v) (\<lambda>j. rbind (normalize_list nfc vs) (\<lambda>js. Inr (j # js)))"
| "normalize_items nfc acc [] = Inr acc"
| "normalize_items nfc acc ((raw_key, raw_value) # items) =
     (case key_string raw_key of
        None \<Rightarrow> Inl KeyNotString
      | Some s \<Rightarrow>
          if nfc s \<in> set (map fst acc) then Inl (DuplicateNormalizedKey (nfc s))
          else rbind (normalize nfc raw_value) (\<lambda>j. normalize_items nfc (acc @ [(nfc s, j)]) items))"

definition canonical_json :: "(string \<Rightarrow> string) \<Rightarrow> pyval \<Rightarrow> canonicalization_error + string" where
  "canonical_json nfc v = rbind (normalize nfc v) (\<lambda>j. Inr (dumps j))"

definition sha256_hex ::
  "(string \<Rightarrow> string) \<Rightarrow> (string \<Rightarrow> string) \<Rightarrow> pyval \<Rightarrow> canonicalization_error + string" where
  "sha256_hex sha nfc v = rbind (canonical_json nfc v) (\<lambda>b. Inr (sha b))"

text \<open>A \<^verbatim>\<open>dict\<close> literal with string keys.\<close>

definition py_fields :: "(string \<times> pyval) list \<Rightarrow> pyval" where
  "py_fields kvs = PyMap (map (\<lambda>(k, v). (PyStr k, v)) kvs)"

section \<open>Canonical JSON values\<close>

definition number_char :: "char \<Rightarrow> bool" where
  "number_char c \<longleftrightarrow> is_digit c \<or> c \<in> set ''+-.e''"

text \<open>The text \<^verbatim>\<open>float.__repr__\<close> gives a finite number: number characters, at least one of
  them a point or an exponent mark.\<close>

definition float_repr :: "string \<Rightarrow> bool" where
  "float_repr s \<longleftrightarrow> s \<noteq> [] \<and> (is_digit (hd s) \<or> hd s = CHR ''-'') \<and> list_all number_char s \<and>
     (CHR ''.'' \<in> set s \<or> CHR ''e'' \<in> set s)"

fun canonical_value :: "json \<Rightarrow> bool" where
  "canonical_value (JObj kvs) \<longleftrightarrow>
     sorted (map fst kvs) \<and> distinct (map fst kvs) \<and> list_all (\<lambda>(k, v). canonical_value v) kvs"
| "canonical_value (JArr vs) \<longleftrightarrow> list_all canonical_value vs"
| "canonical_value (JFloat s) \<longleftrightarrow> float_repr s"
| "canonical_value _ \<longleftrightarrow> True"

fun floats_ok :: "pyval \<Rightarrow> bool" where
  "floats_ok (PyFloat f) = (case f of Finite s \<Rightarrow> float_repr s | NonFinite _ \<Rightarrow> True)"
| "floats_ok (PyRootModel v) = floats_ok v"
| "floats_ok (PyBaseModel v) = floats_ok v"
| "floats_ok (PyEnum v) = floats_ok v"
| "floats_ok (PyMap items) = list_all (\<lambda>(k, v). floats_ok v) items"
| "floats_ok (PySet vs) = list_all floats_ok vs"
| "floats_ok (PyList vs) = list_all floats_ok vs"
| "floats_ok _ = True"

text \<open>What the code relies on of \<^verbatim>\<open>unicodedata.normalize("NFC", _)\<close>: it is idempotent and
  leaves ASCII text alone.\<close>

definition nfc_laws :: "(string \<Rightarrow> string) \<Rightarrow> bool" where
  "nfc_laws nfc \<longleftrightarrow> (\<forall>s. nfc (nfc s) = nfc s) \<and> (\<forall>s. is_ascii s \<longrightarrow> nfc s = s)"

text \<open>Values all of whose strings and keys are already in normal form.\<close>

fun normal_strings :: "(string \<Rightarrow> string) \<Rightarrow> json \<Rightarrow> bool" where
  "normal_strings nfc (JStr s) \<longleftrightarrow> nfc s = s"
| "normal_strings nfc (JObj kvs) \<longleftrightarrow> list_all (\<lambda>(k, v). nfc k = k \<and> normal_strings nfc v) kvs"
| "normal_strings nfc (JArr vs) \<longleftrightarrow> list_all (normal_strings nfc) vs"
| "normal_strings nfc _ \<longleftrightarrow> True"

text \<open>The Python value \<^verbatim>\<open>json.loads\<close> gives for a JSON value.\<close>

fun py_of_json :: "json \<Rightarrow> pyval" where
  "py_of_json JNull = PyNone"
| "py_of_json (JBool b) = PyBool b"
| "py_of_json (JInt i) = PyInt i"
| "py_of_json (JFloat s) = PyFloat (Finite s)"
| "py_of_json (JStr s) = PyStr s"
| "py_of_json (JObj kvs) = PyMap (map (\<lambda>(k, v). (PyStr k, py_of_json v)) kvs)"
| "py_of_json (JArr vs) = PyList (map py_of_json vs)"

section \<open>Digits and numbers\<close>

lemma code_inject: "code c = code d \<longleftrightarrow> c = d"
  by simp

lemma code_digit [simp]: "n < 10 \<Longrightarrow> code (digit n) = 48 + n"
  by (simp add: digit_def)

lemma digit_inject: "m < 10 \<Longrightarrow> n < 10 \<Longrightarrow> digit m = digit n \<longleftrightarrow> m = n"
  by (metis add_left_cancel code_digit)

lemma is_digit_digit [simp]: "n < 10 \<Longrightarrow> is_digit (digit n)"
  by (simp add: is_digit_def)

lemma length_pad [simp]: "length (pad w n) = w"
  by (induction w arbitrary: n) auto

lemma pad_inject: "m < 10 ^ w \<Longrightarrow> n < 10 ^ w \<Longrightarrow> pad w m = pad w n \<Longrightarrow> m = n"
proof (induction w arbitrary: m n)
  case 0
  then show ?case by simp
next
  case (Suc w)
  then have "pad w (m div 10) = pad w (n div 10)" "m mod 10 = n mod 10"
    by (auto simp: digit_inject)
  moreover have "m div 10 < 10 ^ w" "n div 10 < 10 ^ w"
    using Suc.prems by (auto simp: less_mult_imp_div_less mult.commute)
  ultimately have "m div 10 = n div 10" "m mod 10 = n mod 10"
    using Suc.IH by auto
  then show ?case by (metis div_mult_mod_eq)
qed

lemma list_all_digit_pad: "list_all is_digit (pad w n)"
  by (induction w arbitrary: n) auto

lemma show_nat_digits: "list_all is_digit (show_nat n)"
proof (induction n rule: show_nat.induct)
  case (1 n)
  then show ?case by (subst show_nat.simps) auto
qed

lemma show_nat_nonempty [simp]: "show_nat n \<noteq> []"
  by (subst show_nat.simps) auto

lemmas show_nat_nonempty' [simp] = show_nat_nonempty [symmetric]

lemma show_nat_inject: "show_nat m = show_nat n \<Longrightarrow> m = n"
proof (induction m arbitrary: n rule: show_nat.induct)
  case (1 m)
  show ?case
  proof (cases "m < 10")
    case True
    then show ?thesis
      using "1.prems" by (subst (asm) (1 2) show_nat.simps) (auto simp: digit_inject split: if_splits)
  next
    case False
    then have *: "\<not> n < 10"
      using "1.prems" by (subst (asm) (1 2) show_nat.simps) (auto split: if_splits)
    have "show_nat (m div 10) = show_nat (n div 10)" "m mod 10 = n mod 10"
      using "1.prems" False * by (subst (asm) (1 2) show_nat.simps, simp add: digit_inject)+
    with "1.IH" [OF False] show ?thesis by (metis div_mult_mod_eq)
  qed
qed

lemma minus_not_digit [simp]: "\<not> is_digit (CHR ''-'')"
  by (simp add: is_digit_def)

lemma show_int_inject: "show_int i = show_int j \<Longrightarrow> i = j"
proof -
  assume *: "show_int i = show_int j"
  have hd: "is_digit (hd (show_nat n))" for n
    using show_nat_digits [of n] by (cases "show_nat n") auto
  then have "CHR ''-'' # xs \<noteq> show_nat n" "show_nat n \<noteq> CHR ''-'' # xs" for xs n
    by (metis list.sel(1) minus_not_digit)+
  with * show ?thesis
    by (auto simp: show_int_def dest!: show_nat_inject split: if_splits)
qed

lemma show_int_nonempty [simp]: "show_int i \<noteq> []"
  by (simp add: show_int_def)

lemma show_int_chars: "list_all (\<lambda>c. is_digit c \<or> c = CHR ''-'') (show_int i)"
  using show_nat_digits by (auto simp: show_int_def list_all_iff)

section \<open>Timestamps are determined by their text\<close>

lemma year_and_day_inject: "year_and_day y d = year_and_day y d' \<Longrightarrow> d = d'"
proof -
  have ge: "y \<le> fst (year_and_day y d)" for y d
    by (induction y d rule: year_and_day.induct) (subst year_and_day.simps, auto)
  have no: "year_and_day (Suc y) e \<noteq> (y, d)" for y d e
    using ge [of "Suc y" e] by auto
  show "year_and_day y d = year_and_day y d' \<Longrightarrow> d = d'"
  proof (induction y d arbitrary: d' rule: year_and_day.induct)
    case (1 y d)
    show ?case
      using "1.prems" "1.IH" [of "d' - year_length y"] no no [symmetric]
      by (subst (asm) (1 2) year_and_day.simps [of y]) (auto split: if_splits)
  qed
qed

lemma month_and_day_inject:
  "month_and_day ls m d = month_and_day ls m d' \<Longrightarrow> d = d'"
proof -
  have ge: "m \<le> fst (month_and_day ls m d)" for ls m d
    by (induction ls m d rule: month_and_day.induct) auto
  have no: "month_and_day ls (Suc m) e \<noteq> (m, d)" for ls m d e
    using ge [of "Suc m" ls e] by auto
  show "month_and_day ls m d = month_and_day ls m d' \<Longrightarrow> d = d'"
  proof (induction ls m d arbitrary: d' rule: month_and_day.induct)
    case (1 m d)
    then show ?case by simp
  next
    case (2 l ls m d)
    show ?case
      using "2.prems" "2.IH" [of "d' - l"] no no [symmetric] by (auto split: if_splits)
  qed
qed

lemma year_and_day_bound: "snd (year_and_day y d) < year_length (fst (year_and_day y d))"
  by (induction y d rule: year_and_day.induct) (subst (1 2) year_and_day.simps, auto)

lemma month_and_day_bound:
  "d < sum_list ls \<Longrightarrow> \<forall>l \<in> set ls. l \<le> 31 \<Longrightarrow>
   snd (month_and_day ls m d) < 31 \<and> fst (month_and_day ls m d) < m + length ls"
  by (induction ls m d rule: month_and_day.induct) auto

lemma sum_month_lengths: "sum_list (month_lengths y) = year_length y"
  by (simp add: month_lengths_def year_length_def)

lemma month_lengths_simps:
  "length (month_lengths y) = 12" "\<forall>l \<in> set (month_lengths y). l \<le> 31"
  by (simp_all add: month_lengths_def)

lemma month_of_year_bound:
  assumes "d < year_length y"
  shows "snd (month_and_day (month_lengths y) 1 d) < 31"
    and "fst (month_and_day (month_lengths y) 1 d) < 1 + 12"
  using month_and_day_bound [of d "month_lengths y" 1] assms
  unfolding sum_month_lengths month_lengths_simps(1) using month_lengths_simps(2) by blast+

lemma clock_inject:
  assumes "(s::nat) < 86400" "t < 86400" and "s div 3600 = t div 3600"
    and "s div 60 mod 60 = t div 60 mod 60" and "s mod 60 = t mod 60"
  shows "s = t"
proof -
  have decomp: "r = r div 3600 * 3600 + (r div 60 mod 60) * 60 + r mod 60" for r :: nat
  proof -
    have minutes: "r div 60 = r div 3600 * 60 + r div 60 mod 60"
      using div_mult_mod_eq [of "r div 60" 60] by (simp add: div_mult2_eq [symmetric])
    have "r = r div 60 * 60 + r mod 60" by simp
    also have "r div 60 * 60 = (r div 3600 * 60 + r div 60 mod 60) * 60"
      by (subst minutes) (rule refl)
    finally show ?thesis by (simp add: algebra_simps)
  qed
  show ?thesis using decomp [of s] decomp [of t] assms by simp
qed

lemma civil_inject:
  assumes "civil a = civil b"
  shows "a = b"
proof -
  obtain y d y' d' where yd: "year_and_day 1 a = (y, d)" "year_and_day 1 b = (y', d')" by fastforce
  obtain m k m' k' where mk: "month_and_day (month_lengths y) 1 d = (m, k)"
    "month_and_day (month_lengths y') 1 d' = (m', k')" by fastforce
  have y: "y = y'" and "m = m'" "k = k'"
    using assms unfolding civil_def yd mk Let_def prod.case by simp_all
  then have "month_and_day (month_lengths y) 1 d = month_and_day (month_lengths y) 1 d'"
    using mk by simp
  then have "d = d'" by (rule month_and_day_inject)
  with y have "year_and_day 1 a = year_and_day 1 b" by (simp only: yd)
  then show ?thesis by (rule year_and_day_inject)
qed

lemma civil_bounds:
  assumes "civil a = (y, m, k)"
  shows "m < 10 ^ 2" "k < 10 ^ 2"
proof -
  obtain y' d where yd: "year_and_day 1 a = (y', d)" by fastforce
  obtain m' k' where mk: "month_and_day (month_lengths y') 1 d = (m', k')" by fastforce
  have "d < year_length y'"
    using year_and_day_bound [of 1 a] unfolding yd by simp
  from month_of_year_bound [OF this] show "m < 10 ^ 2" "k < 10 ^ 2"
    using assms unfolding civil_def yd mk Let_def prod.case by simp_all
qed

lemma clock_bounds:
  "r mod 86400 div 3600 < (10::nat) ^ 2" "r mod 86400 div 60 mod 60 < (10::nat) ^ 2"
  "r mod 86400 mod 60 < (10::nat) ^ 2" "r mod 1000000 < (10::nat) ^ 6"
  using mod_less_divisor [of 86400 r]
  by (simp_all add: less_mult_imp_div_less order_less_le_trans [OF mod_less_divisor])

lemma iso_utc_inject:
  assumes "representable u" "representable v" and eq: "iso_utc u = iso_utc v"
  shows "u = v"
proof -
  define s t where "s = u div 1000000" and "t = v div 1000000"
  obtain y m d where c: "civil (s div 86400) = (y, m, d)" by (metis prod_cases3)
  obtain y' m' d' where c': "civil (t div 86400) = (y', m', d')" by (metis prod_cases3)
  have y: "y < 10 ^ 4" "y' < 10 ^ 4"
    using assms(1,2) c c' by (simp_all add: representable_def s_def t_def)
  have fields: "pad 4 y = pad 4 y'" "pad 2 m = pad 2 m'" "pad 2 d = pad 2 d'"
    "pad 2 (s mod 86400 div 3600) = pad 2 (t mod 86400 div 3600)"
    "pad 2 (s mod 86400 div 60 mod 60) = pad 2 (t mod 86400 div 60 mod 60)"
    "pad 2 (s mod 86400 mod 60) = pad 2 (t mod 86400 mod 60)"
    "pad 6 (u mod 1000000) = pad 6 (v mod 1000000)"
    using eq unfolding iso_utc_def Let_def s_def [symmetric] t_def [symmetric] c c' prod.case
    by (auto simp: append_eq_same_length simp del: pad.simps)
  have "civil (s div 86400) = civil (t div 86400)"
    unfolding c c'
    using pad_inject [OF y fields(1)] pad_inject [OF civil_bounds(1) [OF c] civil_bounds(1) [OF c'] fields(2)]
      pad_inject [OF civil_bounds(2) [OF c] civil_bounds(2) [OF c'] fields(3)] by simp
  then have days: "s div 86400 = t div 86400" by (rule civil_inject)
  have "s mod 86400 = t mod 86400"
    by (rule clock_inject)
      (simp_all add: pad_inject [OF clock_bounds(1) clock_bounds(1) fields(4)]
        pad_inject [OF clock_bounds(2) clock_bounds(2) fields(5)]
        pad_inject [OF clock_bounds(3) clock_bounds(3) fields(6)])
  with days have "s = t" by (metis div_mult_mod_eq)
  moreover have "u mod 1000000 = v mod 1000000"
    by (rule pad_inject [OF clock_bounds(4) clock_bounds(4) fields(7)])
  ultimately show ?thesis unfolding s_def t_def by (metis div_mult_mod_eq)
qed

section \<open>Quoted strings are decodable\<close>

lemma code_hex_digit: "n < 16 \<Longrightarrow> code (hex_digit n) = (if n < 10 then 48 + n else 87 + n)"
  by (simp add: hex_digit_def)

lemma hex_digit_inject:
  assumes "m < 16" "n < 16" "hex_digit m = hex_digit n"
  shows "m = n"
  using arg_cong [OF assms(3), of code] assms(1,2) by (auto simp: code_hex_digit split: if_splits)

lemma hex_pair_inject:
  assumes "code c < 32" "code d < 32" "hex_digit (code c div 16) = hex_digit (code d div 16)"
    and "hex_digit (code c mod 16) = hex_digit (code d mod 16)"
  shows "c = d"
proof -
  have "code c div 16 = code d div 16" "code c mod 16 = code d mod 16"
    using assms by (auto intro!: hex_digit_inject)
  then have "code c = code d" by (metis div_mult_mod_eq)
  then show ?thesis by simp
qed

lemma escape_char_inject: "escape_char c @ x = escape_char d @ y \<Longrightarrow> c = d \<and> x = y"
  using hex_pair_inject [of c d] unfolding escape_char_def by (simp split: if_splits)

lemma escape_char_head: "\<exists>h t. escape_char c = h # t \<and> h \<noteq> CHR 0x22"
  by (simp add: escape_char_def)

lemma quote_inject: "quote s @ x = quote t @ y \<Longrightarrow> s = t \<and> x = y"
proof -
  have "concat (map escape_char s) @ CHR 0x22 # x = concat (map escape_char t) @ CHR 0x22 # y
        \<Longrightarrow> s = t \<and> x = y"
  proof (induction s arbitrary: t)
    case Nil
    show ?case
    proof (cases t)
      case Nil
      with Nil.prems show ?thesis by simp
    next
      case (Cons d ds)
      with Nil.prems escape_char_head [of d] show ?thesis by auto
    qed
  next
    case (Cons c cs)
    show ?case
    proof (cases t)
      case Nil
      with Cons.prems escape_char_head [of c] show ?thesis by auto
    next
      case (Cons d ds)
      with Cons.prems Cons.IH escape_char_inject [of c _ d] show ?thesis by fastforce
    qed
  qed
  then show "quote s @ x = quote t @ y \<Longrightarrow> s = t \<and> x = y" by (simp add: quote_def)
qed

section \<open>The text of a canonical value determines the value\<close>

text \<open>What may follow a value inside a larger text: nothing, a comma or a closing bracket.\<close>

definition delimited :: "string \<Rightarrow> bool" where
  "delimited r \<longleftrightarrow> (case r of [] \<Rightarrow> True | c # _ \<Rightarrow> c \<in> set '',]}'')"

lemma delimited_simps [simp]:
  "delimited []" "delimited (CHR '','' # r)" "delimited (CHR '']'' # r)" "delimited (CHR ''}'' # r)"
  by (simp_all add: delimited_def)

lemma number_token_inject:
  assumes "list_all number_char a" "list_all number_char b" "delimited x" "delimited y"
    and "a @ x = b @ y"
  shows "a = b \<and> x = y"
proof -
  have stop: "takeWhile number_char (c @ z) = c" if "list_all number_char c" "delimited z" for c z
    using that by (cases z) (auto simp: delimited_def list_all_iff takeWhile_append number_char_def
        is_digit_def takeWhile_eq_all_conv)
  from assms have "a = b" by (metis stop)
  with assms(5) show ?thesis by simp
qed

lemma show_int_number: "list_all number_char (show_int i)"
  using show_int_chars [of i] by (auto simp: list_all_iff number_char_def)

lemma show_int_not_float: "\<not> float_repr (show_int i)"
  using show_int_chars [of i] by (auto simp: float_repr_def list_all_iff is_digit_def)

lemma show_int_head: "is_digit (hd (show_int i)) \<or> hd (show_int i) = CHR ''-''"
  using show_int_chars [of i] by (cases "show_int i") auto

text \<open>The first character of a text tells which kind of value it is.\<close>

datatype token_class = TNull | TBool bool | TNumber | TString | TObject | TArray

definition head_class :: "char \<Rightarrow> token_class" where
  "head_class c =
     (if c = CHR ''n'' then TNull else if c = CHR ''t'' then TBool True
      else if c = CHR ''f'' then TBool False else if c = CHR 0x22 then TString
      else if c = CHR ''{'' then TObject else if c = CHR ''['' then TArray else TNumber)"

fun value_class :: "json \<Rightarrow> token_class" where
  "value_class JNull = TNull"
| "value_class (JBool b) = TBool b"
| "value_class (JInt i) = TNumber"
| "value_class (JFloat s) = TNumber"
| "value_class (JStr s) = TString"
| "value_class (JObj kvs) = TObject"
| "value_class (JArr vs) = TArray"

lemma number_head_class: "is_digit c \<or> c = CHR ''-'' \<Longrightarrow> head_class c = TNumber"
  by (auto simp: head_class_def is_digit_def)

lemma dumps_head:
  "canonical_value v \<Longrightarrow>
   dumps v \<noteq> [] \<and> head_class (hd (dumps v)) = value_class v \<and> hd (dumps v) \<notin> set '',]}''"
proof (cases v)
  case (JInt i)
  then show ?thesis
    using show_int_head [of i] by (auto simp: number_head_class is_digit_def)
next
  case (JFloat s)
  moreover assume "canonical_value v"
  ultimately show ?thesis
    by (auto simp: float_repr_def number_head_class is_digit_def)
qed (auto simp: head_class_def quote_def)

lemma dumps_class_eq:
  assumes "canonical_value v" "canonical_value w" "dumps v @ x = dumps w @ y"
  shows "value_class v = value_class w"
proof -
  have "hd (dumps v) = hd (dumps w)"
    using assms dumps_head [of v] dumps_head [of w] by (metis hd_append2)
  then show ?thesis using assms dumps_head [of v] dumps_head [of w] by metis
qed

text \<open>Comma-separated sequences of self-delimiting texts.\<close>

definition sequence_tail :: "('a \<Rightarrow> string) \<Rightarrow> char \<Rightarrow> 'a list \<Rightarrow> string \<Rightarrow> string" where
  "sequence_tail enc close vs x =
     (if vs = [] then close # x else CHR '','' # join '','' (map enc vs) @ close # x)"

lemma sequence_Cons:
  "join '','' (map enc (v # vs)) @ close # x = enc v @ sequence_tail enc close vs x"
  by (cases vs) (simp_all add: sequence_tail_def)

lemma sequence_tail_delimited: "close \<in> set '']}'' \<Longrightarrow> delimited (sequence_tail enc close vs x)"
  by (auto simp: sequence_tail_def)

definition self_delimiting :: "('a \<Rightarrow> string) \<Rightarrow> 'a \<Rightarrow> 'a \<Rightarrow> bool" where
  "self_delimiting enc v w \<longleftrightarrow>
     (\<forall>r r'. delimited r \<longrightarrow> delimited r' \<longrightarrow> enc v @ r = enc w @ r' \<longrightarrow> v = w \<and> r = r')"

lemma self_delimitingI:
  "(\<And>r r'. delimited r \<Longrightarrow> delimited r' \<Longrightarrow> enc v @ r = enc w @ r' \<Longrightarrow> v = w \<and> r = r')
   \<Longrightarrow> self_delimiting enc v w"
  by (auto simp: self_delimiting_def)

lemma self_delimitingD:
  "self_delimiting enc v w \<Longrightarrow> delimited r \<Longrightarrow> delimited r' \<Longrightarrow> enc v @ r = enc w @ r'
   \<Longrightarrow> v = w \<and> r = r'"
  by (simp add: self_delimiting_def)

definition value_head :: "string \<Rightarrow> bool" where
  "value_head s \<longleftrightarrow> s \<noteq> [] \<and> hd s \<notin> set '',]}''"

lemma value_head_not_close: "value_head s \<Longrightarrow> close \<in> set '']}'' \<Longrightarrow> s @ r \<noteq> close # y"
  by (cases s) (auto simp: value_head_def)

lemma sequence_inject:
  assumes "\<And>v w. v \<in> set vs \<Longrightarrow> w \<in> set ws \<Longrightarrow> self_delimiting enc v w"
    and "\<And>v. v \<in> set vs \<union> set ws \<Longrightarrow> value_head (enc v)"
    and close: "close \<in> set '']}''"
    and "join '','' (map enc vs) @ close # x = join '','' (map enc ws) @ close # y"
  shows "vs = ws \<and> x = y"
  using assms(1,2,4)
proof (induction vs arbitrary: ws)
  case Nil
  show ?case
  proof (cases ws)
    case Nil
    with Nil.prems show ?thesis by simp
  next
    case (Cons w ws')
    with Nil.prems(2) have "value_head (enc w)" by simp
    from value_head_not_close [OF this close] Nil.prems(3) show ?thesis
      unfolding Cons sequence_Cons by (metis append_Nil join.simps(1) list.simps(8))
  qed
next
  case (Cons v vs)
  show ?case
  proof (cases ws)
    case Nil
    from Cons.prems(2) have "value_head (enc v)" by simp
    from value_head_not_close [OF this close] Cons.prems(3) show ?thesis
      unfolding Nil sequence_Cons by simp
  next
    case ws: (Cons w ws')
    have "enc v @ sequence_tail enc close vs x = enc w @ sequence_tail enc close ws' y"
      using Cons.prems(3) unfolding ws sequence_Cons .
    moreover have "self_delimiting enc v w" using Cons.prems(1) ws by simp
    ultimately have "v = w" and tails: "sequence_tail enc close vs x = sequence_tail enc close ws' y"
      using sequence_tail_delimited [OF close] by (blast dest: self_delimitingD)+
    have "vs = ws' \<and> x = y"
    proof (cases "vs = [] \<or> ws' = []")
      case True
      then show ?thesis using tails close by (auto simp: sequence_tail_def split: if_splits)
    next
      case False
      then show ?thesis
        using tails Cons.prems(1,2) ws by (intro Cons.IH) (auto simp: sequence_tail_def)
    qed
    with \<open>v = w\<close> ws show ?thesis by simp
  qed
qed

definition member_json :: "string \<times> json \<Rightarrow> string" where
  "member_json kv = member_text (fst kv, dumps (snd kv))"

lemma member_text_dumps: "member_text (k, dumps v) = member_json (k, v)"
  by (simp add: member_json_def)

lemma dumps_canonical_object:
  assumes "sorted (map fst kvs)"
  shows "dumps (JObj kvs) = ''{'' @ join '','' (map member_json kvs) @ ''}''"
proof -
  have "sort_key fst (map (\<lambda>(k, v). (k, dumps v)) kvs) = map (\<lambda>(k, v). (k, dumps v)) kvs"
    using assms by (intro sort_key_id_if_sorted) (simp add: comp_def case_prod_beta)
  then show ?thesis by (simp add: member_text_dumps comp_def case_prod_beta)
qed

lemma value_head_member: "value_head (member_json kv)"
  by (simp add: value_head_def member_json_def member_text_def quote_def)

lemma self_delimiting_member:
  assumes "self_delimiting dumps (snd kv) (snd kw)"
  shows "self_delimiting member_json kv kw"
proof (rule self_delimitingI)
  fix r r' assume d: "delimited r" "delimited r'" and eq: "member_json kv @ r = member_json kw @ r'"
  from eq have "quote (fst kv) @ CHR '':'' # dumps (snd kv) @ r = quote (fst kw) @ CHR '':'' # dumps (snd kw) @ r'"
    by (simp add: member_json_def member_text_def)
  then have "fst kv = fst kw" "dumps (snd kv) @ r = dumps (snd kw) @ r'"
    by (auto dest: quote_inject)
  with self_delimitingD [OF assms d] show "kv = kw \<and> r = r'" by (simp add: prod_eq_iff)
qed

lemma float_repr_number: "float_repr s \<Longrightarrow> list_all number_char s"
  by (simp add: float_repr_def)

lemma number_self_delimiting:
  assumes "value_class v = TNumber" "canonical_value v" "canonical_value w"
  shows "self_delimiting dumps v w"
proof (rule self_delimitingI)
  fix r r' assume d: "delimited r" "delimited r'" and eq: "dumps v @ r = dumps w @ r'"
  have "value_class w = TNumber" using dumps_class_eq [OF assms(2,3) eq] assms(1) by simp
  have num: "list_all number_char (dumps u)" if "value_class u = TNumber" "canonical_value u" for u
    using that by (cases u) (auto simp: show_int_number float_repr_number)
  have "dumps v = dumps w \<and> r = r'"
    using number_token_inject [OF num num d eq] assms \<open>value_class w = TNumber\<close> by blast
  then show "v = w \<and> r = r'"
    using assms \<open>value_class w = TNumber\<close> show_int_not_float
    by (cases v; cases w) (auto dest: show_int_inject)
qed

lemma array_self_delimiting:
  assumes "\<And>v u. v \<in> set vs \<Longrightarrow> canonical_value u \<Longrightarrow> self_delimiting dumps v u"
    and "canonical_value (JArr vs)" "canonical_value w"
  shows "self_delimiting dumps (JArr vs) w"
proof (rule self_delimitingI)
  fix r r' assume eq: "dumps (JArr vs) @ r = dumps w @ r'"
  then obtain ws where w: "w = JArr ws"
    using dumps_class_eq [OF assms(2,3) eq] by (cases w) auto
  have "vs = ws \<and> r = r'"
  proof (rule sequence_inject [where enc = dumps and close = "CHR '']''"])
    show "self_delimiting dumps v u" if "v \<in> set vs" "u \<in> set ws" for v u
      using that assms w by (auto simp: list_all_iff)
    show "value_head (dumps u)" if "u \<in> set vs \<union> set ws" for u
      using that assms w dumps_head [of u] by (auto simp: list_all_iff value_head_def)
  qed (use eq w in auto)
  with w show "JArr vs = w \<and> r = r'" by simp
qed

lemma object_self_delimiting:
  assumes "\<And>kv u. kv \<in> set kvs \<Longrightarrow> canonical_value u \<Longrightarrow> self_delimiting dumps (snd kv) u"
    and "canonical_value (JObj kvs)" "canonical_value w"
  shows "self_delimiting dumps (JObj kvs) w"
proof (rule self_delimitingI)
  fix r r' assume eq: "dumps (JObj kvs) @ r = dumps w @ r'"
  then obtain kws where w: "w = JObj kws"
    using dumps_class_eq [OF assms(2,3) eq] by (cases w) auto
  have "kvs = kws \<and> r = r'"
  proof (rule sequence_inject [where enc = member_json and close = "CHR ''}''"])
    show "self_delimiting member_json kv kw" if "kv \<in> set kvs" "kw \<in> set kws" for kv kw
      using that assms w
      by (intro self_delimiting_member assms(1)) (auto simp: list_all_iff case_prod_beta)
    show "join '','' (map member_json kvs) @ CHR ''}'' # r = join '','' (map member_json kws) @ CHR ''}'' # r'"
      using eq assms(2,3) w by (simp add: dumps_canonical_object del: dumps.simps)
  qed (simp_all add: value_head_member)
  with w show "JObj kvs = w \<and> r = r'" by simp
qed

lemma dumps_self_delimiting:
  "canonical_value v \<Longrightarrow> canonical_value w \<Longrightarrow> self_delimiting dumps v w"
proof (induction v arbitrary: w)
  case (JArr vs)
  then show ?case by (intro array_self_delimiting) (auto simp: list_all_iff)
next
  case (JObj kvs)
  show ?case
  proof (rule object_self_delimiting [OF _ JObj.prems])
    fix kv u assume "kv \<in> set kvs" "canonical_value u"
    with JObj.prems show "self_delimiting dumps (snd kv) u"
      by (intro JObj.IH [of kv]) (auto simp: list_all_iff snds.simps)
  qed
next
  case (JStr s)
  show ?case
  proof (rule self_delimitingI)
    fix r r' assume eq: "dumps (JStr s) @ r = dumps w @ r'"
    then obtain t where "w = JStr t"
      using dumps_class_eq [OF JStr.prems eq] by (cases w) auto
    with eq show "JStr s = w \<and> r = r'" by (auto dest: quote_inject)
  qed
next
  case JNull
  show ?case
  proof (rule self_delimitingI)
    fix r r' assume eq: "dumps JNull @ r = dumps w @ r'"
    with dumps_class_eq [OF JNull.prems eq] show "JNull = w \<and> r = r'" by (cases w) auto
  qed
next
  case (JBool b)
  show ?case
  proof (rule self_delimitingI)
    fix r r' assume eq: "dumps (JBool b) @ r = dumps w @ r'"
    with dumps_class_eq [OF JBool.prems eq] show "JBool b = w \<and> r = r'" by (cases w) auto
  qed
qed (auto intro: number_self_delimiting)

theorem dumps_inject:
  "canonical_value v \<Longrightarrow> canonical_value w \<Longrightarrow> dumps v = dumps w \<Longrightarrow> v = w"
  using self_delimitingD [OF dumps_self_delimiting, of v w "[]" "[]"] by simp

section \<open>Normalisation\<close>

lemma list_all_sort_key [simp]: "list_all P (sort_key f xs) \<longleftrightarrow> list_all P xs"
  by (simp add: list_all_iff)

lemma distinct_map_sort_key [simp]: "distinct (map f (sort_key f xs)) \<longleftrightarrow> distinct (map f xs)"
  by (metis mset_sort mset_map mset_eq_imp_distinct_iff)

lemma normalize_canonical:
  "floats_ok v \<Longrightarrow> normalize nfc v = Inr j \<Longrightarrow> canonical_value j"
  "list_all floats_ok vs \<Longrightarrow> normalize_list nfc vs = Inr js \<Longrightarrow> list_all canonical_value js"
  "list_all (\<lambda>(k, v). floats_ok v) items \<Longrightarrow> normalize_items nfc acc items = Inr kvs \<Longrightarrow>
     distinct (map fst acc) \<and> list_all (\<lambda>(k, v). canonical_value v) acc \<Longrightarrow>
     distinct (map fst kvs) \<and> list_all (\<lambda>(k, v). canonical_value v) kvs"
proof (induction nfc v and nfc vs and nfc acc items arbitrary: j and js and kvs
    rule: normalize_normalize_list_normalize_items.induct)
qed (auto simp: result_simps split: datetime.splits pyfloat.splits option.splits if_splits)

lemma is_ascii_Cons [simp]: "is_ascii (c # s) \<longleftrightarrow> code c < 128 \<and> is_ascii s" "is_ascii []"
  by (simp_all add: is_ascii_def)

lemma is_ascii_digits: "list_all is_digit s \<Longrightarrow> is_ascii s"
  by (auto simp: is_ascii_def is_digit_def list_all_iff)

lemma is_ascii_pad [simp]: "is_ascii (pad w n)"
  by (rule is_ascii_digits) (rule list_all_digit_pad)

lemma is_ascii_iso_utc [simp]: "is_ascii (iso_utc u)"
  by (simp add: iso_utc_def Let_def case_prod_beta)

lemma normalize_normal_strings:
  "nfc_laws nfc \<Longrightarrow> normalize nfc v = Inr j \<Longrightarrow> normal_strings nfc j"
  "nfc_laws nfc \<Longrightarrow> normalize_list nfc vs = Inr js \<Longrightarrow> list_all (normal_strings nfc) js"
  "nfc_laws nfc \<Longrightarrow> normalize_items nfc acc items = Inr kvs \<Longrightarrow>
     list_all (\<lambda>(k, v). nfc k = k \<and> normal_strings nfc v) acc \<Longrightarrow>
     list_all (\<lambda>(k, v). nfc k = k \<and> normal_strings nfc v) kvs"
proof (induction nfc v and nfc vs and nfc acc items arbitrary: j and js and kvs
    rule: normalize_normalize_list_normalize_items.induct)
qed (auto simp: result_simps nfc_laws_def
    split: datetime.splits pyfloat.splits option.splits if_splits)

lemma normalize_items_normal:
  "list_all (\<lambda>(k, v). nfc k = k \<and> normalize nfc (py_of_json v) = Inr v) kvs \<Longrightarrow>
   distinct (map fst (acc @ kvs)) \<Longrightarrow>
   normalize_items nfc acc (map (\<lambda>(k, v). (PyStr k, py_of_json v)) kvs) = Inr (acc @ kvs)"
proof (induction kvs arbitrary: acc)
  case Nil
  then show ?case by simp
next
  case (Cons kv kvs)
  then show ?case by (cases kv) (auto simp: image_iff)
qed

lemma normalize_list_normal:
  "list_all (\<lambda>v. normalize nfc (py_of_json v) = Inr v) vs \<Longrightarrow>
   normalize_list nfc (map py_of_json vs) = Inr vs"
  by (induction vs) auto

lemma normalize_py_of_json:
  "canonical_value j \<Longrightarrow> normal_strings nfc j \<Longrightarrow> normalize nfc (py_of_json j) = Inr j"
proof (induction j)
  case (JObj kvs)
  have "list_all (\<lambda>(k, v). nfc k = k \<and> normalize nfc (py_of_json v) = Inr v) kvs"
    using JObj by (fastforce simp: list_all_iff snds.simps)
  then show ?case
    using JObj.prems by (simp add: normalize_items_normal sort_key_id_if_sorted)
next
  case (JArr vs)
  then show ?case by (simp add: list_all_iff normalize_list_normal)
qed auto

lemma canonical_json_eq_iff:
  assumes "floats_ok v" "floats_ok w" "canonical_json nfc v = Inr b" "canonical_json nfc w = Inr c"
  shows "b = c \<longleftrightarrow> normalize nfc v = normalize nfc w"
  using assms dumps_inject normalize_canonical(1)
  by (auto simp: canonical_json_def result_simps)

lemma canonical_json_eq_Inr:
  "canonical_json nfc v = Inr b \<longleftrightarrow> (\<exists>j. normalize nfc v = Inr j \<and> b = dumps j)"
  by (auto simp: canonical_json_def result_simps)

text \<open>\<^verbatim>\<open>sort_keys\<close> makes the order of insertion irrelevant.\<close>

lemma insort_key_map: "insort_key f (g x) (map g xs) = map g (insort_key (\<lambda>a. f (g a)) x xs)"
  by (induction xs) auto

lemma sort_key_map: "sort_key f (map g xs) = map g (sort_key (\<lambda>a. f (g a)) xs)"
proof (induction xs)
  case Nil
  then show ?case by simp
next
  case (Cons x xs)
  then show ?case by (simp add: insort_key_map [of f g])
qed

lemma dumps_sorted: "dumps (JObj kvs) = dumps (JObj (sort_key fst kvs))"
proof -
  have "(\<lambda>a. fst (case a of (k :: string, v) \<Rightarrow> (k, dumps v))) = fst" by auto
  then show ?thesis by (simp add: sort_key_map sort_key_id_if_sorted)
qed

lemma object_text_inject:
  assumes "dumps (JObj kvs) = dumps (JObj kws)" "distinct (map fst kvs)" "distinct (map fst kws)"
    and "list_all (\<lambda>(k, v). canonical_value v) kvs" "list_all (\<lambda>(k, v). canonical_value v) kws"
  shows "map_of kvs = map_of kws"
proof -
  have "sort_key fst kvs = sort_key fst kws"
    using dumps_inject [of "JObj (sort_key fst kvs)" "JObj (sort_key fst kws)"] assms
      dumps_sorted [of kvs] dumps_sorted [of kws] by (simp del: dumps.simps)
  then have "set kvs = set kws" by (metis set_sort)
  with assms(2,3) show ?thesis by (simp add: map_of_inject_set)
qed

text \<open>Fields of dictionaries: equal normal forms have equal normal forms under every key.\<close>

lemma normalize_items_fields:
  "normalize_items nfc acc (map (\<lambda>(k, v). (PyStr k, v)) xs) = Inr kvs \<Longrightarrow> distinct (map fst acc) \<Longrightarrow>
   distinct (map fst kvs) \<and> set acc \<subseteq> set kvs \<and>
   (\<forall>(k, v) \<in> set xs. \<exists>w. normalize nfc v = Inr w \<and> (nfc k, w) \<in> set kvs)"
proof (induction xs arbitrary: acc)
  case Nil
  then show ?case by simp
next
  case (Cons kv xs)
  obtain k v where kv: "kv = (k, v)" by fastforce
  from Cons.prems kv obtain w where w: "nfc k \<notin> set (map fst acc)" "normalize nfc v = Inr w"
    "normalize_items nfc (acc @ [(nfc k, w)]) (map (\<lambda>(k, v). (PyStr k, v)) xs) = Inr kvs"
    by (auto simp: result_simps split: if_splits)
  moreover from w(1) Cons.prems(2) have "distinct (map fst (acc @ [(nfc k, w)]))" by simp
  ultimately show ?case using Cons.IH [OF w(3)] kv by auto
qed

lemma normalize_fields:
  assumes "normalize nfc (py_fields xs) = Inr j"
  obtains kvs where "j = JObj kvs" "distinct (map fst kvs)"
    "\<And>k v. (k, v) \<in> set xs \<Longrightarrow> \<exists>w. normalize nfc v = Inr w \<and> (nfc k, w) \<in> set kvs"
proof -
  from assms obtain raw where "normalize_items nfc [] (map (\<lambda>(k, v). (PyStr k, v)) xs) = Inr raw"
    and j: "j = JObj (sort_key fst raw)"
    by (auto simp: py_fields_def result_simps)
  then have "distinct (map fst raw)"
    and "\<And>k v. (k, v) \<in> set xs \<Longrightarrow> \<exists>w. normalize nfc v = Inr w \<and> (nfc k, w) \<in> set raw"
    using normalize_items_fields [of nfc "[]" xs raw] by auto
  then show thesis by (intro that [OF j]) simp_all
qed

lemma normalize_fields_eq:
  assumes "normalize nfc (py_fields xs) = Inr j" "normalize nfc (py_fields ys) = Inr j"
    and "(k, v) \<in> set xs" "(k, w) \<in> set ys"
  shows "normalize nfc v = normalize nfc w"
proof -
  obtain kvs where a: "j = JObj kvs" "distinct (map fst kvs)"
    "\<And>k v. (k, v) \<in> set xs \<Longrightarrow> \<exists>w. normalize nfc v = Inr w \<and> (nfc k, w) \<in> set kvs"
    using normalize_fields [OF assms(1)] by blast
  obtain kws where b: "j = JObj kws"
    "\<And>k v. (k, v) \<in> set ys \<Longrightarrow> \<exists>w. normalize nfc v = Inr w \<and> (nfc k, w) \<in> set kws"
    using normalize_fields [OF assms(2)] by blast
  from a(3) [OF assms(3)] b(2) [OF assms(4)] a(1) b(1) show ?thesis
    by (metis a(2) eq_key_imp_eq_value json.inject(5))
qed

text \<open>With ASCII keys the normal form of a dictionary has exactly its keys.\<close>

lemma normalize_items_lookup:
  "normalize_items nfc acc (map (\<lambda>(k, v). (PyStr k, v)) xs) = Inr kvs \<Longrightarrow> nfc_laws nfc \<Longrightarrow>
   list_all (is_ascii \<circ> fst) xs \<Longrightarrow>
   map_option Inr (map_of kvs k) =
     (case map_of acc k of Some w \<Rightarrow> Some (Inr w) | None \<Rightarrow> map_option (normalize nfc) (map_of xs k))"
proof (induction xs arbitrary: acc)
  case Nil
  then show ?case by (simp split: option.splits)
next
  case (Cons kv xs)
  obtain l v where kv: "kv = (l, v)" by fastforce
  with Cons.prems have l: "nfc l = l" by (simp add: nfc_laws_def)
  from Cons.prems kv l obtain w where w: "l \<notin> set (map fst acc)" "normalize nfc v = Inr w"
    "normalize_items nfc (acc @ [(l, w)]) (map (\<lambda>(k, v). (PyStr k, v)) xs) = Inr kvs"
    by (auto simp: result_simps split: if_splits)
  have "map_of acc l = None" using w(1) by (simp add: map_of_eq_None_iff)
  then show ?case
    using Cons.IH [OF w(3)] Cons.prems kv w(2) by (auto split: option.splits)
qed

lemma normalize_lookup:
  assumes "normalize nfc (py_fields xs) = Inr (JObj kvs)" "nfc_laws nfc" "list_all (is_ascii \<circ> fst) xs"
  shows "map_option Inr (map_of kvs k) = map_option (normalize nfc) (map_of xs k)"
proof -
  obtain raw where raw: "normalize_items nfc [] (map (\<lambda>(k, v). (PyStr k, v)) xs) = Inr raw"
    and kvs: "kvs = sort_key fst raw"
    using assms(1) by (auto simp: py_fields_def result_simps)
  have "distinct (map fst raw)" using normalize_items_fields [OF raw] by simp
  then have "map_of kvs = map_of raw" by (intro map_of_eqI) (auto simp: kvs image_iff map_of_inject_set)
  then show ?thesis using normalize_items_lookup [OF raw assms(2,3)] by simp
qed

lemma normalize_lookup_eq:
  assumes "normalize nfc (py_fields xs) = Inr j" "normalize nfc (py_fields ys) = Inr j" "nfc_laws nfc"
    and "list_all (is_ascii \<circ> fst) xs" "list_all (is_ascii \<circ> fst) ys"
  shows "map_option (normalize nfc) (map_of xs k) = map_option (normalize nfc) (map_of ys k)"
proof -
  obtain kvs where "j = JObj kvs" using assms(1) by (auto simp: py_fields_def result_simps)
  then show ?thesis using normalize_lookup [of nfc _ kvs k] assms by metis
qed

text \<open>The normal form of a dictionary depends on the normal forms of its values only.\<close>

lemma normalize_items_cong:
  "list_all2 (\<lambda>(k, v) (l, w). k = l \<and> normalize nfc v = normalize nfc w) xs ys \<Longrightarrow>
   normalize_items nfc acc (map (\<lambda>(k, v). (PyStr k, v)) xs) =
   normalize_items nfc acc (map (\<lambda>(k, v). (PyStr k, v)) ys)"
proof (induction xs ys arbitrary: acc rule: list_all2_induct)
  case (Cons x xs y ys)
  obtain k v w where "x = (k, v)" "y = (k, w)" "normalize nfc v = normalize nfc w"
    using Cons.hyps(1) by auto
  then show ?case using Cons.IH by (auto intro: rbind_cong)
qed simp

lemma normalize_py_fields_cong:
  "list_all2 (\<lambda>(k, v) (l, w). k = l \<and> normalize nfc v = normalize nfc w) xs ys \<Longrightarrow>
   normalize nfc (py_fields xs) = normalize nfc (py_fields ys)"
  unfolding py_fields_def normalize.simps by (simp add: normalize_items_cong [of nfc xs ys])

lemma normalize_list_map_result: "normalize_list nfc vs = map_result (normalize nfc) vs"
  by (induction vs) simp_all

text \<open>A dictionary with distinct ASCII keys has a canonical form as soon as its values do.\<close>

lemma normalize_items_ok:
  "\<forall>(k, v) \<in> set xs. nfc k = k \<and> is_ok (normalize nfc v) \<Longrightarrow> distinct (map fst acc @ map fst xs) \<Longrightarrow>
   is_ok (normalize_items nfc acc (map (\<lambda>(k, v). (PyStr k, v)) xs))"
proof (induction xs arbitrary: acc)
  case (Cons kv xs)
  obtain k v where kv: "kv = (k, v)" by fastforce
  with Cons.prems obtain w where w: "nfc k = k" "normalize nfc v = Inr w"
    by (cases "normalize nfc v") auto
  have "is_ok (normalize_items nfc (acc @ [(k, w)]) (map (\<lambda>(k, v). (PyStr k, v)) xs))"
    using Cons.prems kv by (intro Cons.IH) auto
  then show ?case using Cons.prems kv w by auto
qed simp

lemma normalize_py_fields_ok:
  assumes "nfc_laws nfc" "list_all (is_ascii \<circ> fst) xs" "distinct (map fst xs)"
    and "\<forall>(k, v) \<in> set xs. is_ok (normalize nfc v)"
  obtains kvs where "normalize nfc (py_fields xs) = Inr (JObj kvs)"
proof -
  have "is_ok (normalize_items nfc [] (map (\<lambda>(k, v). (PyStr k, v)) xs))"
    using assms by (intro normalize_items_ok) (auto simp: nfc_laws_def list_all_iff)
  then show thesis
    using that by (cases "normalize_items nfc [] (map (\<lambda>(k, v). (PyStr k, v)) xs)") (auto simp: py_fields_def)
qed

lemma sha256_hex_eq_Inr:
  "sha256_hex sha nfc v = Inr h \<longleftrightarrow> (\<exists>b. canonical_json nfc v = Inr b \<and> h = sha b)"
  by (auto simp: sha256_hex_def result_simps)

lemma is_sha256_ascii: "is_sha256 s \<Longrightarrow> is_ascii s"
  by (auto simp: is_sha256_def is_ascii_def is_hex_def is_digit_def list_all_iff)

lemma map_of_sort_key_fst:
  assumes "distinct (map fst kvs)"
  shows "map_of (sort_key fst kvs) = map_of kvs"
proof (rule map_of_inject_set [THEN iffD2])
  show "distinct (map fst (sort_key fst kvs))" "distinct (map fst kvs)" using assms by simp_all
qed simp

text \<open>A dictionary of normalised keys is normalised value by value.\<close>

lemma normalize_items_values:
  assumes "list_all2 (\<lambda>(k, v) (k', w). k' = k \<and> nfc k = k \<and> normalize nfc v = Inr w) xs kvs"
    "distinct (map fst acc @ map fst kvs)"
  shows "normalize_items nfc acc (map (\<lambda>(k, v). (PyStr k, v)) xs) = Inr (acc @ kvs)"
  using assms
proof (induction xs kvs arbitrary: acc rule: list_all2_induct)
  case (Cons x xs y ys)
  then show ?case using Cons.IH [of "acc @ [y]"] by (cases x; cases y) auto
qed simp

lemma normalize_py_fields_values:
  assumes "list_all2 (\<lambda>(k, v) (k', w). k' = k \<and> nfc k = k \<and> normalize nfc v = Inr w) xs kvs" "distinct (map fst kvs)"
  shows "normalize nfc (py_fields xs) = Inr (JObj (sort_key fst kvs))"
  using normalize_items_values [OF assms(1), of "[]"] assms(2) by (simp add: py_fields_def)

section \<open>Printable text\<close>

fun printable_strings :: "json \<Rightarrow> bool" where
  "printable_strings (JStr s) \<longleftrightarrow> printable s"
| "printable_strings (JObj kvs) \<longleftrightarrow> list_all (\<lambda>(k, v). printable k \<and> printable_strings v) kvs"
| "printable_strings (JArr vs) \<longleftrightarrow> list_all printable_strings vs"
| "printable_strings (JFloat s) \<longleftrightarrow> printable s"
| "printable_strings _ \<longleftrightarrow> True"

lemma printable_simps [simp]:
  "printable []" "printable (c # s) \<longleftrightarrow> 32 \<le> code c \<and> code c < 127 \<and> printable s"
  "printable (s @ r) \<longleftrightarrow> printable s \<and> printable r"
  by (simp_all add: printable_def)

lemma printable_escape_char: "32 \<le> code c \<Longrightarrow> code c < 127 \<Longrightarrow> printable (escape_char c)"
  by (simp add: escape_char_def)

lemma printable_quote: "printable s \<Longrightarrow> printable (quote s)"
  unfolding quote_def by (induction s) (simp_all add: printable_escape_char)

lemma printable_join: "printable sep \<Longrightarrow> list_all printable ws \<Longrightarrow> printable (join sep ws)"
  by (induction sep ws rule: join.induct) auto

lemma printable_digits: "list_all is_digit s \<Longrightarrow> printable s"
  by (auto simp: printable_def is_digit_def list_all_iff)

lemma printable_show_int: "printable (show_int i)"
  by (simp add: show_int_def printable_digits show_nat_digits)

lemma printable_dumps: "printable_strings v \<Longrightarrow> printable (dumps v)"
proof (induction v)
  case (JObj kvs)
  then have "list_all printable (map member_text (sort_key fst (map (\<lambda>(k, v). (k, dumps v)) kvs)))"
    by (fastforce simp: list_all_iff member_text_def printable_quote snds.simps)
  then show ?case by (simp add: printable_join)
next
  case (JArr vs)
  then show ?case by (simp add: list_all_iff printable_join)
qed (simp_all add: printable_quote printable_show_int)

lemma ascii_escape_printable: "printable s \<Longrightarrow> ascii_escape s = s"
  by (induction s) (simp_all add: ascii_escape.simps)

section \<open>Properties\<close>

text \<open>Canonical bytes are unambiguous: two values with the same \<^verbatim>\<open>canonical_json\<close> bytes
  have the same normalised value, so an approval or a hash over the bytes fixes every key
  and every leaf of the document.\<close>

theorem canonical_bytes_determine_value:
  assumes "floats_ok v" "floats_ok w" "canonical_json nfc v = Inr b" "canonical_json nfc w = Inr b"
  shows "normalize nfc v = normalize nfc w"
  using canonical_json_eq_iff [OF assms] by simp

theorem canonical_bytes_determine_value_witness:
  "normalize id (PyMap [(PyStr ''b'', PyInt 1), (PyStr ''a'', PyList [PyNone, PyBool True])]) =
   normalize id (PyBaseModel (PyMap [(PyStr ''a'', PyList [PyNone, PyBool True]), (PyStr ''b'', PyInt 1)]))"
  by (rule canonical_bytes_determine_value
      [where b = "''{'' @ quote ''a'' @ '':[null,true],'' @ quote ''b'' @ '':1}''"]) code_simp+

text \<open>Canonicalisation is a fixed point: the parsed form of canonical bytes encodes to
  exactly the same bytes again, given that NFC is idempotent and leaves ASCII alone.\<close>

theorem canonical_json_fixed_point:
  assumes "nfc_laws nfc" "floats_ok v" "normalize nfc v = Inr j"
  shows "canonical_json nfc (py_of_json j) = canonical_json nfc v"
  using assms normalize_py_of_json [OF normalize_canonical(1) normalize_normal_strings(1)]
  by (simp add: canonical_json_def)

theorem canonical_json_fixed_point_witness:
  "canonical_json id (py_of_json (JObj [(''a'', JInt 1), (''b'', JStr ''x'')])) =
   canonical_json id (PyMap [(PyStr ''b'', PyStr ''x''), (PyStr ''a'', PyInt 1)])"
  by (rule canonical_json_fixed_point) (simp add: nfc_laws_def, code_simp+)

end
