(* ===== verification/CP_Domain.thy ===== *)
theory CP_Domain
  imports CP_Json
begin

text \<open>
  The domain layer: the closed enumerations of \<^verbatim>\<open>domain/enums.py\<close>, the seat registry of
  \<^verbatim>\<open>domain/seats.py\<close> and the incident state machine of \<^verbatim>\<open>domain/state_machine.py\<close> with its
  validated event classes. An event class of the code is a constructor of \<open>event\<close>; its
  \<^verbatim>\<open>__init__\<close> checks are the functions \<open>mk_\<dots>\<close>, which raise \<^verbatim>\<open>ValueError\<close>.
  The results: the three final states have no successor, ABSTAIN only leads to a human, and
  every run from OPEN to VERIFIED contains a CLEAR verdict, then a human approval, then a
  broker claim, then a receipt, in this order.
\<close>

section \<open>Enumerations\<close>

datatype seat = PROSECUTOR | INSPECTOR | COUNSEL | MAGISTRATE | BAILIFF

datatype effort = NONE | LOW | MEDIUM | HIGH | XHIGH

datatype verdict = CLEAR | REMAND | BLOCK | ABSTAIN

datatype incident_state =
    OPEN | REPRODUCING | EVIDENCE_READY | ANALYZING | PATCHING | REVIEWING | APPROVAL_PENDING
  | APPROVED | EXECUTING | TEST_FAILED | VERIFIED | BLOCKED | HUMAN_ESCALATION

datatype retry_disposition = MATERIAL | FAILED_RETRY_DUPLICATE

datatype mechanism_code =
    CHECK_THEN_INSERT_RACE | LATE_RECEIPT_WRITE | WORKER_RETRY_DUPLICATION | PAYLOAD_ID_COLLISION

fun seat_value :: "seat \<Rightarrow> string" where
  "seat_value PROSECUTOR = ''Prosecutor''"
| "seat_value INSPECTOR = ''Inspector''"
| "seat_value COUNSEL = ''Counsel''"
| "seat_value MAGISTRATE = ''Magistrate''"
| "seat_value BAILIFF = ''Bailiff''"

fun verdict_value :: "verdict \<Rightarrow> string" where
  "verdict_value CLEAR = ''CLEAR''"
| "verdict_value REMAND = ''REMAND''"
| "verdict_value BLOCK = ''BLOCK''"
| "verdict_value ABSTAIN = ''ABSTAIN''"

fun mechanism_value :: "mechanism_code \<Rightarrow> string" where
  "mechanism_value CHECK_THEN_INSERT_RACE = ''CHECK_THEN_INSERT_RACE''"
| "mechanism_value LATE_RECEIPT_WRITE = ''LATE_RECEIPT_WRITE''"
| "mechanism_value WORKER_RETRY_DUPLICATION = ''WORKER_RETRY_DUPLICATION''"
| "mechanism_value PAYLOAD_ID_COLLISION = ''PAYLOAD_ID_COLLISION''"

text \<open>\<^verbatim>\<open>Seat(x)\<close> and \<^verbatim>\<open>Verdict(x)\<close>: lookup by value, \<open>None\<close> for ValueError.\<close>

definition all_seats :: "seat list" where
  "all_seats = [PROSECUTOR, INSPECTOR, COUNSEL, MAGISTRATE, BAILIFF]"

definition all_verdicts :: "verdict list" where
  "all_verdicts = [CLEAR, REMAND, BLOCK, ABSTAIN]"

fun str_value :: "pyval \<Rightarrow> string option" where
  "str_value (PyStr s) = Some s"
| "str_value (PyEnum (PyStr s)) = Some s"
| "str_value _ = None"

definition Seat_of :: "pyval \<Rightarrow> seat option" where
  "Seat_of x = Option.bind (str_value x) (map_of (map (\<lambda>s. (seat_value s, s)) all_seats))"

definition Verdict_of :: "pyval \<Rightarrow> verdict option" where
  "Verdict_of x = Option.bind (str_value x) (map_of (map (\<lambda>v. (verdict_value v, v)) all_verdicts))"

fun state_value :: "incident_state \<Rightarrow> string" where
  "state_value OPEN = ''OPEN''"
| "state_value REPRODUCING = ''REPRODUCING''"
| "state_value EVIDENCE_READY = ''EVIDENCE_READY''"
| "state_value ANALYZING = ''ANALYZING''"
| "state_value PATCHING = ''PATCHING''"
| "state_value REVIEWING = ''REVIEWING''"
| "state_value APPROVAL_PENDING = ''APPROVAL_PENDING''"
| "state_value APPROVED = ''APPROVED''"
| "state_value EXECUTING = ''EXECUTING''"
| "state_value TEST_FAILED = ''TEST_FAILED''"
| "state_value VERIFIED = ''VERIFIED''"
| "state_value BLOCKED = ''BLOCKED''"
| "state_value HUMAN_ESCALATION = ''HUMAN_ESCALATION''"

text \<open>The efforts in the order of increasing reasoning work.\<close>

fun effort_rank :: "effort \<Rightarrow> nat" where
  "effort_rank NONE = 0"
| "effort_rank LOW = 1"
| "effort_rank MEDIUM = 2"
| "effort_rank HIGH = 3"
| "effort_rank XHIGH = 4"

instantiation effort :: linorder
begin

definition less_eq_effort :: "effort \<Rightarrow> effort \<Rightarrow> bool" where
  "less_eq_effort a b \<longleftrightarrow> effort_rank a \<le> effort_rank b"

definition less_effort :: "effort \<Rightarrow> effort \<Rightarrow> bool" where
  "less_effort a b \<longleftrightarrow> effort_rank a < effort_rank b"

instance
proof
  fix a b :: effort
  show "a \<le> b \<Longrightarrow> b \<le> a \<Longrightarrow> a = b"
    by (cases a; cases b) (simp_all add: less_eq_effort_def)
qed (auto simp: less_eq_effort_def less_effort_def)

end

section \<open>The seat registry\<close>

record seat_spec =
  spec_seat :: seat
  spec_model :: string
  initial_effort :: effort
  effort_ladder :: "effort list"
  role :: string
  tier_rationale :: string
  max_output_tokens :: nat
  max_escalations :: nat
  human_escalation_only :: bool

definition SEAT_SPECS :: "seat_spec list" where
  "SEAT_SPECS =
    [\<lparr>spec_seat = PROSECUTOR, spec_model = ''gpt-5.6-luna'', initial_effort = LOW,
      effort_ladder = [LOW, MEDIUM, HIGH],
      role = ''Challenges causal claims and proposed patches.'',
      tier_rationale = ''Fast adversarial review starts at the lowest effective effort.'',
      max_output_tokens = 3072, max_escalations = 2, human_escalation_only = False\<rparr>,
     \<lparr>spec_seat = INSPECTOR, spec_model = ''gpt-5.6-terra'', initial_effort = MEDIUM,
      effort_ladder = [MEDIUM, HIGH, XHIGH],
      role = ''Builds the evidence-linked failure mechanism.'',
      tier_rationale = ''Balanced analysis for multi-source incident evidence.'',
      max_output_tokens = 3072, max_escalations = 2, human_escalation_only = False\<rparr>,
     \<lparr>spec_seat = COUNSEL, spec_model = ''gpt-5.6-terra'', initial_effort = MEDIUM,
      effort_ladder = [MEDIUM, HIGH, XHIGH],
      role = ''Proposes the smallest evidence-consistent diff.'',
      tier_rationale = ''Balanced code reasoning with typed test intentions.'',
      max_output_tokens = 6144, max_escalations = 2, human_escalation_only = False\<rparr>,
     \<lparr>spec_seat = MAGISTRATE, spec_model = ''gpt-5.6-sol'', initial_effort = MEDIUM,
      effort_ladder = [MEDIUM, HIGH, XHIGH],
      role = ''Returns the fail-closed incident verdict.'',
      tier_rationale = ''Highest-reliability review at the human authority boundary.'',
      max_output_tokens = 8192, max_escalations = 2, human_escalation_only = True\<rparr>,
     \<lparr>spec_seat = BAILIFF, spec_model = ''gpt-5.6-luna'', initial_effort = NONE,
      effort_ladder = [NONE],
      role = ''Presents one approved warrant ID for execution.'',
      tier_rationale = ''No reasoning is needed for a single deterministic broker call.'',
      max_output_tokens = 768, max_escalations = 0, human_escalation_only = False\<rparr>]"

section \<open>Events\<close>

type_synonym payload = "(string \<times> pyval) list"

datatype event =
    PlainEvent string payload
  | VerdictEvent verdict "seat option"
  | WarrantApprovedEvent string string string
  | ExecutionStartedEvent string string
  | VerifiedEvent string string
  | ExecutionFailedEvent string string
  | WarrantExpiredEvent string string
  | RevisionRequestedEvent string string string

fun event_type :: "event \<Rightarrow> string" where
  "event_type (PlainEvent ty _) = ty"
| "event_type (VerdictEvent _ _) = ''VERDICT''"
| "event_type (WarrantApprovedEvent _ _ _) = ''WARRANT_APPROVED''"
| "event_type (ExecutionStartedEvent _ _) = ''EXECUTION_STARTED''"
| "event_type (VerifiedEvent _ _) = ''VERIFIED''"
| "event_type (ExecutionFailedEvent _ _) = ''EXECUTION_FAILED''"
| "event_type (WarrantExpiredEvent _ _) = ''WARRANT_EXPIRED''"
| "event_type (RevisionRequestedEvent _ _ _) = ''REVISION_REQUESTED''"

fun event_payload :: "event \<Rightarrow> payload" where
  "event_payload (PlainEvent _ p) = p"
| "event_payload (VerdictEvent v t) =
     (''verdict'', PyEnum (PyStr (verdict_value v))) #
     (case t of None \<Rightarrow> [] | Some s \<Rightarrow> [(''remand_target'', PyEnum (PyStr (seat_value s)))])"
| "event_payload (WarrantApprovedEvent a w i) =
     [(''approval_id'', PyStr a), (''warrant_sha256'', PyStr w), (''approver_identity'', PyStr i)]"
| "event_payload (ExecutionStartedEvent c w) = [(''claim_id'', PyStr c), (''warrant_id'', PyStr w)]"
| "event_payload (VerifiedEvent r w) = [(''receipt_id'', PyStr r), (''warrant_id'', PyStr w)]"
| "event_payload (ExecutionFailedEvent w e) = [(''warrant_id'', PyStr w), (''error_code'', PyStr e)]"
| "event_payload (WarrantExpiredEvent w h) = [(''warrant_id'', PyStr w), (''warrant_sha256'', PyStr h)]"
| "event_payload (RevisionRequestedEvent w h e) =
     [(''warrant_id'', PyStr w), (''warrant_sha256'', PyStr h), (''evidence_id'', PyStr e)]"

datatype value_error = ValueError string

definition remand_targets :: "seat list" where
  "remand_targets = [PROSECUTOR, INSPECTOR, COUNSEL]"

definition mk_verdict :: "verdict \<Rightarrow> seat option \<Rightarrow> value_error + event" where
  "mk_verdict v target =
     (if v = REMAND
      then (if target \<in> Some ` set remand_targets then Inr (VerdictEvent v target)
            else Inl (ValueError ''REMAND requires a valid Prosecutor, Inspector, or Counsel target''))
      else if target \<noteq> None then Inl (ValueError ''only REMAND may include a remand target'')
      else Inr (VerdictEvent v target))"

definition mk_warrant_approved :: "string \<Rightarrow> string \<Rightarrow> string \<Rightarrow> value_error + event" where
  "mk_warrant_approved approval_id warrant_sha256 approver_identity =
     (if \<not> is_identifier approval_id \<or> \<not> is_identifier approver_identity
      then Inl (ValueError ''approval proof identifiers are invalid'')
      else if \<not> is_sha256 warrant_sha256
      then Inl (ValueError ''approval proof requires a canonical warrant SHA-256'')
      else Inr (WarrantApprovedEvent approval_id warrant_sha256 approver_identity))"

definition mk_execution_started :: "string \<Rightarrow> string \<Rightarrow> value_error + event" where
  "mk_execution_started claim_id warrant_id =
     (if \<not> is_identifier claim_id \<or> \<not> is_identifier warrant_id
      then Inl (ValueError ''execution claim proof is invalid'')
      else Inr (ExecutionStartedEvent claim_id warrant_id))"

definition mk_verified :: "string \<Rightarrow> string \<Rightarrow> value_error + event" where
  "mk_verified receipt_id warrant_id =
     (if \<not> is_identifier receipt_id \<or> \<not> is_identifier warrant_id
      then Inl (ValueError ''verification receipt proof is invalid'')
      else Inr (VerifiedEvent receipt_id warrant_id))"

definition mk_execution_failed :: "string \<Rightarrow> string \<Rightarrow> value_error + event" where
  "mk_execution_failed warrant_id error_code =
     (if \<not> is_identifier warrant_id \<or> \<not> is_identifier error_code
      then Inl (ValueError ''execution failure proof is invalid'')
      else Inr (ExecutionFailedEvent warrant_id error_code))"

definition mk_warrant_expired :: "string \<Rightarrow> string \<Rightarrow> value_error + event" where
  "mk_warrant_expired warrant_id warrant_sha256 =
     (if \<not> is_identifier warrant_id \<or> \<not> is_sha256 warrant_sha256
      then Inl (ValueError ''expired warrant proof is invalid'')
      else Inr (WarrantExpiredEvent warrant_id warrant_sha256))"

definition mk_revision_requested :: "string \<Rightarrow> string \<Rightarrow> string \<Rightarrow> value_error + event" where
  "mk_revision_requested warrant_id warrant_sha256 evidence_id =
     (if \<not> is_identifier warrant_id \<or> \<not> is_identifier evidence_id \<or> \<not> is_sha256 warrant_sha256
      then Inl (ValueError ''revision request proof is invalid'')
      else Inr (RevisionRequestedEvent warrant_id warrant_sha256 evidence_id))"

section \<open>Transitions\<close>

datatype transition_error = InvalidTransition string

definition FAIL_CLOSED_REASONS :: "string list" where
  "FAIL_CLOSED_REASONS =
     [''refusal'', ''cutoff'', ''truncated'', ''incomplete_response'', ''timeout'', ''network_failure'',
      ''invalid_schema'', ''missing_evidence_references'', ''sdk_exception'', ''guardrail_stop'',
      ''unknown_verdict'']"

definition verdict_for_failure :: "string \<Rightarrow> verdict" where
  "verdict_for_failure reason = ABSTAIN"

fun transition_verdict :: "event \<Rightarrow> transition_error + incident_state" where
  "transition_verdict (VerdictEvent v target) =
     (case v of CLEAR \<Rightarrow> Inr APPROVAL_PENDING
      | REMAND \<Rightarrow> Inr (if target = Some COUNSEL then PATCHING else ANALYZING)
      | BLOCK \<Rightarrow> Inr BLOCKED
      | ABSTAIN \<Rightarrow> Inr HUMAN_ESCALATION)"
| "transition_verdict _ =
     Inl (InvalidTransition ''VERDICT requires a validated typed verdict event'')"

definition transitions :: "((incident_state \<times> string) \<times> incident_state) list" where
  "transitions =
    [((OPEN, ''REPRODUCTION_STARTED''), REPRODUCING),
     ((REPRODUCING, ''EVIDENCE_CAPTURED''), EVIDENCE_READY),
     ((EVIDENCE_READY, ''REPRODUCTION_PASSED''), BLOCKED),
     ((EVIDENCE_READY, ''REPRODUCTION_INCONCLUSIVE''), HUMAN_ESCALATION),
     ((EVIDENCE_READY, ''ANALYSIS_STARTED''), ANALYZING),
     ((ANALYZING, ''PATCH_REQUESTED''), PATCHING),
     ((PATCHING, ''PATCH_PROPOSED''), REVIEWING),
     ((APPROVAL_PENDING, ''WARRANT_APPROVED''), APPROVED),
     ((APPROVAL_PENDING, ''WARRANT_EXPIRED''), HUMAN_ESCALATION),
     ((APPROVAL_PENDING, ''REVISION_REQUESTED''), PATCHING),
     ((APPROVED, ''EXECUTION_STARTED''), EXECUTING),
     ((EXECUTING, ''TEST_FAILED''), TEST_FAILED),
     ((TEST_FAILED, ''RETRY_STARTED''), PATCHING),
     ((EXECUTING, ''VERIFIED''), VERIFIED),
     ((OPEN, ''BACKGROUND_TASK_FAILED''), HUMAN_ESCALATION),
     ((REPRODUCING, ''BACKGROUND_TASK_FAILED''), HUMAN_ESCALATION),
     ((EVIDENCE_READY, ''BACKGROUND_TASK_FAILED''), HUMAN_ESCALATION),
     ((ANALYZING, ''BACKGROUND_TASK_FAILED''), HUMAN_ESCALATION),
     ((PATCHING, ''BACKGROUND_TASK_FAILED''), HUMAN_ESCALATION),
     ((REVIEWING, ''BACKGROUND_TASK_FAILED''), HUMAN_ESCALATION),
     ((APPROVED, ''BACKGROUND_TASK_FAILED''), HUMAN_ESCALATION),
     ((EXECUTING, ''BACKGROUND_TASK_FAILED''), HUMAN_ESCALATION),
     ((TEST_FAILED, ''BACKGROUND_TASK_FAILED''), HUMAN_ESCALATION),
     ((APPROVED, ''EXECUTION_FAILED''), HUMAN_ESCALATION),
     ((EXECUTING, ''EXECUTION_FAILED''), HUMAN_ESCALATION)]"

fun is_plain :: "event \<Rightarrow> bool" where
  "is_plain (PlainEvent _ _) = True"
| "is_plain _ = False"

definition abstain_states :: "incident_state list" where
  "abstain_states = [ANALYZING, PATCHING, REVIEWING, APPROVED, EXECUTING, TEST_FAILED]"

fun is_abstain :: "event \<Rightarrow> bool" where
  "is_abstain (VerdictEvent ABSTAIN _) = True"
| "is_abstain _ = False"

text \<open>The event types that need their validated class, with the message raised otherwise. An
  event of such a type that is no instance of the class is a plain one.\<close>

definition proof_types :: "(string \<times> string) list" where
  "proof_types =
     [(''WARRANT_APPROVED'', ''WARRANT_APPROVED requires validated approval proof''),
      (''EXECUTION_STARTED'', ''EXECUTION_STARTED requires validated broker claim proof''),
      (''VERIFIED'', ''VERIFIED requires a validated test receipt''),
      (''EXECUTION_FAILED'', ''EXECUTION_FAILED requires a validated broker failure''),
      (''WARRANT_EXPIRED'', ''WARRANT_EXPIRED requires validated warrant proof''),
      (''REVISION_REQUESTED'', ''REVISION_REQUESTED requires validated revision proof'')]"

definition transition_incident :: "incident_state \<Rightarrow> event \<Rightarrow> transition_error + incident_state" where
  "transition_incident state event =
     (if event_type event = ''VERDICT'' then
        (if is_abstain event \<and> state \<in> set abstain_states then Inr HUMAN_ESCALATION
         else if state \<noteq> REVIEWING
         then Inl (InvalidTransition (''VERDICT is not allowed from '' @ state_value state))
         else transition_verdict event)
      else (case (if is_plain event then map_of proof_types (event_type event) else None) of
              Some message \<Rightarrow> Inl (InvalidTransition message)
            | None \<Rightarrow>
                (case map_of transitions (state, event_type event) of
                   Some next \<Rightarrow> Inr next
                 | None \<Rightarrow> Inl (InvalidTransition
                     (event_type event @ '' is not allowed from '' @ state_value state)))))"

definition STATE_EVENT_TYPES :: "string list" where
  "STATE_EVENT_TYPES =
     [''REPRODUCTION_STARTED'', ''EVIDENCE_CAPTURED'', ''REPRODUCTION_PASSED'',
      ''REPRODUCTION_INCONCLUSIVE'', ''ANALYSIS_STARTED'', ''PATCH_REQUESTED'', ''PATCH_PROPOSED'',
      ''VERDICT'', ''WARRANT_APPROVED'', ''WARRANT_EXPIRED'', ''REVISION_REQUESTED'',
      ''EXECUTION_STARTED'', ''TEST_FAILED'', ''RETRY_STARTED'', ''VERIFIED'',
      ''BACKGROUND_TASK_FAILED'', ''EXECUTION_FAILED'']"

section \<open>Typed events from persisted payloads\<close>

text \<open>\<^verbatim>\<open>payload[key]\<close> as an argument of a regular-expression match: a missing key (KeyError) and a
  value that is no string (TypeError) both end in the same \<^verbatim>\<open>InvalidTransition\<close>.\<close>

definition text_field :: "payload \<Rightarrow> string \<Rightarrow> string option" where
  "text_field p k = Option.bind (map_of p k) str_value"

definition or_malformed :: "string \<Rightarrow> (value_error + event) option \<Rightarrow> transition_error + event" where
  "or_malformed message r =
     (case r of Some (Inr e) \<Rightarrow> Inr e | _ \<Rightarrow> Inl (InvalidTransition message))"

definition verdict_from_payload :: "payload \<Rightarrow> (value_error + event) option" where
  "verdict_from_payload p =
     Option.bind (Option.bind (map_of p ''verdict'') Verdict_of) (\<lambda>v.
       (case map_of p ''remand_target'' of
          None \<Rightarrow> Some (mk_verdict v None)
        | Some t \<Rightarrow>
            if t = PyNone then Some (mk_verdict v None)
            else Option.bind (Seat_of t) (\<lambda>s. Some (mk_verdict v (Some s)))))"

definition typed_event_from_payload :: "string \<Rightarrow> payload \<Rightarrow> transition_error + event" where
  "typed_event_from_payload ty p =
     (if ty = ''VERDICT'' then or_malformed ''malformed verdict payload'' (verdict_from_payload p)
      else if ty = ''WARRANT_APPROVED'' then
        or_malformed ''malformed approval proof''
          (Option.bind (text_field p ''approval_id'') (\<lambda>a.
           Option.bind (text_field p ''warrant_sha256'') (\<lambda>w.
           Option.bind (text_field p ''approver_identity'') (\<lambda>i.
             Some (mk_warrant_approved a w i)))))
      else if ty = ''EXECUTION_STARTED'' then
        or_malformed ''malformed execution claim proof''
          (Option.bind (text_field p ''claim_id'') (\<lambda>c.
           Option.bind (text_field p ''warrant_id'') (\<lambda>w. Some (mk_execution_started c w))))
      else if ty = ''VERIFIED'' then
        or_malformed ''malformed verification receipt''
          (Option.bind (text_field p ''receipt_id'') (\<lambda>r.
           Option.bind (text_field p ''warrant_id'') (\<lambda>w. Some (mk_verified r w))))
      else if ty = ''EXECUTION_FAILED'' then
        or_malformed ''malformed broker failure proof''
          (Option.bind (text_field p ''warrant_id'') (\<lambda>w.
           Option.bind (text_field p ''error_code'') (\<lambda>e. Some (mk_execution_failed w e))))
      else if ty = ''WARRANT_EXPIRED'' then
        or_malformed ''malformed expired warrant proof''
          (Option.bind (text_field p ''warrant_id'') (\<lambda>w.
           Option.bind (text_field p ''warrant_sha256'') (\<lambda>h. Some (mk_warrant_expired w h))))
      else if ty = ''REVISION_REQUESTED'' then
        or_malformed ''malformed revision request proof''
          (Option.bind (text_field p ''warrant_id'') (\<lambda>w.
           Option.bind (text_field p ''warrant_sha256'') (\<lambda>h.
           Option.bind (text_field p ''evidence_id'') (\<lambda>e. Some (mk_revision_requested w h e)))))
      else Inr (PlainEvent ty p))"

section \<open>Validated events and runs\<close>

text \<open>What the constructors of the event classes guarantee.\<close>

fun valid_event :: "event \<Rightarrow> bool" where
  "valid_event (PlainEvent ty _) \<longleftrightarrow> ty \<notin> set (''VERDICT'' # map fst proof_types)"
| "valid_event (VerdictEvent v t) \<longleftrightarrow>
     (if v = REMAND then t \<in> Some ` set remand_targets else t = None)"
| "valid_event (WarrantApprovedEvent a w i) \<longleftrightarrow> is_identifier a \<and> is_sha256 w \<and> is_identifier i"
| "valid_event (ExecutionStartedEvent c w) \<longleftrightarrow> is_identifier c \<and> is_identifier w"
| "valid_event (VerifiedEvent r w) \<longleftrightarrow> is_identifier r \<and> is_identifier w"
| "valid_event (ExecutionFailedEvent w e) \<longleftrightarrow> is_identifier w \<and> is_identifier e"
| "valid_event (WarrantExpiredEvent w h) \<longleftrightarrow> is_identifier w \<and> is_sha256 h"
| "valid_event (RevisionRequestedEvent w h e) \<longleftrightarrow> is_identifier w \<and> is_sha256 h \<and> is_identifier e"

text \<open>A sequence of events reduced from a state, stopping at the first rejected one.\<close>

fun run_events :: "incident_state \<Rightarrow> event list \<Rightarrow> transition_error + incident_state" where
  "run_events s [] = Inr s"
| "run_events s (e # es) = rbind (transition_incident s e) (\<lambda>s'. run_events s' es)"

definition final_states :: "incident_state list" where
  "final_states = [VERIFIED, BLOCKED, HUMAN_ESCALATION]"

section \<open>Lemmas\<close>

lemma map_of_transitions_cases:
  "map_of transitions (s, ty) = Some s' \<Longrightarrow> ((s, ty), s') \<in> set transitions"
  by (rule map_of_SomeD)

lemma is_abstain_iff: "is_abstain e \<longleftrightarrow> (\<exists>t. e = VerdictEvent ABSTAIN t)"
  by (cases e rule: is_abstain.cases) auto

lemma transition_cases:
  assumes "transition_incident s e = Inr s'"
  obtains (verdict) v t where "e = VerdictEvent v t" "s = REVIEWING \<or> v = ABSTAIN \<and> s \<in> set abstain_states"
      "transition_verdict e = Inr s'"
  | (table) "((s, event_type e), s') \<in> set transitions"
      "is_plain e \<longrightarrow> event_type e \<notin> fst ` set proof_types"
proof (cases "event_type e = ''VERDICT''")
  case True
  then show ?thesis
    using assms verdict 
    by (cases e) (auto simp: transition_incident_def is_abstain_iff split: if_splits verdict.splits)
next
  case False
  then show ?thesis
    using assms table
    by (auto simp: transition_incident_def map_of_eq_None_iff split: option.splits if_splits
        dest!: map_of_transitions_cases)
qed

lemma final_state_stuck: "s \<in> set final_states \<Longrightarrow> transition_incident s e \<noteq> Inr s'"
  by (auto elim!: transition_cases simp: final_states_def abstain_states_def transitions_def)

lemma run_events_append:
  "run_events s (es @ fs) = rbind (run_events s es) (\<lambda>s'. run_events s' fs)"
  by (induction es arbitrary: s) (auto simp: rbind_def split: sum.splits)

lemma run_events_last:
  assumes "run_events s es = Inr s'" "s \<noteq> s'"
  obtains pre e s1 where "es = pre @ [e]" "run_events s pre = Inr s1" "transition_incident s1 e = Inr s'"
  using assms by (cases es rule: rev_cases) (auto simp: run_events_append result_simps)

lemma enters_verified:
  "transition_incident s e = Inr VERIFIED \<Longrightarrow> s = EXECUTING \<and> (\<exists>r w. e = VerifiedEvent r w)"
  by (erule transition_cases; cases e)
     (auto simp: transitions_def proof_types_def split: verdict.splits if_splits)

lemma enters_executing:
  "transition_incident s e = Inr EXECUTING \<Longrightarrow> s = APPROVED \<and> (\<exists>c w. e = ExecutionStartedEvent c w)"
  by (erule transition_cases; cases e)
     (auto simp: transitions_def proof_types_def split: verdict.splits if_splits)

lemma enters_approved:
  "transition_incident s e = Inr APPROVED
   \<Longrightarrow> s = APPROVAL_PENDING \<and> (\<exists>a w i. e = WarrantApprovedEvent a w i)"
  by (erule transition_cases; cases e)
     (auto simp: transitions_def proof_types_def split: verdict.splits if_splits)

lemma enters_approval_pending:
  "transition_incident s e = Inr APPROVAL_PENDING
   \<Longrightarrow> s = REVIEWING \<and> (\<exists>t. e = VerdictEvent CLEAR t)"
  by (erule transition_cases; cases e)
     (auto simp: transitions_def proof_types_def abstain_states_def split: verdict.splits if_splits)

lemma mk_event_valid:
  "mk_verdict v t = Inr e \<Longrightarrow> valid_event e \<and> event_type e = ''VERDICT''"
  "mk_warrant_approved a w i = Inr e \<Longrightarrow> valid_event e \<and> event_type e = ''WARRANT_APPROVED''"
  "mk_execution_started c w = Inr e \<Longrightarrow> valid_event e \<and> event_type e = ''EXECUTION_STARTED''"
  "mk_verified r w = Inr e \<Longrightarrow> valid_event e \<and> event_type e = ''VERIFIED''"
  "mk_execution_failed w x = Inr e \<Longrightarrow> valid_event e \<and> event_type e = ''EXECUTION_FAILED''"
  "mk_warrant_expired w h = Inr e \<Longrightarrow> valid_event e \<and> event_type e = ''WARRANT_EXPIRED''"
  "mk_revision_requested w h x = Inr e \<Longrightarrow> valid_event e \<and> event_type e = ''REVISION_REQUESTED''"
  by (auto simp: mk_verdict_def mk_warrant_approved_def mk_execution_started_def mk_verified_def
      mk_execution_failed_def mk_warrant_expired_def mk_revision_requested_def split: if_splits)

lemma or_malformed_eq_Inr: "or_malformed m r = Inr e \<longleftrightarrow> r = Some (Inr e)"
  by (auto simp: or_malformed_def split: option.splits sum.splits)

lemma verdict_from_payload_valid:
  "verdict_from_payload p = Some (Inr e) \<Longrightarrow> valid_event e \<and> event_type e = ''VERDICT''"
  by (auto simp: verdict_from_payload_def bind_eq_Some_conv dest: mk_event_valid(1)
      split: option.splits if_splits)

lemma typed_event_valid: "typed_event_from_payload ty p = Inr e \<Longrightarrow> valid_event e \<and> event_type e = ty"
  unfolding typed_event_from_payload_def
  by (simp add: or_malformed_eq_Inr bind_eq_Some_conv split: if_splits)
     (use mk_event_valid verdict_from_payload_valid in \<open>fastforce simp: proof_types_def\<close>)+

lemma Verdict_of_value: "Verdict_of (PyEnum (PyStr (verdict_value v))) = Some v"
  by (cases v) (simp_all add: Verdict_of_def all_verdicts_def)

lemma Seat_of_value: "Seat_of (PyEnum (PyStr (seat_value s))) = Some s"
  by (cases s) (simp_all add: Seat_of_def all_seats_def)

lemma typed_event_roundtrip:
  "valid_event e \<Longrightarrow> typed_event_from_payload (event_type e) (event_payload e) = Inr e"
proof (cases e)
  case (VerdictEvent v t)
  assume "valid_event e"
  with VerdictEvent show ?thesis
    by (cases t) (auto simp: typed_event_from_payload_def or_malformed_def verdict_from_payload_def
        Verdict_of_value Seat_of_value mk_verdict_def split: if_splits)
qed (auto simp: typed_event_from_payload_def or_malformed_def text_field_def proof_types_def
    mk_warrant_approved_def mk_execution_started_def mk_verified_def mk_execution_failed_def
    mk_warrant_expired_def mk_revision_requested_def)

lemma transition_type_known:
  "transition_incident s e = Inr s' \<Longrightarrow> event_type e \<in> set STATE_EVENT_TYPES"
  by (erule transition_cases) (auto simp: transitions_def STATE_EVENT_TYPES_def)

section \<open>Properties\<close>

text \<open>C1. Human approval gate: an incident that reaches VERIFIED from OPEN did so by four
  consecutive state events at the end of its history: a CLEAR verdict, a validated human
  approval of a warrant, a validated broker claim and a validated receipt. No other sequence of
  events reaches VERIFIED.\<close>

theorem verified_only_through_approval:
  assumes "run_events OPEN es = Inr VERIFIED"
  shows "\<exists>pre t approval sha approver claim w1 receipt w2.
    es = pre @ [VerdictEvent CLEAR t, WarrantApprovedEvent approval sha approver,
                ExecutionStartedEvent claim w1, VerifiedEvent receipt w2] \<and>
    run_events OPEN pre = Inr REVIEWING"
proof -
  from assms obtain p1 e1 s1 where 1: "es = p1 @ [e1]" "run_events OPEN p1 = Inr s1"
    "transition_incident s1 e1 = Inr VERIFIED" by (rule run_events_last) simp
  from enters_verified [OF 1(3)] 1(2) have "run_events OPEN p1 = Inr EXECUTING" by simp
  then obtain p2 e2 s2 where 2: "p1 = p2 @ [e2]" "run_events OPEN p2 = Inr s2"
    "transition_incident s2 e2 = Inr EXECUTING" by (rule run_events_last) simp
  from enters_executing [OF 2(3)] 2(2) have "run_events OPEN p2 = Inr APPROVED" by simp
  then obtain p3 e3 s3 where 3: "p2 = p3 @ [e3]" "run_events OPEN p3 = Inr s3"
    "transition_incident s3 e3 = Inr APPROVED" by (rule run_events_last) simp
  from enters_approved [OF 3(3)] 3(2) have "run_events OPEN p3 = Inr APPROVAL_PENDING" by simp
  then obtain p4 e4 s4 where 4: "p3 = p4 @ [e4]" "run_events OPEN p4 = Inr s4"
    "transition_incident s4 e4 = Inr APPROVAL_PENDING" by (rule run_events_last) simp
  show ?thesis
    using 1(1) 2(1) 3(1) 4(1,2) enters_verified [OF 1(3)] enters_executing [OF 2(3)]
      enters_approved [OF 3(3)] enters_approval_pending [OF 4(3)]
    by auto
qed

definition sample_history :: "event list" where
  "sample_history =
    [PlainEvent ''REPRODUCTION_STARTED'' [], PlainEvent ''EVIDENCE_CAPTURED'' [],
     PlainEvent ''ANALYSIS_STARTED'' [], PlainEvent ''PATCH_REQUESTED'' [],
     PlainEvent ''PATCH_PROPOSED'' [], VerdictEvent REMAND (Some COUNSEL),
     PlainEvent ''PATCH_PROPOSED'' [], VerdictEvent CLEAR None,
     WarrantApprovedEvent ''a1'' (replicate 64 CHR ''0'') ''alice'',
     ExecutionStartedEvent ''c1'' ''w1'', VerifiedEvent ''r1'' ''w1'']"

theorem verified_only_through_approval_witness:
  "\<exists>pre t approval sha approver claim w1 receipt w2.
    sample_history = pre @ [VerdictEvent CLEAR t, WarrantApprovedEvent approval sha approver,
                ExecutionStartedEvent claim w1, VerifiedEvent receipt w2] \<and>
    run_events OPEN pre = Inr REVIEWING"
  by (rule verified_only_through_approval) code_simp

text \<open>VERIFIED, BLOCKED and HUMAN\_ESCALATION are final: every event is rejected with
  \<^verbatim>\<open>InvalidTransition\<close>, and they are the only states with this property.\<close>

theorem final_states_have_no_successor:
  "(\<forall>e. \<exists>m. transition_incident s e = Inl (InvalidTransition m)) \<longleftrightarrow> s \<in> set final_states"
proof
  assume stuck: "\<forall>e. \<exists>m. transition_incident s e = Inl (InvalidTransition m)"
  have go: "\<exists>e s'. transition_incident s e = Inr s'" if "s \<notin> set final_states"
  proof (cases "s = APPROVAL_PENDING")
    case True
    then have "transition_incident s (WarrantApprovedEvent [] [] []) = Inr APPROVED"
      by (simp add: transition_incident_def transitions_def)
    then show ?thesis by blast
  next
    case False
    with that have "transition_incident s (PlainEvent ''BACKGROUND_TASK_FAILED'' []) = Inr HUMAN_ESCALATION"
      by (cases s) (simp_all add: transition_incident_def transitions_def proof_types_def final_states_def)
    then show ?thesis by blast
  qed
  then show "s \<in> set final_states" using stuck by (metis sum.distinct(1))
next
  assume "s \<in> set final_states"
  then show "\<forall>e. \<exists>m. transition_incident s e = Inl (InvalidTransition m)"
    by (metis final_state_stuck sum.exhaust transition_error.exhaust)
qed

text \<open>Fail-closed verdicts: whatever the reason of a model failure, the verdict it is mapped to
  never opens an approval. Applied in any state it is either rejected or moves the incident to
  HUMAN\_ESCALATION, and it is accepted exactly in the six states in which work is under way.\<close>

theorem failure_verdict_escalates:
  "transition_incident s (VerdictEvent (verdict_for_failure reason) target) =
     (if s \<in> set abstain_states then Inr HUMAN_ESCALATION
      else Inl (InvalidTransition (''VERDICT is not allowed from '' @ state_value s)))"
  by (simp add: transition_incident_def verdict_for_failure_def abstain_states_def)

text \<open>Persisted authority payloads: writing a validated event as its payload and reading it back
  through \<^verbatim>\<open>typed_event_from_payload\<close> gives the same event, and whatever that function accepts is
  an event the validating constructors could have built.\<close>

theorem typed_event_payload_roundtrip:
  "(valid_event e \<longrightarrow> typed_event_from_payload (event_type e) (event_payload e) = Inr e) \<and>
   (typed_event_from_payload ty p = Inr e \<longrightarrow> valid_event e \<and> event_type e = ty)"
  using typed_event_roundtrip typed_event_valid by blast

theorem typed_event_payload_roundtrip_witness:
  "typed_event_from_payload ''VERDICT'' [(''verdict'', PyStr ''REMAND''), (''remand_target'', PyStr ''Counsel'')]
     = Inr (VerdictEvent REMAND (Some COUNSEL)) \<and>
   valid_event (VerdictEvent REMAND (Some COUNSEL)) \<and>
   typed_event_from_payload ''VERDICT'' (event_payload (VerdictEvent REMAND (Some COUNSEL)))
     = Inr (VerdictEvent REMAND (Some COUNSEL))"
proof -
  have read: "typed_event_from_payload ''VERDICT''
      [(''verdict'', PyStr ''REMAND''), (''remand_target'', PyStr ''Counsel'')]
      = Inr (VerdictEvent REMAND (Some COUNSEL))"
    by code_simp
  with typed_event_payload_roundtrip [of "VerdictEvent REMAND (Some COUNSEL)" "''VERDICT''"
      "[(''verdict'', PyStr ''REMAND''), (''remand_target'', PyStr ''Counsel'')]"]
  show ?thesis by simp
qed

end
