(* ===== verification/CP_Timeline.thy ===== *)
theory CP_Timeline
  imports CP_Domain
begin

text \<open>
  The append-only incident timeline of \<^verbatim>\<open>db/repositories.py\<close>: \<^verbatim>\<open>IncidentRepository.create\<close> and
  \<^verbatim>\<open>EventRepository.append\<close> over the two tables they use (\<^verbatim>\<open>db/models.py\<close>). A call is one
  database transaction: an error leaves the tables as they were. The clock, the generated event
  identifier, SHA-256 and NFC are arguments.
  The results: every database reached by these operations keeps a gap-free, hash-linked chain per
  incident whose metadata agree with it and whose stored state is the replay of its events; and
  two chains with the same head are the same chain.
\<close>

section \<open>Tables\<close>

record incident_row =
  inc_id :: string
  inc_title :: string
  inc_state :: incident_state
  next_event_sequence :: nat
  event_chain_head :: "string option"
  inc_created_at :: datetime
  inc_updated_at :: datetime

record event_row =
  ev_id :: string
  ev_incident_id :: string
  ev_sequence :: nat
  ev_type :: string
  ev_actor :: string
  ev_payload :: payload
  ev_previous_hash :: string
  ev_event_hash :: string
  ev_created_at :: datetime

record control_db =
  incidents :: "string \<rightharpoonup> incident_row"
  events :: "event_row list"

datatype repository_error =
    IncidentNotFound string
  | EventChainCorrupted
  | IntegrityError
  | RepositoryTransition transition_error
  | RepositoryCanonicalization canonicalization_error

definition ZERO_EVENT_HASH :: string where
  "ZERO_EVENT_HASH = replicate 64 CHR ''0''"

section \<open>Operations\<close>

definition create_incident ::
  "control_db \<Rightarrow> string \<Rightarrow> string \<Rightarrow> incident_state \<Rightarrow> datetime \<Rightarrow> repository_error + control_db" where
  "create_incident db incident_id title state now =
     (if incidents db incident_id \<noteq> None then Inl IntegrityError
      else Inr (db\<lparr>incidents := (incidents db)(incident_id \<mapsto>
             \<lparr>inc_id = incident_id, inc_title = title, inc_state = state, next_event_sequence = 1,
              event_chain_head = None, inc_created_at = now, inc_updated_at = now\<rparr>)\<rparr>))"

definition events_of :: "control_db \<Rightarrow> string \<Rightarrow> event_row list" where
  "events_of db incident_id = filter (\<lambda>e. ev_incident_id e = incident_id) (events db)"

text \<open>\<^verbatim>\<open>ORDER BY sequence DESC LIMIT 1\<close>.\<close>

fun last_event :: "event_row list \<Rightarrow> event_row option" where
  "last_event [] = None"
| "last_event (e # es) =
     (case last_event es of None \<Rightarrow> Some e
      | Some f \<Rightarrow> Some (if ev_sequence e < ev_sequence f then f else e))"

definition event_material ::
  "string \<Rightarrow> nat \<Rightarrow> string \<Rightarrow> string \<Rightarrow> payload \<Rightarrow> string \<Rightarrow> datetime \<Rightarrow> pyval" where
  "event_material incident_id sequence ty actor payload previous_hash created_at =
     py_fields [(''incident_id'', PyStr incident_id),
                (''sequence'', PyInt (int sequence)),
                (''type'', PyStr ty),
                (''actor'', PyStr actor),
                (''payload'', py_fields payload),
                (''previous_hash'', PyStr previous_hash),
                (''created_at'', PyDatetime created_at)]"

definition next_state_of :: "incident_state \<Rightarrow> string \<Rightarrow> payload \<Rightarrow> transition_error + incident_state" where
  "next_state_of state ty payload =
     (if ty \<in> set STATE_EVENT_TYPES
      then rbind (typed_event_from_payload ty payload) (transition_incident state)
      else Inr state)"

definition insert_event :: "control_db \<Rightarrow> event_row \<Rightarrow> repository_error + control_db" where
  "insert_event db e =
     (if \<exists>f \<in> set (events db). ev_id f = ev_id e \<or> ev_event_hash f = ev_event_hash e \<or>
           (ev_incident_id f = ev_incident_id e \<and> ev_sequence f = ev_sequence e)
      then Inl IntegrityError
      else Inr (db\<lparr>events := events db @ [e]\<rparr>))"

definition append_event ::
  "(string \<Rightarrow> string) \<Rightarrow> (string \<Rightarrow> string) \<Rightarrow> control_db \<Rightarrow> string \<Rightarrow> string \<Rightarrow> string \<Rightarrow> payload
   \<Rightarrow> datetime \<Rightarrow> string \<Rightarrow> repository_error + (control_db \<times> event_row)" where
  "append_event sha nfc db incident_id ty actor payload now uuid =
     (case incidents db incident_id of
        None \<Rightarrow> Inl (IncidentNotFound incident_id)
      | Some incident \<Rightarrow>
          (let last = last_event (events_of db incident_id);
               sequence = (case last of None \<Rightarrow> 1 | Some e \<Rightarrow> ev_sequence e + 1);
               previous_hash = (case last of None \<Rightarrow> ZERO_EVENT_HASH | Some e \<Rightarrow> ev_event_hash e);
               expected_head = (case last of None \<Rightarrow> None | Some e \<Rightarrow> Some (ev_event_hash e))
           in if next_event_sequence incident \<noteq> sequence \<or> event_chain_head incident \<noteq> expected_head
              then Inl EventChainCorrupted
              else rbind (map_error RepositoryTransition (next_state_of (inc_state incident) ty payload)) (\<lambda>state.
                   rbind (map_error RepositoryCanonicalization (sha256_hex sha nfc
                     (event_material incident_id sequence ty actor payload previous_hash now))) (\<lambda>event_hash.
                   let event = \<lparr>ev_id = ''evt_'' @ uuid, ev_incident_id = incident_id,
                         ev_sequence = sequence, ev_type = ty, ev_actor = actor, ev_payload = payload,
                         ev_previous_hash = previous_hash, ev_event_hash = event_hash,
                         ev_created_at = now\<rparr>
                   in rbind (insert_event db event) (\<lambda>db'.
                      Inr (db'\<lparr>incidents := (incidents db')(incident_id \<mapsto>
                             incident\<lparr>next_event_sequence := sequence + 1,
                                      event_chain_head := Some event_hash,
                                      inc_state := state,
                                      inc_updated_at := now\<rparr>)\<rparr>, event))))))"

section \<open>The chain invariant\<close>

definition row_material :: "event_row \<Rightarrow> pyval" where
  "row_material e = event_material (ev_incident_id e) (ev_sequence e) (ev_type e) (ev_actor e)
     (ev_payload e) (ev_previous_hash e) (ev_created_at e)"

text \<open>Consecutive rows: numbered from \<open>n\<close>, linked to \<open>prev\<close>, each hash the digest of its row.\<close>

fun linked :: "(string \<Rightarrow> string) \<Rightarrow> (string \<Rightarrow> string) \<Rightarrow> nat \<Rightarrow> string \<Rightarrow> event_row list \<Rightarrow> bool" where
  "linked sha nfc n prev [] = True"
| "linked sha nfc n prev (e # es) =
     (ev_sequence e = n \<and> ev_previous_hash e = prev \<and>
      sha256_hex sha nfc (row_material e) = Inr (ev_event_hash e) \<and>
      linked sha nfc (Suc n) (ev_event_hash e) es)"

fun replay :: "incident_state \<Rightarrow> event_row list \<Rightarrow> transition_error + incident_state" where
  "replay s [] = Inr s"
| "replay s (e # es) = rbind (next_state_of s (ev_type e) (ev_payload e)) (\<lambda>s'. replay s' es)"

definition head_of :: "event_row list \<Rightarrow> string option" where
  "head_of es = (if es = [] then None else Some (ev_event_hash (last es)))"

definition chain_ok ::
  "(string \<Rightarrow> string) \<Rightarrow> (string \<Rightarrow> string) \<Rightarrow> incident_state \<Rightarrow> incident_row \<Rightarrow> event_row list \<Rightarrow> bool" where
  "chain_ok sha nfc origin row es \<longleftrightarrow>
     linked sha nfc 1 ZERO_EVENT_HASH es \<and> next_event_sequence row = length es + 1 \<and>
     event_chain_head row = head_of es \<and> replay origin es = Inr (inc_state row)"

text \<open>The databases the two operations can build, with the state each incident started in.\<close>

inductive db_reachable ::
  "(string \<Rightarrow> string) \<Rightarrow> (string \<Rightarrow> string) \<Rightarrow> (string \<Rightarrow> incident_state) \<Rightarrow> control_db \<Rightarrow> bool"
  for sha nfc where
  empty: "db_reachable sha nfc origin \<lparr>incidents = Map.empty, events = []\<rparr>"
| create: "db_reachable sha nfc origin db \<Longrightarrow> create_incident db i title s now = Inr db' \<Longrightarrow>
     db_reachable sha nfc (origin(i := s)) db'"
| append: "db_reachable sha nfc origin db \<Longrightarrow>
     append_event sha nfc db i ty actor payload now uuid = Inr (db', e) \<Longrightarrow>
     db_reachable sha nfc origin db'"

section \<open>Lemmas\<close>

lemma linked_append:
  "linked sha nfc n prev (es @ fs) \<longleftrightarrow>
     linked sha nfc n prev es \<and>
     linked sha nfc (n + length es) (if es = [] then prev else ev_event_hash (last es)) fs"
  by (induction es arbitrary: n prev) auto

lemma replay_append: "replay s (es @ fs) = rbind (replay s es) (\<lambda>s'. replay s' fs)"
  by (induction es arbitrary: s) (auto simp: rbind_def split: sum.splits)

lemma linked_sequences: "linked sha nfc n prev es \<Longrightarrow> i < length es \<Longrightarrow> ev_sequence (es ! i) = n + i"
  by (induction es arbitrary: n prev i) (auto simp: nth_Cons split: nat.splits)

lemma last_event_None: "last_event es = None \<longleftrightarrow> es = []"
  by (cases es) (auto split: option.splits)

lemma linked_last_event:
  "linked sha nfc n prev es \<Longrightarrow> last_event es = (if es = [] then None else Some (last es))"
proof (induction es arbitrary: n prev)
  case Nil
  then show ?case by simp
next
  case (Cons e es)
  have "ev_sequence (last es) = Suc n + (length es - 1)" if "es \<noteq> []"
    using that Cons.prems linked_sequences [of sha nfc "Suc n" _ es "length es - 1"]
    by (auto simp: last_conv_nth)
  moreover have "last_event es = (if es = [] then None else Some (last es))"
    using Cons by auto
  ultimately show ?case using Cons.prems by auto
qed

lemma append_event_ok:
  assumes "append_event sha nfc db i ty actor p now uuid = Inr (db', e)"
  obtains row where "incidents db i = Some row"
    "ev_incident_id e = i" "ev_type e = ty" "ev_payload e = p"
    "sha256_hex sha nfc (row_material e) = Inr (ev_event_hash e)"
    "ev_sequence e = next_event_sequence row"
    "ev_previous_hash e = (case event_chain_head row of None \<Rightarrow> ZERO_EVENT_HASH | Some h \<Rightarrow> h)"
    "events db' = events db @ [e]"
    "\<And>j. j \<noteq> i \<Longrightarrow> incidents db' j = incidents db j"
    "\<exists>row'. incidents db' i = Some row' \<and> next_event_sequence row' = Suc (next_event_sequence row) \<and>
       event_chain_head row' = Some (ev_event_hash e) \<and>
       next_state_of (inc_state row) ty p = Inr (inc_state row')"
  using assms
  by (auto simp: append_event_def Let_def result_simps insert_event_def row_material_def
      split: option.splits if_splits)

lemma chain_ok_append:
  assumes "chain_ok sha nfc s row es" "ev_sequence e = next_event_sequence row"
    and "ev_previous_hash e = (case event_chain_head row of None \<Rightarrow> ZERO_EVENT_HASH | Some h \<Rightarrow> h)"
    and "sha256_hex sha nfc (row_material e) = Inr (ev_event_hash e)"
    and "next_event_sequence row' = Suc (next_event_sequence row)"
    and "event_chain_head row' = Some (ev_event_hash e)"
    and "next_state_of (inc_state row) (ev_type e) (ev_payload e) = Inr (inc_state row')"
  shows "chain_ok sha nfc s row' (es @ [e])"
  using assms by (auto simp: chain_ok_def linked_append replay_append head_of_def split: option.splits)

lemma create_incident_ok:
  assumes "create_incident db i title s now = Inr db'"
  shows "incidents db i = None" "events db' = events db"
    "\<exists>row. incidents db' = (incidents db)(i \<mapsto> row) \<and> next_event_sequence row = 1 \<and>
       event_chain_head row = None \<and> inc_state row = s"
  using assms by (auto simp: create_incident_def split: if_splits)

text \<open>Events belong to existing incidents, and every incident's chain is in order.\<close>

definition db_ok ::
  "(string \<Rightarrow> string) \<Rightarrow> (string \<Rightarrow> string) \<Rightarrow> (string \<Rightarrow> incident_state) \<Rightarrow> control_db \<Rightarrow> bool" where
  "db_ok sha nfc origin db \<longleftrightarrow>
     (\<forall>e \<in> set (events db). incidents db (ev_incident_id e) \<noteq> None) \<and>
     (\<forall>i row. incidents db i = Some row \<longrightarrow> chain_ok sha nfc (origin i) row (events_of db i))"

lemma events_of_snoc:
  "events db' = events db @ [e] \<Longrightarrow>
   events_of db' i = events_of db i @ (if ev_incident_id e = i then [e] else [])"
  by (simp add: events_of_def)

lemma events_of_same: "events db' = events db \<Longrightarrow> events_of db' i = events_of db i"
  by (simp add: events_of_def)

lemma create_preserves:
  assumes "db_ok sha nfc origin db" "create_incident db i title s now = Inr db'"
  shows "db_ok sha nfc (origin(i := s)) db'"
proof -
  note c = create_incident_ok [OF assms(2)]
  obtain row where row: "incidents db' = (incidents db)(i \<mapsto> row)" "next_event_sequence row = 1"
    "event_chain_head row = None" "inc_state row = s" using c(3) by blast
  have "events_of db i = []"
    using assms(1) c(1) by (auto simp: db_ok_def events_of_def filter_empty_conv)
  with assms(1) row c(2) show ?thesis
    by (auto simp: db_ok_def events_of_same [OF c(2)] chain_ok_def head_of_def)
qed

lemma append_preserves:
  assumes "db_ok sha nfc origin db" "append_event sha nfc db i ty actor p now uuid = Inr (db', e)"
  shows "db_ok sha nfc origin db'"
proof -
  from assms(2) show ?thesis
  proof (rule append_event_ok)
    fix row assume row: "incidents db i = Some row"
      and e: "ev_incident_id e = i" "ev_type e = ty" "ev_payload e = p"
        "sha256_hex sha nfc (row_material e) = Inr (ev_event_hash e)"
        "ev_sequence e = next_event_sequence row"
        "ev_previous_hash e = (case event_chain_head row of None \<Rightarrow> ZERO_EVENT_HASH | Some h \<Rightarrow> h)"
      and evs: "events db' = events db @ [e]"
      and frame: "\<And>j. j \<noteq> i \<Longrightarrow> incidents db' j = incidents db j"
      and new: "\<exists>row'. incidents db' i = Some row' \<and>
        next_event_sequence row' = Suc (next_event_sequence row) \<and>
        event_chain_head row' = Some (ev_event_hash e) \<and>
        next_state_of (inc_state row) ty p = Inr (inc_state row')"
    from new obtain row' where row': "incidents db' i = Some row'"
      "next_event_sequence row' = Suc (next_event_sequence row)"
      "event_chain_head row' = Some (ev_event_hash e)"
      "next_state_of (inc_state row) ty p = Inr (inc_state row')" by blast
    have "chain_ok sha nfc (origin i) row (events_of db i)"
      using assms(1) row by (simp add: db_ok_def)
    from chain_ok_append [OF this e(5,6,4) row'(2,3)] row'(4) e
    have "chain_ok sha nfc (origin i) row' (events_of db' i)"
      by (simp add: events_of_snoc [OF evs])
    moreover have "chain_ok sha nfc (origin j) r (events_of db' j)"
      if "j \<noteq> i" "incidents db' j = Some r" for j r
      using assms(1) that frame [OF that(1)] e(1) by (simp add: db_ok_def events_of_snoc [OF evs])
    moreover have "incidents db' (ev_incident_id f) \<noteq> None" if "f \<in> set (events db')" for f
      using assms(1) that frame row'(1) evs e(1)
      by (cases "ev_incident_id f = i") (auto simp: db_ok_def)
    ultimately show ?thesis using row'(1) by (metis db_ok_def option.inject)
  qed
qed

lemma db_reachable_ok: "db_reachable sha nfc origin db \<Longrightarrow> db_ok sha nfc origin db"
proof (induction rule: db_reachable.induct)
  case (empty origin)
  then show ?case by (simp add: db_ok_def)
qed (blast intro: create_preserves append_preserves)+

text \<open>In a database in order the metadata check of \<^verbatim>\<open>append\<close> never fires.\<close>

lemma append_not_corrupted:
  assumes "db_ok sha nfc origin db"
  shows "append_event sha nfc db i ty actor p now uuid \<noteq> Inl EventChainCorrupted"
proof (cases "incidents db i")
  case None
  then show ?thesis by (simp add: append_event_def)
next
  case (Some row)
  with assms have ok: "chain_ok sha nfc (origin i) row (events_of db i)" by (simp add: db_ok_def)
  then have "last_event (events_of db i) =
      (if events_of db i = [] then None else Some (last (events_of db i)))"
    by (intro linked_last_event [of sha nfc 1 ZERO_EVENT_HASH]) (simp add: chain_ok_def)
  moreover have "ev_sequence (last (events_of db i)) = length (events_of db i)" if "events_of db i \<noteq> []"
    using that ok linked_sequences [of sha nfc 1 ZERO_EVENT_HASH "events_of db i" "length (events_of db i) - 1"]
    by (simp add: last_conv_nth chain_ok_def)
  ultimately show ?thesis
    using ok Some by (auto simp: append_event_def chain_ok_def head_of_def Let_def result_simps
        insert_event_def split: if_splits)
qed

section \<open>Equal heads, equal chains\<close>

definition hashed_bytes :: "(string \<Rightarrow> string) \<Rightarrow> event_row list \<Rightarrow> string set" where
  "hashed_bytes nfc es = {b. \<exists>e \<in> set es. canonical_json nfc (row_material e) = Inr b}"

definition same_content :: "(string \<Rightarrow> string) \<Rightarrow> event_row \<Rightarrow> event_row \<Rightarrow> bool" where
  "same_content nfc e f \<longleftrightarrow>
     ev_sequence e = ev_sequence f \<and> ev_previous_hash e = ev_previous_hash f \<and>
     ev_event_hash e = ev_event_hash f \<and> nfc (ev_incident_id e) = nfc (ev_incident_id f) \<and>
     nfc (ev_type e) = nfc (ev_type f) \<and> nfc (ev_actor e) = nfc (ev_actor f) \<and>
     normalize nfc (py_fields (ev_payload e)) = normalize nfc (py_fields (ev_payload f)) \<and>
     instant (ev_created_at e) = instant (ev_created_at f)"

definition payload_ok :: "event_row \<Rightarrow> bool" where
  "payload_ok e \<longleftrightarrow> list_all (\<lambda>(k, v). floats_ok v) (ev_payload e) \<and> representable (instant (ev_created_at e))"

lemma floats_ok_row_material: "payload_ok e \<Longrightarrow> floats_ok (row_material e)"
  by (auto simp: payload_ok_def row_material_def event_material_def py_fields_def list_all_iff)

lemma linked_previous_hex:
  "linked sha nfc n prev es \<Longrightarrow> is_sha256 prev \<Longrightarrow> (\<And>b. is_sha256 (sha b)) \<Longrightarrow> e \<in> set es
   \<Longrightarrow> is_sha256 (ev_previous_hash e) \<and> sha256_hex sha nfc (row_material e) = Inr (ev_event_hash e)"
proof (induction es arbitrary: n prev)
  case Nil
  then show ?case by simp
next
  case (Cons f fs)
  have "is_sha256 (ev_event_hash f)"
    using Cons.prems by (auto simp: sha256_hex_eq_Inr)
  with Cons show ?case by auto
qed

lemma is_sha256_zero: "is_sha256 ZERO_EVENT_HASH"
  by code_simp

lemma equal_times:
  assumes "normalize nfc (PyDatetime t) = normalize nfc (PyDatetime u)" "is_ok (normalize nfc (PyDatetime t))"
    and "representable (instant t)" "representable (instant u)"
  shows "instant t = instant u"
  using assms by (cases t; cases u) (auto simp: instant_def dest: iso_utc_inject)

lemma equal_hash_same_content:
  assumes "nfc_laws nfc" "inj_on sha B" "payload_ok e" "payload_ok f"
    and "is_sha256 (ev_previous_hash e)" "is_sha256 (ev_previous_hash f)"
    and "sha256_hex sha nfc (row_material e) = Inr (ev_event_hash e)"
    and "sha256_hex sha nfc (row_material f) = Inr (ev_event_hash f)"
    and "hashed_bytes nfc [e] \<subseteq> B" "hashed_bytes nfc [f] \<subseteq> B"
    and "ev_event_hash e = ev_event_hash f"
  shows "same_content nfc e f"
proof -
  obtain b c where bc: "canonical_json nfc (row_material e) = Inr b"
    "canonical_json nfc (row_material f) = Inr c" "sha b = sha c"
    using assms(7,8,11) by (auto simp: sha256_hex_eq_Inr)
  then have "b = c" using assms(2,9,10) by (auto simp: hashed_bytes_def inj_on_def)
  then have norm: "normalize nfc (row_material e) = normalize nfc (row_material f)"
    using bc assms(3,4) by (metis canonical_json_eq_iff floats_ok_row_material)
  obtain j where j: "normalize nfc (row_material e) = Inr j" "normalize nfc (row_material f) = Inr j"
    using norm bc(1) by (auto simp: canonical_json_eq_Inr)
  note field = normalize_fields_eq [OF j [unfolded row_material_def event_material_def]]
  have "normalize nfc (PyInt (int (ev_sequence e))) = normalize nfc (PyInt (int (ev_sequence f)))"
    by (rule field [of "''sequence''"]) simp_all
  moreover have "normalize nfc (PyStr (ev_previous_hash e)) = normalize nfc (PyStr (ev_previous_hash f))"
    by (rule field [of "''previous_hash''"]) simp_all
  moreover have "normalize nfc (PyStr (ev_incident_id e)) = normalize nfc (PyStr (ev_incident_id f))"
    by (rule field [of "''incident_id''"]) simp_all
  moreover have "normalize nfc (PyStr (ev_type e)) = normalize nfc (PyStr (ev_type f))"
    by (rule field [of "''type''"]) simp_all
  moreover have "normalize nfc (PyStr (ev_actor e)) = normalize nfc (PyStr (ev_actor f))"
    by (rule field [of "''actor''"]) simp_all
  moreover have "normalize nfc (py_fields (ev_payload e)) = normalize nfc (py_fields (ev_payload f))"
    by (rule field [of "''payload''"]) simp_all
  moreover have "instant (ev_created_at e) = instant (ev_created_at f)"
  proof (rule equal_times)
    show "normalize nfc (PyDatetime (ev_created_at e)) = normalize nfc (PyDatetime (ev_created_at f))"
      by (rule field [of "''created_at''"]) simp_all
    show "is_ok (normalize nfc (PyDatetime (ev_created_at e)))"
    proof (rule normalize_fields [OF j(1) [unfolded row_material_def event_material_def]])
      fix kvs
      let ?fields = "[(''incident_id'', PyStr (ev_incident_id e)), (''sequence'', PyInt (int (ev_sequence e))), (''type'', PyStr (ev_type e)),
        (''actor'', PyStr (ev_actor e)), (''payload'', py_fields (ev_payload e)), (''previous_hash'', PyStr (ev_previous_hash e)),
        (''created_at'', PyDatetime (ev_created_at e))]"
      assume "\<And>k v. (k, v) \<in> set ?fields \<Longrightarrow> \<exists>w. normalize nfc v = Inr w \<and> (nfc k, w) \<in> set kvs"
      from this [of "''created_at''" "PyDatetime (ev_created_at e)"] show ?thesis by auto
    qed
  qed (use assms(3,4) in \<open>simp_all add: payload_ok_def\<close>)
  ultimately show ?thesis using assms(1,5,6,11) by (simp add: same_content_def nfc_laws_def is_sha256_ascii)
qed

lemma equal_heads_equal_chains:
  assumes laws: "nfc_laws nfc" "inj_on sha B" "\<And>b. is_sha256 (sha b)"
  shows "\<lbrakk>linked sha nfc 1 ZERO_EVENT_HASH es; linked sha nfc 1 ZERO_EVENT_HASH fs;
     list_all payload_ok es; list_all payload_ok fs;
     hashed_bytes nfc es \<subseteq> B; hashed_bytes nfc fs \<subseteq> B; head_of es = head_of fs\<rbrakk>
   \<Longrightarrow> list_all2 (same_content nfc) es fs"
proof (induction es arbitrary: fs rule: rev_induct)
  case Nil
  then show ?case by (simp add: head_of_def split: if_splits)
next
  case (snoc e es)
  from snoc.prems(7) obtain gs g where fs: "fs = gs @ [g]" and hash: "ev_event_hash e = ev_event_hash g"
    by (cases fs rule: rev_cases) (auto simp: head_of_def)
  note hex = linked_previous_hex [OF snoc.prems(1) is_sha256_zero laws(3), of e]
    linked_previous_hex [OF snoc.prems(2) is_sha256_zero laws(3), of g]
  have same: "same_content nfc e g"
    using snoc.prems fs hash hex laws(1,2)
    by (intro equal_hash_same_content [of nfc sha B]) (auto simp: hashed_bytes_def)
  then have len: "length es = length gs"
    using snoc.prems(1,2) fs by (simp add: linked_append same_content_def)
  have "head_of es = head_of gs"
    using snoc.prems(1,2) fs same len
    by (auto simp: linked_append head_of_def same_content_def split: if_splits)
  moreover have "hashed_bytes nfc es \<subseteq> B" "hashed_bytes nfc gs \<subseteq> B"
    using snoc.prems(5,6) fs by (auto simp: hashed_bytes_def)
  ultimately have "list_all2 (same_content nfc) es gs"
    using snoc.prems(1-4) fs by (intro snoc.IH) (auto simp: linked_append)
  with same fs show ?case by (simp add: list_all2_appendI)
qed

section \<open>Properties\<close>

text \<open>C2. The timeline invariant: in every database that \<^verbatim>\<open>create\<close> and \<^verbatim>\<open>append\<close> build, each
  incident's rows are numbered 1, 2, ... without gaps, each row's previous hash is the hash of the
  row before it, each row's hash is the digest of its canonical bytes, the incident row's next
  sequence number and chain head agree with the rows, and the stored state is what the state
  machine computes from the events. So a further append is never refused as corrupted.\<close>

theorem timeline_chain_invariant:
  assumes "db_reachable sha nfc origin db" "incidents db i = Some row"
  shows "chain_ok sha nfc (origin i) row (events_of db i) \<and>
         append_event sha nfc db i ty actor payload now uuid \<noteq> Inl EventChainCorrupted"
  using db_reachable_ok [OF assms(1)] assms(2) append_not_corrupted by (auto simp: db_ok_def)

definition sample_digest :: "string \<Rightarrow> string" where
  "sample_digest b = replicate 60 CHR ''0'' @ pad 4 (length b)"

definition sample_db :: control_db where
  "sample_db = (case create_incident \<lparr>incidents = Map.empty, events = []\<rparr> ''i1'' ''t'' OPEN (Aware 0 0) of
      Inl _ \<Rightarrow> \<lparr>incidents = Map.empty, events = []\<rparr> | Inr db \<Rightarrow> db)"

definition sample_append :: "repository_error + (control_db \<times> event_row)" where
  "sample_append = append_event sample_digest id sample_db ''i1'' ''REPRODUCTION_STARTED'' ''system'' []
     (Aware 0 0) ''u''"

lemmas material_simps = sha256_hex_def canonical_json_def row_material_def event_material_def py_fields_def

lemma sample_append_ok: "\<exists>r. sample_append = Inr r"
  by (simp add: sample_append_def sample_db_def create_incident_def append_event_def events_of_def
      next_state_of_def STATE_EVENT_TYPES_def typed_event_from_payload_def transition_incident_def
      proof_types_def transitions_def insert_event_def material_simps Let_def)

lemma sample_db_created:
  "create_incident \<lparr>incidents = Map.empty, events = []\<rparr> ''i1'' ''t'' OPEN (Aware 0 0) = Inr sample_db"
  by (simp add: sample_db_def create_incident_def)

theorem timeline_chain_invariant_witness:
  "\<exists>db e row. sample_append = Inr (db, e) \<and> incidents db ''i1'' = Some row \<and>
     chain_ok sample_digest id OPEN row (events_of db ''i1'') \<and>
     append_event sample_digest id db ''i1'' ''EVIDENCE_CAPTURED'' ''system'' [] (Aware 5 0) ''v''
       \<noteq> Inl EventChainCorrupted"
proof -
  obtain db e where r: "sample_append = Inr (db, e)"
    using sample_append_ok by auto
  then obtain row where row: "incidents db ''i1'' = Some row"
    unfolding sample_append_def by (rule append_event_ok) auto
  have "(\<lambda>_ :: string. OPEN)(''i1'' := OPEN) = (\<lambda>_. OPEN)" by auto
  then have "db_reachable sample_digest id (\<lambda>_. OPEN) db"
    using db_reachable.append [OF db_reachable.create [OF db_reachable.empty sample_db_created]
        r [unfolded sample_append_def], of "\<lambda>_. OPEN"]
    by metis
  from timeline_chain_invariant [OF this row] r row show ?thesis by blast
qed

text \<open>C3. The timeline is tamper evident: two hash-linked chains with the same head have the same
  length and, row by row, the same sequence number and hashes, the same incident, type and actor up to NFC, payloads
  with the same normal form and the same instant, as long as SHA-256 does not collide on the byte strings that
  were hashed.\<close>

theorem timeline_tamper_evident:
  assumes "nfc_laws nfc" "\<And>b. is_sha256 (sha b)"
    and "inj_on sha (hashed_bytes nfc es \<union> hashed_bytes nfc fs)"
    and "linked sha nfc 1 ZERO_EVENT_HASH es" "linked sha nfc 1 ZERO_EVENT_HASH fs"
    and "list_all payload_ok (es @ fs)" "head_of es = head_of fs"
  shows "list_all2 (same_content nfc) es fs"
  using assms by (intro equal_heads_equal_chains [of nfc sha "hashed_bytes nfc es \<union> hashed_bytes nfc fs"]) auto

definition sample_row :: event_row where
  "sample_row = \<lparr>ev_id = ''evt_u'', ev_incident_id = ''i1'', ev_sequence = 1,
     ev_type = ''NOTE'', ev_actor = ''a'', ev_payload = [], ev_previous_hash = ZERO_EVENT_HASH,
     ev_event_hash = replicate 64 CHR ''7'', ev_created_at = Aware 0 0\<rparr>"

definition constant_digest :: "string \<Rightarrow> string" where
  "constant_digest b = replicate 64 CHR ''7''"

theorem timeline_tamper_evident_witness:
  "list_all2 (same_content id) [sample_row] [sample_row\<lparr>ev_id := ''evt_v''\<rparr>]"
proof (rule timeline_tamper_evident [where sha = constant_digest])
  show "nfc_laws id" by (simp add: nfc_laws_def)
  show "is_sha256 (constant_digest b)" for b
    unfolding constant_digest_def by code_simp
  have "hashed_bytes id [sample_row] \<union> hashed_bytes id [sample_row\<lparr>ev_id := ''evt_v''\<rparr>]
      = {b. canonical_json id (row_material sample_row) = Inr b}"
    by (simp add: hashed_bytes_def row_material_def)
  then show "inj_on constant_digest
      (hashed_bytes id [sample_row] \<union> hashed_bytes id [sample_row\<lparr>ev_id := ''evt_v''\<rparr>])"
    by (simp add: inj_on_def)
  show "linked constant_digest id 1 ZERO_EVENT_HASH [sample_row]"
    by (simp add: sample_row_def material_simps constant_digest_def)
  show "linked constant_digest id 1 ZERO_EVENT_HASH [sample_row\<lparr>ev_id := ''evt_v''\<rparr>]"
    by (simp add: sample_row_def material_simps constant_digest_def)
  show "list_all payload_ok ([sample_row] @ [sample_row\<lparr>ev_id := ''evt_v''\<rparr>])"
  proof -
    have "representable (instant (Aware 0 0))" by (simp add: representable_def instant_def civil_def year_and_day.simps year_length_def is_leap_def split: prod.splits)
    then show ?thesis by (simp add: payload_ok_def sample_row_def)
  qed
qed (simp_all add: sample_row_def head_of_def)

end
