(* ===== verification/CP_Paths.thy ===== *)
theory CP_Paths
  imports CP_Prelude
begin

text \<open>
  The repository path policy of \<^verbatim>\<open>broker/paths.py\<close>: normalisation of candidate paths, protected
  paths, the strict diff reader \<^verbatim>\<open>derive_patch_paths\<close> and the comparison of declared with derived
  paths. Unicode NFKC is an argument; the live repository is a record of the two questions the
  code asks it (is a path a symlink, does it resolve below the root).
  The results: an accepted path stays lexically below the root, is not protected and crosses no
  symlink; the derived paths are sorted, distinct and cover exactly the section headers.
\<close>

section \<open>PurePosixPath\<close>

text \<open>The root of a path (none, one slash, or exactly two) and its parts without empty and dot ones.\<close>

definition posix_root :: "string \<Rightarrow> string" where
  "posix_root s =
     (if prefix ''//'' s \<and> \<not> prefix ''///'' s then ''//'' else if prefix ''/'' s then ''/'' else [])"

definition posix_tail :: "string \<Rightarrow> string list" where
  "posix_tail s = filter (\<lambda>x. x \<noteq> [] \<and> x \<noteq> ''.'') (split_on (CHR ''/'') s)"

definition posix_parts :: "string \<Rightarrow> string list" where
  "posix_parts s = (if posix_root s = [] then [] else [posix_root s]) @ posix_tail s"

definition as_posix :: "string \<Rightarrow> string" where
  "as_posix s =
     (if posix_root s = [] \<and> posix_tail s = [] then ''.'' else posix_root s @ join ''/'' (posix_tail s))"

text \<open>\<^verbatim>\<open>PureWindowsPath(s).is_absolute()\<close> for text without backslashes: a drive (any first character
  followed by a colon) and a slash, or a UNC root.\<close>

definition windows_absolute :: "string \<Rightarrow> bool" where
  "windows_absolute s \<longleftrightarrow>
     prefix ''//'' s \<or>
     (case s of [] \<Rightarrow> False | c # cs \<Rightarrow> prefix '':/'' (dropWhile is_cont cs))"

definition drive_prefix :: "string \<Rightarrow> bool" where
  "drive_prefix s \<longleftrightarrow>
     (case s of a # b # _ \<Rightarrow> (is_lower a \<or> is_upper a) \<and> b = CHR '':'' | _ \<Rightarrow> False)"

section \<open>The policy\<close>

datatype path_error = PathPolicyViolation string | PatchFormatViolation string

definition PROTECTED_EXACT :: "string list" where
  "PROTECTED_EXACT =
     [''.gitmodules'', ''compose.yaml'', ''compose.yml'', ''docker-compose.yaml'', ''docker-compose.yml'',
      ''package-lock.json'', ''package.json'', ''pnpm-lock.yaml'', ''pyproject.toml'', ''uv.lock'',
      ''yarn.lock'']"

definition PROTECTED_PREFIXES :: "string list" where
  "PROTECTED_PREFIXES =
     [''.git/'', ''.github/'', ''.superpowers/'', ''backend/src/crosspatch/broker/'',
      ''backend/src/crosspatch/runner/'', ''docs/'', ''infra/'']"

definition normalize_candidate_path :: "(string \<Rightarrow> string) \<Rightarrow> string \<Rightarrow> path_error + string" where
  "normalize_candidate_path nfkc value =
     (if value = [] then Inl (PathPolicyViolation ''patch paths must be non-empty strings'')
      else if nfkc value \<noteq> value
      then Inl (PathPolicyViolation ''patch paths must already be Unicode-normalized'')
      else if CHR 0x00 \<in> set value \<or> CHR 0x5C \<in> set value
      then Inl (PathPolicyViolation ''patch paths cannot contain NUL or backslash characters'')
      else if posix_root value \<noteq> [] \<or> windows_absolute value \<or> drive_prefix value
      then Inl (PathPolicyViolation ''absolute patch paths are forbidden'')
      else if value \<noteq> as_posix value \<or> (\<exists>part \<in> set (posix_parts value). part \<in> {[], ''.'', ''..''})
      then Inl (PathPolicyViolation ''patch paths must already be normalized and cannot traverse'')
      else Inr (as_posix value))"

definition is_protected :: "string \<Rightarrow> bool" where
  "is_protected path \<longleftrightarrow>
     path \<in> set PROTECTED_EXACT \<or> (\<exists>p \<in> set PROTECTED_PREFIXES. prefix p path) \<or>
     ''tests'' \<in> set (posix_parts path)"

text \<open>The live repository below its root: paths by their parts.\<close>

record repository_view =
  is_symlink :: "string list \<Rightarrow> bool"
  resolves_inside :: "string \<Rightarrow> bool"

fun path_prefixes :: "string list \<Rightarrow> string list list" where
  "path_prefixes [] = []"
| "path_prefixes (p # ps) = [p] # map ((#) p) (path_prefixes ps)"

definition check_patch_path :: "(string \<Rightarrow> string) \<Rightarrow> repository_view \<Rightarrow> string \<Rightarrow> path_error + string" where
  "check_patch_path nfkc root value =
     rbind (normalize_candidate_path nfkc value) (\<lambda>normalized.
       if is_protected normalized
       then Inl (PathPolicyViolation (''runner-owned or protected path: '' @ normalized))
       else if \<exists>q \<in> set (path_prefixes (posix_parts normalized)). is_symlink root q
       then Inl (PathPolicyViolation (''patch path contains a symlink: '' @ normalized))
       else if \<not> resolves_inside root normalized
       then Inl (PathPolicyViolation ''patch path escapes the repository root'')
       else Inr normalized)"

definition validate_patch_paths ::
  "(string \<Rightarrow> string) \<Rightarrow> repository_view \<Rightarrow> string list \<Rightarrow> path_error + string list" where
  "validate_patch_paths nfkc root paths =
     rbind (map_result (check_patch_path nfkc root) paths) (\<lambda>canonical.
       if canonical = [] then Inl (PathPolicyViolation ''a warrant must bind at least one patch path'')
       else Inr (sort (remdups canonical)))"

section \<open>Diff headers\<close>

definition path_token :: "string \<Rightarrow> bool" where
  "path_token s \<longleftrightarrow> s \<noteq> [] \<and> no_whitespace s \<and> CHR 0x22 \<notin> set s \<and> CHR 0x5C \<notin> set s"

text \<open>The full match of \<^verbatim>\<open>diff --git a/(path) b/(path)\<close>: a path token has no space, so the first space
  ends the old path.\<close>

definition diff_header :: "string \<Rightarrow> (string \<times> string) option" where
  "diff_header line =
     (if \<not> prefix ''diff --git a/'' line then None
      else (let rest = drop 13 line;
                old = takeWhile (\<lambda>c. c \<noteq> CHR '' '') rest;
                tail = drop (length old) rest
            in if prefix '' b/'' tail \<and> path_token old \<and> path_token (drop 3 tail)
               then Some (old, drop 3 tail) else None))"

definition hex_run :: "string \<Rightarrow> bool" where
  "hex_run s \<longleftrightarrow> list_all is_hex s \<and> 7 \<le> length s \<and> length s \<le> 64"

text \<open>The full match of \<^verbatim>\<open>index [0-9a-f]{7,64}..[0-9a-f]{7,64} (100644|100755)\<close> (with two literal dots).\<close>

definition index_line :: "string \<Rightarrow> bool" where
  "index_line line \<longleftrightarrow>
     prefix ''index '' line \<and>
     (let rest = drop 6 line; old = takeWhile is_hex rest; r1 = drop (length old) rest;
          new = takeWhile is_hex (drop 2 r1); r2 = drop (2 + length new) r1
      in hex_run old \<and> prefix ''..'' r1 \<and> hex_run new \<and> r2 \<in> {'' 100644'', '' 100755''})"

definition UNSAFE_CONTROL_PREFIXES :: "string list" where
  "UNSAFE_CONTROL_PREFIXES =
     [''rename from '', ''rename to '', ''copy from '', ''copy to '', ''similarity index '',
      ''dissimilarity index '', ''old mode '', ''new mode '', ''new file mode '', ''deleted file mode '',
      ''GIT binary patch'', ''Binary files '']"

definition MAX_PATCH_BYTES :: nat where
  "MAX_PATCH_BYTES = 1048576"

definition section_path :: "(string \<Rightarrow> string) \<Rightarrow> string \<Rightarrow> string list \<Rightarrow> path_error + string" where
  "section_path nfkc header body =
     (case diff_header header of
        None \<Rightarrow> Inl (PatchFormatViolation ''diff header contains an unsupported path encoding'')
      | Some (old, new) \<Rightarrow>
          rbind (normalize_candidate_path nfkc old) (\<lambda>old_path.
          rbind (normalize_candidate_path nfkc new) (\<lambda>new_path.
            if old_path \<noteq> new_path
            then Inl (PatchFormatViolation ''cross-path changes, renames, and copies are forbidden'')
            else if is_protected old_path
            then Inl (PathPolicyViolation (''runner-owned or protected path: '' @ old_path))
            else if \<exists>line \<in> set body. \<exists>p \<in> set UNSAFE_CONTROL_PREFIXES. prefix p line
            then Inl (PatchFormatViolation ''diff contains binary, rename, copy, or mode controls'')
            else (let index_lines = filter (prefix ''index '') body
                  in if length index_lines \<noteq> 1 \<or> \<not> index_line (hd index_lines)
                     then Inl (PatchFormatViolation ''diff must bind one regular-file index line'')
                     else if count_list body (''--- a/'' @ old_path) \<noteq> 1 \<or>
                             count_list body (''+++ b/'' @ new_path) \<noteq> 1
                     then Inl (PatchFormatViolation ''diff file markers do not match the header path'')
                     else if \<not> (\<exists>line \<in> set body. prefix ''@@ '' line)
                     then Inl (PatchFormatViolation ''diff section contains no text hunk'')
                     else Inr old_path))))"

definition section_starts :: "string list \<Rightarrow> nat list" where
  "section_starts lines = filter (\<lambda>i. prefix ''diff '' (lines ! i)) [0..<length lines]"

text \<open>The body of the section that starts at \<open>start\<close>: up to the next start or the last line.\<close>

definition section_body :: "string list \<Rightarrow> nat \<Rightarrow> string list" where
  "section_body lines start =
     takeWhile (\<lambda>line. \<not> prefix ''diff '' line) (drop (Suc start) lines)"

definition derive_patch_paths :: "(string \<Rightarrow> string) \<Rightarrow> string \<Rightarrow> path_error + string list" where
  "derive_patch_paths nfkc patch =
     (if patch = [] then Inl (PatchFormatViolation ''patch bytes must not be empty'')
      else if length patch > MAX_PATCH_BYTES
      then Inl (PatchFormatViolation ''patch exceeds the one-megabyte broker limit'')
      else if CHR 0x00 \<in> set patch then Inl (PatchFormatViolation ''patch bytes contain NUL'')
      else if CHR 0x0D \<in> set patch
      then Inl (PatchFormatViolation ''patch must use canonical LF line endings'')
      else if last patch \<noteq> CHR 0x0A then Inl (PatchFormatViolation ''patch must end with LF'')
      else if \<not> utf8_valid patch then Inl (PatchFormatViolation ''patch must be valid UTF-8'')
      else (let lines = splitlines patch; starts = section_starts lines
            in if starts = [] \<or> hd starts \<noteq> 0
               then Inl (PatchFormatViolation ''patch must start with a diff --git header'')
               else rbind (map_result (\<lambda>start. section_path nfkc (lines ! start) (section_body lines start)) starts)
                 (\<lambda>derived.
                    if \<not> distinct derived
                    then Inl (PatchFormatViolation ''a patch path may appear in only one diff section'')
                    else Inr (sort derived))))"

definition validate_declared_patch_paths ::
  "(string \<Rightarrow> string) \<Rightarrow> repository_view \<Rightarrow> string \<Rightarrow> string list \<Rightarrow> path_error + string list" where
  "validate_declared_patch_paths nfkc root patch declared_paths =
     rbind (derive_patch_paths nfkc patch) (\<lambda>derived.
     rbind (validate_patch_paths nfkc root declared_paths) (\<lambda>declared.
       if declared \<noteq> derived
       then Inl (PathPolicyViolation ''declared paths do not match paths derived from patch bytes'')
       else rbind (validate_patch_paths nfkc root derived) (\<lambda>validated.
         if validated \<noteq> derived
         then Inl (PathPolicyViolation ''derived patch paths are not canonical'')
         else Inr derived)))"

section \<open>Lexical safety of an accepted path\<close>

lemma posix_tail_no_slash: "x \<in> set (posix_tail s) \<Longrightarrow> CHR ''/'' \<notin> set x"
  by (auto simp: posix_tail_def dest: split_on_no_sep)

lemma normalize_candidate_path_same: "normalize_candidate_path nfkc v = Inr p \<Longrightarrow> p = v"
  by (auto simp: normalize_candidate_path_def split: if_splits)

lemma normalize_candidate_path_again:
  "normalize_candidate_path nfkc v = Inr p \<Longrightarrow> normalize_candidate_path nfkc p = Inr p"
  using normalize_candidate_path_same by blast

text \<open>A path that equals its own \<^verbatim>\<open>as_posix\<close> is the join of its parts.\<close>

lemma normal_path_segments:
  assumes "posix_root v = []" and "v = as_posix v" and "v \<noteq> ''.''"
  shows "split_on (CHR ''/'') v = posix_parts v"
proof -
  have ne: "posix_tail v \<noteq> []" and v: "v = join ''/'' (posix_tail v)"
    using assms by (auto simp: as_posix_def split: if_splits)
  have "split_on (CHR ''/'') (join ''/'' (posix_tail v)) = posix_tail v"
    using ne by (intro split_on_join) (auto dest: posix_tail_no_slash)
  then show ?thesis
    using v assms(1) by (simp add: posix_parts_def)
qed

text \<open>A candidate path that the policy accepts is returned unchanged, is NFKC-normal, holds neither
  NUL nor a backslash and starts with neither a slash nor a drive; unless it is the single dot (the
  repository root itself), every segment between its slashes is a proper name: never empty, a dot or
  a double dot, so it cannot traverse.\<close>

theorem accepted_path_is_lexically_safe:
  assumes "normalize_candidate_path nfkc value = Inr p"
  shows "p = value \<and> nfkc p = p \<and> CHR 0x00 \<notin> set p \<and> CHR 0x5C \<notin> set p \<and>
         \<not> prefix ''/'' p \<and> \<not> drive_prefix p \<and>
         (p = ''.'' \<or> (\<forall>s \<in> set (split_on (CHR ''/'') p). s \<notin> {[], ''.'', ''..''}))"
proof -
  have p: "p = value" by (rule normalize_candidate_path_same [OF assms])
  have ok: "nfkc p = p" "CHR 0x00 \<notin> set p" "CHR 0x5C \<notin> set p" "posix_root p = []" "\<not> drive_prefix p"
    "p = as_posix p" "\<forall>part \<in> set (posix_parts p). part \<notin> {[], ''.'', ''..''}"
    using assms by (auto simp: normalize_candidate_path_def p split: if_splits)
  have "\<not> prefix ''/'' p" using ok(4) by (auto simp: posix_root_def split: if_splits)
  moreover have "p = ''.'' \<or> (\<forall>s \<in> set (split_on (CHR ''/'') p). s \<notin> {[], ''.'', ''..''})"
    by (metis normal_path_segments [OF ok(4,6)] ok(7))
  ultimately show ?thesis using p ok(1-3) ok(5) by (intro conjI)
qed

theorem accepted_path_is_lexically_safe_witness:
  "normalize_candidate_path id ''a/b.py'' = Inr ''a/b.py'' \<and>
   ''..'' \<notin> set (split_on (CHR ''/'') ''a/b.py'')"
proof -
  have *: "normalize_candidate_path id ''a/b.py'' = Inr ''a/b.py''"
    by (simp add: normalize_candidate_path_def posix_root_def posix_tail_def posix_parts_def as_posix_def
        windows_absolute_def drive_prefix_def)
  show ?thesis using accepted_path_is_lexically_safe [OF *] * by simp
qed

section \<open>Derived paths\<close>

lemma section_path_eq_Inr:
  assumes "section_path nfkc header body = Inr p"
  shows "diff_header header = Some (p, p) \<and> normalize_candidate_path nfkc p = Inr p \<and> \<not> is_protected p \<and>
         (\<forall>line \<in> set body. \<forall>q \<in> set UNSAFE_CONTROL_PREFIXES. \<not> prefix q line) \<and>
         count_list body (''--- a/'' @ p) = 1 \<and> count_list body (''+++ b/'' @ p) = 1 \<and>
         (\<exists>line \<in> set body. prefix ''@@ '' line)"
proof -
  obtain old new where h: "diff_header header = Some (old, new)"
    using assms by (cases "diff_header header") (auto simp: section_path_def)
  then obtain old_path new_path where
    n: "normalize_candidate_path nfkc old = Inr old_path" "normalize_candidate_path nfkc new = Inr new_path"
    using assms by (auto simp: section_path_def result_simps)
  have "old_path = old" "new_path = new" using n by (simp_all add: normalize_candidate_path_same)
  then show ?thesis
    using assms h n by (auto simp: section_path_def Let_def split: if_splits)
qed

lemma derive_patch_paths_eq_Inr:
  assumes "derive_patch_paths nfkc patch = Inr ps"
  obtains derived where "ps = sort derived" and "distinct derived" and
    "list_all2 (\<lambda>start p. section_path nfkc (splitlines patch ! start) (section_body (splitlines patch) start) = Inr p)
       (section_starts (splitlines patch)) derived" and
    "section_starts (splitlines patch) \<noteq> []" and "hd (section_starts (splitlines patch)) = 0"
  using assms unfolding derive_patch_paths_def
  by (auto simp: Let_def result_simps map_result_eq_Inr split: if_splits)

lemma section_starts_headers:
  "map ((!) lines) (section_starts lines) = filter (prefix ''diff '') lines"
proof -
  have "map ((!) lines) (filter (\<lambda>i. prefix ''diff '' (lines ! i)) is) =
        filter (prefix ''diff '') (map ((!) lines) is)" for "is"
    by (induction "is") auto
  from this [of "[0..<length lines]"] show ?thesis by (simp add: section_starts_def map_nth)
qed

lemma derived_headers:
  assumes "derive_patch_paths nfkc patch = Inr ps"
  obtains derived where "ps = sort derived" and "distinct derived" and "derived \<noteq> []" and
    "map (\<lambda>p. Some (p, p)) derived = map diff_header (filter (prefix ''diff '') (splitlines patch))" and
    "\<forall>p \<in> set derived. normalize_candidate_path nfkc p = Inr p \<and> \<not> is_protected p"
proof -
  let ?lines = "splitlines patch"
  obtain derived where d: "ps = sort derived" "distinct derived"
    and sec: "list_all2 (\<lambda>start p. section_path nfkc (?lines ! start) (section_body ?lines start) = Inr p)
        (section_starts ?lines) derived"
    and ne: "section_starts ?lines \<noteq> []"
    by (rule derive_patch_paths_eq_Inr [OF assms])
  have "list_all2 (\<lambda>start p. diff_header (?lines ! start) = Some (p, p)) (section_starts ?lines) derived"
    by (rule list_all2_mono [OF sec]) (blast dest: section_path_eq_Inr)
  then have "map (\<lambda>p. Some (p, p)) derived = map diff_header (map ((!) ?lines) (section_starts ?lines))"
    by (induction rule: list_all2_induct) auto
  then have hdr: "map (\<lambda>p. Some (p, p)) derived = map diff_header (filter (prefix ''diff '') ?lines)"
    by (simp only: section_starts_headers)
  have "derived \<noteq> []" using sec ne by auto
  moreover have "\<forall>p \<in> set derived. normalize_candidate_path nfkc p = Inr p \<and> \<not> is_protected p"
    using sec by (induction rule: list_all2_induct) (auto dest: section_path_eq_Inr)
  ultimately show ?thesis using that d hdr by blast
qed

text \<open>When the diff reader accepts a patch, its answer is the sorted list, without duplicates, of the
  paths of all its \<^verbatim>\<open>diff\<close> headers: every line that starts a section has a well-formed header whose old and
  new path coincide, every such path is in the answer and nothing else is, and none of them is
  protected or fails the lexical policy.\<close>

theorem derived_paths_are_the_header_paths:
  assumes "derive_patch_paths nfkc patch = Inr ps"
  shows "sorted ps \<and> distinct ps \<and> ps \<noteq> [] \<and>
         image_mset (\<lambda>p. Some (p, p)) (mset ps) =
           image_mset diff_header (mset (filter (prefix ''diff '') (splitlines patch))) \<and>
         (\<forall>p \<in> set ps. normalize_candidate_path nfkc p = Inr p \<and> \<not> is_protected p)"
proof -
  obtain derived where d: "ps = sort derived" "distinct derived" "derived \<noteq> []"
    and hdr: "map (\<lambda>p. Some (p, p)) derived = map diff_header (filter (prefix ''diff '') (splitlines patch))"
    and ok: "\<forall>p \<in> set derived. normalize_candidate_path nfkc p = Inr p \<and> \<not> is_protected p"
    by (rule derived_headers [OF assms])
  have "image_mset (\<lambda>p. Some (p, p)) (mset ps) = mset (map (\<lambda>p. Some (p, p)) derived)"
    using d(1) by simp
  also have "\<dots> = image_mset diff_header (mset (filter (prefix ''diff '') (splitlines patch)))"
    by (simp add: hdr)
  finally show ?thesis
    using d ok by (metis distinct_sort set_empty set_sort sorted_sort)
qed

lemma check_patch_path_eq_Inr:
  "check_patch_path nfkc root v = Inr p \<longleftrightarrow>
     p = v \<and> normalize_candidate_path nfkc v = Inr v \<and> \<not> is_protected v \<and>
     (\<forall>q \<in> set (path_prefixes (posix_parts v)). \<not> is_symlink root q) \<and> resolves_inside root v"
  by (auto simp: check_patch_path_def result_simps dest: normalize_candidate_path_same)

lemma validate_patch_paths_eq_Inr:
  "validate_patch_paths nfkc root vs = Inr ps \<longleftrightarrow>
     vs \<noteq> [] \<and> ps = sort (remdups vs) \<and> (\<forall>v \<in> set vs. check_patch_path nfkc root v = Inr v)"
proof -
  have "list_all2 (\<lambda>x y. check_patch_path nfkc root x = Inr y) vs ws \<longleftrightarrow>
        ws = vs \<and> (\<forall>v \<in> set vs. check_patch_path nfkc root v = Inr v)" for ws
    by (induction vs arbitrary: ws) (auto simp: list_all2_Cons1 check_patch_path_eq_Inr)
  then show ?thesis
    by (auto simp: validate_patch_paths_def result_simps map_result_eq_Inr)
qed

text \<open>C24. The declared paths of a warrant are accepted for its patch bytes exactly when the strict diff
  reader accepts the patch, the declared paths are the derived ones (as a set), and no derived path
  runs through a symlink or resolves outside the live repository; the answer is the derived list.\<close>

theorem declared_paths_equal_derived_paths:
  "validate_declared_patch_paths nfkc root patch declared = Inr ps \<longleftrightarrow>
     derive_patch_paths nfkc patch = Inr ps \<and> set declared = set ps \<and>
     (\<forall>p \<in> set ps. (\<forall>q \<in> set (path_prefixes (posix_parts p)). \<not> is_symlink root q) \<and> resolves_inside root p)"
  (is "?L \<longleftrightarrow> ?R")
proof
  assume ?L
  then obtain d where der: "derive_patch_paths nfkc patch = Inr ps" "d = ps"
    and v: "validate_patch_paths nfkc root declared = Inr d"
    by (auto simp: validate_declared_patch_paths_def result_simps split: if_splits)
  then show ?R by (auto simp: validate_patch_paths_eq_Inr check_patch_path_eq_Inr)
next
  assume r: ?R
  obtain derived where d: "ps = sort derived" "distinct derived" "derived \<noteq> []"
    and ok: "\<forall>p \<in> set derived. normalize_candidate_path nfkc p = Inr p \<and> \<not> is_protected p"
    using r by (elim conjE derived_headers)
  have ne: "declared \<noteq> []" "ps \<noteq> []" using r d by (auto simp flip: set_empty)
  have "sort (remdups declared) = ps"
    using r d by (intro sorted_distinct_set_unique) auto
  moreover have "sort (remdups ps) = ps"
    using d by (simp add: distinct_remdups_id sorted_sort_id)
  ultimately show ?L
    using r d ok ne
    by (auto simp: validate_declared_patch_paths_def validate_patch_paths_eq_Inr check_patch_path_eq_Inr
        result_simps)
qed

section \<open>Example patches\<close>

definition example_lines :: "string list" where
  "example_lines =
     [''diff --git a/m.py b/m.py'', ''index 0000000..1111111 100644'', ''--- a/m.py'', ''+++ b/m.py'',
      ''@@ -1 +1 @@'', ''-x'', ''+y'']"

text \<open>The same section with file markers of a second, protected file after its hunk.\<close>

definition second_file_lines :: "string list" where
  "second_file_lines = example_lines @ [''--- a/docs/x'', ''+++ b/docs/x'', ''@@ -1 +1 @@'', ''-x'', ''+y'']"

definition patch_text :: "string list \<Rightarrow> string" where
  "patch_text ls = concat (map (\<lambda>l. l @ newline) ls)"

lemmas path_eval = normalize_candidate_path_def posix_root_def posix_tail_def posix_parts_def as_posix_def
  windows_absolute_def drive_prefix_def is_protected_def PROTECTED_EXACT_def PROTECTED_PREFIXES_def

lemma derive_one_section:
  assumes "\<forall>l \<in> set (h # body). printable l" and "prefix ''diff '' h" and "\<forall>l \<in> set body. \<not> prefix ''diff '' l"
    and "length (patch_text (h # body)) \<le> MAX_PATCH_BYTES"
    and "section_path nfkc h body = Inr p"
  shows "derive_patch_paths nfkc (patch_text (h # body)) = Inr [p]"
proof -
  let ?t = "patch_text (h # body)"
  have sl: "splitlines ?t = h # body"
    using splitlines_lines [OF assms(1)] by (simp only: patch_text_def)
  have chars: "c = CHR 0x0A \<or> 32 \<le> code c \<and> code c < 127" if "c \<in> set ?t" for c
    using that assms(1) by (auto simp: patch_text_def newline_def printable_def list_all_iff split: if_splits)
  have "is_ascii ?t"
    unfolding is_ascii_def list_all_iff using chars by fastforce
  moreover have "CHR 0x00 \<notin> set ?t" "CHR 0x0D \<notin> set ?t" using chars by force+
  moreover have "last ?t = CHR 0x0A"
    by (cases body rule: rev_cases) (simp_all add: patch_text_def newline_def)
  moreover have "?t \<noteq> []" by (simp add: patch_text_def newline_def)
  moreover have "section_starts (h # body) = [0]"
  proof -
    have "[0..<length (h # body)] = 0 # [1..<Suc (length body)]" by (simp add: upt_rec)
    moreover have "filter (\<lambda>i. prefix ''diff '' ((h # body) ! i)) [1..<Suc (length body)] = []"
      using assms(3) by (auto simp: filter_empty_conv nth_Cons')
    ultimately show ?thesis using assms(2) by (simp add: section_starts_def del: upt_Suc)
  qed
  moreover have "section_body (h # body) 0 = body"
    using assms(3) by (simp add: section_body_def takeWhile_eq_all_conv)
  ultimately show ?thesis
    using assms(4,5) by (simp add: derive_patch_paths_def sl Let_def utf8_valid_ascii)
qed

lemma example_section:
  "section_path id (hd example_lines) (tl example_lines) = Inr ''m.py''"
  "section_path id (hd second_file_lines) (tl second_file_lines) = Inr ''m.py''"
  by (simp_all add: section_path_def second_file_lines_def example_lines_def diff_header_def path_token_def
      ws_len_def index_line_def hex_run_def is_hex_def is_digit_def UNSAFE_CONTROL_PREFIXES_def path_eval Let_def)

lemma example_derived:
  "derive_patch_paths id (patch_text example_lines) = Inr [''m.py'']"
  "derive_patch_paths id (patch_text second_file_lines) = Inr [''m.py'']"
  using derive_one_section [of "hd example_lines" "tl example_lines" id] example_section(1)
    derive_one_section [of "hd second_file_lines" "tl second_file_lines" id] example_section(2)
  by (simp_all add: second_file_lines_def example_lines_def printable_def patch_text_def newline_def MAX_PATCH_BYTES_def)

lemma sample_check_path:
  "check_patch_path id \<lparr>is_symlink = (\<lambda>_. False), resolves_inside = (\<lambda>_. True)\<rparr> ''m.py'' = Inr ''m.py''"
  by (simp add: check_patch_path_def path_eval)

theorem derived_paths_are_the_header_paths_witness:
  "derive_patch_paths id (patch_text example_lines) = Inr [''m.py''] \<and> \<not> is_protected ''m.py''"
  using derived_paths_are_the_header_paths [OF example_derived(1)] example_derived(1) by simp

theorem declared_paths_equal_derived_paths_witness:
  "validate_declared_patch_paths id \<lparr>is_symlink = (\<lambda>_. False), resolves_inside = (\<lambda>_. True)\<rparr>
     (patch_text example_lines) [''m.py'', ''m.py''] = Inr [''m.py'']"
  using example_derived(1) by (subst declared_paths_equal_derived_paths) simp

text \<open>The derived paths are those of the section headers only: a section whose hunk is followed by the
  \<^verbatim>\<open>---\<close>, \<^verbatim>\<open>+++\<close> and \<^verbatim>\<open>@@\<close> markers of a second file, here one below the protected \<^verbatim>\<open>docs/\<close> prefix, is
  accepted with the header's path as the only derived path. The reader alone does not bound what the
  patch changes; the worktree's comparison of the changed paths with the allowed ones does.\<close>

theorem reader_ignores_further_file_markers:
  "is_protected ''docs/x'' \<and>
   ''+++ b/docs/x'' \<in> set (splitlines (patch_text second_file_lines)) \<and>
   derive_patch_paths id (patch_text second_file_lines) = Inr [''m.py'']"
proof (intro conjI)
  show "is_protected ''docs/x''" by (simp add: is_protected_def PROTECTED_PREFIXES_def)
  have "splitlines (patch_text second_file_lines) = second_file_lines"
    unfolding patch_text_def
    by (rule splitlines_lines) (simp add: second_file_lines_def example_lines_def printable_def)
  then show "''+++ b/docs/x'' \<in> set (splitlines (patch_text second_file_lines))"
    by (simp add: second_file_lines_def)
  show "derive_patch_paths id (patch_text second_file_lines) = Inr [''m.py'']" by (rule example_derived(2))
qed

end
