(* ===== verification/CP_Catalog.thy ===== *)
theory CP_Catalog
  imports CP_Domain
begin

text \<open>
  The runner's compile-time execution catalog (\<^verbatim>\<open>runner/catalog.py\<close>) and the receipts of its
  runs (\<^verbatim>\<open>runner/results.py\<close>): the plan record and its digest, the thirteen plans, the import-time
  checks, plan resolution, trusted observations and the pass criterion of a receipt.
  The results: resolution succeeds exactly on the approved identifiers and only without command
  material; a plan's digest determines the plan; a receipt passes only when the supervisor
  verified an exit with status 0.
\<close>

section \<open>Plans\<close>

definition RUNNER_PYTHON :: string where
  "RUNNER_PYTHON = ''/opt/crosspatch/venv/bin/python''"

definition TEST_ROOT :: string where
  "TEST_ROOT = ''/opt/crosspatch/tests''"

definition WORKSPACE :: string where
  "WORKSPACE = ''/workspace''"

definition CANDIDATE_SERVICE :: string where
  "CANDIDATE_SERVICE = ''/opt/crosspatch/candidate_service.py''"

datatype oracle_profile = DUPLICATE_RACE | PAYLOAD_EQUIVALENCE

fun profile_value :: "oracle_profile \<Rightarrow> string" where
  "profile_value DUPLICATE_RACE = ''duplicate-race''"
| "profile_value PAYLOAD_EQUIVALENCE = ''payload-equivalence''"

record execution_plan =
  plan_id :: string
  argv :: "string list"
  working_directory :: string
  timeout_seconds :: int
  expected_counts :: "(int \<times> int \<times> int) option"
  expected_statuses :: "int list option"
  plan_profile :: "oracle_profile option"

definition plan_document :: "execution_plan \<Rightarrow> (string \<times> json) list" where
  "plan_document plan =
     [(''argv'', JArr (map JStr (argv plan))),
      (''expected_counts'',
        (case expected_counts plan of None \<Rightarrow> JNull | Some (a, b, c) \<Rightarrow> JArr [JInt a, JInt b, JInt c])),
      (''plan_id'', JStr (plan_id plan)),
      (''timeout_seconds'', JInt (timeout_seconds plan)),
      (''working_directory'', JStr (working_directory plan))] @
     (case expected_statuses plan of None \<Rightarrow> [] | Some ss \<Rightarrow> [(''expected_statuses'', JArr (map JInt ss))]) @
     (case plan_profile plan of None \<Rightarrow> [] | Some p \<Rightarrow> [(''oracle_profile'', JStr (profile_value p))])"

definition plan_sha256 :: "(string \<Rightarrow> string) \<Rightarrow> execution_plan \<Rightarrow> string" where
  "plan_sha256 sha plan = sha (dumps (JObj (plan_document plan)))"

definition pytest_plan ::
  "string \<Rightarrow> string \<Rightarrow> string \<Rightarrow> int \<Rightarrow> (int \<times> int \<times> int) option \<Rightarrow> int list option
   \<Rightarrow> oracle_profile option \<Rightarrow> execution_plan" where
  "pytest_plan pid test_file test_name timeout counts statuses profile =
     \<lparr>plan_id = pid, argv = [RUNNER_PYTHON, ''-m'', ''pytest'', ''-q'', test_file @ ''::'' @ test_name],
      working_directory = WORKSPACE, timeout_seconds = timeout, expected_counts = counts,
      expected_statuses = statuses, plan_profile = profile\<rparr>"

definition candidate_service_plan ::
  "string \<Rightarrow> int \<times> int \<times> int \<Rightarrow> int list option \<Rightarrow> oracle_profile \<Rightarrow> execution_plan" where
  "candidate_service_plan pid counts statuses profile =
     \<lparr>plan_id = pid, argv = [RUNNER_PYTHON, CANDIDATE_SERVICE], working_directory = WORKSPACE,
      timeout_seconds = 120, expected_counts = Some counts, expected_statuses = statuses,
      plan_profile = Some profile\<rparr>"

definition APPROVED_PLAN_IDS :: "string list" where
  "APPROVED_PLAN_IDS =
     [''victim.single-delivery'', ''victim.sequential-duplicate'', ''victim.distinct-events'',
      ''victim.duplicate-race.affected'', ''victim.duplicate-race.candidate'',
      ''victim.payload-equivalence.affected'', ''victim.payload-equivalence.candidate'',
      ''victim.stress-duplicate-32'', ''victim.stress-distinct-32'', ''victim.hmac-rejection'',
      ''victim.payload-mismatch'', ''victim.worker-retry'', ''policy.protected-paths'']"

definition PLANS :: "execution_plan list" where
  "PLANS =
     [pytest_plan ''victim.single-delivery'' (TEST_ROOT @ ''/victim/test_contract.py'')
        ''test_single_signed_delivery_is_processed_once'' 60 None None None,
      pytest_plan ''victim.sequential-duplicate'' (TEST_ROOT @ ''/victim/test_contract.py'')
        ''test_sequential_duplicate_is_idempotent'' 60 None None None,
      pytest_plan ''victim.distinct-events'' (TEST_ROOT @ ''/victim/test_contract.py'')
        ''test_distinct_event_ids_are_processed_independently'' 60 None None None,
      pytest_plan ''victim.duplicate-race.affected'' (TEST_ROOT @ ''/backend/integration/test_reproduction.py'')
        ''test_affected_revision_reproduces_real_duplicate_delivery'' 60 (Some (1, 2, 2)) None
        (Some DUPLICATE_RACE),
      candidate_service_plan ''victim.duplicate-race.candidate'' (1, 1, 1) None DUPLICATE_RACE,
      pytest_plan ''victim.payload-equivalence.affected''
        (TEST_ROOT @ ''/backend/integration/test_payload_equivalence.py'')
        ''test_affected_revision_rejects_semantically_equivalent_retry'' 60 (Some (1, 1, 1))
        (Some [202, 409, 409]) (Some PAYLOAD_EQUIVALENCE),
      candidate_service_plan ''victim.payload-equivalence.candidate'' (1, 1, 1)
        (Some [202, 200, 409]) PAYLOAD_EQUIVALENCE,
      pytest_plan ''victim.stress-duplicate-32'' (TEST_ROOT @ ''/victim/test_race.py'')
        ''test_thirty_two_duplicate_requests_obey_documented_baseline'' 120 None None None,
      pytest_plan ''victim.stress-distinct-32'' (TEST_ROOT @ ''/victim/test_race.py'')
        ''test_thirty_two_distinct_events_are_not_coalesced'' 120 None None None,
      pytest_plan ''victim.hmac-rejection'' (TEST_ROOT @ ''/victim/test_contract.py'')
        ''test_invalid_hmac_is_rejected_without_database_writes'' 60 None None None,
      pytest_plan ''victim.payload-mismatch'' (TEST_ROOT @ ''/victim/test_contract.py'')
        ''test_reused_event_id_with_different_payload_is_rejected'' 60 None None None,
      pytest_plan ''victim.worker-retry'' (TEST_ROOT @ ''/victim/test_worker_retry.py'')
        ''test_failed_delivery_is_retried_without_losing_the_job'' 60 None None None,
      pytest_plan ''policy.protected-paths'' (TEST_ROOT @ ''/backend/security/test_broker_policy.py'')
        ''test_protected_or_escaping_paths_are_rejected'' 60 None None None]"

text \<open>The checks the module runs when it is imported.\<close>

definition catalog_checks :: bool where
  "catalog_checks \<longleftrightarrow> length APPROVED_PLAN_IDS = 13 \<and> map plan_id PLANS = APPROVED_PLAN_IDS \<and>
     length (remdups (map plan_id PLANS)) = length PLANS"

definition CANDIDATE_PLAN_IDS :: "string list" where
  "CANDIDATE_PLAN_IDS = [''victim.duplicate-race.candidate'', ''victim.payload-equivalence.candidate'']"

datatype catalog_error = UnknownExecutionPlan string | ModelSuppliedCommand string

text \<open>A dict built from the plans keeps the last plan of an identifier.\<close>

definition plan_by_id :: "string \<Rightarrow> execution_plan option" where
  "plan_by_id pid = map_of (rev (map (\<lambda>p. (plan_id p, p)) PLANS)) pid"

definition resolve :: "string \<Rightarrow> pyval option \<Rightarrow> catalog_error + execution_plan" where
  "resolve pid supplied_argv =
     (case plan_by_id pid of
        None \<Rightarrow> Inl (UnknownExecutionPlan pid)
      | Some plan \<Rightarrow>
          (case supplied_argv of None \<Rightarrow> Inr plan | Some _ \<Rightarrow> Inl (ModelSuppliedCommand pid)))"

section \<open>Receipts\<close>

record observation_counts =
  receipts_count :: int
  jobs_count :: int
  deliveries_count :: int

record trusted_observation =
  obs_counts :: observation_counts
  response_statuses :: "int list"

definition observation_valid :: "trusted_observation \<Rightarrow> bool" where
  "observation_valid o' \<longleftrightarrow>
     0 \<le> receipts_count (obs_counts o') \<and> 0 \<le> jobs_count (obs_counts o') \<and>
     0 \<le> deliveries_count (obs_counts o') \<and>
     1 \<le> length (response_statuses o') \<and> length (response_statuses o') \<le> 32 \<and>
     list_all (\<lambda>s. 100 \<le> s \<and> s \<le> 599) (response_statuses o')"

definition observation_py :: "trusted_observation \<Rightarrow> pyval" where
  "observation_py o' =
     py_fields [(''counts'', py_fields [(''receipts'', PyInt (receipts_count (obs_counts o'))),
                   (''jobs'', PyInt (jobs_count (obs_counts o'))),
                   (''deliveries'', PyInt (deliveries_count (obs_counts o')))]),
                (''response_statuses'', PyList (map PyInt (response_statuses o')))]"

definition trusted_observation_digest ::
  "(string \<Rightarrow> string) \<Rightarrow> (string \<Rightarrow> string) \<Rightarrow> trusted_observation \<Rightarrow> canonicalization_error + string" where
  "trusted_observation_digest sha nfc o' = sha256_hex sha nfc (observation_py o')"

definition validate_trusted_observation_digest ::
  "(string \<Rightarrow> string) \<Rightarrow> (string \<Rightarrow> string) \<Rightarrow> trusted_observation option \<Rightarrow> string option
   \<Rightarrow> value_error + unit" where
  "validate_trusted_observation_digest sha nfc observation digest =
     (if (observation = None) \<noteq> (digest = None)
      then Inl (ValueError ''trusted observation and digest must be present together'')
      else (case (observation, digest) of
              (Some o', Some d) \<Rightarrow>
                if trusted_observation_digest sha nfc o' = Inr d then Inr ()
                else Inl (ValueError ''trusted observation digest mismatch'')
            | _ \<Rightarrow> Inr ()))"

record process_receipt =
  receipt_plan_id :: string
  receipt_plan_sha256 :: string
  argv_sha256 :: string
  exit_code :: "int option"
  timed_out :: bool
  started_at :: datetime
  finished_at :: datetime
  stdout_sha256 :: string
  stderr_sha256 :: string
  stdout_bytes :: int
  stderr_bytes :: int
  stdout_truncated :: bool
  stderr_truncated :: bool
  supervisor_verified :: bool
  verification_code :: string
  verification_sha256 :: string
  receipt_observation :: "trusted_observation option"
  receipt_observation_sha256 :: "string option"
  runner_request_sha256 :: string
  runner_service_identity_sha256 :: string
  workspace_provenance_sha256 :: string
  job_provenance_sha256 :: string
  candidate_executor_boot_sha256 :: string
  candidate_executor_replacement_sha256 :: string

definition passed :: "process_receipt \<Rightarrow> bool" where
  "passed r \<longleftrightarrow> supervisor_verified r \<and> \<not> timed_out r \<and> exit_code r = Some 0"

section \<open>Lemmas\<close>

lemmas plan_simps = PLANS_def pytest_plan_def candidate_service_plan_def

lemma plan_ids: "map plan_id PLANS = APPROVED_PLAN_IDS"
  by (simp add: plan_simps APPROVED_PLAN_IDS_def)

lemma distinct_plan_ids: "distinct (map plan_id PLANS)"
  unfolding plan_ids by (simp add: APPROVED_PLAN_IDS_def)

lemma catalog_checks_hold: "catalog_checks"
  unfolding catalog_checks_def
  using distinct_plan_ids plan_ids length_map [of plan_id PLANS]
  by (simp add: distinct_remdups_id) (simp add: APPROVED_PLAN_IDS_def)

lemma plan_by_id_eq:
  "plan_by_id pid = Some p \<longleftrightarrow> p \<in> set PLANS \<and> plan_id p = pid"
proof -
  have "distinct (map fst (rev (map (\<lambda>p. (plan_id p, p)) PLANS)))"
    using distinct_plan_ids by (simp add: rev_map [symmetric] comp_def)
  then show ?thesis unfolding plan_by_id_def by (subst map_of_eq_Some_iff) auto
qed

lemma plan_by_id_None: "plan_by_id pid = None \<longleftrightarrow> pid \<notin> set APPROVED_PLAN_IDS"
proof -
  have "pid \<in> set APPROVED_PLAN_IDS \<longleftrightarrow> (\<exists>p \<in> set PLANS. plan_id p = pid)"
    unfolding plan_ids [symmetric] by auto
  then show ?thesis using plan_by_id_eq [of pid] by (metis not_None_eq)
qed

lemma resolve_eq_Inr: "resolve pid supplied = Inr p \<longleftrightarrow> supplied = None \<and> plan_by_id pid = Some p"
  by (auto simp: resolve_def split: option.splits)

lemma candidate_argv:
  "p \<in> set PLANS \<Longrightarrow> plan_id p \<in> set CANDIDATE_PLAN_IDS \<Longrightarrow> argv p = [RUNNER_PYTHON, CANDIDATE_SERVICE]"
  by (auto simp: plan_simps CANDIDATE_PLAN_IDS_def)

lemma plan_document_ok:
  "distinct (map fst (plan_document p))"
  "list_all (\<lambda>(k, v). canonical_value v) (plan_document p)"
  by (auto simp: plan_document_def list_all_iff split: option.splits)

lemma map_JStr_inject: "map JStr xs = map JStr ys \<longleftrightarrow> xs = ys"
  by (simp add: inj_map_eq_map inj_def)

lemma map_JInt_inject: "map JInt xs = map JInt ys \<longleftrightarrow> xs = ys"
  by (simp add: inj_map_eq_map inj_def)

lemma profile_value_inject: "profile_value a = profile_value b \<longleftrightarrow> a = b"
  by (cases a; cases b) simp_all

lemma plan_document_inject:
  assumes "map_of (plan_document p) = map_of (plan_document q)"
  shows "p = q"
proof -
  have at: "map_of (plan_document p) k = map_of (plan_document q) k" for k
    using assms by simp
  have "argv p = argv q" using at [of "''argv''"] by (simp add: plan_document_def map_JStr_inject)
  moreover have "expected_counts p = expected_counts q"
    using at [of "''expected_counts''"] by (auto simp: plan_document_def split: option.splits)
  moreover have "plan_id p = plan_id q" using at [of "''plan_id''"] by (simp add: plan_document_def)
  moreover have "timeout_seconds p = timeout_seconds q"
    using at [of "''timeout_seconds''"] by (simp add: plan_document_def)
  moreover have "working_directory p = working_directory q"
    using at [of "''working_directory''"] by (simp add: plan_document_def)
  moreover have "expected_statuses p = expected_statuses q"
    using at [of "''expected_statuses''"]
    by (auto simp: plan_document_def map_JInt_inject split: option.splits)
  moreover have "plan_profile p = plan_profile q"
    using at [of "''oracle_profile''"]
    by (auto simp: plan_document_def profile_value_inject split: option.splits)
  ultimately show ?thesis by (intro execution_plan.equality) simp_all
qed

lemma plan_text_inject:
  "dumps (JObj (plan_document p)) = dumps (JObj (plan_document q)) \<Longrightarrow> p = q"
  by (rule plan_document_inject, rule object_text_inject) (simp_all add: plan_document_ok del: dumps.simps)

section \<open>Properties\<close>

text \<open>Only the catalog decides what runs: resolving an identifier succeeds exactly when it is one
  of the thirteen approved ones and the caller supplied no command material, and it gives the unique
  catalogued plan of that identifier; any supplied argument vector is refused. The plans the broker
  may execute are catalogued and run nothing but the fixed candidate service.\<close>

theorem catalog_resolution:
  "(is_ok (resolve pid supplied) \<longleftrightarrow> pid \<in> set APPROVED_PLAN_IDS \<and> supplied = None) \<and>
   (\<forall>p. resolve pid supplied = Inr p \<longrightarrow> p \<in> set PLANS \<and> plan_id p = pid) \<and>
   (\<forall>p \<in> set PLANS. plan_id p \<in> set CANDIDATE_PLAN_IDS \<longrightarrow>
      argv p = [RUNNER_PYTHON, CANDIDATE_SERVICE] \<and> expected_counts p = Some (1, 1, 1))"
proof (intro conjI)
  show "is_ok (resolve pid supplied) \<longleftrightarrow> pid \<in> set APPROVED_PLAN_IDS \<and> supplied = None"
    using plan_by_id_None [of pid] by (auto simp: resolve_def split: option.splits)
  show "\<forall>p. resolve pid supplied = Inr p \<longrightarrow> p \<in> set PLANS \<and> plan_id p = pid"
    by (simp add: resolve_eq_Inr plan_by_id_eq)
  show "\<forall>p \<in> set PLANS. plan_id p \<in> set CANDIDATE_PLAN_IDS \<longrightarrow>
      argv p = [RUNNER_PYTHON, CANDIDATE_SERVICE] \<and> expected_counts p = Some (1, 1, 1)"
    by (simp add: plan_simps CANDIDATE_PLAN_IDS_def)
qed

theorem catalog_resolution_witness:
  "\<exists>p. resolve ''victim.duplicate-race.candidate'' None = Inr p \<and> p \<in> set PLANS \<and>
     argv p = [RUNNER_PYTHON, CANDIDATE_SERVICE]"
proof -
  have "''victim.duplicate-race.candidate'' \<in> set APPROVED_PLAN_IDS"
    "''victim.duplicate-race.candidate'' \<in> set CANDIDATE_PLAN_IDS"
    by (simp_all add: APPROVED_PLAN_IDS_def CANDIDATE_PLAN_IDS_def)
  then show ?thesis
    using catalog_resolution [of "''victim.duplicate-race.candidate''" None]
    by (cases "resolve ''victim.duplicate-race.candidate'' None") auto
qed

text \<open>A plan digest binds the whole plan: two plans with the same SHA-256 over their JSON text
  are equal in every field, legacy plans without statuses or profile included, as long as SHA-256
  does not collide on the two texts.\<close>

theorem plan_digest_binds_plan:
  assumes "plan_sha256 sha p = plan_sha256 sha q"
    and "inj_on sha {dumps (JObj (plan_document p)), dumps (JObj (plan_document q))}"
  shows "p = q"
proof (rule plan_text_inject, rule inj_onD [OF assms(2)])
  show "sha (dumps (JObj (plan_document p))) = sha (dumps (JObj (plan_document q)))"
    using assms(1) unfolding plan_sha256_def .
qed simp_all

theorem plan_digest_binds_plan_witness:
  "candidate_service_plan ''x'' (1, 1, 1) None DUPLICATE_RACE =
   \<lparr>plan_id = ''x'', argv = [RUNNER_PYTHON, CANDIDATE_SERVICE], working_directory = WORKSPACE,
    timeout_seconds = 120, expected_counts = Some (1, 1, 1), expected_statuses = None,
    plan_profile = Some DUPLICATE_RACE\<rparr>"
proof (rule plan_digest_binds_plan [where sha = id])
  show "plan_sha256 id (candidate_service_plan ''x'' (1, 1, 1) None DUPLICATE_RACE) =
    plan_sha256 id \<lparr>plan_id = ''x'', argv = [RUNNER_PYTHON, CANDIDATE_SERVICE],
      working_directory = WORKSPACE, timeout_seconds = 120, expected_counts = Some (1, 1, 1),
      expected_statuses = None, plan_profile = Some DUPLICATE_RACE\<rparr>"
    unfolding candidate_service_plan_def ..
qed (rule inj_on_id)

end
