(* ===== verification/CP_JsonParse.thy ===== *)
theory CP_JsonParse
  imports CP_Json
begin

text \<open>
  Strict JSON input as the broker reads it: \<^verbatim>\<open>json.loads(raw, object_pairs_hook=...)\<close> with the
  duplicate-key hook that \<^verbatim>\<open>broker/warrant.py\<close>, \<^verbatim>\<open>broker/approval.py\<close> and \<^verbatim>\<open>broker/store.py\<close> share.
  The scanner follows the standard library: string escapes with surrogate pairs, numbers, the
  three constants, whitespace, extra data. A float is kept as its literal. Lone surrogates are the
  three-byte forms that \<^verbatim>\<open>surrogatepass\<close> gives them. Input in a UTF-16 or UTF-32 encoding, which
  \<^verbatim>\<open>json.loads\<close> would also decode, is reported as one error: canonical bytes are never in one.
  The result: the scanner reads every canonical text back to the value it was printed from.
\<close>

datatype json_error =
    JSONDecodeError
  | UnicodeDecodeError
  | WideEncoding
  | IntegerDigitLimit
  | DuplicateKeyError string

section \<open>Strings\<close>

definition is_ws :: "char \<Rightarrow> bool" where
  "is_ws c \<longleftrightarrow> c \<in> {CHR '' '', CHR 0x09, CHR 0x0A, CHR 0x0D}"

definition skip_ws :: "string \<Rightarrow> string" where
  "skip_ws s = dropWhile is_ws s"

definition hex_value :: "char \<Rightarrow> nat option" where
  "hex_value c =
     (if is_digit c then Some (code c - 48)
      else if 97 \<le> code c \<and> code c \<le> 102 then Some (code c - 87)
      else if 65 \<le> code c \<and> code c \<le> 70 then Some (code c - 55)
      else None)"

definition hex4 :: "string \<Rightarrow> (nat \<times> string) option" where
  "hex4 s =
     (case s of
        a # b # c # d # r \<Rightarrow>
          (case (hex_value a, hex_value b, hex_value c, hex_value d) of
             (Some w, Some x, Some y, Some z) \<Rightarrow> Some (4096 * w + 256 * x + 16 * y + z, r)
           | _ \<Rightarrow> None)
      | _ \<Rightarrow> None)"

text \<open>The bytes of a code point, surrogates included.\<close>

definition utf8_encode :: "nat \<Rightarrow> string" where
  "utf8_encode n =
     (if n < 128 then [char_of n]
      else if n < 2048 then [char_of (192 + n div 64), char_of (128 + n mod 64)]
      else if n < 65536
      then [char_of (224 + n div 4096), char_of (128 + n div 64 mod 64), char_of (128 + n mod 64)]
      else [char_of (240 + n div 262144), char_of (128 + n div 4096 mod 64), char_of (128 + n div 64 mod 64),
            char_of (128 + n mod 64)])"

definition is_high_surrogate :: "nat \<Rightarrow> bool" where
  "is_high_surrogate n \<longleftrightarrow> 55296 \<le> n \<and> n \<le> 56319"

definition is_low_surrogate :: "nat \<Rightarrow> bool" where
  "is_low_surrogate n \<longleftrightarrow> 56320 \<le> n \<and> n \<le> 57343"

definition unicode_escape :: "string \<Rightarrow> (string \<times> string) option" where
  "unicode_escape s =
     (case hex4 s of
        None \<Rightarrow> None
      | Some (n, r) \<Rightarrow>
          if is_high_surrogate n \<and> prefix [CHR 0x5C, CHR ''u''] r
          then (case hex4 (drop 2 r) of
                  None \<Rightarrow> None
                | Some (m, r') \<Rightarrow>
                    if is_low_surrogate m
                    then Some (utf8_encode (65536 + 1024 * (n - 55296) + (m - 56320)), r')
                    else Some (utf8_encode n, r))
          else Some (utf8_encode n, r))"

text \<open>What a backslash starts: the decoded bytes and the remaining text.\<close>

definition decode_escape :: "string \<Rightarrow> (string \<times> string) option" where
  "decode_escape s =
     (case s of [] \<Rightarrow> None
      | e # r \<Rightarrow>
          if e = CHR 0x22 \<or> e = CHR 0x5C \<or> e = CHR ''/'' then Some ([e], r)
          else if e = CHR ''b'' then Some ([CHR 0x08], r)
          else if e = CHR ''f'' then Some ([CHR 0x0C], r)
          else if e = CHR ''n'' then Some ([CHR 0x0A], r)
          else if e = CHR ''r'' then Some ([CHR 0x0D], r)
          else if e = CHR ''t'' then Some ([CHR 0x09], r)
          else if e = CHR ''u'' then unicode_escape r
          else None)"

lemma hex4_shorter: "hex4 s = Some (n, r) \<Longrightarrow> length r < length s"
  by (auto simp: hex4_def split: list.splits option.splits)

lemma unicode_escape_shorter: "unicode_escape s = Some (t, r) \<Longrightarrow> length r < length s"
  by (fastforce simp: unicode_escape_def dest: hex4_shorter split: option.splits if_splits)

lemma decode_escape_shorter: "decode_escape s = Some (t, r) \<Longrightarrow> length r < length s"
  by (auto simp: decode_escape_def dest: unicode_escape_shorter split: list.splits if_splits)

text \<open>The text after an opening quote: its value and what follows the closing quote.\<close>

function scan_string :: "string \<Rightarrow> (string \<times> string) option" where
  "scan_string [] = None"
| "scan_string (c # cs) =
     (if c = CHR 0x22 then Some ([], cs)
      else if c = CHR 0x5C
      then (case decode_escape cs of
              None \<Rightarrow> None
            | Some (t, r) \<Rightarrow>
                (case scan_string r of None \<Rightarrow> None | Some (t', r') \<Rightarrow> Some (t @ t', r')))
      else if code c < 32 then None
      else (case scan_string cs of None \<Rightarrow> None | Some (t', r') \<Rightarrow> Some (c # t', r')))"
  by pat_completeness auto
termination
  by (relation "measure length") (auto dest: decode_escape_shorter)

section \<open>Numbers\<close>

definition read_nat :: "string \<Rightarrow> nat" where
  "read_nat s = foldl (\<lambda>n c. 10 * n + (code c - 48)) 0 s"

definition fraction_part :: "string \<Rightarrow> string" where
  "fraction_part s =
     (case s of c # d # _ \<Rightarrow> if c = CHR ''.'' \<and> is_digit d then c # takeWhile is_digit (tl s) else []
      | _ \<Rightarrow> [])"

definition exponent_part :: "string \<Rightarrow> string" where
  "exponent_part s =
     (case s of [] \<Rightarrow> []
      | c # r \<Rightarrow>
          if c = CHR ''e'' \<or> c = CHR ''E''
          then (let sign = (if prefix ''+'' r \<or> prefix ''-'' r then [hd r] else []);
                    digits = takeWhile is_digit (drop (length sign) r)
                in if digits = [] then [] else c # sign @ digits)
          else [])"

definition MAX_INT_DIGITS :: nat where
  "MAX_INT_DIGITS = 4300"

definition int_digits :: "string \<Rightarrow> string" where
  "int_digits r = (if prefix ''0'' r then ''0'' else takeWhile is_digit r)"

definition scan_number :: "string \<Rightarrow> json_error + (json \<times> string)" where
  "scan_number s =
     (let sign = (if prefix ''-'' s then ''-'' else []); r = drop (length sign) s;
          digits = int_digits r; r1 = drop (length digits) r;
          frac = fraction_part r1; r2 = drop (length frac) r1;
          ex = exponent_part r2; r3 = drop (length ex) r2
      in if digits = [] then Inl JSONDecodeError
         else if frac \<noteq> [] \<or> ex \<noteq> [] then Inr (JFloat (sign @ digits @ frac @ ex), r3)
         else if length digits > MAX_INT_DIGITS then Inl IntegerDigitLimit
         else Inr (JInt (if sign = [] then int (read_nat digits) else - int (read_nat digits)), r1))"

section \<open>Values\<close>

fun first_duplicate :: "string set \<Rightarrow> (string \<times> json) list \<Rightarrow> string option" where
  "first_duplicate seen [] = None"
| "first_duplicate seen ((k, v) # kvs) =
     (if k \<in> seen then Some k else first_duplicate (insert k seen) kvs)"

definition reject_duplicate_pairs :: "(string \<times> json) list \<Rightarrow> json_error + json" where
  "reject_duplicate_pairs pairs =
     (case first_duplicate {} pairs of None \<Rightarrow> Inr (JObj pairs) | Some k \<Rightarrow> Inl (DuplicateKeyError k))"

text \<open>Without a hook an object is \<^verbatim>\<open>dict(pairs)\<close>: a repeated key keeps its first place and its last value.\<close>

fun put_pair :: "string \<Rightarrow> json \<Rightarrow> (string \<times> json) list \<Rightarrow> (string \<times> json) list" where
  "put_pair k v [] = [(k, v)]"
| "put_pair k v ((l, w) # kvs) = (if l = k then (l, v) # kvs else (l, w) # put_pair k v kvs)"

definition dict_of_pairs :: "(string \<times> json) list \<Rightarrow> json_error + json" where
  "dict_of_pairs pairs = Inr (JObj (fold (\<lambda>(k, v). put_pair k v) pairs []))"

type_synonym pairs_hook = "(string \<times> json) list \<Rightarrow> json_error + json"

text \<open>The scanner, with what makes a value of an object's pairs. The length tests in the recursive calls always hold (\<open>scan_shorter\<close> below); they make the
  recursion well-founded by sight.\<close>

function scan_value :: "pairs_hook \<Rightarrow> string \<Rightarrow> json_error + (json \<times> string)"
  and scan_array :: "pairs_hook \<Rightarrow> string \<Rightarrow> json_error + (json list \<times> string)"
  and scan_pairs :: "pairs_hook \<Rightarrow> string \<Rightarrow> json_error + ((string \<times> json) list \<times> string)"
where
  "scan_value hook s =
     (case s of [] \<Rightarrow> Inl JSONDecodeError
      | c # cs \<Rightarrow>
          if c = CHR 0x22
          then (case scan_string cs of None \<Rightarrow> Inl JSONDecodeError | Some (t, r) \<Rightarrow> Inr (JStr t, r))
          else if c = CHR ''{''
          then (let cs' = skip_ws cs
                in if length cs' < length s
                   then (if prefix ''}'' cs' then rbind (hook []) (\<lambda>v. Inr (v, tl cs'))
                         else rbind (scan_pairs hook cs') (\<lambda>(kvs, r).
                                rbind (hook kvs) (\<lambda>v. Inr (v, r))))
                   else Inl JSONDecodeError)
          else if c = CHR ''[''
          then (let cs' = skip_ws cs
                in if length cs' < length s
                   then (if prefix '']'' cs' then Inr (JArr [], tl cs')
                         else rbind (scan_array hook cs') (\<lambda>(vs, r). Inr (JArr vs, r)))
                   else Inl JSONDecodeError)
          else if prefix ''null'' s then Inr (JNull, drop 4 s)
          else if prefix ''true'' s then Inr (JBool True, drop 4 s)
          else if prefix ''false'' s then Inr (JBool False, drop 5 s)
          else if prefix ''NaN'' s then Inr (JFloat ''NaN'', drop 3 s)
          else if prefix ''Infinity'' s then Inr (JFloat ''Infinity'', drop 8 s)
          else if prefix ''-Infinity'' s then Inr (JFloat ''-Infinity'', drop 9 s)
          else scan_number s)"
| "scan_array hook s =
     rbind (scan_value hook s) (\<lambda>(v, r).
       let r1 = skip_ws r; r2 = skip_ws (tl r1)
       in if prefix '']'' r1 then Inr ([v], tl r1)
          else if prefix '','' r1 \<and> length r2 < length s
          then rbind (scan_array hook r2) (\<lambda>(vs, r3). Inr (v # vs, r3))
          else Inl JSONDecodeError)"
| "scan_pairs hook s =
     (if \<not> prefix [CHR 0x22] s then Inl JSONDecodeError
      else (case scan_string (tl s) of
              None \<Rightarrow> Inl JSONDecodeError
            | Some (k, r) \<Rightarrow>
                (let r1 = skip_ws r; r2 = skip_ws (tl r1)
                 in if prefix '':'' r1 \<and> length r2 < length s
                    then rbind (scan_value hook r2) (\<lambda>(v, r3).
                      let r4 = skip_ws r3; r5 = skip_ws (tl r4)
                      in if prefix ''}'' r4 then Inr ([(k, v)], tl r4)
                         else if prefix '','' r4 \<and> length r5 < length s
                         then rbind (scan_pairs hook r5) (\<lambda>(kvs, r6). Inr ((k, v) # kvs, r6))
                         else Inl JSONDecodeError)
                    else Inl JSONDecodeError)))"
  by pat_completeness auto
termination
  by (relation "measure (\<lambda>x. case x of Inl (hook, s) \<Rightarrow> 2 * length s | Inr (Inl (hook, s)) \<Rightarrow> Suc (2 * length s)
        | Inr (Inr (hook, s)) \<Rightarrow> Suc (2 * length s))") auto

declare scan_value.simps [simp del] scan_array.simps [simp del] scan_pairs.simps [simp del]

abbreviation scan_once :: "string \<Rightarrow> json_error + (json \<times> string)" where
  "scan_once \<equiv> scan_value reject_duplicate_pairs"

abbreviation scan_elements :: "string \<Rightarrow> json_error + (json list \<times> string)" where
  "scan_elements \<equiv> scan_array reject_duplicate_pairs"

abbreviation scan_members :: "string \<Rightarrow> json_error + ((string \<times> json) list \<times> string)" where
  "scan_members \<equiv> scan_pairs reject_duplicate_pairs"

section \<open>loads\<close>

definition BOM_UTF8 :: string where
  "BOM_UTF8 = [CHR 0xEF, CHR 0xBB, CHR 0xBF]"

text \<open>The cases of \<^verbatim>\<open>json.detect_encoding\<close> that are not UTF-8: a wide byte-order mark, or a NUL among the
  first two bytes.\<close>

definition wide_encoding :: "string \<Rightarrow> bool" where
  "wide_encoding b \<longleftrightarrow>
     (case b of
        x # y # _ \<Rightarrow> (x = CHR 0xFE \<and> y = CHR 0xFF) \<or> (x = CHR 0xFF \<and> y = CHR 0xFE) \<or>
                     (length b \<noteq> 3 \<and> (x = CHR 0x00 \<or> y = CHR 0x00))
      | _ \<Rightarrow> False)"

definition loads :: "string \<Rightarrow> json_error + json" where
  "loads raw =
     (if wide_encoding raw then Inl WideEncoding
      else if \<not> utf8_decodable True raw then Inl UnicodeDecodeError
      else (let t = (if prefix BOM_UTF8 raw then drop 3 raw else raw)
            in rbind (scan_once (skip_ws t)) (\<lambda>(v, r).
                 if skip_ws r = [] then Inr v else Inl JSONDecodeError)))"

text \<open>\<^verbatim>\<open>json.loads\<close> of a text that is already decoded.\<close>

definition loads_text :: "string \<Rightarrow> json_error + json" where
  "loads_text t = rbind (scan_once (skip_ws t)) (\<lambda>(v, r). if skip_ws r = [] then Inr v else Inl JSONDecodeError)"

text \<open>\<^verbatim>\<open>json.loads\<close> of a text, with no hook.\<close>

definition loads_plain :: "string \<Rightarrow> json_error + json" where
  "loads_plain t =
     rbind (scan_value dict_of_pairs (skip_ws t)) (\<lambda>(v, r). if skip_ws r = [] then Inr v else Inl JSONDecodeError)"

section \<open>Printed strings and numbers are read back\<close>

lemma hex_value_digit: "n < 16 \<Longrightarrow> hex_value (hex_digit n) = Some n"
  by (auto simp: hex_value_def hex_digit_def is_digit_def)

lemma unicode_escape_control:
  assumes "code c < 32"
  shows "unicode_escape (CHR ''0'' # CHR ''0'' # hex_digit (code c div 16) # hex_digit (code c mod 16) # r) = Some ([c], r)"
proof -
  have "hex_value (CHR ''0'') = Some 0" by (simp add: hex_value_def is_digit_def)
  moreover have "code c div 16 < 16" "code c mod 16 < 16" using assms by auto
  moreover have "16 * (code c div 16) + code c mod 16 = code c" by simp
  ultimately have "hex4 (CHR ''0'' # CHR ''0'' # hex_digit (code c div 16) # hex_digit (code c mod 16) # r) = Some (code c, r)"
    by (simp add: hex4_def hex_value_digit)
  then show ?thesis
    using assms by (simp add: unicode_escape_def is_high_surrogate_def utf8_encode_def)
qed

lemma scan_string_escape:
  "scan_string (escape_char c @ r) = (case scan_string r of None \<Rightarrow> None | Some (t, r') \<Rightarrow> Some (c # t, r'))"
  by (simp add: escape_char_def decode_escape_def unicode_escape_control split: option.splits)

lemma scan_string_quoted: "scan_string (concat (map escape_char t) @ CHR 0x22 # r) = Some (t, r)"
  by (induction t) (simp_all add: scan_string_escape)

lemma read_nat_snoc: "read_nat (s @ [c]) = 10 * read_nat s + (code c - 48)"
  by (simp add: read_nat_def)

lemma read_nat_show: "read_nat (show_nat n) = n"
proof (induction n rule: show_nat.induct)
  case (1 n)
  show ?case
  proof (cases "n < 10")
    case True
    then show ?thesis by (subst show_nat.simps) (simp add: read_nat_def)
  next
    case False
    then show ?thesis
      using 1 by (subst show_nat.simps) (simp add: read_nat_snoc)
  qed
qed

lemma digit_zero: "digit 0 = CHR ''0''"
  by code_simp

lemma show_nat_leading_zero: "n \<noteq> 0 \<Longrightarrow> hd (show_nat n) \<noteq> CHR ''0''"
proof (induction n rule: show_nat.induct)
  case (1 n)
  show ?case
  proof (cases "n < 10")
    case True
    then show ?thesis
      using 1 digit_inject [of n 0] by (subst show_nat.simps) (simp add: digit_zero)
  next
    case False
    then have "hd (show_nat n) = hd (show_nat (n div 10))"
      by (subst show_nat.simps) simp
    then show ?thesis using 1 False by simp
  qed
qed

lemma delimited_not_number:
  assumes "delimited r"
  shows "takeWhile is_digit r = []" "fraction_part r = []" "exponent_part r = []"
  using assms by (cases r; auto simp: delimited_def is_digit_def fraction_part_def exponent_part_def
      split: list.splits)+

lemma number_digits:
  assumes "delimited r"
  shows "int_digits (show_nat n @ r) = show_nat n"
proof (cases "n = 0")
  case True
  then show ?thesis by (simp add: show_nat.simps digit_zero int_digits_def)
next
  case False
  have "takeWhile is_digit (show_nat n @ r) = show_nat n"
    using show_nat_digits [of n] delimited_not_number(1) [OF assms]
    by (simp add: list_all_iff takeWhile_append2)
  then show ?thesis
    using show_nat_leading_zero [OF False] by (cases "show_nat n") (auto simp: int_digits_def)
qed

lemma show_nat_no_minus: "\<not> prefix ''-'' (show_nat n @ r)"
  using show_nat_digits [of n] by (cases "show_nat n") auto

lemma scan_number_show_int:
  assumes "delimited r" "length (show_nat (nat \<bar>i\<bar>)) \<le> MAX_INT_DIGITS"
  shows "scan_number (show_int i @ r) = Inr (JInt i, r)"
proof (cases "i < 0")
  case True
  with assms show ?thesis
    by (simp add: scan_number_def show_int_def number_digits delimited_not_number read_nat_show Let_def)
next
  case False
  with assms show ?thesis
    by (simp add: scan_number_def show_int_def number_digits delimited_not_number read_nat_show
        show_nat_no_minus Let_def)
qed

section \<open>Printed values are read back\<close>

text \<open>Values whose numbers are integers that \<^verbatim>\<open>int()\<close> accepts.\<close>

fun integral :: "json \<Rightarrow> bool" where
  "integral (JInt i) \<longleftrightarrow> length (show_nat (nat \<bar>i\<bar>)) \<le> MAX_INT_DIGITS"
| "integral (JFloat s) \<longleftrightarrow> False"
| "integral (JObj kvs) \<longleftrightarrow> list_all (\<lambda>(k, v). integral v) kvs"
| "integral (JArr vs) \<longleftrightarrow> list_all integral vs"
| "integral _ \<longleftrightarrow> True"

definition reads_back :: "json \<Rightarrow> bool" where
  "reads_back v \<longleftrightarrow> (\<forall>r. delimited r \<longrightarrow> scan_once (dumps v @ r) = Inr (v, r)) \<and>
     dumps v \<noteq> [] \<and> \<not> is_ws (hd (dumps v)) \<and> hd (dumps v) \<notin> set '',]}''"

lemma skip_ws_simps [simp]:
  "skip_ws [] = []" "skip_ws (c # s) = (if is_ws c then skip_ws s else c # s)"
  by (simp_all add: skip_ws_def)

lemma is_ws_simps [simp]:
  "\<not> is_ws CHR '',''" "\<not> is_ws CHR ''[''" "\<not> is_ws CHR '']''" "\<not> is_ws CHR ''{''" "\<not> is_ws CHR ''}''"
  "\<not> is_ws CHR '':''" "\<not> is_ws CHR 0x22"
  by (simp_all add: is_ws_def)

lemma skip_ws_value: "reads_back v \<Longrightarrow> skip_ws (dumps v @ r) = dumps v @ r"
  by (cases "dumps v") (auto simp: reads_back_def)

lemma skip_ws_values:
  "vs \<noteq> [] \<Longrightarrow> \<forall>v \<in> set vs. reads_back v \<Longrightarrow>
   skip_ws (join '','' (map dumps vs) @ r) = join '','' (map dumps vs) @ r"
  by (cases vs; cases "tl vs") (auto simp: skip_ws_value)

lemma scan_elements_text:
  "vs \<noteq> [] \<Longrightarrow> \<forall>v \<in> set vs. reads_back v \<Longrightarrow>
   scan_elements (join '','' (map dumps vs) @ CHR '']'' # x) = Inr (vs, x)"
proof (induction vs)
  case Nil
  then show ?case by simp
next
  case (Cons v vs)
  let ?s = "dumps v @ sequence_tail dumps (CHR '']'') vs x"
  have once: "scan_once ?s = Inr (v, sequence_tail dumps (CHR '']'') vs x)"
    using Cons.prems(2) by (simp add: reads_back_def sequence_tail_delimited)
  have "scan_elements ?s = Inr (v # vs, x)"
  proof (cases "vs = []")
    case True
    then show ?thesis
      using once by (subst scan_array.simps) (simp add: sequence_tail_def Let_def)
  next
    case False
    have "dumps v \<noteq> []" using Cons.prems(2) by (simp add: reads_back_def)
    then show ?thesis
      using once Cons False
      by (subst scan_array.simps) (simp add: sequence_tail_def skip_ws_values Let_def)
  qed
  then show ?case by (simp only: sequence_Cons)
qed

lemma member_json_text: "member_json (k, v) = CHR 0x22 # concat (map escape_char k) @ CHR 0x22 # CHR '':'' # dumps v"
  by (simp add: member_json_def member_text_def quote_def)

lemma skip_ws_members:
  "kvs \<noteq> [] \<Longrightarrow> skip_ws (join '','' (map member_json kvs) @ r) = join '','' (map member_json kvs) @ r"
  by (cases kvs; cases "tl kvs") (auto simp: member_json_text)

lemma scan_members_text:
  "kvs \<noteq> [] \<Longrightarrow> \<forall>(k, v) \<in> set kvs. reads_back v \<Longrightarrow>
   scan_members (join '','' (map member_json kvs) @ CHR ''}'' # x) = Inr (kvs, x)"
proof (induction kvs)
  case Nil
  then show ?case by simp
next
  case (Cons kv kvs)
  obtain k v where kv: "kv = (k, v)" by fastforce
  let ?t = "sequence_tail member_json (CHR ''}'') kvs x"
  have v: "reads_back v" using Cons.prems(2) kv by auto
  then have once: "scan_once (dumps v @ ?t) = Inr (v, ?t)"
    by (simp add: reads_back_def sequence_tail_delimited)
  have "scan_members (member_json (k, v) @ ?t) = Inr ((k, v) # kvs, x)"
  proof (cases "kvs = []")
    case True
    then show ?thesis
      using once v by (subst scan_pairs.simps)
        (simp add: member_json_text scan_string_quoted skip_ws_value sequence_tail_def Let_def)
  next
    case False
    then have "scan_members (join '','' (map member_json kvs) @ CHR ''}'' # x) = Inr (kvs, x)"
      using Cons by auto
    then show ?thesis
      using once v False by (subst scan_pairs.simps)
        (simp add: member_json_text scan_string_quoted skip_ws_value skip_ws_members sequence_tail_def Let_def)
  qed
  then show ?case by (simp only: kv sequence_Cons)
qed

lemma first_duplicate_None:
  "first_duplicate seen kvs = None \<longleftrightarrow> distinct (map fst kvs) \<and> seen \<inter> set (map fst kvs) = {}"
  by (induction seen kvs rule: first_duplicate.induct) auto

lemma reject_duplicate_pairs_distinct:
  "reject_duplicate_pairs kvs = (if distinct (map fst kvs) then Inr (JObj kvs)
     else Inl (DuplicateKeyError (the (first_duplicate {} kvs))))"
  using first_duplicate_None [of "{}" kvs]
  by (auto simp: reject_duplicate_pairs_def split: option.splits)

text \<open>What the duplicate-key hook accepts, the plain reader reads as the same value.\<close>

lemma put_pair_new: "k \<notin> fst ` set kvs \<Longrightarrow> put_pair k v kvs = kvs @ [(k, v)]"
  by (induction kvs) auto

lemma fold_put_pair:
  "distinct (map fst kvs) \<Longrightarrow> fst ` set kvs \<inter> fst ` set acc = {} \<Longrightarrow> fold (\<lambda>(k, v). put_pair k v) kvs acc = acc @ kvs"
  by (induction kvs arbitrary: acc) (auto simp: put_pair_new)

lemma reject_duplicate_pairs_dict: "reject_duplicate_pairs kvs = Inr v \<Longrightarrow> dict_of_pairs kvs = Inr v"
  by (auto simp: reject_duplicate_pairs_distinct dict_of_pairs_def fold_put_pair split: if_splits)

definition scans_within :: "pairs_hook \<Rightarrow> pairs_hook \<Rightarrow> string \<Rightarrow> bool" where
  "scans_within hook hook' s \<longleftrightarrow>
     (\<forall>x. scan_value hook s = Inr x \<longrightarrow> scan_value hook' s = Inr x) \<and>
     (\<forall>x. scan_array hook s = Inr x \<longrightarrow> scan_array hook' s = Inr x) \<and>
     (\<forall>x. scan_pairs hook s = Inr x \<longrightarrow> scan_pairs hook' s = Inr x)"

lemma rbind_within:
  assumes "rbind m f = Inr y" "\<And>x. m = Inr x \<Longrightarrow> m' = Inr x" "\<And>x. m = Inr x \<Longrightarrow> f x = Inr y \<Longrightarrow> f' x = Inr y"
  shows "rbind m' f' = Inr y"
  using assms by (auto simp: rbind_eq_Inr)

lemma scan_value_within:
  assumes hooks: "\<And>kvs v. hook kvs = Inr v \<Longrightarrow> hook' kvs = Inr v"
    and short: "\<And>r. length r < length s \<Longrightarrow> scans_within hook hook' r" and "scan_value hook s = Inr x"
  shows "scan_value hook' s = Inr x"
proof (cases s)
  case Nil
  then show ?thesis using assms(3) by (simp add: scan_value.simps)
next
  case (Cons c cs)
  let ?r = "skip_ws cs"
  have within: "scan_pairs hook ?r = Inr y \<Longrightarrow> scan_pairs hook' ?r = Inr y"
    "scan_array hook ?r = Inr z \<Longrightarrow> scan_array hook' ?r = Inr z" if "length ?r < length s" for y z
    using short [OF that] by (simp_all add: scans_within_def)
  consider "c = CHR ''{''" | "c = CHR ''[''" | "c \<noteq> CHR ''{''" "c \<noteq> CHR ''[''" by blast
  then show ?thesis
  proof cases
    case 1
    then show ?thesis
      using assms(3) within Cons unfolding scan_value.simps [of _ s]
      by (auto simp: Let_def elim!: rbind_within intro: hooks split: if_splits)
  next
    case 2
    then show ?thesis
      using assms(3) within Cons unfolding scan_value.simps [of _ s]
      by (auto simp: Let_def elim!: rbind_within split: if_splits)
  next
    case 3
    then have "scan_value hook' s = scan_value hook s"
      unfolding Cons scan_value.simps [of hook "c # cs"] scan_value.simps [of hook' "c # cs"] by (simp only: list.case if_False)
    then show ?thesis using assms(3) by simp
  qed
qed

lemma scan_array_within:
  assumes "\<And>r. length r < length s \<Longrightarrow> scans_within hook hook' r"
    and "\<And>x. scan_value hook s = Inr x \<Longrightarrow> scan_value hook' s = Inr x" and "scan_array hook s = Inr x"
  shows "scan_array hook' s = Inr x"
proof -
  have "rbind (scan_array hook r) f = Inr x \<Longrightarrow> rbind (scan_array hook' r) f = Inr x" if "length r < length s" for r f
    using assms(1) [OF that] by (auto simp: scans_within_def elim!: rbind_within)
  then show ?thesis
    using assms(3) unfolding scan_array.simps [of _ s]
    by (elim rbind_within) (auto simp: assms(2) Let_def split: if_splits prod.splits)
qed

lemma scan_pairs_within:
  assumes "\<And>r. length r < length s \<Longrightarrow> scans_within hook hook' r" and "scan_pairs hook s = Inr x"
  shows "scan_pairs hook' s = Inr x"
proof -
  have v: "rbind (scan_value hook' r) g = Inr x"
    if "rbind (scan_value hook r) f = Inr x" "length r < length s" "\<And>y. f y = Inr x \<Longrightarrow> g y = Inr x" for r f g
    using assms(1) [OF that(2)] that(1,3) by (auto simp: scans_within_def elim!: rbind_within)
  have p: "rbind (scan_pairs hook r) f = Inr x \<Longrightarrow> rbind (scan_pairs hook' r) f = Inr x" if "length r < length s" for r f
    using assms(1) [OF that] by (auto simp: scans_within_def elim!: rbind_within)
  show ?thesis
    using assms(2) unfolding scan_pairs.simps [of _ s]
    by (auto simp: Let_def intro: p elim!: v split: if_splits option.splits prod.splits)
qed

lemma scans_within:
  assumes "\<And>kvs v. hook kvs = Inr v \<Longrightarrow> hook' kvs = Inr v"
  shows "scans_within hook hook' s"
proof (induction s rule: length_induct)
  case (1 s)
  have "scan_value hook s = Inr x \<Longrightarrow> scan_value hook' s = Inr x" for x
    by (rule scan_value_within [OF assms]) (use 1 in auto)
  then show ?case
    using 1 scan_array_within [of s hook hook'] scan_pairs_within [of s hook hook'] unfolding scans_within_def [of _ _ s]
    by blast
qed

lemma loads_text_plain:
  assumes "loads_text t = Inr v"
  shows "loads_plain t = Inr v"
  using assms scans_within [of reject_duplicate_pairs dict_of_pairs, OF reject_duplicate_pairs_dict]
  unfolding loads_text_def loads_plain_def scans_within_def by (elim rbind_within) auto

lemma reads_back_scalars: "reads_back JNull" "reads_back (JBool b)" "reads_back (JStr t)"
  by (simp_all add: reads_back_def scan_value.simps quote_def scan_string_quoted is_ws_def)

lemma reads_back_JInt:
  assumes "integral (JInt i)"
  shows "reads_back (JInt i)"
proof -
  obtain c s where cs: "show_int i = c # s" by (cases "show_int i") auto
  then have c: "is_digit c \<or> c = CHR ''-''" using show_int_head [of i] by simp
  then have "c \<noteq> CHR 0x22" "c \<noteq> CHR ''{''" "c \<noteq> CHR ''[''" "c \<noteq> CHR ''n''" "c \<noteq> CHR ''t''" "c \<noteq> CHR ''f''"
    "c \<noteq> CHR ''N''" "c \<noteq> CHR ''I''" "\<not> is_ws c" "c \<notin> set '',]}''"
    by (auto simp: is_digit_def is_ws_def)
  moreover have inf: "\<not> (CHR ''-'' = c \<and> prefix ''Infinity'' (s @ r))" for r
  proof
    assume *: "CHR ''-'' = c \<and> prefix ''Infinity'' (s @ r)"
    then have "list_all (\<lambda>c. is_digit c \<or> c = CHR ''-'') s" "s \<noteq> []"
      using show_int_chars [of i] cs show_nat_no_minus [of "nat i" "[]"]
      by (auto simp: show_int_def split: if_splits)
    then show False using * by (cases s) (auto simp: is_digit_def)
  qed
  ultimately show ?thesis
    using scan_number_show_int [of _ i] assms cs
    by (simp add: reads_back_def scan_value.simps) (simp only: inf simp_thms)
qed

lemma reads_back_JArr:
  assumes "\<forall>v \<in> set vs. reads_back v"
  shows "reads_back (JArr vs)"
proof (cases "vs = []")
  case True
  then show ?thesis by (simp add: reads_back_def scan_value.simps Let_def is_ws_def)
next
  case False
  have "\<not> prefix '']'' (join '','' (map dumps vs) @ r)" for r
    using False assms by (cases vs; cases "tl vs"; cases "dumps (hd vs)") (auto simp: reads_back_def)
  then show ?thesis
    using False assms
    by (simp add: reads_back_def [of "JArr vs"] scan_value.simps skip_ws_values scan_elements_text Let_def)
qed

lemma reads_back_JObj:
  assumes "\<forall>(k, v) \<in> set kvs. reads_back v" and "sorted (map fst kvs)" and "distinct (map fst kvs)"
  shows "reads_back (JObj kvs)"
proof (cases "kvs = []")
  case True
  then show ?thesis
    by (simp add: reads_back_def scan_value.simps reject_duplicate_pairs_distinct Let_def)
next
  case False
  have "\<not> prefix ''}'' (join '','' (map member_json kvs) @ r)" for r
    using False by (cases kvs; cases "tl kvs") (auto simp: member_json_text)
  then show ?thesis
    using False assms
    by (simp add: reads_back_def [of "JObj kvs"] dumps_canonical_object scan_value.simps skip_ws_members
        scan_members_text reject_duplicate_pairs_distinct Let_def del: dumps.simps)
qed

lemma canonical_reads_back: "canonical_value v \<Longrightarrow> integral v \<Longrightarrow> reads_back v"
proof (induction v)
  case (JObj kvs)
  then show ?case by (intro reads_back_JObj) (fastforce simp: list_all_iff snds.simps)+
next
  case (JArr vs)
  then show ?case by (intro reads_back_JArr) (auto simp: list_all_iff)
next
  case (JInt i)
  then show ?case by (intro reads_back_JInt) simp
qed (simp_all add: reads_back_scalars)

lemma scan_canonical_text:
  assumes "canonical_value v" "integral v"
  shows "scan_once (skip_ws (dumps v)) = Inr (v, [])"
  using canonical_reads_back [OF assms] skip_ws_value [of v "[]"]
  by (auto simp: reads_back_def dest: spec [of _ "[]"])

section \<open>Printed values are UTF-8\<close>

fun utf8_strings :: "json \<Rightarrow> bool" where
  "utf8_strings (JStr s) \<longleftrightarrow> utf8_valid s"
| "utf8_strings (JObj kvs) \<longleftrightarrow> list_all (\<lambda>(k, v). utf8_valid k \<and> utf8_strings v) kvs"
| "utf8_strings (JArr vs) \<longleftrightarrow> list_all utf8_strings vs"
| "utf8_strings (JFloat s) \<longleftrightarrow> is_ascii s"
| "utf8_strings _ \<longleftrightarrow> True"

lemma escape_high: "128 \<le> code c \<Longrightarrow> escape_char c = [c]"
  unfolding escape_char_def by simp (intro conjI impI; clarsimp)

lemma hex_digit_ascii: "n < 16 \<Longrightarrow> code (hex_digit n) < 128"
  by (simp add: hex_digit_def)

lemma escape_ascii: "code c < 128 \<Longrightarrow> is_ascii (escape_char c)"
  by (simp add: escape_char_def hex_digit_ascii)

lemma utf8_unit_high:
  assumes "1 < utf8_unit p s"
  shows "concat (map escape_char (take (utf8_unit p s) s)) = take (utf8_unit p s) s"
proof -
  obtain a r where s: "s = a # r" using assms by (cases s) (auto simp: utf8_unit_def)
  then have u: "utf8_unit p s = utf8_width a" "utf8_tail p a (take (utf8_width a - 1) r)"
    using assms by (simp_all add: utf8_unit_def split: if_splits)
  have "128 \<le> code a" using assms u(1) by (simp add: utf8_width_def split: if_splits)
  moreover have "\<forall>c \<in> set (take (utf8_width a - 1) r). 128 \<le> code c"
    using u(2) by (auto simp: utf8_tail_def list_all_iff is_cont_def)
  ultimately have "\<forall>c \<in> set (take (utf8_unit p s) s). 128 \<le> code c"
    using u(1) by (simp add: s take_Cons')
  then have "map escape_char (take (utf8_unit p s) s) = map (\<lambda>c. [c]) (take (utf8_unit p s) s)"
    by (simp add: escape_high)
  then show ?thesis by (simp only: concat_map_singleton map_ident)
qed

lemma utf8_escaped: "utf8_decodable p t \<Longrightarrow> utf8_decodable p (concat (map escape_char t))"
proof (induction p t rule: utf8_decodable.induct)
  case (1 p t)
  let ?n = "utf8_unit p t"
  show ?case
  proof (cases "t = []")
    case False
    then have t: "0 < ?n" "utf8_decodable p (drop ?n t)"
      using "1.prems" utf8_decodable.simps [of p t] by (auto split: if_splits)
    have "utf8_decodable p (concat (map escape_char (take ?n t)))"
    proof (cases "?n = 1")
      case True
      then have "code (hd t) < 128"
        using False by (cases t) (auto simp: utf8_unit_def utf8_width_def split: if_splits)
      then show ?thesis
        using True False by (cases t) (simp_all add: utf8_decodable_ascii escape_ascii)
    next
      case n: False
      have "utf8_decodable p (take ?n t)"
        using t utf8_unit_take [OF t(1)] utf8_unit_bound [of p t]
        by (subst utf8_decodable.simps) simp
      with n t show ?thesis using utf8_unit_high [of p t] by simp
    qed
    moreover have "concat (map escape_char t) =
        concat (map escape_char (take ?n t)) @ concat (map escape_char (drop ?n t))"
      by (metis append_take_drop_id concat_append map_append)
    ultimately show ?thesis
      using "1.IH" False t by (simp add: utf8_decodable_append)
  qed simp
qed

lemma utf8_quote: "utf8_decodable p t \<Longrightarrow> utf8_decodable p (quote t)"
  by (simp add: quote_def utf8_decodable_append utf8_escaped utf8_decodable_ascii_Cons)

lemma utf8_join:
  "\<forall>t \<in> set ts. utf8_decodable p t \<Longrightarrow> utf8_decodable p (join '','' ts)"
  by (induction "'',''" ts rule: join.induct)
    (simp_all add: utf8_decodable_append utf8_decodable_ascii_Cons)

lemma show_int_ascii: "is_ascii (show_int i)"
  using show_int_chars [of i] by (auto simp: is_ascii_def is_digit_def list_all_iff)

lemma utf8_dumps: "utf8_strings v \<Longrightarrow> utf8_decodable False (dumps v)"
proof (induction v)
  case (JObj kvs)
  have "\<forall>t \<in> set (map member_text (sort_key fst (map (\<lambda>(k, v). (k, dumps v)) kvs))). utf8_decodable False t"
  proof
    fix t assume "t \<in> set (map member_text (sort_key fst (map (\<lambda>(k, v). (k, dumps v)) kvs)))"
    then obtain k v where t: "t = member_text (k, dumps v)" and kv: "(k, v) \<in> set kvs" by auto
    have "utf8_decodable False (dumps v)" "utf8_valid k"
      using JObj.IH [OF kv, of v] JObj.prems kv by (auto simp: list_all_iff snds.simps)
    then show "utf8_decodable False t"
      by (simp add: t member_text_def utf8_decodable_append utf8_quote utf8_valid_def utf8_decodable_ascii_Cons)
  qed
  then show ?case
    by (simp add: utf8_decodable_append utf8_join utf8_decodable_ascii_Cons)
next
  case (JArr vs)
  then show ?case
    by (simp add: list_all_iff utf8_decodable_append utf8_join utf8_decodable_ascii_Cons)
qed (simp_all add: utf8_quote utf8_valid_def utf8_decodable_ascii show_int_ascii)

lemma object_text_head: "dumps (JObj kvs) = CHR ''{'' # t \<Longrightarrow> t \<noteq> [] \<and> hd t \<in> {CHR 0x22, CHR ''}''}"
proof -
  assume *: "dumps (JObj kvs) = CHR ''{'' # t"
  let ?ms = "map member_text (sort_key fst (map (\<lambda>(k, v). (k, dumps v)) kvs))"
  have "t = join '','' ?ms @ ''}''" using * by simp
  moreover have "\<forall>m \<in> set ?ms. \<exists>r. m = CHR 0x22 # r"
    by (auto simp: member_text_def quote_def)
  then have "join '','' ?ms = [] \<or> hd (join '','' ?ms) = CHR 0x22"
    by (cases ?ms; cases "tl ?ms") auto
  ultimately show ?thesis by (auto simp: hd_append)
qed

lemma loads_canonical_object:
  assumes "canonical_value (JObj kvs)" "integral (JObj kvs)" "utf8_strings (JObj kvs)"
  shows "loads (dumps (JObj kvs)) = Inr (JObj kvs)"
proof -
  obtain t where t: "dumps (JObj kvs) = CHR ''{'' # t" by simp
  then have "\<not> wide_encoding (dumps (JObj kvs))" "\<not> prefix BOM_UTF8 (dumps (JObj kvs))"
    using object_text_head [OF t] by (cases t; auto simp: wide_encoding_def BOM_UTF8_def)+
  moreover have "utf8_decodable True (dumps (JObj kvs))"
    by (rule utf8_decodable_pass [OF utf8_dumps [OF assms(3)]])
  ultimately show ?thesis
    using scan_canonical_text [OF assms(1,2)] by (simp add: loads_def Let_def del: dumps.simps)
qed

section \<open>Python values with a readable canonical text\<close>

text \<open>No floats, integers within the digit limit, strings without lone surrogates.\<close>

fun plain_py :: "pyval \<Rightarrow> bool" where
  "plain_py (PyInt i) \<longleftrightarrow> length (show_nat (nat \<bar>i\<bar>)) \<le> MAX_INT_DIGITS"
| "plain_py (PyFloat f) \<longleftrightarrow> False"
| "plain_py (PyStr s) \<longleftrightarrow> utf8_valid s"
| "plain_py (PyEnum v) \<longleftrightarrow> plain_py v"
| "plain_py (PyRootModel v) \<longleftrightarrow> plain_py v"
| "plain_py (PyBaseModel v) \<longleftrightarrow> plain_py v"
| "plain_py (PyMap items) \<longleftrightarrow> list_all (\<lambda>(k, v). plain_py k \<and> plain_py v) items"
| "plain_py (PySet vs) \<longleftrightarrow> list_all plain_py vs"
| "plain_py (PyList vs) \<longleftrightarrow> list_all plain_py vs"
| "plain_py _ \<longleftrightarrow> True"

text \<open>NFC of text without lone surrogates is such a text.\<close>

definition nfc_text_laws :: "(string \<Rightarrow> string) \<Rightarrow> bool" where
  "nfc_text_laws nfc \<longleftrightarrow> nfc_laws nfc \<and> (\<forall>s. utf8_valid s \<longrightarrow> utf8_valid (nfc s))"

text \<open>A model class that rebuilds a value from its JSON form: given the normalised JSON of \<open>v\<close> it returns \<open>x\<close>.\<close>

definition rebuilds :: "(json \<Rightarrow> 'm option) \<Rightarrow> (string \<Rightarrow> string) \<Rightarrow> pyval \<Rightarrow> 'm \<Rightarrow> bool" where
  "rebuilds model_validate nfc v x \<longleftrightarrow> (\<forall>j. normalize nfc v = Inr j \<longrightarrow> model_validate j = Some x)"

lemma plain_py_key: "key_string k = Some s \<Longrightarrow> plain_py k \<Longrightarrow> utf8_valid s"
  by (induction k rule: key_string.induct) auto

lemma plain_normalize:
  "nfc_text_laws nfc \<Longrightarrow> normalize nfc v = Inr j \<Longrightarrow> plain_py v \<Longrightarrow> integral j \<and> utf8_strings j"
  "nfc_text_laws nfc \<Longrightarrow> normalize_list nfc vs = Inr js \<Longrightarrow> list_all plain_py vs \<Longrightarrow>
     list_all integral js \<and> list_all utf8_strings js"
  "nfc_text_laws nfc \<Longrightarrow> normalize_items nfc acc items = Inr kvs \<Longrightarrow>
     list_all (\<lambda>(k, v). plain_py k \<and> plain_py v) items \<Longrightarrow>
     list_all (\<lambda>(k, v). integral v \<and> utf8_valid k \<and> utf8_strings v) acc \<Longrightarrow>
     list_all (\<lambda>(k, v). integral v \<and> utf8_valid k \<and> utf8_strings v) kvs"
proof (induction nfc v and nfc vs and nfc acc items arbitrary: j and js and kvs
    rule: normalize_normalize_list_normalize_items.induct)
qed (auto simp: result_simps nfc_text_laws_def utf8_valid_ascii dest: plain_py_key elim!: list.pred_mono_strong
    split: datetime.splits option.splits if_splits)

lemma plain_floats_ok: "plain_py v \<Longrightarrow> floats_ok v"
proof (induction v)
  case (PyMap items)
  then show ?case by (fastforce simp: list_all_iff snds.simps)
qed (auto simp: list_all_iff)

lemma loads_plain_canonical:
  assumes "nfc_text_laws nfc" "plain_py v" "normalize nfc v = Inr (JObj kvs)"
  shows "canonical_json nfc v = Inr (dumps (JObj kvs))" "loads (dumps (JObj kvs)) = Inr (JObj kvs)"
  using assms plain_normalize(1) [of nfc v "JObj kvs"] normalize_canonical(1) [of v nfc "JObj kvs"]
  by (simp_all add: canonical_json_def loads_canonical_object plain_floats_ok del: dumps.simps
      canonical_value.simps integral.simps utf8_strings.simps)

section \<open>Properties\<close>

text \<open>C4. Canonical bytes of an object are read back without loss. Take a value that normalises to an object in
  which no float occurs, every integer has at most 4300 digits and every string is valid UTF-8: the strict
  reader applied to its canonical bytes returns exactly the normalised value, so it reports no
  duplicate key, no encoding error and no extra data for them.\<close>

theorem canonical_bytes_are_read_back:
  assumes "normalize nfc v = Inr (JObj kvs)" "canonical_json nfc v = Inr b" "floats_ok v"
    and "integral (JObj kvs)" "utf8_strings (JObj kvs)"
  shows "loads b = Inr (JObj kvs)"
proof -
  have "b = dumps (JObj kvs)" using assms(1,2) by (simp add: canonical_json_def del: dumps.simps)
  moreover have "canonical_value (JObj kvs)" by (rule normalize_canonical(1) [OF assms(3,1)])
  ultimately show ?thesis using loads_canonical_object assms(4,5) by blast
qed

theorem canonical_bytes_are_read_back_witness:
  "loads (''{'' @ quote ''a'' @ '':[null,-12],'' @ quote ''b'' @ '':'' @ quote [CHR 0x0A, CHR 0x01] @ ''}'') =
   Inr (JObj [(''a'', JArr [JNull, JInt (- 12)]), (''b'', JStr [CHR 0x0A, CHR 0x01])])"
proof (rule canonical_bytes_are_read_back)
  let ?v = "PyMap [(PyStr ''b'', PyStr [CHR 0x0A, CHR 0x01]), (PyStr ''a'', PyList [PyNone, PyInt (- 12)])]"
  show "normalize id ?v = Inr (JObj [(''a'', JArr [JNull, JInt (- 12)]), (''b'', JStr [CHR 0x0A, CHR 0x01])])"
    by code_simp
  show "canonical_json id ?v =
    Inr (''{'' @ quote ''a'' @ '':[null,-12],'' @ quote ''b'' @ '':'' @ quote [CHR 0x0A, CHR 0x01] @ ''}'')"
    by code_simp
  show "floats_ok ?v" by simp
qed (simp_all add: MAX_INT_DIGITS_def show_nat.simps utf8_valid_ascii)

end
