(* ===== verification/CP_Warrant.thy ===== *)
theory CP_Warrant
  imports CP_Catalog CP_JsonParse CP_Paths
begin

text \<open>
  Mutation warrants (\<^verbatim>\<open>broker/warrant.py\<close>): bound execution plans, the warrant document and its field
  validators, strict base64 of the patch, the canonical bytes and their digest, the strict parser and
  the recomputation of every derivable binding. The model constructor of the third-party package
  (\<^verbatim>\<open>WarrantDocument.model_validate\<close>) is an argument of the parser.
  The results: the patch field encodes its bytes uniquely; documents with equal canonical bytes agree
  in every field; the parser accepts canonical bytes only and reads them back; the integrity check
  succeeds exactly when every binding is the digest of what it binds.
\<close>

section \<open>Base64\<close>

definition b64_char :: "nat \<Rightarrow> char" where
  "b64_char n =
     (if n < 26 then char_of (65 + n) else if n < 52 then char_of (71 + n)
      else if n < 62 then char_of (n - 4) else if n = 62 then CHR ''+'' else CHR ''/'')"

definition b64_value :: "char \<Rightarrow> nat option" where
  "b64_value c =
     (if is_upper c then Some (code c - 65) else if is_lower c then Some (code c - 71)
      else if is_digit c then Some (code c + 4) else if c = CHR ''+'' then Some 62
      else if c = CHR ''/'' then Some 63 else None)"

fun b64encode :: "string \<Rightarrow> string" where
  "b64encode [] = []"
| "b64encode [a] =
     [b64_char (code a div 4), b64_char (code a mod 4 * 16), CHR ''='', CHR ''='']"
| "b64encode [a, b] =
     [b64_char (code a div 4), b64_char (code a mod 4 * 16 + code b div 16),
      b64_char (code b mod 16 * 4), CHR ''='']"
| "b64encode (a # b # c # s) =
     [b64_char (code a div 4), b64_char (code a mod 4 * 16 + code b div 16),
      b64_char (code b mod 16 * 4 + code c div 64), b64_char (code c mod 64)] @ b64encode s"

text \<open>\<^verbatim>\<open>base64.b64decode(s, validate=True)\<close>: groups of four, padding in the last group only; spare bits of
  a padded group are not looked at.\<close>

fun b64decode :: "string \<Rightarrow> string option" where
  "b64decode [] = Some []"
| "b64decode (w # x # y # z # s) =
     (case (b64_value w, b64_value x) of
        (Some p, Some q) \<Rightarrow>
          (if s = [] \<and> y = CHR ''='' \<and> z = CHR ''='' then Some [char_of (p * 4 + q div 16)]
           else (case b64_value y of
                   None \<Rightarrow> None
                 | Some r \<Rightarrow>
                     (if s = [] \<and> z = CHR ''=''
                      then Some [char_of (p * 4 + q div 16), char_of (q mod 16 * 16 + r div 4)]
                      else (case (b64_value z, b64decode s) of
                              (Some t, Some rest) \<Rightarrow>
                                Some ([char_of (p * 4 + q div 16), char_of (q mod 16 * 16 + r div 4),
                                       char_of (r mod 4 * 64 + t)] @ rest)
                            | _ \<Rightarrow> None))))
      | _ \<Rightarrow> None)"
| "b64decode s = None"

section \<open>Plans and documents\<close>

datatype warrant_error =
    WarrantError string
  | DuplicateKey string
  | NonCanonicalWarrant string
  | WarrantIntegrityError string
  | WarrantNotCanonical canonicalization_error
  | WarrantIntegerLimit

definition WARRANT_FORMAT :: string where
  "WARRANT_FORMAT = ''crosspatch-warrant-v1''"

text \<open>A bound plan is the resolved catalog entry with its digest.\<close>

record bound_execution_plan = execution_plan +
  bound_sha256 :: string

text \<open>\<^verbatim>\<open>len\<close> of a string: its number of code points.\<close>

definition char_count :: "string \<Rightarrow> nat" where
  "char_count s = length (filter (\<lambda>c. \<not> is_cont c) s)"

definition bound_plan_ok :: "bound_execution_plan \<Rightarrow> bool" where
  "bound_plan_ok b \<longleftrightarrow>
     list_all utf8_valid (plan_id b # working_directory b # argv b) \<and>
     1 \<le> char_count (plan_id b) \<and> char_count (plan_id b) \<le> 128 \<and> argv b \<noteq> [] \<and>
     1 \<le> char_count (working_directory b) \<and> 0 < timeout_seconds b \<and> timeout_seconds b \<le> 900 \<and>
     is_sha256 (bound_sha256 b)"

definition from_execution_plan :: "(string \<Rightarrow> string) \<Rightarrow> execution_plan \<Rightarrow> bound_execution_plan" where
  "from_execution_plan sha plan =
     \<lparr>plan_id = plan_id plan, argv = argv plan, working_directory = working_directory plan,
      timeout_seconds = timeout_seconds plan, expected_counts = expected_counts plan,
      expected_statuses = expected_statuses plan, plan_profile = plan_profile plan,
      bound_sha256 = plan_sha256 sha plan\<rparr>"

definition as_execution_plan :: "bound_execution_plan \<Rightarrow> execution_plan" where
  "as_execution_plan b =
     \<lparr>plan_id = plan_id b, argv = argv b, working_directory = working_directory b,
      timeout_seconds = timeout_seconds b, expected_counts = expected_counts b,
      expected_statuses = expected_statuses b, plan_profile = plan_profile b\<rparr>"

definition validate_binding :: "(string \<Rightarrow> string) \<Rightarrow> bound_execution_plan \<Rightarrow> warrant_error + unit" where
  "validate_binding sha b =
     require (plan_sha256 sha (as_execution_plan b) = bound_sha256 b)
       (WarrantIntegrityError (''execution plan binding changed: '' @ plan_id b))"

record warrant_document =
  wd_format :: string
  wd_warrant_id :: string
  wd_incident_id :: string
  wd_repository_id :: string
  wd_verdict_id :: string
  wd_verdict_sha256 :: string
  wd_candidate_id :: string
  wd_authority_snapshot_sha256 :: string
  wd_reviewed_evidence_manifest_sha256 :: string
  wd_reviewed_timeline_head :: string
  wd_base_sha :: string
  wd_repository_manifest_sha256 :: string
  wd_patch_b64 :: string
  wd_patch_sha256 :: string
  wd_allowed_paths :: "string list"
  wd_execution_plans :: "bound_execution_plan list"
  wd_test_plan_sha256 :: string
  wd_runner_digest :: string
  wd_environment_digest :: string
  wd_approver_identity :: string
  wd_issued_at :: datetime
  wd_expires_at :: datetime
  wd_approval_mac_key_id :: string
  wd_nonce :: string

text \<open>The full match of \<^verbatim>\<open>[0-9a-f]{40}(?:[0-9a-f]{24})?\<close>.\<close>

definition is_git_sha :: "string \<Rightarrow> bool" where
  "is_git_sha s \<longleftrightarrow> (length s = 40 \<or> length s = 64) \<and> list_all is_hex s"

definition document_fields_ok :: "warrant_document \<Rightarrow> bool" where
  "document_fields_ok d \<longleftrightarrow>
     list_all is_identifier [wd_warrant_id d, wd_incident_id d, wd_repository_id d, wd_verdict_id d,
       wd_candidate_id d, wd_approval_mac_key_id d, wd_nonce d] \<and>
     list_all is_sha256 [wd_verdict_sha256 d, wd_authority_snapshot_sha256 d,
       wd_reviewed_evidence_manifest_sha256 d, wd_reviewed_timeline_head d, wd_repository_manifest_sha256 d,
       wd_patch_sha256 d, wd_test_plan_sha256 d, wd_runner_digest d, wd_environment_digest d] \<and>
     is_git_sha (wd_base_sha d) \<and>
     is_aware (wd_issued_at d) \<and> is_aware (wd_expires_at d) \<and>
     wd_allowed_paths d \<noteq> [] \<and> distinct (wd_allowed_paths d) \<and> sorted (wd_allowed_paths d) \<and>
     wd_execution_plans d \<noteq> [] \<and> list_all bound_plan_ok (wd_execution_plans d) \<and>
     1 \<le> char_count (wd_approver_identity d) \<and> char_count (wd_approver_identity d) \<le> 256 \<and>
     list_all utf8_valid (wd_format d # wd_patch_b64 d # wd_approver_identity d # wd_allowed_paths d)"

text \<open>A document that the model class lets exist.\<close>

definition document_ok :: "warrant_document \<Rightarrow> bool" where
  "document_ok d \<longleftrightarrow>
     document_fields_ok d \<and> wd_format d = WARRANT_FORMAT \<and>
     instant (wd_issued_at d) < instant (wd_expires_at d) \<and>
     distinct (map plan_id (wd_execution_plans d))"

definition patch_bytes :: "warrant_document \<Rightarrow> warrant_error + string" where
  "patch_bytes d =
     (case b64decode (wd_patch_b64 d) of
        None \<Rightarrow> Inl (WarrantIntegrityError ''patch bytes are not strict base64'')
      | Some decoded \<Rightarrow>
          if b64encode decoded \<noteq> wd_patch_b64 d
          then Inl (WarrantIntegrityError ''patch bytes are not canonically encoded'')
          else Inr decoded)"

section \<open>Canonical form\<close>

definition bound_plan_fields :: "bound_execution_plan \<Rightarrow> (string \<times> pyval) list" where
  "bound_plan_fields b =
     [(''plan_id'', PyStr (plan_id b)),
      (''argv'', PyList (map PyStr (argv b))),
      (''working_directory'', PyStr (working_directory b)),
      (''timeout_seconds'', PyInt (timeout_seconds b)),
      (''expected_counts'', (case expected_counts b of None \<Rightarrow> PyNone
         | Some (r, j, d) \<Rightarrow> PyList [PyInt r, PyInt j, PyInt d]))] @
     (case expected_statuses b of None \<Rightarrow> [] | Some ss \<Rightarrow> [(''expected_statuses'', PyList (map PyInt ss))]) @
     (case plan_profile b of None \<Rightarrow> []
      | Some p \<Rightarrow> [(''oracle_profile'', PyEnum (PyStr (profile_value p)))]) @
     [(''plan_sha256'', PyStr (bound_sha256 b))]"

definition bound_plan_py :: "bound_execution_plan \<Rightarrow> pyval" where
  "bound_plan_py b = PyBaseModel (py_fields (bound_plan_fields b))"

definition document_fields :: "warrant_document \<Rightarrow> (string \<times> pyval) list" where
  "document_fields d =
     [(''format'', PyStr (wd_format d)),
      (''warrant_id'', PyStr (wd_warrant_id d)),
      (''incident_id'', PyStr (wd_incident_id d)),
      (''repository_id'', PyStr (wd_repository_id d)),
      (''verdict_id'', PyStr (wd_verdict_id d)),
      (''verdict_sha256'', PyStr (wd_verdict_sha256 d)),
      (''candidate_id'', PyStr (wd_candidate_id d)),
      (''authority_snapshot_sha256'', PyStr (wd_authority_snapshot_sha256 d)),
      (''reviewed_evidence_manifest_sha256'', PyStr (wd_reviewed_evidence_manifest_sha256 d)),
      (''reviewed_timeline_head'', PyStr (wd_reviewed_timeline_head d)),
      (''base_sha'', PyStr (wd_base_sha d)),
      (''repository_manifest_sha256'', PyStr (wd_repository_manifest_sha256 d)),
      (''patch_b64'', PyStr (wd_patch_b64 d)),
      (''patch_sha256'', PyStr (wd_patch_sha256 d)),
      (''allowed_paths'', PyList (map PyStr (wd_allowed_paths d))),
      (''execution_plans'', PyList (map bound_plan_py (wd_execution_plans d))),
      (''test_plan_sha256'', PyStr (wd_test_plan_sha256 d)),
      (''runner_digest'', PyStr (wd_runner_digest d)),
      (''environment_digest'', PyStr (wd_environment_digest d)),
      (''approver_identity'', PyStr (wd_approver_identity d)),
      (''issued_at'', PyDatetime (wd_issued_at d)),
      (''expires_at'', PyDatetime (wd_expires_at d)),
      (''approval_mac_key_id'', PyStr (wd_approval_mac_key_id d)),
      (''nonce'', PyStr (wd_nonce d))]"

definition document_py :: "warrant_document \<Rightarrow> pyval" where
  "document_py d = PyBaseModel (py_fields (document_fields d))"

definition canonical_warrant_bytes ::
  "(string \<Rightarrow> string) \<Rightarrow> warrant_document \<Rightarrow> canonicalization_error + string" where
  "canonical_warrant_bytes nfc d = canonical_json nfc (document_py d)"

definition canonical_warrant_hash ::
  "(string \<Rightarrow> string) \<Rightarrow> (string \<Rightarrow> string) \<Rightarrow> warrant_document \<Rightarrow> canonicalization_error + string" where
  "canonical_warrant_hash sha nfc d = rbind (canonical_warrant_bytes nfc d) (\<lambda>b. Inr (sha b))"

definition parse_warrant_json ::
  "(json \<Rightarrow> warrant_document option) \<Rightarrow> (string \<Rightarrow> string) \<Rightarrow> string \<Rightarrow> warrant_error + warrant_document" where
  "parse_warrant_json model_validate nfc raw =
     (case loads raw of
        Inl (DuplicateKeyError k) \<Rightarrow> Inl (DuplicateKey (''duplicate JSON key: '' @ k))
      | Inl IntegerDigitLimit \<Rightarrow> Inl WarrantIntegerLimit
      | Inl _ \<Rightarrow> Inl (WarrantError ''invalid warrant JSON'')
      | Inr value \<Rightarrow>
          (case model_validate value of
             None \<Rightarrow> Inl (WarrantError ''invalid warrant document'')
           | Some document \<Rightarrow>
               rbind (map_error WarrantNotCanonical (canonical_warrant_bytes nfc document)) (\<lambda>bytes.
                 if raw \<noteq> bytes
                 then Inl (NonCanonicalWarrant ''warrant JSON does not match its canonical bytes'')
                 else Inr document)))"

definition validate_warrant_integrity ::
  "(string \<Rightarrow> string) \<Rightarrow> (string \<Rightarrow> string) \<Rightarrow> warrant_document \<Rightarrow> warrant_error + unit" where
  "validate_warrant_integrity sha nfc d =
     rbind (patch_bytes d) (\<lambda>patch.
     rbind (require (patch \<noteq> []) (WarrantIntegrityError ''patch bytes must not be empty'')) (\<lambda>_.
     rbind (require (sha patch = wd_patch_sha256 d)
              (WarrantIntegrityError ''patch bytes do not match patch_sha256'')) (\<lambda>_.
     rbind (map_result (validate_binding sha) (wd_execution_plans d)) (\<lambda>_.
     rbind (map_error WarrantNotCanonical
              (sha256_hex sha nfc (PyList (map bound_plan_py (wd_execution_plans d))))) (\<lambda>digest.
     require (digest = wd_test_plan_sha256 d)
       (WarrantIntegrityError ''test plan does not match test_plan_sha256''))))))"

section \<open>Base64 round trip\<close>

lemma b64_value_char: "n < 64 \<Longrightarrow> b64_value (b64_char n) = Some n"
  by (auto simp: b64_value_def b64_char_def is_upper_def is_lower_def is_digit_def)

lemma b64_char_not_pad: "n < 64 \<Longrightarrow> b64_char n \<noteq> CHR ''=''"
  using b64_value_char [of n] by (auto simp: b64_value_def is_upper_def is_lower_def is_digit_def)

lemma digit_pair: "x < n \<Longrightarrow> (m * n + x) div n = m" "x < n \<Longrightarrow> (m * n + x) mod n = x" for m n x :: nat
  by simp_all

lemma b64_arith:
  fixes a b c :: nat
  assumes "a < 256" "b < 256" "c < 256"
  shows "a div 4 < 64" "a mod 4 * 16 + b div 16 < 64" "b mod 16 * 4 + c div 64 < 64" "a mod 4 * 16 < 64"
    "b mod 16 * 4 < 64" "a div 4 * 4 + (a mod 4 * 16 + b div 16) div 16 = a"
    "(a mod 4 * 16 + b div 16) mod 16 * 16 + (b mod 16 * 4 + c div 64) div 4 = b"
    "(b mod 16 * 4 + c div 64) mod 4 * 64 + c mod 64 = c"
    "a div 4 * 4 + (a mod 4 * 16) div 16 = a"
    "(a mod 4 * 16 + b div 16) mod 16 * 16 + (b mod 16 * 4) div 4 = b"
proof -
  have small: "a div 4 < 64" "b div 16 < 16" "c div 64 < 4" "a mod 4 < 4" "b mod 16 < 16"
    using assms by (simp_all add: less_mult_imp_div_less)
  then show "a div 4 < 64" "a mod 4 * 16 + b div 16 < 64" "b mod 16 * 4 + c div 64 < 64"
    "a mod 4 * 16 < 64" "b mod 16 * 4 < 64" by linarith+
  show "a div 4 * 4 + (a mod 4 * 16 + b div 16) div 16 = a"
    by (simp only: digit_pair(1) [OF small(2)] div_mult_mod_eq)
  show "(a mod 4 * 16 + b div 16) mod 16 * 16 + (b mod 16 * 4 + c div 64) div 4 = b"
    by (simp only: digit_pair(2) [OF small(2)] digit_pair(1) [OF small(3)] div_mult_mod_eq)
  show "(b mod 16 * 4 + c div 64) mod 4 * 64 + c mod 64 = c"
    by (simp only: digit_pair(2) [OF small(3)] div_mult_mod_eq)
  show "a div 4 * 4 + (a mod 4 * 16) div 16 = a" by simp
  show "(a mod 4 * 16 + b div 16) mod 16 * 16 + (b mod 16 * 4) div 4 = b"
    by (simp only: digit_pair(2) [OF small(2)] nonzero_mult_div_cancel_right div_mult_mod_eq)
qed

lemma b64_chars_not_pad:
  "b64_char (code a div 4) \<noteq> CHR ''=''" "b64_char (code b mod 16 * 4 + code c div 64) \<noteq> CHR ''=''"
  "b64_char (code b mod 16 * 4) \<noteq> CHR ''=''" "b64_char (code c mod 64) \<noteq> CHR ''=''"
  using b64_arith [of "code a" "code b" "code c"] by (simp_all add: b64_char_not_pad)

lemma b64decode_encode: "b64decode (b64encode s) = Some s"
proof (induction s rule: b64encode.induct)
  case (2 a)
  then show ?case using b64_arith [of "code a" 0 0] by (simp add: b64_value_char)
next
  case (3 a b)
  then show ?case
    using b64_arith [of "code a" "code b" 0]
    by (simp add: b64_value_char b64_chars_not_pad)
next
  case (4 a b c s)
  then show ?case
    using b64_arith [of "code a" "code b" "code c"] by (simp add: b64_value_char b64_chars_not_pad)
qed simp

lemma patch_bytes_eq_Inr: "patch_bytes d = Inr p \<longleftrightarrow> wd_patch_b64 d = b64encode p"
proof
  assume "patch_bytes d = Inr p"
  then show "wd_patch_b64 d = b64encode p"
    by (cases "b64decode (wd_patch_b64 d)") (simp_all add: patch_bytes_def split: if_splits)
next
  assume "wd_patch_b64 d = b64encode p"
  then show "patch_bytes d = Inr p" by (simp add: patch_bytes_def b64decode_encode)
qed

section \<open>What canonical bytes determine\<close>

text \<open>The document that canonical bytes stand for: strings in NFC, times in UTC.\<close>

definition utc :: "datetime \<Rightarrow> datetime" where
  "utc t = (case t of Naive u \<Rightarrow> Naive u | Aware u _ \<Rightarrow> Aware u 0)"

definition normal_plan :: "(string \<Rightarrow> string) \<Rightarrow> bound_execution_plan \<Rightarrow> bound_execution_plan" where
  "normal_plan nfc b = b\<lparr>plan_id := nfc (plan_id b), argv := map nfc (argv b),
     working_directory := nfc (working_directory b), bound_sha256 := nfc (bound_sha256 b)\<rparr>"

definition normal_document :: "(string \<Rightarrow> string) \<Rightarrow> warrant_document \<Rightarrow> warrant_document" where
  "normal_document nfc d =
     \<lparr>wd_format = nfc (wd_format d), wd_warrant_id = nfc (wd_warrant_id d),
      wd_incident_id = nfc (wd_incident_id d), wd_repository_id = nfc (wd_repository_id d),
      wd_verdict_id = nfc (wd_verdict_id d), wd_verdict_sha256 = nfc (wd_verdict_sha256 d),
      wd_candidate_id = nfc (wd_candidate_id d),
      wd_authority_snapshot_sha256 = nfc (wd_authority_snapshot_sha256 d),
      wd_reviewed_evidence_manifest_sha256 = nfc (wd_reviewed_evidence_manifest_sha256 d),
      wd_reviewed_timeline_head = nfc (wd_reviewed_timeline_head d), wd_base_sha = nfc (wd_base_sha d),
      wd_repository_manifest_sha256 = nfc (wd_repository_manifest_sha256 d),
      wd_patch_b64 = nfc (wd_patch_b64 d), wd_patch_sha256 = nfc (wd_patch_sha256 d),
      wd_allowed_paths = map nfc (wd_allowed_paths d),
      wd_execution_plans = map (normal_plan nfc) (wd_execution_plans d),
      wd_test_plan_sha256 = nfc (wd_test_plan_sha256 d), wd_runner_digest = nfc (wd_runner_digest d),
      wd_environment_digest = nfc (wd_environment_digest d),
      wd_approver_identity = nfc (wd_approver_identity d), wd_issued_at = utc (wd_issued_at d),
      wd_expires_at = utc (wd_expires_at d), wd_approval_mac_key_id = nfc (wd_approval_mac_key_id d),
      wd_nonce = nfc (wd_nonce d)\<rparr>"

text \<open>Timestamps that \<^verbatim>\<open>datetime\<close> can hold.\<close>

definition document_times_ok :: "warrant_document \<Rightarrow> bool" where
  "document_times_ok d \<longleftrightarrow>
     is_aware (wd_issued_at d) \<and> is_aware (wd_expires_at d) \<and>
     representable (instant (wd_issued_at d)) \<and> representable (instant (wd_expires_at d))"

lemma map_result_PyStr: "map_result (normalize nfc) (map PyStr xs) = Inr (map (JStr \<circ> nfc) xs)"
  by (induction xs) simp_all

lemma map_result_PyInt: "map_result (normalize nfc) (map PyInt xs) = Inr (map JInt xs)"
  by (induction xs) simp_all

lemma map_JStr_nfc_inject: "map (JStr \<circ> nfc) xs = map (JStr \<circ> nfc) ys \<longleftrightarrow> map nfc xs = map nfc ys"
  unfolding map_map [symmetric] by (rule map_JStr_inject)

lemmas py_list_simps = normalize_list_map_result map_result_PyStr map_result_PyInt map_JStr_nfc_inject map_JInt_inject

lemma bound_plan_fields_ascii [simp]: "list_all (is_ascii \<circ> fst) (bound_plan_fields b)"
  by (simp add: bound_plan_fields_def split: option.splits)

lemma bound_plan_fields_distinct [simp]: "distinct (map fst (bound_plan_fields b))"
  by (simp add: bound_plan_fields_def split: option.splits)

lemma bound_plan_normal_eq:
  assumes "nfc_laws nfc" "normalize nfc (bound_plan_py b) = Inr j" "normalize nfc (bound_plan_py c) = Inr j"
  shows "normal_plan nfc b = normal_plan nfc c"
proof -
  have at: "map_option (normalize nfc) (map_of (bound_plan_fields b) k) =
            map_option (normalize nfc) (map_of (bound_plan_fields c) k)" for k
    using assms by (intro normalize_lookup_eq [of nfc _ j]) (simp_all add: bound_plan_py_def)
  note simps = bound_plan_fields_def py_list_simps
  have "nfc (plan_id b) = nfc (plan_id c)" using at [of "''plan_id''"] by (simp add: simps)
  moreover have "map nfc (argv b) = map nfc (argv c)" using at [of "''argv''"] by (simp add: simps)
  moreover have "nfc (working_directory b) = nfc (working_directory c)"
    using at [of "''working_directory''"] by (simp add: simps)
  moreover have "timeout_seconds b = timeout_seconds c" using at [of "''timeout_seconds''"] by (simp add: simps)
  moreover have "expected_counts b = expected_counts c"
    using at [of "''expected_counts''"] by (auto simp: simps split: option.splits)
  moreover have "expected_statuses b = expected_statuses c"
    using at [of "''expected_statuses''"] by (auto simp: simps split: option.splits)
  moreover have "plan_profile b = plan_profile c"
  proof -
    have "nfc (profile_value p) = profile_value p" for p
      using assms(1) by (cases p) (simp_all add: nfc_laws_def)
    then show ?thesis
      using at [of "''oracle_profile''"] by (auto simp: simps profile_value_inject split: option.splits)
  qed
  moreover have "nfc (bound_sha256 b) = nfc (bound_sha256 c)"
    using at [of "''plan_sha256''"] by (simp add: simps split: option.splits)
  ultimately show ?thesis by (simp add: normal_plan_def)
qed

lemma normalize_fields_positional:
  assumes "nfc_laws nfc" "normalize nfc (py_fields xs) = Inr j" "normalize nfc (py_fields ys) = Inr j"
    and "map fst xs = map fst ys" "distinct (map fst xs)" "list_all is_ascii (map fst xs)"
  shows "list_all2 (\<lambda>v w. normalize nfc v = normalize nfc w) (map snd xs) (map snd ys)"
proof (rule list_all2_all_nthI)
  show "length (map snd xs) = length (map snd ys)" using assms(4) by (metis length_map)
  fix n assume n: "n < length (map snd xs)"
  then have m: "n < length ys" using assms(4) by (metis length_map)
  have "fst (xs ! n) = fst (ys ! n)" using assms(4) n m by (metis length_map nth_map)
  moreover have "map_of xs (fst (xs ! n)) = Some (snd (xs ! n))" "map_of ys (fst (ys ! n)) = Some (snd (ys ! n))"
    using assms(4,5) n m by simp_all
  moreover have "list_all (is_ascii \<circ> fst) xs" "list_all (is_ascii \<circ> fst) ys"
    using assms(4,6) by (metis list.pred_map)+
  ultimately have "normalize nfc (snd (xs ! n)) = normalize nfc (snd (ys ! n))"
    using normalize_lookup_eq [OF assms(2,3,1), of "fst (xs ! n)"] by simp
  then show "normalize nfc (map snd xs ! n) = normalize nfc (map snd ys ! n)" using n m by simp
qed

lemma document_fields_keys:
  "map fst (document_fields d) = map fst (document_fields e)" "distinct (map fst (document_fields d))"
  "list_all is_ascii (map fst (document_fields d))"
  by (simp_all add: document_fields_def)

lemma timestamp_text_eq:
  assumes "normalize nfc (PyDatetime t) = normalize nfc (PyDatetime u)" "is_aware t" "is_aware u"
    and "representable (instant t)" "representable (instant u)"
  shows "utc t = utc u"
  using assms by (cases t; cases u) (auto simp: is_aware_def instant_def utc_def dest: iso_utc_inject)

lemma bound_plan_normalizes:
  assumes "nfc_laws nfc"
  shows "is_ok (normalize nfc (bound_plan_py b))"
proof -
  have "\<forall>(k, v) \<in> set (bound_plan_fields b). is_ok (normalize nfc v)"
    by (auto simp: bound_plan_fields_def py_list_simps split: option.splits)
  then obtain kvs where "normalize nfc (py_fields (bound_plan_fields b)) = Inr (JObj kvs)"
    using assms by (elim normalize_py_fields_ok [rotated 3]) simp_all
  then show ?thesis by (simp add: bound_plan_py_def)
qed

lemma bound_plans_normalize:
  assumes "nfc_laws nfc"
  obtains js where "map_result (normalize nfc) (map bound_plan_py bs) = Inr js"
proof -
  have "\<exists>js. map_result (normalize nfc) (map bound_plan_py bs) = Inr js"
  proof (induction bs)
    case (Cons b bs)
    then show ?case
      using bound_plan_normalizes [OF assms, of b] by (cases "normalize nfc (bound_plan_py b)") auto
  qed simp
  then show thesis using that by blast
qed

lemma bound_plan_normal_list:
  assumes "nfc_laws nfc" "map_result (normalize nfc) (map bound_plan_py bs) = Inr js"
    and "map_result (normalize nfc) (map bound_plan_py cs) = Inr js"
  shows "map (normal_plan nfc) bs = map (normal_plan nfc) cs"
proof -
  have len: "length bs = length cs"
    using assms(2,3) by (metis length_map map_result_length)
  moreover have "normal_plan nfc (bs ! i) = normal_plan nfc (cs ! i)" if "i < length bs" for i
    using assms that len
    by (intro bound_plan_normal_eq [of nfc _ "js ! i"]) (auto simp: map_result_eq_Inr list_all2_conv_all_nth)
  ultimately show ?thesis by (intro nth_equalityI) simp_all
qed

lemma document_normal_eq:
  assumes "nfc_laws nfc" "document_times_ok d" "document_times_ok e"
    and j: "normalize nfc (document_py d) = Inr j" "normalize nfc (document_py e) = Inr j"
  shows "normal_document nfc d = normal_document nfc e"
proof -
  have "list_all2 (\<lambda>v w. normalize nfc v = normalize nfc w)
      (map snd (document_fields d)) (map snd (document_fields e))"
    using assms by (intro normalize_fields_positional [of nfc _ j] document_fields_keys) (simp_all add: document_py_def)
  note fields = this [unfolded document_fields_def list.map snd_conv list_all2_Cons list_all2_Nil]
  have paths: "map nfc (wd_allowed_paths d) = map nfc (wd_allowed_paths e)"
    using fields by (elim conjE) (simp add: py_list_simps)
  have issued: "normalize nfc (PyDatetime (wd_issued_at d)) = normalize nfc (PyDatetime (wd_issued_at e))"
    using fields by (elim conjE)
  have expires: "normalize nfc (PyDatetime (wd_expires_at d)) = normalize nfc (PyDatetime (wd_expires_at e))"
    using fields by (elim conjE)
  have times: "utc (wd_issued_at d) = utc (wd_issued_at e)" "utc (wd_expires_at d) = utc (wd_expires_at e)"
    using assms(2,3) timestamp_text_eq [OF issued] timestamp_text_eq [OF expires]
    by (simp_all add: document_times_ok_def del: normalize.simps)
  have plans: "map (normal_plan nfc) (wd_execution_plans d) = map (normal_plan nfc) (wd_execution_plans e)"
  proof -
    obtain js where js: "map_result (normalize nfc) (map bound_plan_py (wd_execution_plans d)) = Inr js"
      by (rule bound_plans_normalize [OF assms(1)])
    have "normalize nfc (PyList (map bound_plan_py (wd_execution_plans d))) =
          normalize nfc (PyList (map bound_plan_py (wd_execution_plans e)))"
      using fields by (elim conjE)
    with js have "map_result (normalize nfc) (map bound_plan_py (wd_execution_plans e)) = Inr js"
      by (cases "map_result (normalize nfc) (map bound_plan_py (wd_execution_plans e))")
        (auto simp: normalize_list_map_result)
    with js show ?thesis by (rule bound_plan_normal_list [OF assms(1)])
  qed
  from fields paths times plans show ?thesis
    unfolding normal_document_def normalize.simps sum.inject json.inject
    by (elim conjE) (simp only: )
qed

lemma bound_plan_py_floats [simp]: "floats_ok (bound_plan_py b)"
  by (auto simp: bound_plan_py_def bound_plan_fields_def py_fields_def list_all_iff split: option.splits)

lemma document_py_floats [simp]: "floats_ok (document_py d)"
  by (simp add: document_py_def document_fields_def py_fields_def list_all_iff)

text \<open>A document with aware timestamps always has canonical bytes.\<close>

lemma document_normalizes:
  assumes "nfc_laws nfc" "is_aware (wd_issued_at d)" "is_aware (wd_expires_at d)"
  obtains kvs where "normalize nfc (document_py d) = Inr (JObj kvs)"
proof -
  obtain js where js: "map_result (normalize nfc) (map bound_plan_py (wd_execution_plans d)) = Inr js"
    by (rule bound_plans_normalize [OF assms(1)])
  have "\<forall>(k, v) \<in> set (document_fields d). is_ok (normalize nfc v)"
    using assms(2,3) js
    by (simp add: document_fields_def py_list_simps is_aware_def split: datetime.splits)
  moreover have "list_all (is_ascii \<circ> fst) (document_fields d)"
    using document_fields_keys(3) [of d] by (metis list.pred_map)
  ultimately obtain kvs where "normalize nfc (py_fields (document_fields d)) = Inr (JObj kvs)"
    using assms(1) by (elim normalize_py_fields_ok [rotated 3]) (simp_all add: document_fields_keys(2))
  then show thesis using that by (simp add: document_py_def)
qed

lemma canonical_warrant_bytes_ok:
  assumes "nfc_laws nfc" "is_aware (wd_issued_at d)" "is_aware (wd_expires_at d)"
  obtains b where "canonical_warrant_bytes nfc d = Inr b"
proof -
  obtain kvs where "normalize nfc (document_py d) = Inr (JObj kvs)"
    by (rule document_normalizes [OF assms])
  then show thesis
    using that by (simp add: canonical_warrant_bytes_def canonical_json_def del: dumps.simps)
qed

lemma equal_bytes_equal_documents:
  assumes "nfc_laws nfc" "document_times_ok d" "document_times_ok e"
    and "canonical_warrant_bytes nfc d = Inr b" "canonical_warrant_bytes nfc e = Inr b"
  shows "normal_document nfc d = normal_document nfc e"
proof -
  have "normalize nfc (document_py d) = normalize nfc (document_py e)"
    using assms(4,5) canonical_json_eq_iff [of "document_py d" "document_py e" nfc b b]
    by (simp add: canonical_warrant_bytes_def)
  moreover obtain j where "normalize nfc (document_py d) = Inr j"
    using assms(4) by (auto simp: canonical_warrant_bytes_def canonical_json_eq_Inr)
  ultimately show ?thesis using document_normal_eq [OF assms(1-3)] by metis
qed

section \<open>Normal documents\<close>

lemma normalize_utc: "normalize nfc (PyDatetime (utc t)) = normalize nfc (PyDatetime t)"
  by (cases t) (simp_all add: utc_def)

lemma normalize_str_list_idem:
  assumes "nfc_laws nfc"
  shows "normalize nfc (PyList (map PyStr (map nfc xs))) = normalize nfc (PyList (map PyStr xs))"
  using assms unfolding normalize.simps normalize_list_map_result map_result_PyStr
  by (simp add: nfc_laws_def)

lemma normalize_str_idem: "nfc_laws nfc \<Longrightarrow> normalize nfc (PyStr (nfc s)) = normalize nfc (PyStr s)"
  by (simp add: nfc_laws_def)

lemma normalize_normal_plan:
  assumes "nfc_laws nfc"
  shows "normalize nfc (bound_plan_py (normal_plan nfc b)) = normalize nfc (bound_plan_py b)"
  unfolding bound_plan_py_def normalize.simps(2)
  by (rule normalize_py_fields_cong)
    (simp add: bound_plan_fields_def normal_plan_def normalize_str_idem [OF assms]
      normalize_str_list_idem [OF assms] list_all2_append list.rel_refl
      del: normalize.simps map_map split: option.splits)

lemma normalize_normal_document:
  assumes "nfc_laws nfc"
  shows "normalize nfc (document_py (normal_document nfc d)) = normalize nfc (document_py d)"
proof -
  have "map_result (normalize nfc) (map bound_plan_py (map (normal_plan nfc) bs)) =
        map_result (normalize nfc) (map bound_plan_py bs)" for bs
    by (induction bs) (simp_all add: normalize_normal_plan [OF assms])
  then have plans: "normalize nfc (PyList (map bound_plan_py (map (normal_plan nfc) bs))) =
        normalize nfc (PyList (map bound_plan_py bs))" for bs
    by (simp add: normalize_list_map_result del: map_map)
  show ?thesis
    unfolding document_py_def normalize.simps(2)
    by (rule normalize_py_fields_cong)
      (simp add: document_fields_def normal_document_def plans normalize_str_idem [OF assms]
        normalize_str_list_idem [OF assms] normalize_utc del: normalize.simps map_map)
qed

lemma b64_char_ascii: "code (b64_char n) < 128"
  by (auto simp: b64_char_def)

lemma b64encode_ascii: "is_ascii (b64encode s)"
  by (induction s rule: b64encode.induct) (simp_all add: b64_char_ascii)

lemma is_ascii_replicate [simp]: "is_ascii (replicate n c) \<longleftrightarrow> n = 0 \<or> code c < 128"
  by (auto simp: is_ascii_def list_all_iff)

section \<open>An example warrant\<close>

definition zero_digest :: "string \<Rightarrow> string" where
  "zero_digest b = replicate 64 CHR ''0''"

definition sample_plan :: bound_execution_plan where
  "sample_plan = from_execution_plan zero_digest
     (candidate_service_plan ''victim.duplicate-race.candidate'' (1, 1, 1) None DUPLICATE_RACE)"

definition sample_warrant :: warrant_document where
  "sample_warrant =
     \<lparr>wd_format = WARRANT_FORMAT, wd_warrant_id = ''w1'', wd_incident_id = ''i1'', wd_repository_id = ''r1'',
      wd_verdict_id = ''v1'', wd_verdict_sha256 = zero_digest [], wd_candidate_id = ''c1'',
      wd_authority_snapshot_sha256 = zero_digest [], wd_reviewed_evidence_manifest_sha256 = zero_digest [],
      wd_reviewed_timeline_head = zero_digest [], wd_base_sha = replicate 40 CHR ''0'',
      wd_repository_manifest_sha256 = zero_digest [],
      wd_patch_b64 = b64encode (patch_text example_lines), wd_patch_sha256 = zero_digest [],
      wd_allowed_paths = [''m.py''], wd_execution_plans = [sample_plan],
      wd_test_plan_sha256 = zero_digest [], wd_runner_digest = zero_digest [],
      wd_environment_digest = zero_digest [], wd_approver_identity = ''alice'',
      wd_issued_at = Aware 1000000 0, wd_expires_at = Aware 9000000 0, wd_approval_mac_key_id = ''k1'',
      wd_nonce = ''n1''\<rparr>"

text \<open>The same warrant with its issue time written in another zone.\<close>

definition rezoned_warrant :: warrant_document where
  "rezoned_warrant = sample_warrant\<lparr>wd_issued_at := Aware 1000000 3600\<rparr>"

lemma is_sha256_zero_digest [simp]: "is_sha256 (zero_digest b)"
  unfolding zero_digest_def by code_simp

lemma nfc_laws_id [simp]: "nfc_laws id"
  by (simp add: nfc_laws_def)

lemma sample_warrant_aware: "is_aware (wd_issued_at sample_warrant)" "is_aware (wd_expires_at sample_warrant)"
  by (simp_all add: sample_warrant_def is_aware_def)

section \<open>Properties\<close>

lemma validate_binding_eq_Inr:
  "validate_binding sha b = Inr u \<longleftrightarrow> bound_sha256 b = plan_sha256 sha (as_execution_plan b)"
  by (auto simp: validate_binding_def result_simps)

lemma validate_bindings_eq_Inr:
  "map_result (validate_binding sha) bs = Inr us \<longleftrightarrow>
   length us = length bs \<and> (\<forall>b \<in> set bs. bound_sha256 b = plan_sha256 sha (as_execution_plan b))"
proof (induction bs arbitrary: us)
  case (Cons b bs)
  then show ?case by (cases us) (auto simp: result_simps validate_binding_eq_Inr)
qed auto

lemma integrity_eq_Inr:
  "validate_warrant_integrity sha nfc d = Inr () \<longleftrightarrow>
     (\<exists>p. p \<noteq> [] \<and> wd_patch_b64 d = b64encode p \<and> wd_patch_sha256 d = sha p) \<and>
     (\<forall>b \<in> set (wd_execution_plans d). bound_sha256 b = plan_sha256 sha (as_execution_plan b)) \<and>
     sha256_hex sha nfc (PyList (map bound_plan_py (wd_execution_plans d))) = Inr (wd_test_plan_sha256 d)"
proof -
  have "(\<exists>us :: unit list. length us = length (wd_execution_plans d))" by (metis length_replicate)
  then show ?thesis
    unfolding validate_warrant_integrity_def
    by (auto simp: result_simps validate_bindings_eq_Inr patch_bytes_eq_Inr)
qed

lemma as_from_execution_plan [simp]: "as_execution_plan (from_execution_plan sha p) = p"
  by (simp add: as_execution_plan_def from_execution_plan_def)

lemma from_as_execution_plan:
  "bound_sha256 b = plan_sha256 sha (as_execution_plan b) \<Longrightarrow> from_execution_plan sha (as_execution_plan b) = b"
  by (simp add: as_execution_plan_def from_execution_plan_def)

text \<open>The integrity check recomputes every derivable binding: it succeeds exactly when the patch field
  is the canonical base64 of some non-empty bytes whose digest is the patch digest, every bound plan is
  the image of its own execution plan (so its digest is the plan's), and the digest of the canonical
  plan list is the test-plan digest.\<close>

theorem integrity_recomputes_every_binding:
  "validate_warrant_integrity sha nfc d = Inr () \<longleftrightarrow>
     (\<exists>p. patch_bytes d = Inr p \<and> p \<noteq> [] \<and> wd_patch_b64 d = b64encode p \<and> wd_patch_sha256 d = sha p) \<and>
     (\<forall>b \<in> set (wd_execution_plans d). from_execution_plan sha (as_execution_plan b) = b) \<and>
     sha256_hex sha nfc (PyList (map bound_plan_py (wd_execution_plans d))) = Inr (wd_test_plan_sha256 d)"
proof -
  have "from_execution_plan sha (as_execution_plan b) = b \<longleftrightarrow> bound_sha256 b = plan_sha256 sha (as_execution_plan b)" for b
    using from_as_execution_plan [of b sha] by (metis bound_execution_plan.select_convs(1) from_execution_plan_def)
  then show ?thesis by (auto simp: integrity_eq_Inr patch_bytes_eq_Inr)
qed

lemma sample_plans_digest:
  "sha256_hex zero_digest id (PyList (map bound_plan_py (wd_execution_plans sample_warrant))) =
   Inr (wd_test_plan_sha256 sample_warrant)"
proof -
  obtain js where "map_result (normalize id) (map bound_plan_py (wd_execution_plans sample_warrant)) = Inr js"
    by (rule bound_plans_normalize [OF nfc_laws_id])
  then show ?thesis
    by (simp add: sha256_hex_def canonical_json_def normalize_list_map_result)
      (simp add: sample_warrant_def zero_digest_def)
qed

lemma sample_integrity: "validate_warrant_integrity zero_digest id sample_warrant = Inr ()"
  unfolding integrity_eq_Inr
proof (intro conjI)
  have "patch_text example_lines \<noteq> []" by (simp add: patch_text_def example_lines_def)
  then show "\<exists>p. p \<noteq> [] \<and> wd_patch_b64 sample_warrant = b64encode p \<and>
      wd_patch_sha256 sample_warrant = zero_digest p"
    by (intro exI [of _ "patch_text example_lines"]) (simp add: sample_warrant_def zero_digest_def)
  show "\<forall>b \<in> set (wd_execution_plans sample_warrant).
      bound_sha256 b = plan_sha256 zero_digest (as_execution_plan b)"
    by (simp add: sample_warrant_def sample_plan_def from_execution_plan_def plan_sha256_def zero_digest_def)
qed (rule sample_plans_digest)

lemma sample_patch_bytes: "patch_bytes sample_warrant = Inr (patch_text example_lines)"
  by (simp add: patch_bytes_eq_Inr sample_warrant_def)

lemma sample_document_ok: "document_ok sample_warrant"
proof -
  have "bound_plan_ok sample_plan"
    by (simp add: bound_plan_ok_def sample_plan_def from_execution_plan_def candidate_service_plan_def
        plan_sha256_def utf8_valid_ascii RUNNER_PYTHON_def CANDIDATE_SERVICE_def WORKSPACE_def
        char_count_def is_cont_def)
  moreover have "is_git_sha (replicate 40 CHR ''0'')" by code_simp
  ultimately show ?thesis
    by (simp add: document_ok_def document_fields_ok_def sample_warrant_def is_aware_def instant_def
        is_identifier_def is_identifier_char_def is_alnum_def is_lower_def is_digit_def char_count_def is_cont_def
        utf8_valid_ascii b64encode_ascii WARRANT_FORMAT_def)
qed

theorem integrity_recomputes_every_binding_witness:
  "\<exists>p. patch_bytes sample_warrant = Inr p \<and> p \<noteq> [] \<and> wd_patch_b64 sample_warrant = b64encode p"
  using integrity_recomputes_every_binding [of zero_digest id sample_warrant] sample_integrity by blast

text \<open>C5. The warrant digest binds the whole document: two documents with the same canonical hash agree in
  every field, the patch, the paths and every field of every bound plan included, up to Unicode
  normalisation of strings and the zone in which a time is written, as long as SHA-256 does not
  collide on the two canonical byte strings.\<close>

theorem warrant_hash_binds_document:
  assumes "nfc_laws nfc" "document_times_ok d" "document_times_ok e"
    and "canonical_warrant_hash sha nfc d = canonical_warrant_hash sha nfc e"
    and "inj_on sha {b. canonical_warrant_bytes nfc d = Inr b \<or> canonical_warrant_bytes nfc e = Inr b}"
  shows "normal_document nfc d = normal_document nfc e"
proof -
  have aware: "is_aware (wd_issued_at d)" "is_aware (wd_expires_at d)"
    "is_aware (wd_issued_at e)" "is_aware (wd_expires_at e)"
    using assms(2,3) by (simp_all add: document_times_ok_def)
  obtain b where b: "canonical_warrant_bytes nfc d = Inr b"
    by (rule canonical_warrant_bytes_ok [OF assms(1) aware(1,2)])
  obtain c where c: "canonical_warrant_bytes nfc e = Inr c"
    by (rule canonical_warrant_bytes_ok [OF assms(1) aware(3,4)])
  have "sha b = sha c" using assms(4) b c by (simp add: canonical_warrant_hash_def)
  then have "b = c" by (rule inj_onD [OF assms(5)]) (simp_all add: b c)
  with b c show ?thesis using equal_bytes_equal_documents [OF assms(1-3)] by simp
qed

lemma rezoned_bytes: "canonical_warrant_bytes id rezoned_warrant = canonical_warrant_bytes id sample_warrant"
proof -
  have "normalize id (document_py rezoned_warrant) = normalize id (document_py sample_warrant)"
    unfolding document_py_def normalize.simps(2)
    by (rule normalize_py_fields_cong)
      (simp add: document_fields_def rezoned_warrant_def sample_warrant_def list.rel_refl)
  then show ?thesis by (simp add: canonical_warrant_bytes_def canonical_json_def)
qed

lemma sample_times_ok: "document_times_ok sample_warrant" "document_times_ok rezoned_warrant"
proof -
  have "year_and_day 1 0 = (1, 0)" by (simp add: year_and_day.simps year_length_def is_leap_def)
  then show "document_times_ok sample_warrant" "document_times_ok rezoned_warrant"
    by (simp_all add: document_times_ok_def sample_warrant_def rezoned_warrant_def is_aware_def instant_def
        representable_def civil_def split: prod.splits)
qed

lemma zero_digest_inj_sample:
  "inj_on zero_digest {b. canonical_warrant_bytes id sample_warrant = Inr b \<or>
     canonical_warrant_bytes id rezoned_warrant = Inr b}"
  by (simp add: rezoned_bytes inj_on_def)

theorem warrant_hash_binds_document_witness:
  "normal_document id sample_warrant = normal_document id rezoned_warrant"
  by (rule warrant_hash_binds_document [OF nfc_laws_id sample_times_ok _ zero_digest_inj_sample])
    (simp add: canonical_warrant_hash_def rezoned_bytes)

lemma parse_canonical_warrant:
  assumes "nfc_text_laws nfc" "plain_py (document_py d)" "is_aware (wd_issued_at d)" "is_aware (wd_expires_at d)"
    and "rebuilds model_validate nfc (document_py d) (normal_document nfc d)"
    and raw: "canonical_warrant_bytes nfc d = Inr raw"
  shows "parse_warrant_json model_validate nfc raw = Inr (normal_document nfc d)"
proof -
  have laws: "nfc_laws nfc" using assms(1) by (simp add: nfc_text_laws_def)
  obtain kvs where kvs: "normalize nfc (document_py d) = Inr (JObj kvs)"
    by (rule document_normalizes [OF laws assms(3,4)])
  note loads = loads_plain_canonical [OF assms(1,2) kvs]
  have "canonical_warrant_bytes nfc (normal_document nfc d) = canonical_warrant_bytes nfc d"
    by (simp add: canonical_warrant_bytes_def canonical_json_def normalize_normal_document [OF laws])
  moreover have "raw = dumps (JObj kvs)"
    using raw loads(1) by (simp add: canonical_warrant_bytes_def del: dumps.simps)
  ultimately show ?thesis
    using loads assms(5) kvs raw by (simp add: rebuilds_def parse_warrant_json_def del: dumps.simps)
qed

lemma parsed_warrant_canonical:
  "parse_warrant_json model_validate nfc raw = Inr e \<Longrightarrow> canonical_warrant_bytes nfc e = Inr raw"
  by (auto simp: parse_warrant_json_def result_simps split: sum.splits json_error.splits option.splits if_splits)

text \<open>Warrant bytes have one representation: whatever the strict parser accepts equals the canonical
  bytes of the document it returns; and the canonical bytes of a document are accepted, giving back
  the document in normal form, provided the model class rebuilds a document from its JSON form.\<close>

theorem warrant_parse_roundtrip:
  assumes "nfc_text_laws nfc" "plain_py (document_py d)" "is_aware (wd_issued_at d)" "is_aware (wd_expires_at d)"
    and "rebuilds model_validate nfc (document_py d) (normal_document nfc d)"
  shows "(\<exists>raw. canonical_warrant_bytes nfc d = Inr raw \<and>
            parse_warrant_json model_validate nfc raw = Inr (normal_document nfc d)) \<and>
         (\<forall>raw e. parse_warrant_json model_validate nfc raw = Inr e \<longrightarrow> canonical_warrant_bytes nfc e = Inr raw)"
proof -
  have "nfc_laws nfc" using assms(1) by (simp add: nfc_text_laws_def)
  then obtain raw where "canonical_warrant_bytes nfc d = Inr raw"
    by (rule canonical_warrant_bytes_ok [OF _ assms(3,4)])
  then show ?thesis using parse_canonical_warrant [OF assms] parsed_warrant_canonical by blast
qed

lemma show_nat_small: "n < 1000 \<Longrightarrow> length (show_nat n) \<le> MAX_INT_DIGITS"
  by (auto simp: show_nat.simps MAX_INT_DIGITS_def)

lemma utf8_valid_printable: "printable s \<Longrightarrow> utf8_valid s"
  by (simp add: printable_ascii utf8_valid_ascii)

lemma sample_warrant_plain: "plain_py (document_py sample_warrant)"
  by (simp add: document_py_def document_fields_def py_fields_def sample_warrant_def utf8_valid_ascii
      b64encode_ascii WARRANT_FORMAT_def zero_digest_def bound_plan_py_def bound_plan_fields_def sample_plan_def
      from_execution_plan_def candidate_service_plan_def show_nat_small RUNNER_PYTHON_def CANDIDATE_SERVICE_def
      WORKSPACE_def plan_sha256_def)

theorem warrant_parse_roundtrip_witness:
  "\<exists>raw. canonical_warrant_bytes id sample_warrant = Inr raw \<and>
     parse_warrant_json
       (\<lambda>j. if normalize id (document_py sample_warrant) = Inr j then Some (normal_document id sample_warrant) else None)
       id raw = Inr (normal_document id sample_warrant)"
proof -
  have "nfc_text_laws id" by (simp add: nfc_text_laws_def)
  moreover have "rebuilds (\<lambda>j. if normalize id (document_py sample_warrant) = Inr j
      then Some (normal_document id sample_warrant) else None) id (document_py sample_warrant)
      (normal_document id sample_warrant)"
    by (simp add: rebuilds_def)
  ultimately show ?thesis
    using warrant_parse_roundtrip [OF _ sample_warrant_plain sample_warrant_aware] by blast
qed

end
