(* ===== verification/CP_Approval.thy ===== *)
theory CP_Approval
  imports CP_Warrant
begin

text \<open>
  Human-gated warrant approvals (\<^verbatim>\<open>broker/approval.py\<close>): the approval envelope and its canonical bytes, the
  strict parser, the domain-separated MAC input, and \<^verbatim>\<open>ApprovalService.approve\<close> and \<^verbatim>\<open>verify\<close>. HMAC-SHA-256
  and SHA-256 are arguments; \<^verbatim>\<open>hmac.compare_digest\<close> on text raises a type error for non-ASCII input, which
  no handler of the service catches, so it is a value of the error type of its own.
  The results: an issued approval verifies for its warrant; an approval that verifies carries the MAC of
  exactly this document under the service's key and verifies for no other document; and the type error
  is the only way in which verification does not return a boolean.
\<close>

datatype approval_error =
    InvalidWarrant warrant_error
  | ApprovalValueError string
  | ApprovalDuplicateKey string
  | ApprovalNotCanonical string
  | ApprovalCanonicalization canonicalization_error
  | CompareDigestTypeError

definition APPROVAL_DOMAIN :: string where
  "APPROVAL_DOMAIN = ''CROSSPATCH-APPROVAL-V1'' @ [CHR 0x00]"

record warrant_approval =
  ap_warrant_id :: string
  ap_warrant_sha256 :: string
  ap_approver_identity :: string
  ap_approved_at :: datetime
  ap_mac_key_id :: string
  ap_mac_sha256 :: string

definition approval_ok :: "warrant_approval \<Rightarrow> bool" where
  "approval_ok a \<longleftrightarrow>
     char_count (ap_mac_sha256 a) = 64 \<and> is_aware (ap_approved_at a) \<and>
     list_all utf8_valid [ap_warrant_id a, ap_warrant_sha256 a, ap_approver_identity a, ap_mac_key_id a,
       ap_mac_sha256 a]"

definition approval_fields :: "warrant_approval \<Rightarrow> (string \<times> pyval) list" where
  "approval_fields a =
     [(''warrant_id'', PyStr (ap_warrant_id a)),
      (''warrant_sha256'', PyStr (ap_warrant_sha256 a)),
      (''approver_identity'', PyStr (ap_approver_identity a)),
      (''approved_at'', PyDatetime (ap_approved_at a)),
      (''mac_key_id'', PyStr (ap_mac_key_id a)),
      (''mac_sha256'', PyStr (ap_mac_sha256 a))]"

definition approval_py :: "warrant_approval \<Rightarrow> pyval" where
  "approval_py a = PyBaseModel (py_fields (approval_fields a))"

definition canonical_approval_bytes ::
  "(string \<Rightarrow> string) \<Rightarrow> warrant_approval \<Rightarrow> canonicalization_error + string" where
  "canonical_approval_bytes nfc a = canonical_json nfc (approval_py a)"

definition parse_approval_json ::
  "(json \<Rightarrow> warrant_approval option) \<Rightarrow> (string \<Rightarrow> string) \<Rightarrow> string \<Rightarrow> approval_error + warrant_approval" where
  "parse_approval_json model_validate nfc raw =
     (case loads raw of
        Inl (DuplicateKeyError k) \<Rightarrow> Inl (ApprovalDuplicateKey (''duplicate approval JSON key: '' @ k))
      | Inl _ \<Rightarrow> Inl (ApprovalValueError ''invalid approval JSON'')
      | Inr value \<Rightarrow>
          (case model_validate value of
             None \<Rightarrow> Inl (ApprovalValueError ''invalid approval JSON'')
           | Some approval \<Rightarrow>
               rbind (map_error ApprovalCanonicalization (canonical_approval_bytes nfc approval)) (\<lambda>bytes.
                 if raw \<noteq> bytes
                 then Inl (ApprovalNotCanonical ''approval JSON does not match its canonical bytes'')
                 else Inr approval)))"

text \<open>\<^verbatim>\<open>hmac.compare_digest\<close> of two \<^verbatim>\<open>str\<close> values.\<close>

definition compare_digest :: "string \<Rightarrow> string \<Rightarrow> approval_error + bool" where
  "compare_digest a b =
     (if is_ascii a \<and> is_ascii b then Inr (a = b) else Inl CompareDigestTypeError)"

definition mac_input ::
  "(string \<Rightarrow> string) \<Rightarrow> warrant_document \<Rightarrow> warrant_approval \<Rightarrow> canonicalization_error + string" where
  "mac_input nfc d a =
     rbind (canonical_warrant_bytes nfc d) (\<lambda>bytes.
       Inr (APPROVAL_DOMAIN @
            ap_warrant_sha256 a @ newline @
            ap_approver_identity a @ newline @
            iso_utc (instant (ap_approved_at a)) @ ''+00:00'' @ newline @
            ap_mac_key_id a @ newline @ bytes))"

section \<open>ApprovalService\<close>

type_synonym mac_keys = "string \<rightharpoonup> string"

text \<open>The keys a service accepts: at least one, none shorter than 32 bytes.\<close>

definition approval_keys_ok :: "(string \<times> string) list \<Rightarrow> bool" where
  "approval_keys_ok keys \<longleftrightarrow> keys \<noteq> [] \<and> (\<forall>(k, key) \<in> set keys. 32 \<le> length key)"

definition unsigned_mac :: string where
  "unsigned_mac = replicate 64 CHR ''0''"

definition approve ::
  "(string \<Rightarrow> string) \<Rightarrow> (string \<Rightarrow> string) \<Rightarrow> (string \<Rightarrow> string \<Rightarrow> string) \<Rightarrow> mac_keys \<Rightarrow>
   warrant_document \<Rightarrow> datetime \<Rightarrow> string option \<Rightarrow> approval_error + warrant_approval" where
  "approve sha nfc hmac keys d approved_at approver_identity =
     rbind (map_error InvalidWarrant (validate_warrant_integrity sha nfc d)) (\<lambda>_.
     rbind (require (is_aware approved_at)
              (ApprovalValueError ''approval timestamp must be timezone-aware'')) (\<lambda>_.
     let approved_at = astimezone_utc approved_at in
     rbind (require (\<not> instant approved_at > instant (wd_expires_at d))
              (ApprovalValueError ''warrant is expired'')) (\<lambda>_.
     rbind (require (\<not> instant approved_at < instant (wd_issued_at d))
              (ApprovalValueError ''approval precedes warrant issuance'')) (\<lambda>_.
     let identity = (case approver_identity of
                       Some s \<Rightarrow> if s = [] then wd_approver_identity d else s
                     | None \<Rightarrow> wd_approver_identity d) in
     rbind (compare_digest identity (wd_approver_identity d)) (\<lambda>same.
     rbind (require same (ApprovalValueError ''approver identity does not match the warrant'')) (\<lambda>_.
     case keys (wd_approval_mac_key_id d) of
       None \<Rightarrow> Inl (ApprovalValueError ''unknown approval MAC key'')
     | Some key \<Rightarrow>
         rbind (map_error ApprovalCanonicalization (canonical_warrant_hash sha nfc d)) (\<lambda>hash.
         let unsigned = \<lparr>ap_warrant_id = wd_warrant_id d, ap_warrant_sha256 = hash,
                         ap_approver_identity = identity, ap_approved_at = approved_at,
                         ap_mac_key_id = wd_approval_mac_key_id d, ap_mac_sha256 = unsigned_mac\<rparr> in
         rbind (map_error ApprovalCanonicalization (mac_input nfc d unsigned)) (\<lambda>msg.
         Inr (unsigned\<lparr>ap_mac_sha256 := hmac key msg\<rparr>)))))))))"

text \<open>The body of \<^verbatim>\<open>verify\<close> before its handler; the handler turns every \<^verbatim>\<open>KeyError\<close> and \<^verbatim>\<open>ValueError\<close> into
  \<^verbatim>\<open>False\<close>, which the type error is not.\<close>

definition verify_body ::
  "(string \<Rightarrow> string) \<Rightarrow> (string \<Rightarrow> string) \<Rightarrow> (string \<Rightarrow> string \<Rightarrow> string) \<Rightarrow> mac_keys \<Rightarrow>
   warrant_document \<Rightarrow> warrant_approval \<Rightarrow> approval_error + bool" where
  "verify_body sha nfc hmac keys d a =
     rbind (map_error InvalidWarrant (validate_warrant_integrity sha nfc d)) (\<lambda>_.
     case keys (ap_mac_key_id a) of
       None \<Rightarrow> Inl (ApprovalValueError ''KeyError'')
     | Some key \<Rightarrow>
         rbind (map_error ApprovalCanonicalization (canonical_warrant_hash sha nfc d)) (\<lambda>expected_hash.
         rbind (compare_digest (ap_warrant_id a) (wd_warrant_id d)) (\<lambda>same. if \<not> same then Inr False else
         rbind (compare_digest (ap_warrant_sha256 a) expected_hash) (\<lambda>same. if \<not> same then Inr False else
         rbind (compare_digest (ap_approver_identity a) (wd_approver_identity d)) (\<lambda>same.
           if \<not> same then Inr False else
         rbind (compare_digest (ap_mac_key_id a) (wd_approval_mac_key_id d)) (\<lambda>same.
           if \<not> same then Inr False else
         rbind (map_error ApprovalCanonicalization (mac_input nfc d (a\<lparr>ap_mac_sha256 := unsigned_mac\<rparr>)))
           (\<lambda>msg. compare_digest (hmac key msg) (ap_mac_sha256 a))))))))"

definition verify ::
  "(string \<Rightarrow> string) \<Rightarrow> (string \<Rightarrow> string) \<Rightarrow> (string \<Rightarrow> string \<Rightarrow> string) \<Rightarrow> mac_keys \<Rightarrow>
   warrant_document \<Rightarrow> warrant_approval \<Rightarrow> approval_error + bool" where
  "verify sha nfc hmac keys d a =
     (case verify_body sha nfc hmac keys d a of
        Inr b \<Rightarrow> Inr b
      | Inl CompareDigestTypeError \<Rightarrow> Inl CompareDigestTypeError
      | Inl _ \<Rightarrow> Inr False)"

section \<open>Lemmas\<close>

lemma compare_digest_eq_Inr: "compare_digest a b = Inr x \<longleftrightarrow> is_ascii a \<and> is_ascii b \<and> x = (a = b)"
  by (auto simp: compare_digest_def)

lemma compare_digest_eq_Inl: "compare_digest a b = Inl e \<longleftrightarrow> \<not> (is_ascii a \<and> is_ascii b) \<and> e = CompareDigestTypeError"
  by (auto simp: compare_digest_def)

lemma mac_input_ignores_mac: "mac_input nfc d (a\<lparr>ap_mac_sha256 := m\<rparr>) = mac_input nfc d a"
  by (simp add: mac_input_def)

lemma verify_True:
  "verify sha nfc hmac keys d a = Inr True \<longleftrightarrow> verify_body sha nfc hmac keys d a = Inr True"
  by (auto simp: verify_def split: sum.splits approval_error.splits)

lemma verify_body_True:
  "verify_body sha nfc hmac keys d a = Inr True \<longleftrightarrow>
     validate_warrant_integrity sha nfc d = Inr () \<and>
     (\<exists>key msg. keys (ap_mac_key_id a) = Some key \<and> mac_input nfc d a = Inr msg \<and>
        ap_mac_sha256 a = hmac key msg \<and> is_ascii (hmac key msg)) \<and>
     canonical_warrant_hash sha nfc d = Inr (ap_warrant_sha256 a) \<and>
     ap_warrant_id a = wd_warrant_id d \<and> ap_approver_identity a = wd_approver_identity d \<and>
     ap_mac_key_id a = wd_approval_mac_key_id d \<and>
     list_all is_ascii [ap_warrant_id a, ap_warrant_sha256 a, ap_approver_identity a, ap_mac_key_id a]"
  by (cases "keys (ap_mac_key_id a)")
    (auto simp: verify_body_def result_simps compare_digest_eq_Inr mac_input_ignores_mac split: if_splits)

text \<open>Approvals are read back like warrants.\<close>

definition normal_approval :: "(string \<Rightarrow> string) \<Rightarrow> warrant_approval \<Rightarrow> warrant_approval" where
  "normal_approval nfc a =
     \<lparr>ap_warrant_id = nfc (ap_warrant_id a), ap_warrant_sha256 = nfc (ap_warrant_sha256 a),
      ap_approver_identity = nfc (ap_approver_identity a), ap_approved_at = utc (ap_approved_at a),
      ap_mac_key_id = nfc (ap_mac_key_id a), ap_mac_sha256 = nfc (ap_mac_sha256 a)\<rparr>"

lemma normalize_normal_approval:
  assumes "nfc_laws nfc"
  shows "normalize nfc (approval_py (normal_approval nfc a)) = normalize nfc (approval_py a)"
  unfolding approval_py_def normalize.simps(2)
  by (rule normalize_py_fields_cong)
    (simp add: approval_fields_def normal_approval_def normalize_str_idem [OF assms] normalize_utc
      del: normalize.simps)

lemma approval_normalizes:
  assumes "nfc_laws nfc" "is_aware (ap_approved_at a)"
  obtains kvs where "normalize nfc (approval_py a) = Inr (JObj kvs)"
proof -
  have "\<forall>(k, v) \<in> set (approval_fields a). is_ok (normalize nfc v)"
    using assms(2) by (simp add: approval_fields_def is_aware_def split: datetime.splits)
  then obtain kvs where "normalize nfc (py_fields (approval_fields a)) = Inr (JObj kvs)"
    using assms(1) by (elim normalize_py_fields_ok [rotated 3]) (simp_all add: approval_fields_def)
  then show thesis using that by (simp add: approval_py_def)
qed

lemma parse_canonical_approval:
  assumes "nfc_text_laws nfc" "plain_py (approval_py a)" "is_aware (ap_approved_at a)"
    and "rebuilds model_validate nfc (approval_py a) (normal_approval nfc a)"
    and raw: "canonical_approval_bytes nfc a = Inr raw"
  shows "parse_approval_json model_validate nfc raw = Inr (normal_approval nfc a)"
proof -
  have laws: "nfc_laws nfc" using assms(1) by (simp add: nfc_text_laws_def)
  obtain kvs where kvs: "normalize nfc (approval_py a) = Inr (JObj kvs)"
    by (rule approval_normalizes [OF laws assms(3)])
  note loads = loads_plain_canonical [OF assms(1,2) kvs]
  have "canonical_approval_bytes nfc (normal_approval nfc a) = canonical_approval_bytes nfc a"
    by (simp add: canonical_approval_bytes_def canonical_json_def normalize_normal_approval [OF laws])
  moreover have "raw = dumps (JObj kvs)"
    using raw loads(1) by (simp add: canonical_approval_bytes_def del: dumps.simps)
  ultimately show ?thesis
    using loads assms(4) kvs raw by (simp add: rebuilds_def parse_approval_json_def del: dumps.simps)
qed

lemma is_identifier_ascii: "is_identifier s \<Longrightarrow> is_ascii s"
  by (auto simp: is_identifier_def is_identifier_char_def is_alnum_def is_digit_def is_lower_def is_upper_def
      is_ascii_def list_all_iff split: list.splits)

lemma document_ok_ascii:
  "document_ok d \<Longrightarrow> is_ascii (wd_warrant_id d) \<and> is_ascii (wd_approval_mac_key_id d)"
  by (simp add: document_ok_def document_fields_ok_def is_identifier_ascii)

lemma document_ok_aware: "document_ok d \<Longrightarrow> is_aware (wd_issued_at d) \<and> is_aware (wd_expires_at d)"
  by (simp add: document_ok_def document_fields_ok_def)

lemma warrant_bytes_of_ok:
  assumes "nfc_laws nfc" "document_ok d"
  obtains b where "canonical_warrant_bytes nfc d = Inr b"
  using canonical_warrant_bytes_ok [OF assms(1)] document_ok_aware [OF assms(2)] by blast

lemma approve_eq_Inr:
  assumes "approve sha nfc hmac keys d approved_at identity = Inr a"
  obtains key msg where "keys (wd_approval_mac_key_id d) = Some key" and "mac_input nfc d a = Inr msg"
    and "ap_mac_sha256 a = hmac key msg" and "validate_warrant_integrity sha nfc d = Inr ()"
    and "canonical_warrant_hash sha nfc d = Inr (ap_warrant_sha256 a)"
    and "ap_warrant_id a = wd_warrant_id d" and "ap_approver_identity a = wd_approver_identity d"
    and "is_ascii (wd_approver_identity d)" and "ap_mac_key_id a = wd_approval_mac_key_id d"
    and "instant (wd_issued_at d) \<le> instant (ap_approved_at a)"
    and "instant (ap_approved_at a) \<le> instant (wd_expires_at d)" and "is_aware (ap_approved_at a)"
    and "instant (ap_approved_at a) = instant approved_at"
proof (cases "keys (wd_approval_mac_key_id d)")
  case None
  then show thesis
    using assms by (auto simp: approve_def result_simps Let_def)
next
  case (Some key)
  then show thesis
    using assms that [of key]
    by (auto simp: approve_def result_simps Let_def compare_digest_eq_Inr mac_input_ignores_mac
        astimezone_utc_def instant_def is_aware_def mac_input_def)
qed

lemma approve_verifies:
  assumes "document_ok d" "\<And>b. is_sha256 (sha b)" "\<And>k m. is_sha256 (hmac k m)"
    and "approve sha nfc hmac keys d approved_at identity = Inr a"
  shows "verify sha nfc hmac keys d a = Inr True \<and>
         instant (wd_issued_at d) \<le> instant (ap_approved_at a) \<and>
         instant (ap_approved_at a) \<le> instant (wd_expires_at d)"
proof -
  obtain key msg where *: "keys (wd_approval_mac_key_id d) = Some key" "mac_input nfc d a = Inr msg"
    "ap_mac_sha256 a = hmac key msg" "validate_warrant_integrity sha nfc d = Inr ()"
    "canonical_warrant_hash sha nfc d = Inr (ap_warrant_sha256 a)" "ap_warrant_id a = wd_warrant_id d"
    "ap_approver_identity a = wd_approver_identity d" "is_ascii (wd_approver_identity d)"
    "ap_mac_key_id a = wd_approval_mac_key_id d" "instant (wd_issued_at d) \<le> instant (ap_approved_at a)"
    "instant (ap_approved_at a) \<le> instant (wd_expires_at d)"
    by (rule approve_eq_Inr [OF assms(4)])
  obtain b where "sha b = ap_warrant_sha256 a"
    using *(5) by (auto simp: canonical_warrant_hash_def result_simps)
  then have "is_ascii (ap_warrant_sha256 a)" "is_ascii (hmac key msg)"
    using assms(2) [of b] assms(3) by (simp_all add: is_sha256_ascii)
  then show ?thesis
    using * document_ok_ascii [OF assms(1)] by (simp add: verify_True verify_body_True)
qed

section \<open>Properties\<close>

text \<open>Issued approvals verify: whenever the service approves a warrant, verifying the envelope it
  returned for the same warrant succeeds (it neither fails nor raises), and the approval time lies in
  the warrant's validity window.\<close>

theorem approved_warrant_verifies:
  assumes "document_ok d" "\<And>b. is_sha256 (sha b)" "\<And>k m. is_sha256 (hmac k m)"
    and "approve sha nfc hmac keys d approved_at identity = Inr a"
  shows "verify sha nfc hmac keys d a = Inr True \<and>
         instant (wd_issued_at d) \<le> instant (ap_approved_at a) \<and>
         instant (ap_approved_at a) \<le> instant (wd_expires_at d)"
  using approve_verifies [OF assms] .

definition sample_mac :: "string \<Rightarrow> string \<Rightarrow> string" where
  "sample_mac key msg = zero_digest msg"

definition sample_keys :: mac_keys where
  "sample_keys = [''k1'' \<mapsto> replicate 32 CHR ''x'']"

lemma zero_hash_sample: "canonical_warrant_hash zero_digest id sample_warrant = Inr (zero_digest [])"
proof -
  obtain b where "canonical_warrant_bytes id sample_warrant = Inr b"
    by (rule canonical_warrant_bytes_ok [OF nfc_laws_id sample_warrant_aware])
  then show ?thesis by (simp add: canonical_warrant_hash_def zero_digest_def)
qed

lemma sample_approval:
  obtains a where "approve zero_digest id sample_mac sample_keys sample_warrant (Aware 2000000 0) None = Inr a"
proof -
  obtain b where b: "canonical_warrant_bytes id sample_warrant = Inr b"
    by (rule canonical_warrant_bytes_ok [OF nfc_laws_id sample_warrant_aware])
  have fields: "wd_expires_at sample_warrant = Aware 9000000 0" "wd_issued_at sample_warrant = Aware 1000000 0"
    "wd_approver_identity sample_warrant = ''alice''" "wd_approval_mac_key_id sample_warrant = ''k1''"
    by (simp_all add: sample_warrant_def)
  have "\<exists>a. approve zero_digest id sample_mac sample_keys sample_warrant (Aware 2000000 0) None = Inr a"
    using b by (simp add: approve_def sample_integrity fields zero_hash_sample mac_input_def compare_digest_def
        is_aware_def astimezone_utc_def instant_def sample_keys_def Let_def)
  then show thesis using that by blast
qed

lemma is_sha256_sample_mac: "is_sha256 (sample_mac k m)"
  by (simp add: sample_mac_def)

lemma sample_approval_verifies:
  assumes "approve zero_digest id sample_mac sample_keys sample_warrant (Aware 2000000 0) None = Inr a"
  shows "verify zero_digest id sample_mac sample_keys sample_warrant a = Inr True"
  using approve_verifies [OF sample_document_ok is_sha256_zero_digest is_sha256_sample_mac assms] by simp

theorem approved_warrant_verifies_witness:
  "\<exists>a. approve zero_digest id sample_mac sample_keys sample_warrant (Aware 2000000 0) None = Inr a \<and>
       verify zero_digest id sample_mac sample_keys sample_warrant a = Inr True"
proof -
  obtain a where a: "approve zero_digest id sample_mac sample_keys sample_warrant (Aware 2000000 0) None = Inr a"
    by (rule sample_approval)
  from approved_warrant_verifies [OF sample_document_ok is_sha256_zero_digest is_sha256_sample_mac a] a
  show ?thesis by blast
qed

text \<open>C17. An approval is for one document: if one envelope verifies for two documents, the documents agree
  in every field (strings up to NFC, times up to their zone), provided SHA-256 does not collide on their
  canonical bytes; and a verified envelope carries the MAC that the service's key gives for exactly this
  document.\<close>

theorem verified_approval_binds_document:
  assumes "nfc_laws nfc" "document_times_ok d" "document_times_ok e"
    and "verify sha nfc hmac keys d a = Inr True" "verify sha nfc hmac keys e a = Inr True"
    and "inj_on sha {b. canonical_warrant_bytes nfc d = Inr b \<or> canonical_warrant_bytes nfc e = Inr b}"
  shows "normal_document nfc d = normal_document nfc e \<and>
         (\<exists>key msg. keys (wd_approval_mac_key_id d) = Some key \<and> mac_input nfc d a = Inr msg \<and>
            ap_mac_sha256 a = hmac key msg)"
proof -
  have d: "canonical_warrant_hash sha nfc d = Inr (ap_warrant_sha256 a)"
    and e: "canonical_warrant_hash sha nfc e = Inr (ap_warrant_sha256 a)"
    and mac: "\<exists>key msg. keys (wd_approval_mac_key_id d) = Some key \<and> mac_input nfc d a = Inr msg \<and>
            ap_mac_sha256 a = hmac key msg"
    using assms(4,5) by (auto simp: verify_True verify_body_True)
  obtain b c where b: "canonical_warrant_bytes nfc d = Inr b" "sha b = ap_warrant_sha256 a"
    and c: "canonical_warrant_bytes nfc e = Inr c" "sha c = ap_warrant_sha256 a"
    using d e by (auto simp: canonical_warrant_hash_def result_simps)
  have "b = c" by (rule inj_onD [OF assms(6)]) (simp_all add: b c)
  then have "normal_document nfc d = normal_document nfc e"
    using equal_bytes_equal_documents [OF assms(1-3) b(1)] c(1) by simp
  with mac show ?thesis by blast
qed

lemma rezoned_verifies:
  assumes "verify zero_digest id sample_mac sample_keys sample_warrant a = Inr True"
  shows "verify zero_digest id sample_mac sample_keys rezoned_warrant a = Inr True"
proof -
  have int: "validate_warrant_integrity zero_digest id rezoned_warrant = Inr ()"
    using sample_integrity unfolding integrity_eq_Inr by (simp add: rezoned_warrant_def)
  have same: "wd_warrant_id rezoned_warrant = wd_warrant_id sample_warrant"
    "wd_approver_identity rezoned_warrant = wd_approver_identity sample_warrant"
    "wd_approval_mac_key_id rezoned_warrant = wd_approval_mac_key_id sample_warrant"
    "mac_input id rezoned_warrant a = mac_input id sample_warrant a"
    "canonical_warrant_hash zero_digest id rezoned_warrant = canonical_warrant_hash zero_digest id sample_warrant"
    by (simp_all add: rezoned_warrant_def mac_input_def canonical_warrant_hash_def
        rezoned_bytes [unfolded rezoned_warrant_def])
  show ?thesis
    using assms int unfolding verify_True verify_body_True same by (elim conjE) (intro conjI)
qed

theorem verified_approval_binds_document_witness:
  "\<exists>a. verify zero_digest id sample_mac sample_keys sample_warrant a = Inr True \<and>
       normal_document id sample_warrant = normal_document id rezoned_warrant"
proof -
  obtain a where a: "approve zero_digest id sample_mac sample_keys sample_warrant (Aware 2000000 0) None = Inr a"
    by (rule sample_approval)
  have v: "verify zero_digest id sample_mac sample_keys sample_warrant a = Inr True"
    by (rule sample_approval_verifies [OF a])
  from verified_approval_binds_document [OF nfc_laws_id sample_times_ok v rezoned_verifies [OF v]
      zero_digest_inj_sample] v
  show ?thesis by blast
qed

lemma verify_eq_Inl:
  assumes "document_ok d" "\<And>b. is_sha256 (sha b)" "\<And>k m. is_sha256 (hmac k m)"
    and "list_all is_ascii [ap_warrant_id a, ap_warrant_sha256 a, ap_mac_key_id a, ap_mac_sha256 a]"
  shows "verify sha nfc hmac keys d a = Inl err \<longleftrightarrow>
    err = CompareDigestTypeError \<and> validate_warrant_integrity sha nfc d = Inr () \<and>
    (\<exists>key. keys (ap_mac_key_id a) = Some key) \<and> ap_warrant_id a = wd_warrant_id d \<and>
    canonical_warrant_hash sha nfc d = Inr (ap_warrant_sha256 a) \<and>
    \<not> (is_ascii (ap_approver_identity a) \<and> is_ascii (wd_approver_identity d))"
proof -
  have inl: "verify sha nfc hmac keys d a = Inl err \<longleftrightarrow>
      err = CompareDigestTypeError \<and> verify_body sha nfc hmac keys d a = Inl CompareDigestTypeError"
    by (auto simp: verify_def split: sum.splits approval_error.splits)
  have hash: "is_ascii h" if "canonical_warrant_hash sha nfc d = Inr h" for h
    using that assms(2) by (auto simp: canonical_warrant_hash_def result_simps is_sha256_ascii)
  show ?thesis
    unfolding inl using assms(4) document_ok_ascii [OF assms(1)] is_sha256_ascii [OF assms(3)]
    by (cases "keys (ap_mac_key_id a)")
      (auto simp: verify_body_def result_simps compare_digest_eq_Inr compare_digest_eq_Inl hash
        split: if_splits)
qed

lemma sample_non_ascii_raises:
  assumes "approve zero_digest id sample_mac sample_keys sample_warrant (Aware 2000000 0) None = Inr a"
  shows "verify zero_digest id sample_mac sample_keys sample_warrant (a\<lparr>ap_approver_identity := [CHR 0xC3, CHR 0xA9]\<rparr>)
    = Inl CompareDigestTypeError"
proof -
  let ?a = "a\<lparr>ap_approver_identity := [CHR 0xC3, CHR 0xA9]\<rparr>"
  have v: "verify zero_digest id sample_mac sample_keys sample_warrant a = Inr True"
    by (rule sample_approval_verifies [OF assms])
  have ascii: "list_all is_ascii [ap_warrant_id ?a, ap_warrant_sha256 ?a, ap_mac_key_id ?a, ap_mac_sha256 ?a]"
    using v by (auto simp: verify_True verify_body_True)
  show ?thesis
    using v by (subst verify_eq_Inl [OF sample_document_ok is_sha256_zero_digest is_sha256_sample_mac ascii])
      (auto simp: verify_True verify_body_True)
qed

text \<open>Verification returns a boolean except in one case: on documents the model class admits, with an
  envelope whose other fields are ASCII, it raises exactly when everything up to the approver
  comparison matches and one of the two approver identities is not ASCII; the exception is the type
  error of \<^verbatim>\<open>hmac.compare_digest\<close>, which is no \<^verbatim>\<open>ValueError\<close>.\<close>

theorem verify_raises_only_on_non_ascii_approver:
  assumes "document_ok d" "\<And>b. is_sha256 (sha b)" "\<And>k m. is_sha256 (hmac k m)"
    and "list_all is_ascii [ap_warrant_id a, ap_warrant_sha256 a, ap_mac_key_id a, ap_mac_sha256 a]"
  shows "verify sha nfc hmac keys d a = Inl err \<longleftrightarrow>
    err = CompareDigestTypeError \<and> validate_warrant_integrity sha nfc d = Inr () \<and>
    (\<exists>key. keys (ap_mac_key_id a) = Some key) \<and> ap_warrant_id a = wd_warrant_id d \<and>
    canonical_warrant_hash sha nfc d = Inr (ap_warrant_sha256 a) \<and>
    \<not> (is_ascii (ap_approver_identity a) \<and> is_ascii (wd_approver_identity d))"
  by (rule verify_eq_Inl [OF assms])

theorem verify_raises_only_on_non_ascii_approver_witness:
  "\<exists>a. approve zero_digest id sample_mac sample_keys sample_warrant (Aware 2000000 0) None = Inr a \<and>
       verify zero_digest id sample_mac sample_keys sample_warrant (a\<lparr>ap_approver_identity := [CHR 0xC3, CHR 0xA9]\<rparr>)
         = Inl CompareDigestTypeError"
proof -
  obtain a where a: "approve zero_digest id sample_mac sample_keys sample_warrant (Aware 2000000 0) None = Inr a"
    by (rule sample_approval)
  let ?a = "a\<lparr>ap_approver_identity := [CHR 0xC3, CHR 0xA9]\<rparr>"
  have v: "verify zero_digest id sample_mac sample_keys sample_warrant a = Inr True"
    by (rule sample_approval_verifies [OF a])
  have ascii: "list_all is_ascii [ap_warrant_id ?a, ap_warrant_sha256 ?a, ap_mac_key_id ?a, ap_mac_sha256 ?a]"
    using v by (auto simp: verify_True verify_body_True)
  have "verify zero_digest id sample_mac sample_keys sample_warrant ?a = Inl CompareDigestTypeError"
    using v by (subst verify_raises_only_on_non_ascii_approver [OF sample_document_ok is_sha256_zero_digest
        is_sha256_sample_mac ascii])
      (auto simp: verify_True verify_body_True)
  with a show ?thesis by blast
qed

end
