(* ===== verification/CP_Broker.thy ===== *)
theory CP_Broker
  imports CP_Approval
begin

text \<open>
  The single-use mutation broker (\<^verbatim>\<open>broker/broker.py\<close>): statuses, results, authority snapshots, the claim
  validator \<^verbatim>\<open>Broker._validate_claim\<close>, the in-memory warrant store and \<^verbatim>\<open>Broker.execute_warrant\<close>. The
  worktree factory and the process runner are protocols in the code and arguments here: what they
  answer, including failures and cancellation at every await, is their result. The store's operations
  are the arguments of \<open>execute_warrant\<close>, so that both stores of the code can be plugged in.
  The locale \<open>warrant_store\<close> is the contract of a store; its lemmas give single use over every
  interleaving of operations, and that an execution always ends with a consumed warrant.
\<close>

section \<open>Data\<close>

datatype broker_status =
    BS_EXECUTED | BS_TEST_FAILED | BS_TAMPER_REJECTED | BS_POLICY_REJECTED | BS_EXPIRED
  | BS_REPLAY_REJECTED | BS_INFRA_FAILED | BS_NOT_FOUND

fun status_value :: "broker_status \<Rightarrow> string" where
  "status_value BS_EXECUTED = ''EXECUTED''"
| "status_value BS_TEST_FAILED = ''TEST_FAILED''"
| "status_value BS_TAMPER_REJECTED = ''TAMPER_REJECTED''"
| "status_value BS_POLICY_REJECTED = ''POLICY_REJECTED''"
| "status_value BS_EXPIRED = ''EXPIRED''"
| "status_value BS_REPLAY_REJECTED = ''REPLAY_REJECTED''"
| "status_value BS_INFRA_FAILED = ''INFRA_FAILED''"
| "status_value BS_NOT_FOUND = ''NOT_FOUND''"

datatype warrant_state = WS_APPROVED | WS_CONSUMING | WS_CONSUMED | WS_REJECTED | WS_EXPIRED

record broker_result =
  br_warrant_id :: string
  br_status :: broker_status
  br_receipts :: "process_receipt list"
  br_error_code :: "string option"
  br_nonce_sha256 :: "string option"

record authority_snapshot =
  au_warrant_id :: string
  au_incident_id :: string
  au_repository_id :: string
  au_verdict_id :: string
  au_verdict_sha256 :: string
  au_candidate_id :: string
  au_authority_snapshot_sha256 :: string
  au_reviewed_evidence_manifest_sha256 :: string
  au_reviewed_timeline_head :: string
  au_base_sha :: string
  au_repository_manifest_sha256 :: string
  au_patch_sha256 :: string
  au_allowed_paths :: "string list"
  au_test_plan_sha256 :: string
  au_repository_root :: string

text \<open>The root is the resolved repository path.\<close>

definition from_warrant :: "warrant_document \<Rightarrow> string \<Rightarrow> authority_snapshot" where
  "from_warrant d repository_root =
     \<lparr>au_warrant_id = wd_warrant_id d, au_incident_id = wd_incident_id d,
      au_repository_id = wd_repository_id d, au_verdict_id = wd_verdict_id d,
      au_verdict_sha256 = wd_verdict_sha256 d, au_candidate_id = wd_candidate_id d,
      au_authority_snapshot_sha256 = wd_authority_snapshot_sha256 d,
      au_reviewed_evidence_manifest_sha256 = wd_reviewed_evidence_manifest_sha256 d,
      au_reviewed_timeline_head = wd_reviewed_timeline_head d, au_base_sha = wd_base_sha d,
      au_repository_manifest_sha256 = wd_repository_manifest_sha256 d,
      au_patch_sha256 = wd_patch_sha256 d, au_allowed_paths = wd_allowed_paths d,
      au_test_plan_sha256 = wd_test_plan_sha256 d, au_repository_root = repository_root\<rparr>"

text \<open>What a validator or an authority loader can raise; \<open>Escaped\<close> is everything that is no
  \<^verbatim>\<open>ValueError\<close>.\<close>

datatype claim_error =
    TamperRejected string
  | PolicyRejected string
  | ClaimValueError string
  | Escaped string

type_synonym claim_validator =
  "warrant_document \<Rightarrow> warrant_approval \<Rightarrow> datetime \<Rightarrow> authority_snapshot \<Rightarrow> claim_error + authority_snapshot"

type_synonym authority_loader = "string \<Rightarrow> claim_error + authority_snapshot"

datatype claim_outcome =
    Claimed warrant_document warrant_approval authority_snapshot
  | Rejected broker_status string

section \<open>Claim validation\<close>

text \<open>What a broker is constructed with: the hash, normal forms and MAC of its environment, the approval
  keys, the deployment digests, and the live repositories by root.\<close>

record broker_config =
  cfg_sha :: "string \<Rightarrow> string"
  cfg_nfc :: "string \<Rightarrow> string"
  cfg_nfkc :: "string \<Rightarrow> string"
  cfg_hmac :: "string \<Rightarrow> string \<Rightarrow> string"
  cfg_keys :: mac_keys
  cfg_runner_digest :: string
  cfg_environment_digest :: string
  cfg_repository :: "string \<Rightarrow> repository_view"

definition bound_pairs :: "warrant_document \<Rightarrow> authority_snapshot \<Rightarrow> (string \<times> string) list" where
  "bound_pairs d au =
     [(wd_warrant_id d, au_warrant_id au), (wd_incident_id d, au_incident_id au),
      (wd_repository_id d, au_repository_id au), (wd_verdict_id d, au_verdict_id au),
      (wd_verdict_sha256 d, au_verdict_sha256 au), (wd_candidate_id d, au_candidate_id au),
      (wd_authority_snapshot_sha256 d, au_authority_snapshot_sha256 au),
      (wd_reviewed_evidence_manifest_sha256 d, au_reviewed_evidence_manifest_sha256 au),
      (wd_reviewed_timeline_head d, au_reviewed_timeline_head au), (wd_base_sha d, au_base_sha au),
      (wd_repository_manifest_sha256 d, au_repository_manifest_sha256 au),
      (wd_patch_sha256 d, au_patch_sha256 au), (wd_test_plan_sha256 d, au_test_plan_sha256 au)]"

definition check_bound_plan :: "broker_config \<Rightarrow> bound_execution_plan \<Rightarrow> claim_error + unit" where
  "check_bound_plan cfg bound =
     (if plan_id bound \<notin> set CANDIDATE_PLAN_IDS then Inl (TamperRejected ''PLAN_NOT_BROKER_EXECUTABLE'')
      else (case resolve (plan_id bound) None of
              Inl (UnknownExecutionPlan _) \<Rightarrow> Inl (TamperRejected ''UNKNOWN_EXECUTION_PLAN'')
            | Inl (ModelSuppliedCommand m) \<Rightarrow> Inl (ClaimValueError m)
            | Inr plan \<Rightarrow>
                require (canonical_json (cfg_nfc cfg) (bound_plan_py bound) =
                         canonical_json (cfg_nfc cfg) (bound_plan_py (from_execution_plan (cfg_sha cfg) plan)))
                  (TamperRejected ''RESOLVED_EXECUTION_PLAN_CHANGED'')))"

definition check_integrity :: "broker_config \<Rightarrow> warrant_document \<Rightarrow> claim_error + unit" where
  "check_integrity cfg d =
     (case validate_warrant_integrity (cfg_sha cfg) (cfg_nfc cfg) d of
        Inr u \<Rightarrow> Inr u
      | Inl (WarrantIntegrityError _) \<Rightarrow> Inl (TamperRejected ''WARRANT_DERIVED_BINDING_CHANGED'')
      | Inl _ \<Rightarrow> Inl (ClaimValueError ''canonicalization''))"

definition check_approval ::
  "broker_config \<Rightarrow> warrant_document \<Rightarrow> warrant_approval \<Rightarrow> claim_error + unit" where
  "check_approval cfg d a =
     (case verify (cfg_sha cfg) (cfg_nfc cfg) (cfg_hmac cfg) (cfg_keys cfg) d a of
        Inl _ \<Rightarrow> Inl (Escaped ''TypeError'')
      | Inr ok \<Rightarrow> require ok (TamperRejected ''APPROVAL_MAC_OR_CANONICAL_BYTES_CHANGED''))"

definition check_patch_policy ::
  "broker_config \<Rightarrow> warrant_document \<Rightarrow> authority_snapshot \<Rightarrow> claim_error + unit" where
  "check_patch_policy cfg d au =
     (case patch_bytes d of
        Inl _ \<Rightarrow> Inl (ClaimValueError ''patch bytes'')
      | Inr patch \<Rightarrow>
          (case validate_declared_patch_paths (cfg_nfkc cfg) (cfg_repository cfg (au_repository_root au)) patch
                  (wd_allowed_paths d) of
             Inl _ \<Rightarrow> Inl (PolicyRejected ''PATCH_POLICY_REJECTED'')
           | Inr _ \<Rightarrow> Inr ()))"

definition validate_claim :: "broker_config \<Rightarrow> claim_validator" where
  "validate_claim cfg d a now au =
     rbind (check_integrity cfg d) (\<lambda>_.
     rbind (require (wd_format d = WARRANT_FORMAT) (TamperRejected ''WARRANT_FORMAT_CHANGED'')) (\<lambda>_.
     rbind (require (\<not> instant (wd_issued_at d) > instant now)
              (TamperRejected ''WARRANT_ISSUED_IN_FUTURE'')) (\<lambda>_.
     rbind (require (\<not> instant (ap_approved_at a) > instant now)
              (TamperRejected ''APPROVAL_TIMESTAMP_IN_FUTURE'')) (\<lambda>_.
     rbind (require (\<not> (instant (ap_approved_at a) < instant (wd_issued_at d) \<or>
                        instant (ap_approved_at a) > instant (wd_expires_at d)))
              (TamperRejected ''APPROVAL_TIMESTAMP_OUTSIDE_WARRANT_WINDOW'')) (\<lambda>_.
     rbind (check_approval cfg d a) (\<lambda>_.
     rbind (require (list_all (\<lambda>(l, r). l = r) (bound_pairs d au))
              (TamperRejected ''CURRENT_AUTHORITY_SNAPSHOT_CHANGED'')) (\<lambda>_.
     rbind (require (canonical_json (cfg_nfc cfg) (PyList (map PyStr (wd_allowed_paths d))) =
                     canonical_json (cfg_nfc cfg) (PyList (map PyStr (au_allowed_paths au))))
              (TamperRejected ''CURRENT_ALLOWED_PATHS_CHANGED'')) (\<lambda>_.
     rbind (require (wd_runner_digest d = cfg_runner_digest cfg)
              (TamperRejected ''RUNNER_DIGEST_CHANGED'')) (\<lambda>_.
     rbind (require (wd_environment_digest d = cfg_environment_digest cfg)
              (TamperRejected ''ENVIRONMENT_DIGEST_CHANGED'')) (\<lambda>_.
     rbind (map_result (check_bound_plan cfg) (wd_execution_plans d)) (\<lambda>_.
     rbind (check_patch_policy cfg d au) (\<lambda>_. Inr au))))))))))))"

section \<open>The in-memory store\<close>

record stored_warrant =
  sw_document :: warrant_document
  sw_approval :: warrant_approval
  sw_state :: warrant_state
  sw_result :: "broker_result option"

type_synonym mem_store = "string \<rightharpoonup> stored_warrant"

datatype store_error =
    StoreValueError string
  | StoreRuntimeError string
  | StoreKeyError string
  | StoreIntegrityError string
  | StoreEscaped string

definition mem_add_approved :: "warrant_document \<times> warrant_approval \<Rightarrow> mem_store \<Rightarrow> store_error + mem_store" where
  "mem_add_approved da records =
     (if wd_warrant_id (fst da) \<in> dom records then Inl (StoreValueError ''warrant id already exists'')
      else Inr (records(wd_warrant_id (fst da) \<mapsto>
             \<lparr>sw_document = fst da, sw_approval = snd da, sw_state = WS_APPROVED, sw_result = None\<rparr>)))"

definition error_text :: "string \<Rightarrow> string \<Rightarrow> string" where
  "error_text e fallback = (if e = [] then fallback else e)"

definition mem_claim_warrant ::
  "claim_validator \<times> authority_loader \<times> datetime \<Rightarrow> string \<Rightarrow> mem_store
   \<Rightarrow> store_error + (mem_store \<times> claim_outcome)" where
  "mem_claim_warrant env warrant_id records =
     (let (validator, loader, now) = env
      in case records warrant_id of
           None \<Rightarrow> Inr (records, Rejected BS_NOT_FOUND ''WARRANT_NOT_FOUND'')
         | Some record \<Rightarrow>
             if sw_state record \<noteq> WS_APPROVED
             then Inr (records, Rejected BS_REPLAY_REJECTED ''WARRANT_ALREADY_CLAIMED'')
             else if \<not> is_aware now
             then Inl (StoreRuntimeError ''broker database clock must be timezone-aware'')
             else (let now = astimezone_utc now;
                       put = (\<lambda>st. records(warrant_id \<mapsto> record\<lparr>sw_state := st\<rparr>))
                   in if instant now > instant (wd_expires_at (sw_document record))
                      then Inr (put WS_EXPIRED, Rejected BS_EXPIRED ''WARRANT_EXPIRED'')
                      else (case rbind (loader (wd_warrant_id (sw_document record)))
                                    (validator (sw_document record) (sw_approval record) now) of
                              Inl (PolicyRejected e) \<Rightarrow>
                                Inr (put WS_REJECTED, Rejected BS_POLICY_REJECTED (error_text e ''PATCH_POLICY_REJECTED''))
                            | Inl (TamperRejected e) \<Rightarrow>
                                Inr (put WS_REJECTED, Rejected BS_TAMPER_REJECTED (error_text e ''WARRANT_TAMPER_REJECTED''))
                            | Inl (ClaimValueError e) \<Rightarrow>
                                Inr (put WS_REJECTED, Rejected BS_TAMPER_REJECTED (error_text e ''WARRANT_TAMPER_REJECTED''))
                            | Inl (Escaped e) \<Rightarrow> Inl (StoreEscaped e)
                            | Inr authority \<Rightarrow>
                                Inr (put WS_CONSUMING, Claimed (sw_document record) (sw_approval record) authority))))"

definition mem_finish :: "broker_result \<Rightarrow> string \<Rightarrow> mem_store \<Rightarrow> store_error + mem_store" where
  "mem_finish result warrant_id records =
     (case records warrant_id of
        None \<Rightarrow> Inl (StoreKeyError warrant_id)
      | Some record \<Rightarrow>
          if sw_state record \<noteq> WS_CONSUMING
          then Inl (StoreRuntimeError ''only a consuming warrant can finish'')
          else Inr (records(warrant_id \<mapsto> record\<lparr>sw_result := Some result, sw_state := WS_CONSUMED\<rparr>)))"

section \<open>Execution\<close>

text \<open>What stops an await: an ordinary exception, or cancellation (\<^verbatim>\<open>CancelledError\<close>, \<^verbatim>\<open>KeyboardInterrupt\<close>,
  \<^verbatim>\<open>SystemExit\<close>).\<close>

datatype interruption = Failure | Cancellation

record 'w infrastructure =
  worktree_enter :: "warrant_document \<Rightarrow> authority_snapshot \<Rightarrow> interruption + 'w"
  worktree_exit :: "'w \<Rightarrow> interruption option"
  process_run :: "'w \<Rightarrow> execution_plan \<Rightarrow> interruption + process_receipt"
  finish_cancelled :: "broker_result \<Rightarrow> bool option"

text \<open>\<open>finish_cancelled\<close> is the task being cancelled while it awaits the last, unshielded \<^verbatim>\<open>finish\<close>: \<open>None\<close> when
  it is not, otherwise whether the store's transaction had committed. The \<^verbatim>\<open>finish\<close> of the cancellation
  branch runs in a shielded scope, which cancellation does not reach.\<close>

text \<open>The loop over the bound plans: the plans submitted to the runner, their receipts, and how it ended
  (\<open>Inr True\<close>: every plan passed, \<open>Inr False\<close>: one failed).\<close>

fun run_plans ::
  "('w \<Rightarrow> execution_plan \<Rightarrow> interruption + process_receipt) \<Rightarrow> 'w \<Rightarrow> bound_execution_plan list
   \<Rightarrow> execution_plan list \<times> process_receipt list \<times> (interruption + bool)" where
  "run_plans run ws [] = ([], [], Inr True)"
| "run_plans run ws (bound # rest) =
     (case resolve (plan_id bound) None of
        Inl _ \<Rightarrow> ([], [], Inl Failure)
      | Inr plan \<Rightarrow>
          (case run ws plan of
             Inl i \<Rightarrow> ([plan], [], Inl i)
           | Inr receipt \<Rightarrow>
               if \<not> passed receipt then ([plan], [receipt], Inr False)
               else (let (plans, receipts, end) = run_plans run ws rest
                     in (plan # plans, receipt # receipts, end))))"

text \<open>The \<^verbatim>\<open>async with\<close> block: leaving the worktree can itself fail, which replaces how the block ended.\<close>

definition run_in_worktree ::
  "'w infrastructure \<Rightarrow> warrant_document \<Rightarrow> authority_snapshot
   \<Rightarrow> execution_plan list \<times> process_receipt list \<times> (interruption + bool)" where
  "run_in_worktree infra d au =
     (case worktree_enter infra d au of
        Inl i \<Rightarrow> ([], [], Inl i)
      | Inr ws \<Rightarrow>
          (let (plans, receipts, end) = run_plans (process_run infra) ws (wd_execution_plans d)
           in (plans, receipts, case worktree_exit infra ws of None \<Rightarrow> end | Some i \<Rightarrow> Inl i)))"

definition broker_result_of ::
  "string \<Rightarrow> string \<Rightarrow> process_receipt list \<Rightarrow> interruption + bool \<Rightarrow> broker_result" where
  "broker_result_of warrant_id nonce_sha256 receipts end =
     (let (status, error) = (case end of
            Inr True \<Rightarrow> (BS_EXECUTED, None)
          | Inr False \<Rightarrow> (BS_TEST_FAILED, Some ''FIXED_TEST_PLAN_FAILED'')
          | Inl Cancellation \<Rightarrow> (BS_INFRA_FAILED, Some ''BROKER_CANCELLED_AFTER_CLAIM'')
          | Inl Failure \<Rightarrow> (BS_INFRA_FAILED, Some ''WORKTREE_OR_RUNNER_FAILURE''))
      in \<lparr>br_warrant_id = warrant_id, br_status = status, br_receipts = receipts,
          br_error_code = error, br_nonce_sha256 = Some nonce_sha256\<rparr>)"

datatype execution_end =
    Returned broker_result
  | CancelledAfter broker_result
  | CancelledBefore broker_result
  | Raised store_error

text \<open>The whole handler: the final store, how the call ended, and the plans submitted to the runner. A call
  that is cancelled after the claim ends with the result stored (\<open>CancelledAfter\<close>) or, when the
  cancellation reaches the last \<^verbatim>\<open>finish\<close> before it commits, without it (\<open>CancelledBefore\<close>). Cancellation
  while the claim itself is awaited ends the call inside the store and is not part of the handler.\<close>

definition execute_warrant ::
  "(string \<Rightarrow> string) \<Rightarrow> ('c \<Rightarrow> string \<Rightarrow> 's \<Rightarrow> store_error + ('s \<times> claim_outcome)) \<Rightarrow>
   (broker_result \<Rightarrow> string \<Rightarrow> 's \<Rightarrow> store_error + 's) \<Rightarrow> 'w infrastructure \<Rightarrow> 'c \<Rightarrow> string \<Rightarrow> 's
   \<Rightarrow> 's \<times> execution_end \<times> execution_plan list" where
  "execute_warrant sha claim finish infra env warrant_id s =
     (case claim env warrant_id s of
        Inl e \<Rightarrow> (s, Raised e, [])
      | Inr (s1, Rejected rejection error) \<Rightarrow>
          (s1, Returned \<lparr>br_warrant_id = warrant_id, br_status = rejection, br_receipts = [],
                         br_error_code = Some error, br_nonce_sha256 = None\<rparr>, [])
      | Inr (s1, Claimed d a au) \<Rightarrow>
          (let (plans, receipts, end) = run_in_worktree infra d au;
               result = broker_result_of warrant_id (sha (wd_nonce d)) receipts end
           in if end \<noteq> Inl Cancellation \<and> finish_cancelled infra result = Some False
              then (s1, CancelledBefore result, plans)
              else (case finish result warrant_id s1 of
                      Inl e \<Rightarrow> (s1, Raised e, plans)
                    | Inr s2 \<Rightarrow>
                        (s2, if end = Inl Cancellation \<or> finish_cancelled infra result = Some True
                             then CancelledAfter result else Returned result, plans))))"

section \<open>Interleavings of store operations\<close>

text \<open>Any client of a store issues operations one after the other (each holds the store's lock or a
  transaction); an operation that raises leaves the store as it was.\<close>

datatype ('a, 'c, 'f, 'o) store_op =
    AddApproved 'a
  | ClaimWarrant 'c string
  | FinishWarrant 'f broker_result string
  | OtherOp 'o

fun run_ops ::
  "('a \<Rightarrow> 's \<Rightarrow> store_error + 's) \<Rightarrow> ('c \<Rightarrow> string \<Rightarrow> 's \<Rightarrow> store_error + ('s \<times> claim_outcome)) \<Rightarrow>
   ('f \<Rightarrow> broker_result \<Rightarrow> string \<Rightarrow> 's \<Rightarrow> store_error + 's) \<Rightarrow> ('o \<Rightarrow> 's \<Rightarrow> store_error + 's) \<Rightarrow>
   's \<Rightarrow> ('a, 'c, 'f, 'o) store_op list \<Rightarrow> 's \<times> string list" where
  "run_ops add claim finish other s [] = (s, [])"
| "run_ops add claim finish other s (AddApproved a # ops) =
     run_ops add claim finish other (case add a s of Inl _ \<Rightarrow> s | Inr s' \<Rightarrow> s') ops"
| "run_ops add claim finish other s (FinishWarrant f r w # ops) =
     run_ops add claim finish other (case finish f r w s of Inl _ \<Rightarrow> s | Inr s' \<Rightarrow> s') ops"
| "run_ops add claim finish other s (OtherOp x # ops) =
     run_ops add claim finish other (case other x s of Inl _ \<Rightarrow> s | Inr s' \<Rightarrow> s') ops"
| "run_ops add claim finish other s (ClaimWarrant c w # ops) =
     (case claim c w s of
        Inl _ \<Rightarrow> run_ops add claim finish other s ops
      | Inr (s', Rejected _ _) \<Rightarrow> run_ops add claim finish other s' ops
      | Inr (s', Claimed _ _ _) \<Rightarrow>
          (let (s'', ws) = run_ops add claim finish other s' ops in (s'', w # ws)))"

section \<open>The contract of a warrant store\<close>

locale warrant_store =
  fixes state_of :: "'s \<Rightarrow> string \<Rightarrow> warrant_state option"
    and add :: "'a \<Rightarrow> 's \<Rightarrow> store_error + 's"
    and added :: "'a \<Rightarrow> string"
    and claim :: "'c \<Rightarrow> string \<Rightarrow> 's \<Rightarrow> store_error + ('s \<times> claim_outcome)"
    and finish :: "'f \<Rightarrow> broker_result \<Rightarrow> string \<Rightarrow> 's \<Rightarrow> store_error + 's"
    and other :: "'o \<Rightarrow> 's \<Rightarrow> store_error + 's"
    and result_ok :: "broker_result \<Rightarrow> bool"
  assumes add_state: "add x s = Inr s' \<Longrightarrow>
      state_of s (added x) = None \<and> state_of s' = (state_of s)(added x \<mapsto> WS_APPROVED)"
    and claim_claimed: "claim c w s = Inr (s', Claimed d a au) \<Longrightarrow>
      state_of s w = Some WS_APPROVED \<and> state_of s' = (state_of s)(w \<mapsto> WS_CONSUMING)"
    and claim_rejected: "claim c w s = Inr (s', Rejected b e) \<Longrightarrow>
      state_of s w \<noteq> Some WS_APPROVED \<and> s' = s \<or>
      state_of s w = Some WS_APPROVED \<and>
        (state_of s' = (state_of s)(w \<mapsto> WS_REJECTED) \<or> state_of s' = (state_of s)(w \<mapsto> WS_EXPIRED))"
    and claim_replayed: "state_of s w = Some st \<Longrightarrow> st \<noteq> WS_APPROVED \<Longrightarrow>
      claim c w s = Inr (s, Rejected BS_REPLAY_REJECTED ''WARRANT_ALREADY_CLAIMED'')"
    and finish_state: "finish f r w s = Inr s' \<Longrightarrow>
      state_of s w = Some WS_CONSUMING \<and> state_of s' = (state_of s)(w \<mapsto> WS_CONSUMED)"
    and finish_consuming: "state_of s w = Some WS_CONSUMING \<Longrightarrow> result_ok r \<Longrightarrow> is_ok (finish f r w s)"
    and other_state: "other o' s = Inr s' \<Longrightarrow> state_of s' = state_of s"
begin

definition spent :: "'s \<Rightarrow> string \<Rightarrow> bool" where
  "spent s w \<longleftrightarrow> state_of s w \<notin> {None, Some WS_APPROVED}"

lemma spent_add: "add a s = Inr s' \<Longrightarrow> spent s w \<Longrightarrow> spent s' w"
  using add_state [of a s s'] by (auto simp: spent_def)

lemma spent_claimed: "claim c v s = Inr (s', Claimed d a au) \<Longrightarrow> spent s' v \<and> (spent s w \<longrightarrow> spent s' w)"
  using claim_claimed [of c v s s' d a au] by (auto simp: spent_def)

lemma spent_rejected: "claim c v s = Inr (s', Rejected b e) \<Longrightarrow> spent s w \<Longrightarrow> spent s' w"
  using claim_rejected [of c v s s' b e] by (auto simp: spent_def split: if_splits)

lemma spent_finish: "finish f r v s = Inr s' \<Longrightarrow> spent s w \<Longrightarrow> spent s' w"
  using finish_state [of f r v s s'] by (auto simp: spent_def)

lemma spent_other: "other o' s = Inr s' \<Longrightarrow> spent s w \<Longrightarrow> spent s' w"
  using other_state [of o' s s'] by (simp add: spent_def)

lemmas spent_preserved = spent_add spent_rejected spent_finish spent_other

lemma spent_not_claimed: "spent s w \<Longrightarrow> w \<notin> set (snd (run_ops add claim finish other s ops))"
proof (induction ops arbitrary: s)
  case (Cons x ops)
  show ?case
  proof (cases x)
    case (ClaimWarrant c v)
    show ?thesis
    proof (cases "claim c v s")
      case (Inr res)
      then obtain s' outcome where res: "claim c v s = Inr (s', outcome)" by (cases res) auto
      then have "spent s' w" "outcome = Claimed d a au \<Longrightarrow> v \<noteq> w" for d a au
        using Cons.prems spent_claimed [of c v s s'] spent_rejected [of c v s s'] claim_claimed [of c v s s']
        by (cases outcome; auto simp: spent_def [of s])+
      then show ?thesis
        using Cons.IH [of s'] ClaimWarrant res by (auto simp: case_prod_beta split: claim_outcome.splits)
    qed (use Cons ClaimWarrant in simp)
  qed (use Cons in \<open>auto split: sum.splits intro: spent_preserved\<close>)
qed simp

lemma claimed_distinct: "distinct (snd (run_ops add claim finish other s ops))"
proof (induction ops arbitrary: s)
  case (Cons x ops)
  show ?case
  proof (cases x)
    case (ClaimWarrant c v)
    have "v \<notin> set (snd (run_ops add claim finish other s' ops))" if "claim c v s = Inr (s', Claimed d a au)" for s' d a au
      using spent_claimed [OF that] spent_not_claimed by blast
    then show ?thesis
      using Cons.IH ClaimWarrant by (auto simp: case_prod_beta split: sum.splits claim_outcome.splits)
  qed (use Cons in auto)
qed simp

lemma execute_after_claim:
  assumes claimed: "claim env w s = Inr (s1, Claimed d a au)"
    and run: "run_in_worktree infra d au = (plans, receipts, ex)"
    and r: "r = broker_result_of w (sha (wd_nonce d)) receipts ex" and "result_ok r"
  shows "ex \<noteq> Inl Cancellation \<Longrightarrow> finish_cancelled infra r = Some False \<Longrightarrow>
      execute_warrant sha claim (finish f) infra env w s = (s1, CancelledBefore r, plans)"
    and "\<not> (ex \<noteq> Inl Cancellation \<and> finish_cancelled infra r = Some False) \<Longrightarrow>
      \<exists>s2. finish f r w s1 = Inr s2 \<and> execute_warrant sha claim (finish f) infra env w s =
        (s2, if ex = Inl Cancellation \<or> finish_cancelled infra r = Some True then CancelledAfter r else Returned r, plans)"
proof -
  have "state_of s1 w = Some WS_CONSUMING" using claim_claimed [OF claimed] by simp
  then obtain s2 where "finish f r w s1 = Inr s2"
    using finish_consuming [of s1 w r f] assms(4) by (cases "finish f r w s1") auto
  then show "ex \<noteq> Inl Cancellation \<Longrightarrow> finish_cancelled infra r = Some False \<Longrightarrow>
      execute_warrant sha claim (finish f) infra env w s = (s1, CancelledBefore r, plans)"
    and "\<not> (ex \<noteq> Inl Cancellation \<and> finish_cancelled infra r = Some False) \<Longrightarrow>
      \<exists>s2. finish f r w s1 = Inr s2 \<and> execute_warrant sha claim (finish f) infra env w s =
        (s2, if ex = Inl Cancellation \<or> finish_cancelled infra r = Some True then CancelledAfter r else Returned r, plans)"
    using claimed run r by (auto simp: execute_warrant_def Let_def)
qed

lemma execute_replayed:
  assumes "state_of s w = Some st" and "st \<noteq> WS_APPROVED"
  shows "execute_warrant sha claim (finish f) infra env w s =
    (s, Returned \<lparr>br_warrant_id = w, br_status = BS_REPLAY_REJECTED, br_receipts = [],
       br_error_code = Some ''WARRANT_ALREADY_CLAIMED'', br_nonce_sha256 = None\<rparr>, [])"
  using claim_replayed [OF assms] by (simp add: execute_warrant_def)

lemma execute_without_claim:
  assumes "execute_warrant sha claim (finish f) infra env w s = (s2, outcome, plans)" and "plans \<noteq> []"
  obtains s1 d a au where "claim env w s = Inr (s1, Claimed d a au)" and "state_of s w = Some WS_APPROVED"
    and "plans = fst (run_in_worktree infra d au)"
proof (cases "claim env w s")
  case (Inr res)
  then obtain s1 d a au where c: "claim env w s = Inr (s1, Claimed d a au)"
    using assms by (cases "snd res"; cases res) (auto simp: execute_warrant_def)
  moreover have "plans = fst (run_in_worktree infra d au)"
    using assms c by (auto simp: execute_warrant_def Let_def case_prod_beta split: sum.splits if_splits)
  ultimately show thesis using that claim_claimed by blast
qed (use assms in \<open>auto simp: execute_warrant_def\<close>)

end

section \<open>The in-memory store meets the contract\<close>

definition mem_state_of :: "mem_store \<Rightarrow> string \<Rightarrow> warrant_state option" where
  "mem_state_of records w = map_option sw_state (records w)"

lemma mem_state_of_upd [simp]:
  "mem_state_of (records(w \<mapsto> r)) = (mem_state_of records)(w \<mapsto> sw_state r)"
  by (auto simp: mem_state_of_def)

lemma mem_claim_cases:
  assumes "mem_claim_warrant env w s = Inr (s', outcome)"
  shows "mem_state_of s w \<noteq> Some WS_APPROVED \<and> s' = s \<and> (\<exists>b e. outcome = Rejected b e) \<or>
         mem_state_of s w = Some WS_APPROVED \<and>
           ((\<exists>d a au. outcome = Claimed d a au) \<and> mem_state_of s' = (mem_state_of s)(w \<mapsto> WS_CONSUMING) \<or>
            (\<exists>b e. outcome = Rejected b e) \<and>
              (mem_state_of s' = (mem_state_of s)(w \<mapsto> WS_REJECTED) \<or>
               mem_state_of s' = (mem_state_of s)(w \<mapsto> WS_EXPIRED)))"
proof (cases "s w")
  case None
  then show ?thesis using assms by (auto simp: mem_claim_warrant_def mem_state_of_def case_prod_beta)
next
  case (Some r)
  then have st: "mem_state_of s w = Some (sw_state r)" by (simp add: mem_state_of_def)
  show ?thesis
    using assms Some st
    by (auto simp: mem_claim_warrant_def case_prod_beta Let_def split: if_splits sum.splits claim_error.splits)
qed

interpretation mem: warrant_store mem_state_of mem_add_approved "\<lambda>da. wd_warrant_id (fst da)" mem_claim_warrant
  "\<lambda>(_ :: unit). mem_finish" "\<lambda>(_ :: unit) s. Inr s" "\<lambda>_. True"
proof unfold_locales
  show "mem_state_of s (wd_warrant_id (fst a)) = None \<and>
      mem_state_of s' = (mem_state_of s)(wd_warrant_id (fst a) \<mapsto> WS_APPROVED)"
    if "mem_add_approved a s = Inr s'" for a s s'
    using that by (auto simp: mem_add_approved_def mem_state_of_def [of s] dom_def split: if_splits)
  show "mem_state_of s w = Some WS_APPROVED \<and> mem_state_of s' = (mem_state_of s)(w \<mapsto> WS_CONSUMING)"
    if "mem_claim_warrant c w s = Inr (s', Claimed d a au)" for c w s s' d a au
    using mem_claim_cases [OF that] by auto
  show "mem_state_of s w \<noteq> Some WS_APPROVED \<and> s' = s \<or> mem_state_of s w = Some WS_APPROVED \<and>
      (mem_state_of s' = (mem_state_of s)(w \<mapsto> WS_REJECTED) \<or> mem_state_of s' = (mem_state_of s)(w \<mapsto> WS_EXPIRED))"
    if "mem_claim_warrant c w s = Inr (s', Rejected b e)" for c w s s' b e
    using mem_claim_cases [OF that] by auto
  show "mem_claim_warrant c w s = Inr (s, Rejected BS_REPLAY_REJECTED ''WARRANT_ALREADY_CLAIMED'')"
    if "mem_state_of s w = Some st" "st \<noteq> WS_APPROVED" for s w st c
    using that by (auto simp: mem_claim_warrant_def mem_state_of_def case_prod_beta)
  show "mem_state_of s w = Some WS_CONSUMING \<and> mem_state_of s' = (mem_state_of s)(w \<mapsto> WS_CONSUMED)"
    if "mem_finish r w s = Inr s'" for r w s s'
    using that by (auto simp: mem_finish_def mem_state_of_def [of s] split: option.splits if_splits)
  show "is_ok (mem_finish r w s)" if "mem_state_of s w = Some WS_CONSUMING" for s w r
    using that by (auto simp: mem_finish_def mem_state_of_def split: option.splits)
qed simp_all

section \<open>What a validated claim guarantees\<close>

lemma check_bound_plan_eq_Inr:
  "check_bound_plan cfg b = Inr u \<longleftrightarrow>
     plan_id b \<in> set CANDIDATE_PLAN_IDS \<and>
     (\<exists>plan. plan_by_id (plan_id b) = Some plan \<and>
        canonical_json (cfg_nfc cfg) (bound_plan_py b) =
        canonical_json (cfg_nfc cfg) (bound_plan_py (from_execution_plan (cfg_sha cfg) plan)))"
  by (auto simp: check_bound_plan_def resolve_def result_simps split: option.splits)

lemma map_result_unit:
  "(\<exists>us. map_result f xs = Inr us) \<longleftrightarrow> (\<forall>x \<in> set xs. f x = Inr ())" for f :: "'a \<Rightarrow> 'e + unit"
  by (induction xs) (auto simp: result_simps)

lemma check_approval_eq_Inr:
  "check_approval cfg d a = Inr u \<longleftrightarrow>
   verify (cfg_sha cfg) (cfg_nfc cfg) (cfg_hmac cfg) (cfg_keys cfg) d a = Inr True"
  by (auto simp: check_approval_def result_simps split: sum.splits)

lemma check_integrity_eq_Inr:
  "check_integrity cfg d = Inr u \<longleftrightarrow> validate_warrant_integrity (cfg_sha cfg) (cfg_nfc cfg) d = Inr ()"
  by (auto simp: check_integrity_def split: sum.splits warrant_error.splits)

lemma check_patch_policy_eq_Inr:
  "check_patch_policy cfg d au = Inr u \<longleftrightarrow>
   (\<exists>patch ps. patch_bytes d = Inr patch \<and>
      validate_declared_patch_paths (cfg_nfkc cfg) (cfg_repository cfg (au_repository_root au)) patch
        (wd_allowed_paths d) = Inr ps)"
  by (auto simp: check_patch_policy_def split: sum.splits)

lemma map_PyStr_canonical_eq:
  "canonical_json nfc (PyList (map PyStr xs)) = canonical_json nfc (PyList (map PyStr ys)) \<longleftrightarrow>
   map nfc xs = map nfc ys"
proof
  assume eq: "canonical_json nfc (PyList (map PyStr xs)) = canonical_json nfc (PyList (map PyStr ys))"
  have ok: "floats_ok (PyList (map PyStr zs))" for zs by (simp add: list_all_iff)
  have "canonical_json nfc (PyList (map PyStr zs)) = Inr (dumps (JArr (map (JStr \<circ> nfc) zs)))" for zs
    by (simp add: canonical_json_def py_list_simps)
  with eq canonical_json_eq_iff [OF ok ok, of nfc xs _ ys]
  show "map nfc xs = map nfc ys" by (simp add: py_list_simps)
qed (simp add: canonical_json_def py_list_simps flip: map_map)

lemma validate_claim_eq_Inr:
  "validate_claim cfg d a now au = Inr x \<longleftrightarrow>
     x = au \<and> validate_warrant_integrity (cfg_sha cfg) (cfg_nfc cfg) d = Inr () \<and>
     wd_format d = WARRANT_FORMAT \<and>
     instant (wd_issued_at d) \<le> instant (ap_approved_at a) \<and>
     instant (ap_approved_at a) \<le> min (instant now) (instant (wd_expires_at d)) \<and>
     verify (cfg_sha cfg) (cfg_nfc cfg) (cfg_hmac cfg) (cfg_keys cfg) d a = Inr True \<and>
     from_warrant d (au_repository_root au) = au\<lparr>au_allowed_paths := wd_allowed_paths d\<rparr> \<and>
     map (cfg_nfc cfg) (wd_allowed_paths d) = map (cfg_nfc cfg) (au_allowed_paths au) \<and>
     wd_runner_digest d = cfg_runner_digest cfg \<and> wd_environment_digest d = cfg_environment_digest cfg \<and>
     (\<forall>b \<in> set (wd_execution_plans d). plan_id b \<in> set CANDIDATE_PLAN_IDS \<and>
        (\<exists>plan. plan_by_id (plan_id b) = Some plan \<and>
           canonical_json (cfg_nfc cfg) (bound_plan_py b) =
           canonical_json (cfg_nfc cfg) (bound_plan_py (from_execution_plan (cfg_sha cfg) plan)))) \<and>
     (\<exists>patch ps. patch_bytes d = Inr patch \<and>
        validate_declared_patch_paths (cfg_nfkc cfg) (cfg_repository cfg (au_repository_root au)) patch
          (wd_allowed_paths d) = Inr ps)"
proof -
  have pairs: "list_all (\<lambda>(l, r). l = r) (bound_pairs d au) \<longleftrightarrow>
      from_warrant d (au_repository_root au) = au\<lparr>au_allowed_paths := wd_allowed_paths d\<rparr>"
    by (cases au) (auto simp: bound_pairs_def from_warrant_def)
  have plans: "(\<exists>us. map_result (check_bound_plan cfg) (wd_execution_plans d) = Inr us) \<longleftrightarrow>
      (\<forall>b \<in> set (wd_execution_plans d). plan_id b \<in> set CANDIDATE_PLAN_IDS \<and>
        (\<exists>plan. plan_by_id (plan_id b) = Some plan \<and>
           canonical_json (cfg_nfc cfg) (bound_plan_py b) =
           canonical_json (cfg_nfc cfg) (bound_plan_py (from_execution_plan (cfg_sha cfg) plan))))"
    unfolding map_result_unit check_bound_plan_eq_Inr ..
  have "validate_claim cfg d a now au = Inr x \<longleftrightarrow>
     validate_warrant_integrity (cfg_sha cfg) (cfg_nfc cfg) d = Inr () \<and> wd_format d = WARRANT_FORMAT \<and>
     instant (wd_issued_at d) \<le> instant now \<and> instant (ap_approved_at a) \<le> instant now \<and>
     instant (wd_issued_at d) \<le> instant (ap_approved_at a) \<and> instant (ap_approved_at a) \<le> instant (wd_expires_at d) \<and>
     verify (cfg_sha cfg) (cfg_nfc cfg) (cfg_hmac cfg) (cfg_keys cfg) d a = Inr True \<and>
     list_all (\<lambda>(l, r). l = r) (bound_pairs d au) \<and>
     map (cfg_nfc cfg) (wd_allowed_paths d) = map (cfg_nfc cfg) (au_allowed_paths au) \<and>
     wd_runner_digest d = cfg_runner_digest cfg \<and> wd_environment_digest d = cfg_environment_digest cfg \<and>
     (\<exists>us. map_result (check_bound_plan cfg) (wd_execution_plans d) = Inr us) \<and>
     (\<exists>patch ps. patch_bytes d = Inr patch \<and>
        validate_declared_patch_paths (cfg_nfkc cfg) (cfg_repository cfg (au_repository_root au)) patch
          (wd_allowed_paths d) = Inr ps) \<and> x = au"
    unfolding validate_claim_def rbind_eq_Inr require_eq_Inr check_integrity_eq_Inr check_approval_eq_Inr
      check_patch_policy_eq_Inr map_PyStr_canonical_eq
    by (auto simp: not_less)
  then show ?thesis unfolding pairs plans by (auto simp: min_def)
qed

text \<open>C6. A claim validates exactly when every binding holds at the claim instant: the derivable bindings
  recompute, neither issue nor approval lies in the future and the approval lies in the warrant's
  window, the approval's MAC verifies, every field of the current authority snapshot equals the
  warrant's, the deployment digests are this deployment's, every bound plan is a broker-executable
  catalog plan with the catalog's content, and the patch touches exactly the declared paths under the
  path policy of the live repository.\<close>

theorem validated_claim_bindings:
  "validate_claim cfg d a now au = Inr x \<longleftrightarrow>
     x = au \<and> validate_warrant_integrity (cfg_sha cfg) (cfg_nfc cfg) d = Inr () \<and>
     wd_format d = WARRANT_FORMAT \<and>
     instant (wd_issued_at d) \<le> instant (ap_approved_at a) \<and>
     instant (ap_approved_at a) \<le> min (instant now) (instant (wd_expires_at d)) \<and>
     verify (cfg_sha cfg) (cfg_nfc cfg) (cfg_hmac cfg) (cfg_keys cfg) d a = Inr True \<and>
     from_warrant d (au_repository_root au) = au\<lparr>au_allowed_paths := wd_allowed_paths d\<rparr> \<and>
     map (cfg_nfc cfg) (wd_allowed_paths d) = map (cfg_nfc cfg) (au_allowed_paths au) \<and>
     wd_runner_digest d = cfg_runner_digest cfg \<and> wd_environment_digest d = cfg_environment_digest cfg \<and>
     (\<forall>b \<in> set (wd_execution_plans d). plan_id b \<in> set CANDIDATE_PLAN_IDS \<and>
        (\<exists>plan. plan_by_id (plan_id b) = Some plan \<and>
           canonical_json (cfg_nfc cfg) (bound_plan_py b) =
           canonical_json (cfg_nfc cfg) (bound_plan_py (from_execution_plan (cfg_sha cfg) plan)))) \<and>
     (\<exists>patch ps. patch_bytes d = Inr patch \<and>
        validate_declared_patch_paths (cfg_nfkc cfg) (cfg_repository cfg (au_repository_root au)) patch
          (wd_allowed_paths d) = Inr ps)"
  by (rule validate_claim_eq_Inr)

definition sample_config :: broker_config where
  "sample_config =
     \<lparr>cfg_sha = zero_digest, cfg_nfc = id, cfg_nfkc = id, cfg_hmac = sample_mac, cfg_keys = sample_keys,
      cfg_runner_digest = zero_digest [], cfg_environment_digest = zero_digest [],
      cfg_repository = (\<lambda>_. \<lparr>is_symlink = (\<lambda>_. False), resolves_inside = (\<lambda>_. True)\<rparr>)\<rparr>"

definition sample_authority :: authority_snapshot where
  "sample_authority = from_warrant sample_warrant ''/r''"

lemma sample_plan_catalogued:
  "plan_by_id (plan_id sample_plan) =
     Some (candidate_service_plan ''victim.duplicate-race.candidate'' (1, 1, 1) None DUPLICATE_RACE)"
  by (simp add: plan_by_id_eq PLANS_def sample_plan_def from_execution_plan_def candidate_service_plan_def)

lemma sample_paths_valid:
  "validate_declared_patch_paths id \<lparr>is_symlink = (\<lambda>_. False), resolves_inside = (\<lambda>_. True)\<rparr>
     (patch_text example_lines) [''m.py''] = Inr [''m.py'']"
  using example_derived(1) sample_check_path
  by (simp add: validate_declared_patch_paths_def validate_patch_paths_def)

lemma sample_claim_validates:
  assumes "approve zero_digest id sample_mac sample_keys sample_warrant (Aware 2000000 0) None = Inr a"
  shows "validate_claim sample_config sample_warrant a (Aware 3000000 0) sample_authority = Inr sample_authority"
proof -
  have times: "instant (ap_approved_at a) = 2000000"
    by (rule approve_eq_Inr [OF assms]) (simp add: instant_def)
  have fields: "wd_issued_at sample_warrant = Aware 1000000 0" "wd_expires_at sample_warrant = Aware 9000000 0"
    "wd_format sample_warrant = WARRANT_FORMAT" "wd_allowed_paths sample_warrant = [''m.py'']"
    "wd_execution_plans sample_warrant = [sample_plan]" "wd_runner_digest sample_warrant = zero_digest []"
    "wd_environment_digest sample_warrant = zero_digest []"
    by (simp_all add: sample_warrant_def)
  have "plan_id sample_plan \<in> set CANDIDATE_PLAN_IDS"
    by (simp add: sample_plan_def from_execution_plan_def candidate_service_plan_def CANDIDATE_PLAN_IDS_def)
  then show ?thesis
    unfolding validate_claim_eq_Inr
    using times sample_integrity sample_approval_verifies [OF assms] sample_plan_catalogued sample_patch_bytes
      sample_paths_valid
    by (simp add: sample_config_def fields instant_def sample_authority_def from_warrant_def)
      (simp add: sample_plan_def)
qed

theorem validated_claim_bindings_witness:
  "\<exists>a. validate_claim sample_config sample_warrant a (Aware 3000000 0) sample_authority = Inr sample_authority \<and>
       verify zero_digest id sample_mac sample_keys sample_warrant a = Inr True"
proof -
  obtain a where a: "approve zero_digest id sample_mac sample_keys sample_warrant (Aware 2000000 0) None = Inr a"
    by (rule sample_approval)
  note ok = sample_claim_validates [OF a]
  then show ?thesis
    using ok [unfolded validated_claim_bindings] by (auto simp: sample_config_def)
qed

section \<open>What an execution runs\<close>

lemma run_plans_catalogued:
  assumes "run_plans run ws bs = (plans, receipts, fin)"
  shows "set plans \<subseteq> set PLANS" "prefix (map plan_id plans) (map plan_id bs)"
    "length receipts \<le> length plans"
    "fin = Inr True \<longleftrightarrow> length receipts = length bs \<and> list_all passed receipts"
    "fin = Inr False \<Longrightarrow> length receipts = length plans \<and> receipts \<noteq> [] \<and> \<not> passed (last receipts) \<and>
       list_all passed (butlast receipts)"
proof -
  have "set plans \<subseteq> set PLANS \<and> prefix (map plan_id plans) (map plan_id bs) \<and> length receipts \<le> length plans \<and>
    (fin = Inr True \<longleftrightarrow> length receipts = length bs \<and> list_all passed receipts) \<and>
    (fin = Inr False \<longrightarrow> length receipts = length plans \<and> receipts \<noteq> [] \<and> \<not> passed (last receipts) \<and>
       list_all passed (butlast receipts))"
    using assms
  proof (induction bs arbitrary: plans receipts fin)
    case (Cons b bs)
    show ?case
    proof (cases "resolve (plan_id b) None")
      case (Inr plan)
      then have plan: "plan \<in> set PLANS" "plan_id plan = plan_id b"
        by (simp_all add: resolve_eq_Inr plan_by_id_eq)
      show ?thesis
      proof (cases "run ws plan")
        case run: (Inr r)
        obtain ps rs f where rest: "run_plans run ws bs = (ps, rs, f)" by (metis prod_cases3)
        show ?thesis
          using Cons.IH [OF rest] Cons.prems Inr run rest plan
          by (cases "passed r") auto
      qed (use Cons.prems Inr plan in auto)
    qed (use Cons.prems in auto)
  qed simp
  then show "set plans \<subseteq> set PLANS" "prefix (map plan_id plans) (map plan_id bs)"
    "length receipts \<le> length plans"
    "fin = Inr True \<longleftrightarrow> length receipts = length bs \<and> list_all passed receipts"
    "fin = Inr False \<Longrightarrow> length receipts = length plans \<and> receipts \<noteq> [] \<and> \<not> passed (last receipts) \<and>
       list_all passed (butlast receipts)"
    by auto
qed

lemma run_in_worktree_eq_Inr:
  assumes "run_in_worktree infra d au = (qs, rs, Inr b)"
  obtains ws where "run_plans (process_run infra) ws (wd_execution_plans d) = (qs, rs, Inr b)"
proof (cases "worktree_enter infra d au")
  case (Inr ws)
  obtain ps ts f where "run_plans (process_run infra) ws (wd_execution_plans d) = (ps, ts, f)"
    by (metis prod_cases3)
  then show thesis
    using assms Inr that by (auto simp: run_in_worktree_def split: option.splits)
qed (use assms in \<open>simp add: run_in_worktree_def\<close>)

lemma mem_claim_claimed:
  assumes "mem_claim_warrant (validator, loader, now) w s = Inr (s', Claimed d a au)"
  obtains row locked where "s w = Some row" "sw_state row = WS_APPROVED" "sw_document row = d"
    "sw_approval row = a" "loader (wd_warrant_id d) = Inr locked"
    "validator d a (astimezone_utc now) locked = Inr au" "instant now \<le> instant (wd_expires_at d)"
    "s' = s(w \<mapsto> row\<lparr>sw_state := WS_CONSUMING\<rparr>)"
  using assms
  by (auto simp: mem_claim_warrant_def result_simps Let_def not_less astimezone_utc_def instant_def
      split: option.splits if_splits sum.splits claim_error.splits)

section \<open>Properties\<close>

text \<open>C7. Warrants are single-use in the in-memory store: along every sequence of additions, claims and
  finishes, by any number of brokers and with any validators, authority loaders and clocks, no warrant
  id is claimed twice.\<close>

theorem single_use_in_memory:
  "distinct (snd (run_ops mem_add_approved mem_claim_warrant (\<lambda>(_ :: unit). mem_finish) (\<lambda>(_ :: unit) s. Inr s) s ops))"
  by (rule mem.claimed_distinct)

text \<open>C10. Nothing runs before a committed, validated claim: if an execution submitted any plan to the
  process runner, the stored warrant was approved and unexpired and its claim validated against the
  locked authority; the plans submitted are a prefix of the warrant's plans, all of them catalog plans
  that run the fixed candidate service.\<close>

theorem execution_runs_only_claimed_catalog_plans:
  assumes "execute_warrant (cfg_sha cfg) mem_claim_warrant mem_finish infra (validate_claim cfg, loader, now) w s
             = (s2, outcome, plans)" and "plans \<noteq> []"
  shows "\<exists>record au. s w = Some record \<and> sw_state record = WS_APPROVED \<and>
    instant now \<le> instant (wd_expires_at (sw_document record)) \<and>
    validate_claim cfg (sw_document record) (sw_approval record) (astimezone_utc now) au = Inr au \<and>
    prefix (map plan_id plans) (map plan_id (wd_execution_plans (sw_document record))) \<and>
    (\<forall>plan \<in> set plans. plan \<in> set PLANS \<and> argv plan = [RUNNER_PYTHON, CANDIDATE_SERVICE])"
proof -
  obtain s1 d a au where c: "mem_claim_warrant (validate_claim cfg, loader, now) w s = Inr (s1, Claimed d a au)"
    and p: "plans = fst (run_in_worktree infra d au)"
    using mem.execute_without_claim [OF assms] by metis
  obtain row locked where r: "s w = Some row" "sw_state row = WS_APPROVED" "sw_document row = d"
    "sw_approval row = a" "validate_claim cfg d a (astimezone_utc now) locked = Inr au"
    "instant now \<le> instant (wd_expires_at d)"
    by (rule mem_claim_claimed [OF c])
  then have au: "locked = au" by (simp add: validate_claim_eq_Inr)
  obtain ws qs rs f where run: "run_plans (process_run infra) ws (wd_execution_plans d) = (qs, rs, f)" "plans = qs"
    using p assms(2) by (auto simp: run_in_worktree_def case_prod_beta Let_def split: sum.splits) (metis prod.collapse)
  have cand: "\<forall>b \<in> set (wd_execution_plans d). plan_id b \<in> set CANDIDATE_PLAN_IDS"
    using r(5) by (simp add: validate_claim_eq_Inr)
  have "plan_id plan \<in> set CANDIDATE_PLAN_IDS" if "plan \<in> set plans" for plan
  proof -
    have "plan_id plan \<in> set (map plan_id (wd_execution_plans d))"
      using that run run_plans_catalogued(2) [OF run(1)] by (metis image_eqI image_set set_mono_prefix subsetD)
    then show ?thesis using cand by auto
  qed
  then show ?thesis
    using r au run run_plans_catalogued(1,2) [OF run(1)] candidate_argv by blast
qed

definition sample_receipt :: "execution_plan \<Rightarrow> process_receipt" where
  "sample_receipt plan =
     \<lparr>receipt_plan_id = plan_id plan, receipt_plan_sha256 = zero_digest [], argv_sha256 = zero_digest [],
      exit_code = Some 0, timed_out = False, started_at = Aware 3000000 0, finished_at = Aware 3000000 0,
      stdout_sha256 = zero_digest [], stderr_sha256 = zero_digest [], stdout_bytes = 0, stderr_bytes = 0,
      stdout_truncated = False, stderr_truncated = False, supervisor_verified = True,
      verification_code = ''OK'', verification_sha256 = zero_digest [], receipt_observation = None,
      receipt_observation_sha256 = None, runner_request_sha256 = zero_digest [],
      runner_service_identity_sha256 = zero_digest [], workspace_provenance_sha256 = zero_digest [],
      job_provenance_sha256 = zero_digest [], candidate_executor_boot_sha256 = zero_digest [],
      candidate_executor_replacement_sha256 = zero_digest []\<rparr>"

definition sample_infrastructure :: "unit infrastructure" where
  "sample_infrastructure = \<lparr>worktree_enter = (\<lambda>_ _. Inr ()), worktree_exit = (\<lambda>_. None),
     process_run = (\<lambda>_ plan. Inr (sample_receipt plan)), finish_cancelled = (\<lambda>_. None)\<rparr>"

definition sample_store :: "warrant_approval \<Rightarrow> mem_store" where
  "sample_store a = [''w1'' \<mapsto> \<lparr>sw_document = sample_warrant, sw_approval = a, sw_state = WS_APPROVED,
     sw_result = None\<rparr>]"

lemma sample_claim:
  assumes "approve zero_digest id sample_mac sample_keys sample_warrant (Aware 2000000 0) None = Inr a"
  shows "mem_claim_warrant (validate_claim sample_config, \<lambda>_. Inr sample_authority, Aware 3000000 0) ''w1''
      (sample_store a) = Inr ((sample_store a)(''w1'' \<mapsto> \<lparr>sw_document = sample_warrant, sw_approval = a,
        sw_state = WS_CONSUMING, sw_result = None\<rparr>), Claimed sample_warrant a sample_authority)"
proof -
  have "wd_expires_at sample_warrant = Aware 9000000 0" by (simp add: sample_warrant_def)
  then show ?thesis
    using sample_claim_validates [OF assms]
    by (simp add: mem_claim_warrant_def sample_store_def is_aware_def astimezone_utc_def instant_def)
qed

lemma sample_run:
  "run_in_worktree sample_infrastructure sample_warrant au =
     ([as_execution_plan sample_plan], [sample_receipt (as_execution_plan sample_plan)], Inr True)"
proof -
  have "resolve (plan_id sample_plan) None = Inr (as_execution_plan sample_plan)"
    using sample_plan_catalogued by (simp add: resolve_def sample_plan_def)
  then show ?thesis
    by (simp add: run_in_worktree_def sample_infrastructure_def sample_warrant_def passed_def sample_receipt_def)
qed

lemma sample_execution:
  assumes "approve zero_digest id sample_mac sample_keys sample_warrant (Aware 2000000 0) None = Inr a"
  obtains s2 r where "execute_warrant (cfg_sha sample_config) mem_claim_warrant mem_finish sample_infrastructure
      (validate_claim sample_config, \<lambda>_. Inr sample_authority, Aware 3000000 0) ''w1'' (sample_store a)
      = (s2, Returned r, [as_execution_plan sample_plan])" and "br_status r = BS_EXECUTED"
  using that sample_claim [OF assms] sample_run
  by (simp add: execute_warrant_def mem_finish_def broker_result_of_def Let_def sample_infrastructure_def)

theorem execution_runs_only_claimed_catalog_plans_witness:
  "\<exists>a au. validate_claim sample_config sample_warrant a (astimezone_utc (Aware 3000000 0)) au = Inr au"
proof -
  obtain a where a: "approve zero_digest id sample_mac sample_keys sample_warrant (Aware 2000000 0) None = Inr a"
    by (rule sample_approval)
  obtain s2 r where e: "execute_warrant (cfg_sha sample_config) mem_claim_warrant mem_finish sample_infrastructure
      (validate_claim sample_config, \<lambda>_. Inr sample_authority, Aware 3000000 0) ''w1'' (sample_store a)
      = (s2, Returned r, [as_execution_plan sample_plan])"
    by (rule sample_execution [OF a])
  from execution_runs_only_claimed_catalog_plans [OF e] show ?thesis by (auto simp: sample_store_def)
qed

text \<open>C11. What happens to a warrant after its claim, for every behaviour of the worktree and the runner
  (failures and cancellation included): unless the task is cancelled inside the last, unshielded
  \<^verbatim>\<open>finish\<close> before the store commits, the call ends with exactly the computed result stored in the warrant's
  record and the record consumed, document and approval kept, and it returns that result (or passes
  the cancellation on); in the excepted case the record stays consuming with no result. The call never
  ends in a store error, and in both cases every later execution of the warrant is answered as a replay
  without submitting a plan or changing the store.\<close>

theorem claimed_execution_consumes:
  assumes "mem_claim_warrant env w s = Inr (s1, Claimed d a au)"
    and "run_in_worktree infra d au = (plans, receipts, ex)"
    and "result = broker_result_of w (sha (wd_nonce d)) receipts ex"
  shows "\<exists>s2 outcome. execute_warrant sha mem_claim_warrant mem_finish infra env w s = (s2, outcome, plans) \<and>
     (if ex \<noteq> Inl Cancellation \<and> finish_cancelled infra result = Some False
      then outcome = CancelledBefore result \<and> s2 = s1 \<and> mem_state_of s2 w = Some WS_CONSUMING
      else outcome \<in> {Returned result, CancelledAfter result} \<and>
           (ex \<noteq> Inl Cancellation \<and> finish_cancelled infra result = None \<longrightarrow> outcome = Returned result) \<and>
           s2 = s1(w \<mapsto> \<lparr>sw_document = d, sw_approval = a, sw_state = WS_CONSUMED, sw_result = Some result\<rparr>)) \<and>
     (\<forall>infra' env'. execute_warrant sha mem_claim_warrant mem_finish infra' env' w s2 =
        (s2, Returned \<lparr>br_warrant_id = w, br_status = BS_REPLAY_REJECTED, br_receipts = [],
           br_error_code = Some ''WARRANT_ALREADY_CLAIMED'', br_nonce_sha256 = None\<rparr>, []))"
proof -
  note after = mem.execute_after_claim [where sha = sha, OF assms TrueI]
  have consuming: "mem_state_of s1 w = Some WS_CONSUMING" using mem.claim_claimed [OF assms(1)] by simp
  obtain validator loader now where env: "env = (validator, loader, now)" by (metis prod_cases3)
  obtain row where row: "sw_document row = d" "sw_approval row = a" "s1 = s(w \<mapsto> row\<lparr>sw_state := WS_CONSUMING\<rparr>)"
    using mem_claim_claimed [OF assms(1) [unfolded env]] by metis
  have finished: "s2 = s1(w \<mapsto> \<lparr>sw_document = d, sw_approval = a, sw_state = WS_CONSUMED, sw_result = Some result\<rparr>)"
    if "mem_finish result w s1 = Inr s2" for s2
    using that row by (auto simp: mem_finish_def)
  show ?thesis
  proof (cases "ex \<noteq> Inl Cancellation \<and> finish_cancelled infra result = Some False")
    case True
    then show ?thesis using after(1) consuming by (simp add: mem.execute_replayed [OF consuming])
  next
    case False
    then obtain s2 where s2: "mem_finish result w s1 = Inr s2"
      "execute_warrant sha mem_claim_warrant mem_finish infra env w s =
        (s2, if ex = Inl Cancellation \<or> finish_cancelled infra result = Some True then CancelledAfter result
             else Returned result, plans)"
      using after(2) by blast
    have "mem_state_of s2 w = Some WS_CONSUMED" using finished [OF s2(1)] by simp
    then show ?thesis using s2(2) finished [OF s2(1)] False by (simp add: mem.execute_replayed)
  qed
qed

lemma sample_cancelled_run:
  "run_in_worktree (sample_infrastructure\<lparr>process_run := (\<lambda>_ _. Inl Cancellation)\<rparr>) sample_warrant au =
     ([as_execution_plan sample_plan], [], Inl Cancellation)"
proof -
  have "resolve (plan_id sample_plan) None = Inr (as_execution_plan sample_plan)"
    using sample_plan_catalogued by (simp add: resolve_def sample_plan_def)
  then show ?thesis by (simp add: run_in_worktree_def sample_infrastructure_def sample_warrant_def)
qed

theorem claimed_execution_consumes_witness:
  "\<exists>a s2 outcome r. execute_warrant zero_digest mem_claim_warrant mem_finish
     (sample_infrastructure\<lparr>process_run := (\<lambda>_ _. Inl Cancellation)\<rparr>)
     (validate_claim sample_config, \<lambda>_. Inr sample_authority, Aware 3000000 0) ''w1'' (sample_store a)
       = (s2, outcome, [as_execution_plan sample_plan]) \<and> mem_state_of s2 ''w1'' = Some WS_CONSUMED \<and>
     map_option sw_result (s2 ''w1'') = Some (Some r) \<and> br_error_code r = Some ''BROKER_CANCELLED_AFTER_CLAIM''"
proof -
  obtain a where a: "approve zero_digest id sample_mac sample_keys sample_warrant (Aware 2000000 0) None = Inr a"
    by (rule sample_approval)
  show ?thesis
    using claimed_execution_consumes [OF sample_claim [OF a] sample_cancelled_run refl, of zero_digest]
    by (fastforce simp: broker_result_of_def)
qed

text \<open>The reported status is earned: after a committed claim the result carries the warrant's nonce
  digest and the receipts of the plans that ran; it says EXECUTED exactly when no interruption
  happened and every plan of the warrant has a passing receipt; it says TEST\_FAILED only when the last
  receipt failed, all receipts before it passed and no further plan was submitted.\<close>

theorem execution_status_matches_receipts:
  assumes "mem_claim_warrant env w s = Inr (s1, Claimed d a au)"
    and "execute_warrant sha mem_claim_warrant mem_finish infra env w s = (s2, Returned r, plans)"
  shows "br_nonce_sha256 r = Some (sha (wd_nonce d)) \<and>
    (br_status r = BS_EXECUTED \<longrightarrow>
       length (br_receipts r) = length (wd_execution_plans d) \<and> list_all passed (br_receipts r)) \<and>
    (br_status r = BS_TEST_FAILED \<longrightarrow>
       length plans = length (br_receipts r) \<and> br_receipts r \<noteq> [] \<and> \<not> passed (last (br_receipts r)) \<and>
       list_all passed (butlast (br_receipts r))) \<and>
    br_status r \<in> {BS_EXECUTED, BS_TEST_FAILED, BS_INFRA_FAILED}"
proof -
  obtain qs rs f where run: "run_in_worktree infra d au = (qs, rs, f)" by (metis prod_cases3)
  then have r: "r = broker_result_of w (sha (wd_nonce d)) rs f" "plans = qs"
    using assms by (auto simp: execute_warrant_def Let_def split: sum.splits if_splits)
  have exec: "length rs = length (wd_execution_plans d) \<and> list_all passed rs" if f: "f = Inr True"
  proof -
    obtain ws where "run_plans (process_run infra) ws (wd_execution_plans d) = (qs, rs, Inr True)"
      by (rule run_in_worktree_eq_Inr [OF run [unfolded f]])
    from run_plans_catalogued(4) [OF this] show ?thesis by simp
  qed
  have failed: "length rs = length qs \<and> rs \<noteq> [] \<and> \<not> passed (last rs) \<and> list_all passed (butlast rs)" if f: "f = Inr False"
  proof -
    obtain ws where "run_plans (process_run infra) ws (wd_execution_plans d) = (qs, rs, Inr False)"
      by (rule run_in_worktree_eq_Inr [OF run [unfolded f]])
    from run_plans_catalogued(5) [OF this] show ?thesis by simp
  qed
  show ?thesis
    unfolding r broker_result_of_def Let_def
    using exec failed by (auto split: sum.splits bool.splits interruption.splits)
qed

theorem execution_status_matches_receipts_witness:
  "\<exists>a s2 r. execute_warrant (cfg_sha sample_config) mem_claim_warrant mem_finish sample_infrastructure
      (validate_claim sample_config, \<lambda>_. Inr sample_authority, Aware 3000000 0) ''w1'' (sample_store a)
      = (s2, Returned r, [as_execution_plan sample_plan]) \<and> list_all passed (br_receipts r)"
proof -
  obtain a where a: "approve zero_digest id sample_mac sample_keys sample_warrant (Aware 2000000 0) None = Inr a"
    by (rule sample_approval)
  obtain s2 r where e: "execute_warrant (cfg_sha sample_config) mem_claim_warrant mem_finish sample_infrastructure
      (validate_claim sample_config, \<lambda>_. Inr sample_authority, Aware 3000000 0) ''w1'' (sample_store a)
      = (s2, Returned r, [as_execution_plan sample_plan])" and "br_status r = BS_EXECUTED"
    by (rule sample_execution [OF a])
  then show ?thesis using execution_status_matches_receipts [OF sample_claim [OF a] e] by blast
qed

text \<open>C18. One kind of tampered envelope is not rejected. Take any broker and any approved, unexpired warrant
  of its store that the model class admits, whose bindings recompute and whose stored approval names
  the warrant and its hash under a known key and lies in the warrant's window. When the approval's
  approver identity is not ASCII (its other fields are), the type error of the digest comparison
  escapes the claim: the execution raises and the store is unchanged, so the warrant stays approved
  instead of being marked rejected.\<close>

theorem non_ascii_approver_leaves_warrant_approved:
  assumes stored: "s w = Some row" "sw_state row = WS_APPROVED" "d = sw_document row" "a = sw_approval row"
    and clock: "is_aware now" "instant now \<le> instant (wd_expires_at d)"
    and loaded: "loader (wd_warrant_id d) = Inr au"
    and digests: "\<And>b. is_sha256 (cfg_sha cfg b)" "\<And>k m. is_sha256 (cfg_hmac cfg k m)"
    and admitted: "document_ok d" "validate_warrant_integrity (cfg_sha cfg) (cfg_nfc cfg) d = Inr ()"
      "wd_format d = WARRANT_FORMAT"
    and times: "instant (wd_issued_at d) \<le> instant (ap_approved_at a)"
      "instant (ap_approved_at a) \<le> min (instant now) (instant (wd_expires_at d))"
    and names: "cfg_keys cfg (ap_mac_key_id a) = Some key" "ap_warrant_id a = wd_warrant_id d"
      "canonical_warrant_hash (cfg_sha cfg) (cfg_nfc cfg) d = Inr (ap_warrant_sha256 a)"
    and ascii: "list_all is_ascii [ap_warrant_id a, ap_warrant_sha256 a, ap_mac_key_id a, ap_mac_sha256 a]"
    and tampered: "\<not> is_ascii (ap_approver_identity a)"
  shows "execute_warrant (cfg_sha cfg) mem_claim_warrant mem_finish infra (validate_claim cfg, loader, now) w s =
    (s, Raised (StoreEscaped ''TypeError''), [])"
proof -
  have "verify (cfg_sha cfg) (cfg_nfc cfg) (cfg_hmac cfg) (cfg_keys cfg) d a = Inl CompareDigestTypeError"
    using admitted(2) names tampered by (subst verify_eq_Inl [OF admitted(1) digests ascii]) auto
  then have "validate_claim cfg d a (astimezone_utc now) au = Inl (Escaped ''TypeError'')"
    using admitted times
    by (simp add: validate_claim_def check_integrity_def check_approval_def not_less astimezone_utc_def instant_def)
  then show ?thesis
    using stored clock loaded
    by (simp add: execute_warrant_def mem_claim_warrant_def not_less astimezone_utc_def instant_def)
qed

theorem non_ascii_approver_leaves_warrant_approved_witness:
  "\<exists>a. ap_approver_identity a = [CHR 0xC3, CHR 0xA9] \<and>
     execute_warrant (cfg_sha sample_config) mem_claim_warrant mem_finish sample_infrastructure
       (validate_claim sample_config, \<lambda>_. Inr sample_authority, Aware 3000000 0) ''w1'' (sample_store a)
       = (sample_store a, Raised (StoreEscaped ''TypeError''), [])"
proof -
  obtain b where b: "approve zero_digest id sample_mac sample_keys sample_warrant (Aware 2000000 0) None = Inr b"
    by (rule sample_approval)
  let ?a = "b\<lparr>ap_approver_identity := [CHR 0xC3, CHR 0xA9]\<rparr>"
  note v = sample_approval_verifies [OF b]
  have approved: "instant (ap_approved_at ?a) = 2000000"
    by (rule approve_eq_Inr [OF b]) (simp add: instant_def)
  have fields: "wd_issued_at sample_warrant = Aware 1000000 0" "wd_expires_at sample_warrant = Aware 9000000 0"
    "wd_format sample_warrant = WARRANT_FORMAT"
    by (simp_all add: sample_warrant_def)
  have cfg: "cfg_sha sample_config = zero_digest" "cfg_hmac sample_config = sample_mac"
    "cfg_nfc sample_config = id" "cfg_keys sample_config = sample_keys"
    by (simp_all add: sample_config_def)
  obtain key where key: "sample_keys (ap_mac_key_id ?a) = Some key" "ap_warrant_id ?a = wd_warrant_id sample_warrant"
      "canonical_warrant_hash zero_digest id sample_warrant = Inr (ap_warrant_sha256 ?a)"
      "list_all is_ascii [ap_warrant_id ?a, ap_warrant_sha256 ?a, ap_mac_key_id ?a, ap_mac_sha256 ?a]"
    using v by (auto simp: verify_True verify_body_True)
  have "execute_warrant (cfg_sha sample_config) mem_claim_warrant mem_finish sample_infrastructure
       (validate_claim sample_config, \<lambda>_. Inr sample_authority, Aware 3000000 0) ''w1'' (sample_store ?a)
       = (sample_store ?a, Raised (StoreEscaped ''TypeError''), [])"
    by (rule non_ascii_approver_leaves_warrant_approved [where d = sample_warrant and a = ?a and key = key
          and row = "\<lparr>sw_document = sample_warrant, sw_approval = ?a, sw_state = WS_APPROVED, sw_result = None\<rparr>"
          and au = sample_authority])
      (use key approved in \<open>simp_all add: cfg fields sample_store_def is_aware_def instant_def sample_document_ok
        sample_integrity is_sha256_sample_mac is_ascii_def\<close>)
  then show ?thesis by (intro exI [of _ ?a]) simp
qed

end
