(* ===== verification/CP_Store.thy ===== *)
theory CP_Store
  imports CP_Broker
begin

text \<open>
  The PostgreSQL warrant store (\<^verbatim>\<open>broker/store.py\<close>): canonical authority snapshots and their strict parser,
  the two tables, and the four transactions \<^verbatim>\<open>add_approved\<close>, \<^verbatim>\<open>replace_authority\<close>, \<^verbatim>\<open>claim_warrant\<close> and
  \<^verbatim>\<open>finish\<close>. A transaction that raises leaves the database unchanged; row and advisory locks make the
  transactions on one warrant atomic, so an operation is one step. The model constructors of the
  third-party package are arguments, as in the parsers. The column widths of the tables are not
  modelled.
  The results: the store meets the same contract as the in-memory one, so warrants are single-use in
  it too; and it refines the in-memory store: on related states both give the same claim outcome.
\<close>

section \<open>Authority snapshots\<close>

definition authority_fields :: "authority_snapshot \<Rightarrow> (string \<times> pyval) list" where
  "authority_fields au =
     [(''warrant_id'', PyStr (au_warrant_id au)),
      (''incident_id'', PyStr (au_incident_id au)),
      (''repository_id'', PyStr (au_repository_id au)),
      (''verdict_id'', PyStr (au_verdict_id au)),
      (''verdict_sha256'', PyStr (au_verdict_sha256 au)),
      (''candidate_id'', PyStr (au_candidate_id au)),
      (''authority_snapshot_sha256'', PyStr (au_authority_snapshot_sha256 au)),
      (''reviewed_evidence_manifest_sha256'', PyStr (au_reviewed_evidence_manifest_sha256 au)),
      (''reviewed_timeline_head'', PyStr (au_reviewed_timeline_head au)),
      (''base_sha'', PyStr (au_base_sha au)),
      (''repository_manifest_sha256'', PyStr (au_repository_manifest_sha256 au)),
      (''patch_sha256'', PyStr (au_patch_sha256 au)),
      (''allowed_paths'', PyList (map PyStr (au_allowed_paths au))),
      (''test_plan_sha256'', PyStr (au_test_plan_sha256 au)),
      (''repository_root'', PyStr (au_repository_root au))]"

definition canonical_authority_bytes ::
  "(string \<Rightarrow> string) \<Rightarrow> authority_snapshot \<Rightarrow> canonicalization_error + string" where
  "canonical_authority_bytes nfc au = canonical_json nfc (py_fields (authority_fields au))"

definition parse_authority_json ::
  "(json \<Rightarrow> authority_snapshot option) \<Rightarrow> (string \<Rightarrow> string) \<Rightarrow> string \<Rightarrow> claim_error + authority_snapshot" where
  "parse_authority_json model_validate nfc raw =
     (case loads raw of
        Inl _ \<Rightarrow> Inl (TamperRejected ''INVALID_AUTHORITY_SNAPSHOT'')
      | Inr value \<Rightarrow>
          (case model_validate value of
             None \<Rightarrow> Inl (TamperRejected ''INVALID_AUTHORITY_SNAPSHOT'')
           | Some authority \<Rightarrow>
               (case canonical_authority_bytes nfc authority of
                  Inl _ \<Rightarrow> Inl (ClaimValueError ''canonicalization'')
                | Inr bytes \<Rightarrow>
                    if raw \<noteq> bytes then Inl (TamperRejected ''NONCANONICAL_AUTHORITY_SNAPSHOT'')
                    else Inr authority)))"

section \<open>Results as canonical values\<close>

definition observation_fields :: "process_receipt \<Rightarrow> (string \<times> pyval) list" where
  "observation_fields r =
     (case receipt_observation r of None \<Rightarrow> [] | Some o' \<Rightarrow> [(''trusted_observation'', observation_py o')]) @
     (case receipt_observation_sha256 r of None \<Rightarrow> [] | Some h \<Rightarrow> [(''trusted_observation_sha256'', PyStr h)])"

definition receipt_fields :: "process_receipt \<Rightarrow> (string \<times> pyval) list" where
  "receipt_fields r =
     [(''plan_id'', PyStr (receipt_plan_id r)), (''plan_sha256'', PyStr (receipt_plan_sha256 r)),
      (''argv_sha256'', PyStr (argv_sha256 r)),
      (''exit_code'', (case exit_code r of None \<Rightarrow> PyNone | Some i \<Rightarrow> PyInt i)),
      (''timed_out'', PyBool (timed_out r)), (''started_at'', PyDatetime (started_at r)),
      (''finished_at'', PyDatetime (finished_at r)), (''stdout_sha256'', PyStr (stdout_sha256 r)),
      (''stderr_sha256'', PyStr (stderr_sha256 r)), (''stdout_bytes'', PyInt (stdout_bytes r)),
      (''stderr_bytes'', PyInt (stderr_bytes r)), (''stdout_truncated'', PyBool (stdout_truncated r)),
      (''stderr_truncated'', PyBool (stderr_truncated r)),
      (''supervisor_verified'', PyBool (supervisor_verified r)),
      (''verification_code'', PyStr (verification_code r)),
      (''verification_sha256'', PyStr (verification_sha256 r))] @ observation_fields r @
     [(''runner_request_sha256'', PyStr (runner_request_sha256 r)),
      (''runner_service_identity_sha256'', PyStr (runner_service_identity_sha256 r)),
      (''workspace_provenance_sha256'', PyStr (workspace_provenance_sha256 r)),
      (''job_provenance_sha256'', PyStr (job_provenance_sha256 r)),
      (''candidate_executor_boot_sha256'', PyStr (candidate_executor_boot_sha256 r)),
      (''candidate_executor_replacement_sha256'', PyStr (candidate_executor_replacement_sha256 r))]"

definition optional_str :: "string option \<Rightarrow> pyval" where
  "optional_str x = (case x of None \<Rightarrow> PyNone | Some s \<Rightarrow> PyStr s)"

definition result_py :: "broker_result \<Rightarrow> pyval" where
  "result_py r = PyBaseModel (py_fields
     [(''warrant_id'', PyStr (br_warrant_id r)),
      (''status'', PyEnum (PyStr (status_value (br_status r)))),
      (''receipts'', PyList (map (\<lambda>x. PyBaseModel (py_fields (receipt_fields x))) (br_receipts r))),
      (''error_code'', optional_str (br_error_code r)),
      (''nonce_sha256'', optional_str (br_nonce_sha256 r))])"

section \<open>Tables\<close>

record warrant_row =
  wr_id :: string
  wr_incident_id :: string
  wr_nonce_sha256 :: string
  wr_document_json :: string
  wr_approval_json :: string
  wr_state :: warrant_state
  wr_expires_at :: datetime
  wr_claimed_at :: "datetime option"
  wr_nonce_consumed_at :: "datetime option"
  wr_finished_at :: "datetime option"
  wr_result_json :: "string option"
  wr_created_at :: datetime
  wr_updated_at :: datetime

record authority_row =
  ar_incident_id :: string
  ar_snapshot_json :: string
  ar_version :: int
  ar_updated_at :: datetime

record warrant_db =
  warrants :: "string \<rightharpoonup> warrant_row"
  authorities :: "string \<rightharpoonup> authority_row"

record store_models =
  model_warrant :: "json \<Rightarrow> warrant_document option"
  model_approval :: "json \<Rightarrow> warrant_approval option"
  model_authority :: "json \<Rightarrow> authority_snapshot option"

definition aware_utc :: "datetime \<Rightarrow> datetime" where
  "aware_utc t = Aware (instant t) 0"

definition canonical_or_raise :: "canonicalization_error + 'a \<Rightarrow> store_error + 'a" where
  "canonical_or_raise m = map_error (\<lambda>_. StoreValueError ''CanonicalizationError'') m"

section \<open>Transactions\<close>

definition put_authority :: "string \<Rightarrow> datetime \<Rightarrow> string \<Rightarrow> warrant_db \<Rightarrow> warrant_db" where
  "put_authority incident now snapshot db =
     db\<lparr>authorities := (authorities db)(incident \<mapsto>
       (case authorities db incident of
          None \<Rightarrow> \<lparr>ar_incident_id = incident, ar_snapshot_json = snapshot, ar_version = 1, ar_updated_at = now\<rparr>
        | Some current \<Rightarrow>
            current\<lparr>ar_snapshot_json := snapshot, ar_version := ar_version current + 1, ar_updated_at := now\<rparr>))\<rparr>"

definition pg_add_approved ::
  "(string \<Rightarrow> string) \<Rightarrow> (string \<Rightarrow> string) \<Rightarrow>
   warrant_document \<times> warrant_approval \<times> authority_snapshot \<times> datetime \<Rightarrow> warrant_db \<Rightarrow> store_error + warrant_db" where
  "pg_add_approved sha nfc args db =
     (let (document, approval, authority, now) = args; incident = wd_incident_id document
      in if incident \<noteq> au_incident_id authority
         then Inl (StoreValueError ''warrant and authority incidents differ'')
         else rbind (canonical_or_raise (canonical_authority_bytes nfc authority)) (\<lambda>snapshot.
              rbind (canonical_or_raise (canonical_warrant_bytes nfc document)) (\<lambda>document_json.
              rbind (canonical_or_raise (canonical_approval_bytes nfc approval)) (\<lambda>approval_json.
              let db1 = put_authority incident now snapshot db; nonce_sha256 = sha (wd_nonce document)
              in if wd_warrant_id document \<in> dom (warrants db) \<or>
                    (\<exists>row \<in> ran (warrants db). wr_nonce_sha256 row = nonce_sha256)
                 then Inl (StoreIntegrityError ''unique'')
                 else Inr (db1\<lparr>warrants := (warrants db)(wd_warrant_id document \<mapsto>
                   \<lparr>wr_id = wd_warrant_id document, wr_incident_id = incident, wr_nonce_sha256 = nonce_sha256,
                    wr_document_json = document_json, wr_approval_json = approval_json, wr_state = WS_APPROVED,
                    wr_expires_at = wd_expires_at document, wr_claimed_at = None, wr_nonce_consumed_at = None,
                    wr_finished_at = None, wr_result_json = None, wr_created_at = now, wr_updated_at = now\<rparr>)\<rparr>)))))"

definition pg_replace_authority ::
  "(string \<Rightarrow> string) \<Rightarrow> authority_snapshot \<times> datetime \<Rightarrow> warrant_db \<Rightarrow> store_error + warrant_db" where
  "pg_replace_authority nfc args db =
     (let (authority, now) = args
      in if authorities db (au_incident_id authority) = None then Inl (StoreKeyError (au_incident_id authority))
         else rbind (canonical_or_raise (canonical_authority_bytes nfc authority)) (\<lambda>snapshot.
                Inr (put_authority (au_incident_id authority) now snapshot db)))"

definition duplicated_bindings_match :: "(string \<Rightarrow> string) \<Rightarrow> warrant_row \<Rightarrow> warrant_document \<Rightarrow> bool" where
  "duplicated_bindings_match sha row document \<longleftrightarrow>
     wr_id row = wd_warrant_id document \<and> wr_incident_id row = wd_incident_id document \<and>
     wr_nonce_sha256 row = sha (wd_nonce document) \<and>
     aware_utc (wr_expires_at row) = aware_utc (wd_expires_at document)"

definition pg_locked_authority ::
  "store_models \<Rightarrow> (string \<Rightarrow> string) \<Rightarrow> warrant_db \<Rightarrow> string \<Rightarrow> claim_error + authority_snapshot" where
  "pg_locked_authority models nfc db incident =
     (case authorities db incident of
        None \<Rightarrow> Inl (TamperRejected ''AUTHORITY_SNAPSHOT_MISSING'')
      | Some row \<Rightarrow> parse_authority_json (model_authority models) nfc (ar_snapshot_json row))"

definition pg_claim_warrant ::
  "store_models \<Rightarrow> (string \<Rightarrow> string) \<Rightarrow> (string \<Rightarrow> string) \<Rightarrow> claim_validator \<times> datetime \<Rightarrow> string \<Rightarrow> warrant_db
   \<Rightarrow> store_error + (warrant_db \<times> claim_outcome)" where
  "pg_claim_warrant models sha nfc env warrant_id db =
     (let (validator, clock) = env
      in case warrants db warrant_id of
           None \<Rightarrow> Inr (db, Rejected BS_NOT_FOUND ''WARRANT_NOT_FOUND'')
         | Some row \<Rightarrow>
             if wr_state row \<noteq> WS_APPROVED
             then Inr (db, Rejected BS_REPLAY_REJECTED ''WARRANT_ALREADY_CLAIMED'')
             else (let now = aware_utc clock;
                       put = (\<lambda>st. db\<lparr>warrants := (warrants db)(warrant_id \<mapsto>
                                row\<lparr>wr_state := st, wr_updated_at := now\<rparr>)\<rparr>)
                   in case (parse_warrant_json (model_warrant models) nfc (wr_document_json row),
                            parse_approval_json (model_approval models) nfc (wr_approval_json row)) of
                        (Inr document, Inr approval) \<Rightarrow>
                          if \<not> duplicated_bindings_match sha row document
                          then Inr (put WS_REJECTED, Rejected BS_TAMPER_REJECTED ''INDEXED_WARRANT_BINDING_CHANGED'')
                          else if instant now > instant (wr_expires_at row) \<or>
                                  instant now > instant (wd_expires_at document)
                          then Inr (put WS_EXPIRED, Rejected BS_EXPIRED ''WARRANT_EXPIRED'')
                          else (case rbind (pg_locked_authority models nfc db (wr_incident_id row))
                                        (validator document approval now) of
                                  Inl (PolicyRejected e) \<Rightarrow>
                                    Inr (put WS_REJECTED, Rejected BS_POLICY_REJECTED (error_text e ''PATCH_POLICY_REJECTED''))
                                | Inl (TamperRejected e) \<Rightarrow>
                                    Inr (put WS_REJECTED, Rejected BS_TAMPER_REJECTED (error_text e ''WARRANT_TAMPER_REJECTED''))
                                | Inl (ClaimValueError e) \<Rightarrow>
                                    Inr (put WS_REJECTED, Rejected BS_TAMPER_REJECTED (error_text e ''WARRANT_TAMPER_REJECTED''))
                                | Inl (Escaped e) \<Rightarrow> Inl (StoreEscaped e)
                                | Inr validated \<Rightarrow>
                                    Inr (db\<lparr>warrants := (warrants db)(warrant_id \<mapsto>
                                           row\<lparr>wr_state := WS_CONSUMING, wr_claimed_at := Some now,
                                               wr_nonce_consumed_at := Some now, wr_updated_at := now\<rparr>)\<rparr>,
                                         Claimed document approval validated))
                      | _ \<Rightarrow>
                          Inr (put WS_REJECTED, Rejected BS_TAMPER_REJECTED ''PERSISTED_CANONICAL_BYTES_INVALID'')))"

definition pg_finish ::
  "(string \<Rightarrow> string) \<Rightarrow> datetime \<Rightarrow> broker_result \<Rightarrow> string \<Rightarrow> warrant_db \<Rightarrow> store_error + warrant_db" where
  "pg_finish nfc now result warrant_id db =
     (case warrants db warrant_id of
        None \<Rightarrow> Inl (StoreRuntimeError ''only a consuming warrant can finish'')
      | Some row \<Rightarrow>
          if wr_state row \<noteq> WS_CONSUMING
          then Inl (StoreRuntimeError ''only a consuming warrant can finish'')
          else rbind (canonical_or_raise (canonical_json nfc (result_py result))) (\<lambda>result_json.
            Inr (db\<lparr>warrants := (warrants db)(warrant_id \<mapsto>
              row\<lparr>wr_state := WS_CONSUMED, wr_result_json := Some result_json, wr_finished_at := Some now,
                  wr_updated_at := now\<rparr>)\<rparr>)))"

section \<open>The store meets the contract\<close>

definition pg_state_of :: "warrant_db \<Rightarrow> string \<Rightarrow> warrant_state option" where
  "pg_state_of db w = map_option wr_state (warrants db w)"

lemma pg_state_of_upd [simp]:
  "pg_state_of (db\<lparr>warrants := (warrants db')(w \<mapsto> r)\<rparr>) = (pg_state_of db')(w \<mapsto> wr_state r)"
  by (auto simp: pg_state_of_def)

lemma pg_state_put_authority [simp]: "pg_state_of (put_authority i now b db) = pg_state_of db"
  by (simp add: pg_state_of_def put_authority_def fun_eq_iff)

lemma put_authority_warrants [simp]:
  "warrants (put_authority i now b db) = warrants db"
  by (simp add: put_authority_def)

lemma pg_claim_cases:
  assumes "pg_claim_warrant models sha nfc env w s = Inr (s', outcome)"
  shows "pg_state_of s w \<noteq> Some WS_APPROVED \<and> s' = s \<and> (\<exists>b e. outcome = Rejected b e) \<or>
         pg_state_of s w = Some WS_APPROVED \<and>
           ((\<exists>d a au. outcome = Claimed d a au) \<and> pg_state_of s' = (pg_state_of s)(w \<mapsto> WS_CONSUMING) \<or>
            (\<exists>b e. outcome = Rejected b e) \<and>
              (pg_state_of s' = (pg_state_of s)(w \<mapsto> WS_REJECTED) \<or>
               pg_state_of s' = (pg_state_of s)(w \<mapsto> WS_EXPIRED)))"
proof (cases "warrants s w")
  case None
  then show ?thesis using assms by (auto simp: pg_claim_warrant_def pg_state_of_def case_prod_beta)
next
  case (Some r)
  then have st: "pg_state_of s w = Some (wr_state r)" by (simp add: pg_state_of_def)
  show ?thesis
    using assms Some st
    by (auto simp: pg_claim_warrant_def case_prod_beta Let_def split: if_splits sum.splits claim_error.splits)
qed

interpretation pg: warrant_store pg_state_of "pg_add_approved sha nfc" "\<lambda>args. wd_warrant_id (fst args)"
  "pg_claim_warrant models sha nfc" "pg_finish nfc" "pg_replace_authority nfc"
  "\<lambda>r. is_ok (canonical_json nfc (result_py r))"
  for sha nfc models
proof unfold_locales
  show "pg_state_of s (wd_warrant_id (fst x)) = None \<and>
      pg_state_of s' = (pg_state_of s)(wd_warrant_id (fst x) \<mapsto> WS_APPROVED)"
    if "pg_add_approved sha nfc x s = Inr s'" for x s s'
    using that
    by (auto simp: pg_add_approved_def pg_state_of_def [of s] result_simps Let_def case_prod_beta dom_def
        split: if_splits)
  show "pg_state_of s w = Some WS_APPROVED \<and> pg_state_of s' = (pg_state_of s)(w \<mapsto> WS_CONSUMING)"
    if "pg_claim_warrant models sha nfc c w s = Inr (s', Claimed d a au)" for c w s s' d a au
    using pg_claim_cases [OF that] by auto
  show "pg_state_of s w \<noteq> Some WS_APPROVED \<and> s' = s \<or> pg_state_of s w = Some WS_APPROVED \<and>
      (pg_state_of s' = (pg_state_of s)(w \<mapsto> WS_REJECTED) \<or> pg_state_of s' = (pg_state_of s)(w \<mapsto> WS_EXPIRED))"
    if "pg_claim_warrant models sha nfc c w s = Inr (s', Rejected b e)" for c w s s' b e
    using pg_claim_cases [OF that] by auto
  show "pg_claim_warrant models sha nfc c w s = Inr (s, Rejected BS_REPLAY_REJECTED ''WARRANT_ALREADY_CLAIMED'')"
    if "pg_state_of s w = Some st" "st \<noteq> WS_APPROVED" for s w st c
    using that by (auto simp: pg_claim_warrant_def pg_state_of_def case_prod_beta)
  show "pg_state_of s w = Some WS_CONSUMING \<and> pg_state_of s' = (pg_state_of s)(w \<mapsto> WS_CONSUMED)"
    if "pg_finish nfc f r w s = Inr s'" for f r w s s'
    using that by (auto simp: pg_finish_def pg_state_of_def [of s] result_simps split: option.splits if_splits)
  show "is_ok (pg_finish nfc f r w s)"
    if "pg_state_of s w = Some WS_CONSUMING" "is_ok (canonical_json nfc (result_py r))" for s w r f
    using that by (cases "canonical_json nfc (result_py r)")
      (auto simp: pg_finish_def pg_state_of_def canonical_or_raise_def split: option.splits)
  show "pg_state_of s' = pg_state_of s" if "pg_replace_authority nfc x s = Inr s'" for x s s'
    using that by (auto simp: pg_replace_authority_def result_simps case_prod_beta split: if_splits)
qed

section \<open>Refinement of the in-memory store\<close>

text \<open>A row stands for a stored warrant: its bytes parse to the document and the approval, and the
  duplicated columns agree with them.\<close>

definition row_rel ::
  "store_models \<Rightarrow> (string \<Rightarrow> string) \<Rightarrow> (string \<Rightarrow> string) \<Rightarrow> string \<Rightarrow> warrant_row \<Rightarrow> stored_warrant \<Rightarrow> bool" where
  "row_rel models sha nfc w row sw \<longleftrightarrow>
     parse_warrant_json (model_warrant models) nfc (wr_document_json row) = Inr (sw_document sw) \<and>
     parse_approval_json (model_approval models) nfc (wr_approval_json row) = Inr (sw_approval sw) \<and>
     wr_state row = sw_state sw \<and> wr_id row = w \<and> duplicated_bindings_match sha row (sw_document sw)"

definition db_rel ::
  "store_models \<Rightarrow> (string \<Rightarrow> string) \<Rightarrow> (string \<Rightarrow> string) \<Rightarrow> warrant_db \<Rightarrow> mem_store \<Rightarrow> bool" where
  "db_rel models sha nfc db ms \<longleftrightarrow> (\<forall>w. rel_option (row_rel models sha nfc w) (warrants db w) (ms w))"

text \<open>The authority that the in-memory broker would be given: the locked row of the warrant's incident.\<close>

definition pg_loader :: "store_models \<Rightarrow> (string \<Rightarrow> string) \<Rightarrow> warrant_db \<Rightarrow> authority_loader" where
  "pg_loader models nfc db w =
     (case warrants db w of
        None \<Rightarrow> Inl (Escaped ''LookupError'')
      | Some row \<Rightarrow> pg_locked_authority models nfc db (wr_incident_id row))"

lemma db_rel_upd:
  assumes "db_rel models sha nfc db ms" "row_rel models sha nfc w row' sw'"
  shows "db_rel models sha nfc (db\<lparr>warrants := (warrants db)(w \<mapsto> row')\<rparr>) (ms(w \<mapsto> sw'))"
  using assms by (simp add: db_rel_def)

lemma row_rel_state:
  assumes "row_rel models sha nfc w row sw" "wr_document_json row' = wr_document_json row"
    "wr_approval_json row' = wr_approval_json row" "wr_id row' = wr_id row" "wr_incident_id row' = wr_incident_id row"
    "wr_nonce_sha256 row' = wr_nonce_sha256 row" "wr_expires_at row' = wr_expires_at row"
  shows "row_rel models sha nfc w row' (sw\<lparr>sw_state := wr_state row'\<rparr>)"
  using assms by (auto simp: row_rel_def duplicated_bindings_match_def)

lemma instant_utc: "instant (astimezone_utc t) = instant t"
  by (simp add: astimezone_utc_def instant_def)

lemma claim_refines:
  assumes rel: "db_rel models sha nfc db ms" and aware: "is_aware now"
  shows "rel_sum (=) (\<lambda>(db', x) (ms', y). x = y \<and> db_rel models sha nfc db' ms')
    (pg_claim_warrant models sha nfc (validator, now) w db)
    (mem_claim_warrant (validator, pg_loader models nfc db, now) w ms)"
proof (cases "warrants db w")
  case None
  then have "ms w = None" using rel unfolding db_rel_def by (metis option.rel_sel)
  then show ?thesis using None rel by (simp add: pg_claim_warrant_def mem_claim_warrant_def)
next
  case (Some row)
  then obtain sw where sw: "ms w = Some sw" and r: "row_rel models sha nfc w row sw"
    using rel unfolding db_rel_def by (metis option_rel_Some1)
  have now: "aware_utc now = astimezone_utc now" by (simp add: aware_utc_def astimezone_utc_def)
  have doc: "wd_warrant_id (sw_document sw) = w" "instant (wr_expires_at row) = instant (wd_expires_at (sw_document sw))"
    "duplicated_bindings_match sha row (sw_document sw)"
    using r by (auto simp: row_rel_def duplicated_bindings_match_def aware_utc_def)
  have load: "pg_loader models nfc db w = pg_locked_authority models nfc db (wr_incident_id row)"
    using Some by (simp add: pg_loader_def)
  have put: "db_rel models sha nfc (db\<lparr>warrants := (warrants db)(w \<mapsto> row')\<rparr>) (ms(w \<mapsto> sw\<lparr>sw_state := wr_state row'\<rparr>))"
    if "wr_document_json row' = wr_document_json row" "wr_approval_json row' = wr_approval_json row"
      "wr_id row' = wr_id row" "wr_incident_id row' = wr_incident_id row"
      "wr_nonce_sha256 row' = wr_nonce_sha256 row" "wr_expires_at row' = wr_expires_at row" for row'
    by (rule db_rel_upd [OF rel row_rel_state [OF r that]])
  have p1: "db_rel models sha nfc (db\<lparr>warrants := (warrants db)(w \<mapsto> row\<lparr>wr_state := st, wr_updated_at := t\<rparr>)\<rparr>)
      (ms(w \<mapsto> sw\<lparr>sw_state := st\<rparr>))" for st t
    using put [of "row\<lparr>wr_state := st, wr_updated_at := t\<rparr>"] by simp
  have p2: "db_rel models sha nfc (db\<lparr>warrants := (warrants db)(w \<mapsto> row\<lparr>wr_state := WS_CONSUMING,
      wr_claimed_at := Some t, wr_nonce_consumed_at := Some t, wr_updated_at := t\<rparr>)\<rparr>)
      (ms(w \<mapsto> sw\<lparr>sw_state := WS_CONSUMING\<rparr>))" for t
    using put [of "row\<lparr>wr_state := WS_CONSUMING, wr_claimed_at := Some t, wr_nonce_consumed_at := Some t,
        wr_updated_at := t\<rparr>"] by simp
  show ?thesis
  proof (cases "sw_state sw = WS_APPROVED \<and> instant now \<le> instant (wd_expires_at (sw_document sw))")
    case False
    then show ?thesis
      using Some sw r rel doc aware p1
      by (auto simp: pg_claim_warrant_def mem_claim_warrant_def row_rel_def now astimezone_utc_def
          instant_def [of "Aware _ _"] not_le)
  next
    case True
    define au where "au = rbind (pg_locked_authority models nfc db (wr_incident_id row))
        (validator (sw_document sw) (sw_approval sw) (astimezone_utc now))"
    have "pg_claim_warrant models sha nfc (validator, now) w db =
        (case au of
           Inl (PolicyRejected e) \<Rightarrow> Inr (db\<lparr>warrants := (warrants db)(w \<mapsto> row\<lparr>wr_state := WS_REJECTED,
             wr_updated_at := astimezone_utc now\<rparr>)\<rparr>, Rejected BS_POLICY_REJECTED (error_text e ''PATCH_POLICY_REJECTED''))
         | Inl (TamperRejected e) \<Rightarrow> Inr (db\<lparr>warrants := (warrants db)(w \<mapsto> row\<lparr>wr_state := WS_REJECTED,
             wr_updated_at := astimezone_utc now\<rparr>)\<rparr>, Rejected BS_TAMPER_REJECTED (error_text e ''WARRANT_TAMPER_REJECTED''))
         | Inl (ClaimValueError e) \<Rightarrow> Inr (db\<lparr>warrants := (warrants db)(w \<mapsto> row\<lparr>wr_state := WS_REJECTED,
             wr_updated_at := astimezone_utc now\<rparr>)\<rparr>, Rejected BS_TAMPER_REJECTED (error_text e ''WARRANT_TAMPER_REJECTED''))
         | Inl (Escaped e) \<Rightarrow> Inl (StoreEscaped e)
         | Inr validated \<Rightarrow> Inr (db\<lparr>warrants := (warrants db)(w \<mapsto> row\<lparr>wr_state := WS_CONSUMING,
             wr_claimed_at := Some (astimezone_utc now), wr_nonce_consumed_at := Some (astimezone_utc now),
             wr_updated_at := astimezone_utc now\<rparr>)\<rparr>, Claimed (sw_document sw) (sw_approval sw) validated))"
      using Some r doc True
      unfolding pg_claim_warrant_def au_def Let_def prod.case now
      by (simp add: row_rel_def instant_utc)
    moreover have "mem_claim_warrant (validator, pg_loader models nfc db, now) w ms =
        (case au of
           Inl (PolicyRejected e) \<Rightarrow> Inr (ms(w \<mapsto> sw\<lparr>sw_state := WS_REJECTED\<rparr>),
             Rejected BS_POLICY_REJECTED (error_text e ''PATCH_POLICY_REJECTED''))
         | Inl (TamperRejected e) \<Rightarrow> Inr (ms(w \<mapsto> sw\<lparr>sw_state := WS_REJECTED\<rparr>),
             Rejected BS_TAMPER_REJECTED (error_text e ''WARRANT_TAMPER_REJECTED''))
         | Inl (ClaimValueError e) \<Rightarrow> Inr (ms(w \<mapsto> sw\<lparr>sw_state := WS_REJECTED\<rparr>),
             Rejected BS_TAMPER_REJECTED (error_text e ''WARRANT_TAMPER_REJECTED''))
         | Inl (Escaped e) \<Rightarrow> Inl (StoreEscaped e)
         | Inr validated \<Rightarrow> Inr (ms(w \<mapsto> sw\<lparr>sw_state := WS_CONSUMING\<rparr>),
             Claimed (sw_document sw) (sw_approval sw) validated))"
      using sw aware doc True load
      unfolding mem_claim_warrant_def au_def Let_def prod.case by (simp add: instant_utc)
    ultimately show ?thesis
      by (cases au) (simp_all add: p1 p2 split: claim_error.splits)
  qed
qed

lemma finish_refines:
  assumes rel: "db_rel models sha nfc db ms" and ok: "is_ok (canonical_json nfc (result_py r))"
  shows "rel_sum (\<lambda>_ _. True) (db_rel models sha nfc) (pg_finish nfc now r w db) (mem_finish r w ms)"
proof (cases "warrants db w")
  case None
  then have "ms w = None" using rel unfolding db_rel_def by (metis option.rel_sel)
  then show ?thesis using None by (simp add: pg_finish_def mem_finish_def)
next
  case (Some row)
  then obtain sw where sw: "ms w = Some sw" and r: "row_rel models sha nfc w row sw"
    using rel unfolding db_rel_def by (metis option_rel_Some1)
  obtain b where b: "canonical_json nfc (result_py r) = Inr b"
    using ok by (cases "canonical_json nfc (result_py r)") auto
  have "row_rel models sha nfc w
      (row\<lparr>wr_state := WS_CONSUMED, wr_result_json := Some b, wr_finished_at := Some now, wr_updated_at := now\<rparr>)
      (sw\<lparr>sw_result := Some r, sw_state := WS_CONSUMED\<rparr>)"
    using r by (auto simp: row_rel_def duplicated_bindings_match_def)
  from db_rel_upd [OF rel this] Some sw r b show ?thesis
    by (simp add: pg_finish_def mem_finish_def row_rel_def canonical_or_raise_def)
qed

lemma nfc_ascii: "nfc_laws nfc \<Longrightarrow> is_ascii s \<Longrightarrow> nfc s = s"
  by (simp add: nfc_laws_def)

lemma add_refines:
  assumes rel: "db_rel models sha nfc db ms" and laws: "nfc_text_laws nfc"
    and d: "document_ok d" "plain_py (document_py d)" and a: "approval_ok a" "plain_py (approval_py a)"
    and models: "rebuilds (model_warrant models) nfc (document_py d) (normal_document nfc d)"
      "rebuilds (model_approval models) nfc (approval_py a) (normal_approval nfc a)"
    and add: "pg_add_approved sha nfc (d, a, au, now) db = Inr db'"
  obtains ms' where "mem_add_approved (normal_document nfc d, normal_approval nfc a) ms = Inr ms'"
    and "db_rel models sha nfc db' ms'"
proof -
  have nfc: "nfc_laws nfc" using laws by (simp add: nfc_text_laws_def)
  obtain dj aj snap where bytes: "canonical_warrant_bytes nfc d = Inr dj" "canonical_approval_bytes nfc a = Inr aj"
    and fresh: "wd_warrant_id d \<notin> dom (warrants db)"
    and db': "db' = (put_authority (wd_incident_id d) now snap db)\<lparr>warrants := (warrants db)(wd_warrant_id d \<mapsto>
      \<lparr>wr_id = wd_warrant_id d, wr_incident_id = wd_incident_id d, wr_nonce_sha256 = sha (wd_nonce d),
       wr_document_json = dj, wr_approval_json = aj, wr_state = WS_APPROVED, wr_expires_at = wd_expires_at d,
       wr_claimed_at = None, wr_nonce_consumed_at = None, wr_finished_at = None, wr_result_json = None,
       wr_created_at = now, wr_updated_at = now\<rparr>)\<rparr>"
    using add by (auto simp: pg_add_approved_def canonical_or_raise_def result_simps Let_def split: if_splits)
  have aware: "is_aware (wd_issued_at d)" "is_aware (wd_expires_at d)" "is_aware (ap_approved_at a)"
    using document_ok_aware [OF d(1)] a(1) by (simp_all add: approval_ok_def)
  have ids: "nfc (wd_warrant_id d) = wd_warrant_id d" "nfc (wd_incident_id d) = wd_incident_id d"
    "nfc (wd_nonce d) = wd_nonce d"
    using d(1) nfc by (simp_all add: nfc_ascii is_identifier_ascii document_ok_def document_fields_ok_def)
  have "instant (utc (wd_expires_at d)) = instant (wd_expires_at d)"
    by (cases "wd_expires_at d") (simp_all add: utc_def instant_def)
  then have "row_rel models sha nfc (wd_warrant_id d)
      \<lparr>wr_id = wd_warrant_id d, wr_incident_id = wd_incident_id d, wr_nonce_sha256 = sha (wd_nonce d),
       wr_document_json = dj, wr_approval_json = aj, wr_state = WS_APPROVED, wr_expires_at = wd_expires_at d,
       wr_claimed_at = None, wr_nonce_consumed_at = None, wr_finished_at = None, wr_result_json = None,
       wr_created_at = now, wr_updated_at = now\<rparr>
      \<lparr>sw_document = normal_document nfc d, sw_approval = normal_approval nfc a, sw_state = WS_APPROVED,
       sw_result = None\<rparr>"
    using parse_canonical_warrant [OF laws d(2) aware(1,2) models(1) bytes(1)]
      parse_canonical_approval [OF laws a(2) aware(3) models(2) bytes(2)]
    by (simp add: row_rel_def duplicated_bindings_match_def normal_document_def ids aware_utc_def)
  then have "db_rel models sha nfc db' (ms(wd_warrant_id d \<mapsto>
      \<lparr>sw_document = normal_document nfc d, sw_approval = normal_approval nfc a, sw_state = WS_APPROVED,
       sw_result = None\<rparr>))"
    using rel by (simp add: db_rel_def db')
  moreover have "wd_warrant_id d \<notin> dom ms"
    using fresh rel unfolding db_rel_def by (metis domIff option.rel_sel)
  ultimately show thesis
    using that by (simp add: mem_add_approved_def normal_document_def ids)
qed

section \<open>Properties\<close>

text \<open>C8. Warrants are single-use in PostgreSQL: along every sequence of transactions (additions, authority
  replacements, claims, finishes) of any number of brokers, no warrant id is claimed twice.\<close>

theorem single_use_in_postgres:
  "distinct (snd (run_ops (pg_add_approved sha nfc) (pg_claim_warrant models sha nfc) (pg_finish nfc)
     (pg_replace_authority nfc) db ops))"
  by (rule pg.claimed_distinct)

text \<open>C9. The PostgreSQL store implements the in-memory store: on a database whose rows stand for the stored
  warrants, a claim gives the same outcome (or lets the same exception escape) as the in-memory claim
  with the locked authority, at any aware clock reading, and leaves related states; and finishing with
  a result that has a canonical form does too.\<close>

theorem postgres_store_refines_memory_store:
  assumes "db_rel models sha nfc db ms"
  shows "(is_aware now \<longrightarrow> rel_sum (=) (\<lambda>(db', x) (ms', y). x = y \<and> db_rel models sha nfc db' ms')
            (pg_claim_warrant models sha nfc (validator, now) w db)
            (mem_claim_warrant (validator, pg_loader models nfc db, now) w ms)) \<and>
         (is_ok (canonical_json nfc (result_py r)) \<longrightarrow>
            rel_sum (\<lambda>_ _. True) (db_rel models sha nfc) (pg_finish nfc now r w db) (mem_finish r w ms))"
  using claim_refines [OF assms] finish_refines [OF assms] by blast

definition sample_models :: "warrant_approval \<Rightarrow> store_models" where
  "sample_models a =
     \<lparr>model_warrant = (\<lambda>j. if normalize id (document_py sample_warrant) = Inr j
        then Some (normal_document id sample_warrant) else None),
      model_approval = (\<lambda>j. if normalize id (approval_py a) = Inr j then Some (normal_approval id a) else None),
      model_authority = (\<lambda>j. if normalize id (py_fields (authority_fields sample_authority)) = Inr j
        then Some sample_authority else None)\<rparr>"

definition empty_db :: warrant_db where
  "empty_db = \<lparr>warrants = Map.empty, authorities = Map.empty\<rparr>"

lemma sample_models_rebuild:
  "rebuilds (model_warrant (sample_models a)) id (document_py sample_warrant) (normal_document id sample_warrant)"
  "rebuilds (model_approval (sample_models a)) id (approval_py a) (normal_approval id a)"
  by (simp_all add: rebuilds_def sample_models_def)

lemma nfc_text_laws_id: "nfc_text_laws id"
  by (simp add: nfc_text_laws_def)

lemma empty_db_rel: "db_rel models sha nfc empty_db Map.empty"
  by (simp add: db_rel_def empty_db_def)

lemma char_count_ascii: "is_ascii s \<Longrightarrow> char_count s = length s"
  by (induction s) (auto simp: char_count_def is_cont_def)

lemma sample_approval_ok:
  assumes "approve zero_digest id sample_mac sample_keys sample_warrant (Aware 2000000 0) None = Inr a"
  shows "approval_ok a \<and> plain_py (approval_py a)"
proof -
  have v: "verify_body zero_digest id sample_mac sample_keys sample_warrant a = Inr True"
    using sample_approval_verifies [OF assms] by (simp add: verify_True)
  have "is_aware (ap_approved_at a)" by (rule approve_eq_Inr [OF assms])
  moreover have mac: "is_sha256 (ap_mac_sha256 a)" using v by (auto simp: verify_body_True is_sha256_sample_mac)
  moreover have "list_all utf8_valid [ap_warrant_id a, ap_warrant_sha256 a, ap_approver_identity a, ap_mac_key_id a]"
    using v unfolding verify_body_True by (auto intro: utf8_valid_ascii)
  ultimately show ?thesis
    using is_sha256_ascii [OF mac] is_sha256_length [OF mac]
    by (simp add: approval_ok_def approval_py_def approval_fields_def py_fields_def char_count_ascii utf8_valid_ascii)
qed

lemma authority_normalizes:
  assumes "nfc_laws nfc"
  obtains kvs where "normalize nfc (py_fields (authority_fields au)) = Inr (JObj kvs)"
proof -
  have "\<forall>(k, v) \<in> set (authority_fields au). is_ok (normalize nfc v)"
    by (simp add: authority_fields_def py_list_simps)
  then show thesis
    using assms that by (elim normalize_py_fields_ok [rotated 3]) (simp_all add: authority_fields_def)
qed

lemma sample_added:
  assumes "approval_ok a"
  obtains db where "pg_add_approved zero_digest id (sample_warrant, a, sample_authority, Aware 2500000 0) empty_db = Inr db"
proof -
  obtain dj where "canonical_warrant_bytes id sample_warrant = Inr dj"
    by (rule canonical_warrant_bytes_ok [OF nfc_laws_id sample_warrant_aware])
  moreover obtain kvs where "normalize id (approval_py a) = Inr (JObj kvs)"
    using assms by (elim approval_normalizes [OF nfc_laws_id, rotated]) (simp add: approval_ok_def)
  moreover obtain kws where "normalize id (py_fields (authority_fields sample_authority)) = Inr (JObj kws)"
    by (rule authority_normalizes [OF nfc_laws_id])
  moreover have "au_incident_id sample_authority = wd_incident_id sample_warrant"
    by (simp add: sample_authority_def from_warrant_def)
  ultimately show thesis
    using that by (simp add: pg_add_approved_def canonical_or_raise_def canonical_approval_bytes_def
        canonical_authority_bytes_def canonical_json_def empty_db_def Let_def del: dumps.simps)
qed

lemma sample_db_rel:
  obtains a db ms where "approval_ok a" and "plain_py (approval_py a)"
    and "pg_add_approved zero_digest id (sample_warrant, a, sample_authority, Aware 2500000 0) empty_db = Inr db"
    and "db_rel (sample_models a) zero_digest id db ms" and "''w1'' \<in> dom ms"
proof -
  obtain a where a: "approve zero_digest id sample_mac sample_keys sample_warrant (Aware 2000000 0) None = Inr a"
    by (rule sample_approval)
  note ok = sample_approval_ok [OF a]
  obtain db where db: "pg_add_approved zero_digest id (sample_warrant, a, sample_authority, Aware 2500000 0) empty_db = Inr db"
    using ok by (blast intro: sample_added)
  obtain ms where ms: "mem_add_approved (normal_document id sample_warrant, normal_approval id a) Map.empty = Inr ms"
    "db_rel (sample_models a) zero_digest id db ms"
    by (rule add_refines [OF empty_db_rel nfc_text_laws_id sample_document_ok sample_warrant_plain _ _
          sample_models_rebuild db]) (use ok in auto)
  have "wd_warrant_id (normal_document id sample_warrant) = ''w1''"
    by (simp add: normal_document_def sample_warrant_def)
  then have "''w1'' \<in> dom ms" using ms(1) by (auto simp: mem_add_approved_def)
  then show thesis using that ok db ms(2) by blast
qed

theorem postgres_store_refines_memory_store_witness:
  "\<exists>a db ms. ''w1'' \<in> dom ms \<and>
     rel_sum (=) (\<lambda>(db', x) (ms', y). x = y \<and> db_rel (sample_models a) zero_digest id db' ms')
       (pg_claim_warrant (sample_models a) zero_digest id (validate_claim sample_config, Aware 3000000 0) ''w1'' db)
       (mem_claim_warrant (validate_claim sample_config, pg_loader (sample_models a) id db, Aware 3000000 0) ''w1'' ms)"
proof -
  obtain a db ms where rel: "db_rel (sample_models a) zero_digest id db ms" and "''w1'' \<in> dom ms"
    by (rule sample_db_rel)
  moreover have "is_aware (Aware 3000000 0)" by (simp add: is_aware_def)
  ultimately show ?thesis using postgres_store_refines_memory_store [OF rel] by blast
qed

text \<open>What is persisted is what was approved: adding a valid warrant with its approval to the database
  corresponds to adding the pair, in normal form, to the in-memory store, so every later claim sees
  exactly this document and this approval.\<close>

theorem persisted_warrant_is_read_back:
  assumes "db_rel models sha nfc db ms" "nfc_text_laws nfc" "document_ok d" "plain_py (document_py d)"
    and "approval_ok a" "plain_py (approval_py a)"
    and "rebuilds (model_warrant models) nfc (document_py d) (normal_document nfc d)"
    and "rebuilds (model_approval models) nfc (approval_py a) (normal_approval nfc a)"
    and "pg_add_approved sha nfc (d, a, au, now) db = Inr db'"
  shows "\<exists>ms'. mem_add_approved (normal_document nfc d, normal_approval nfc a) ms = Inr ms' \<and>
     db_rel models sha nfc db' ms'"
  by (rule add_refines [OF assms]) blast

theorem persisted_warrant_is_read_back_witness:
  "\<exists>a db ms. pg_add_approved zero_digest id (sample_warrant, a, sample_authority, Aware 2500000 0) empty_db = Inr db \<and>
     mem_add_approved (normal_document id sample_warrant, normal_approval id a) Map.empty = Inr ms \<and>
     db_rel (sample_models a) zero_digest id db ms"
proof -
  obtain a db ms where ok: "approval_ok a" "plain_py (approval_py a)"
    and db: "pg_add_approved zero_digest id (sample_warrant, a, sample_authority, Aware 2500000 0) empty_db = Inr db"
    by (rule sample_db_rel)
  show ?thesis
    using persisted_warrant_is_read_back [OF empty_db_rel nfc_text_laws_id sample_document_ok sample_warrant_plain
        ok sample_models_rebuild db] db by blast
qed

end
