(* ===== verification/CP_Fingerprint.thy ===== *)
theory CP_Fingerprint
  imports CP_Domain "HOL-Library.Multiset"
begin

text \<open>
  The structured outputs of the five seats (\<^verbatim>\<open>domain/schemas.py\<close>) and their semantic fingerprints
  (\<^verbatim>\<open>domain/hashing.py\<close>): text folding, the mechanism vocabulary, unordered collections, diff
  normalisation, the material fields per seat and the retry classification. Texts are UTF-8 byte strings;
  the Unicode tables behind NFC, NFKC and case folding and the \<^verbatim>\<open>repr\<close> of values that are not text are
  arguments, collected in \<open>text_ops\<close>.
  The results: a fingerprint depends on nothing but the material fields, is blind to the order of the
  collections and to analysis prose, and, for ASCII outputs under a collision-free hash, two Inspector
  outputs have the same fingerprint exactly when they name the same mechanism and, as multisets of
  folded texts, the same evidence and falsifiers.
\<close>

section \<open>Seat outputs\<close>

record inspector_output =
  io_mechanism :: mechanism_code
  io_evidence_ids :: "string list"
  io_falsifiers :: "string list"
  io_analysis :: string

datatype prosecutor_variant =
    SupportedRival mechanism_code "string list" "string list" "string list" string
  | NoSupportedRival "string list" "string list" "string list" string

record test_intention =
  ti_catalog_id :: string
  ti_purpose :: string

record counsel_output =
  co_normalized_diff :: string
  co_test_intentions :: "test_intention list"
  co_evidence_ids :: "string list"
  co_analysis :: string

record required_change =
  rc_code :: string
  rc_target :: "seat option"
  rc_action :: string

record magistrate_output =
  mo_verdict :: verdict
  mo_finding_codes :: "string list"
  mo_required_changes :: "required_change list"
  mo_remand_target :: "seat option"
  mo_evidence_ids :: "string list"
  mo_analysis :: string

datatype seat_output =
    InspectorOutput inspector_output
  | ProsecutorOutput prosecutor_variant
  | CounselOutput counsel_output
  | MagistrateOutput magistrate_output
  | BailiffOutput string

text \<open>The field validators: the minimal lengths of \<^verbatim>\<open>Field(min_length=1)\<close>.\<close>

fun output_ok :: "seat_output \<Rightarrow> bool" where
  "output_ok (InspectorOutput a) \<longleftrightarrow> io_evidence_ids a \<noteq> []"
| "output_ok (ProsecutorOutput (SupportedRival _ ces ts es _)) \<longleftrightarrow> ces \<noteq> [] \<and> ts \<noteq> [] \<and> es \<noteq> []"
| "output_ok (ProsecutorOutput (NoSupportedRival ces ts es _)) \<longleftrightarrow> ces \<noteq> [] \<and> ts \<noteq> [] \<and> es \<noteq> []"
| "output_ok (CounselOutput a) \<longleftrightarrow>
     co_normalized_diff a \<noteq> [] \<and> co_test_intentions a \<noteq> [] \<and> co_evidence_ids a \<noteq> [] \<and>
     list_all (\<lambda>t. ti_catalog_id t \<noteq> [] \<and> ti_purpose t \<noteq> []) (co_test_intentions a)"
| "output_ok (MagistrateOutput a) \<longleftrightarrow>
     mo_evidence_ids a \<noteq> [] \<and> list_all (\<lambda>c. rc_code c \<noteq> []) (mo_required_changes a)"
| "output_ok (BailiffOutput w) \<longleftrightarrow> w \<noteq> []"

definition strs :: "string list \<Rightarrow> pyval" where
  "strs xs = PyList (map PyStr xs)"

definition mechanism_py :: "mechanism_code \<Rightarrow> pyval" where
  "mechanism_py m = PyEnum (PyStr (mechanism_value m))"

definition optional_seat :: "seat option \<Rightarrow> pyval" where
  "optional_seat t = (case t of None \<Rightarrow> PyNone | Some s \<Rightarrow> PyEnum (PyStr (seat_value s)))"

definition test_intention_py :: "test_intention \<Rightarrow> pyval" where
  "test_intention_py t =
     py_fields [(''catalog_id'', PyStr (ti_catalog_id t)), (''purpose'', PyStr (ti_purpose t))]"

definition required_change_py :: "required_change \<Rightarrow> pyval" where
  "required_change_py c =
     py_fields [(''code'', PyStr (rc_code c)), (''target'', optional_seat (rc_target c)),
       (''action'', PyStr (rc_action c))]"

fun variant_py :: "prosecutor_variant \<Rightarrow> pyval" where
  "variant_py (SupportedRival m ces ts es t) =
     py_fields [(''outcome'', PyStr ''SUPPORTED_RIVAL''), (''rival_mechanism'', mechanism_py m),
       (''counterexample_ids'', strs ces), (''test_ids'', strs ts), (''evidence_ids'', strs es),
       (''analysis'', PyStr t)]"
| "variant_py (NoSupportedRival ces ts es t) =
     py_fields [(''outcome'', PyStr ''NO_SUPPORTED_RIVAL''), (''counterexample_ids'', strs ces),
       (''test_ids'', strs ts), (''evidence_ids'', strs es), (''analysis'', PyStr t)]"

text \<open>\<^verbatim>\<open>model_dump(mode="python")\<close> of an output: enumeration members stay members, nested models become
  dictionaries.\<close>

fun output_dump :: "seat_output \<Rightarrow> pyval" where
  "output_dump (InspectorOutput a) =
     py_fields [(''mechanism'', mechanism_py (io_mechanism a)), (''evidence_ids'', strs (io_evidence_ids a)),
       (''falsifiers'', strs (io_falsifiers a)), (''analysis'', PyStr (io_analysis a))]"
| "output_dump (ProsecutorOutput v) = py_fields [(''root'', variant_py v)]"
| "output_dump (CounselOutput a) =
     py_fields [(''normalized_diff'', PyStr (co_normalized_diff a)),
       (''test_intentions'', PyList (map test_intention_py (co_test_intentions a))),
       (''evidence_ids'', strs (co_evidence_ids a)), (''analysis'', PyStr (co_analysis a))]"
| "output_dump (MagistrateOutput a) =
     py_fields [(''verdict'', PyEnum (PyStr (verdict_value (mo_verdict a)))),
       (''finding_codes'', strs (mo_finding_codes a)),
       (''required_changes'', PyList (map required_change_py (mo_required_changes a))),
       (''remand_target'', optional_seat (mo_remand_target a)),
       (''evidence_ids'', strs (mo_evidence_ids a)), (''analysis'', PyStr (mo_analysis a))]"
| "output_dump (BailiffOutput w) = py_fields [(''warrant_id'', PyStr w)]"

definition output_py :: "seat_output \<Rightarrow> pyval" where
  "output_py a = PyBaseModel (output_dump a)"

section \<open>Text folding\<close>

record text_ops =
  op_nfc :: "string \<Rightarrow> string"
  op_nfkc :: "string \<Rightarrow> string"
  op_casefold :: "string \<Rightarrow> string"
  op_repr :: "pyval \<Rightarrow> string"

datatype fingerprint_error =
    Canonicalization canonicalization_error
  | NotASemanticCollection
  | SeatOutputNotObject
  | JsonTypeError
  | NotIterable

text \<open>\<^verbatim>\<open>lstrip\<close>, \<^verbatim>\<open>rstrip\<close> and \<^verbatim>\<open>strip\<close> with no argument.\<close>

lemma ws_len_Nil [simp]: "ws_len [] = 0"
  by (simp add: ws_len_def)

lemma ws_len_pos: "0 < ws_len s \<Longrightarrow> s \<noteq> []"
  by (cases s) simp_all

function lstrip :: "string \<Rightarrow> string" where
  "lstrip s = (if ws_len s = 0 then s else lstrip (drop (ws_len s) s))"
  by pat_completeness auto
termination
  by (relation "measure length") (use ws_len_pos in \<open>force+\<close>)

declare lstrip.simps [simp del]

fun rstrip :: "string \<Rightarrow> string" where
  "rstrip [] = []"
| "rstrip (c # cs) = (if lstrip (c # cs) = [] then [] else c # rstrip cs)"

definition strip :: "string \<Rightarrow> string" where
  "strip s = rstrip (lstrip s)"

text \<open>\<^verbatim>\<open>_WHITESPACE.sub(" ", s)\<close>: every maximal whitespace run becomes one space.\<close>

lemma lstrip_length: "length (lstrip s) \<le> length s"
  by (induction s rule: lstrip.induct) (subst lstrip.simps, auto)

lemma lstrip_shorter: "ws_len s \<noteq> 0 \<Longrightarrow> length (lstrip s) < length s"
proof -
  assume ws: "ws_len s \<noteq> 0"
  then have "s \<noteq> []" using ws_len_pos by blast
  have "length (lstrip s) = length (lstrip (drop (ws_len s) s))" by (subst lstrip.simps) (simp add: ws)
  also have "\<dots> \<le> length (drop (ws_len s) s)" by (rule lstrip_length)
  also have "\<dots> < length s" using ws \<open>s \<noteq> []\<close> by simp
  finally show ?thesis .
qed

function sub_whitespace :: "string \<Rightarrow> string" where
  "sub_whitespace s =
     (if s = [] then []
      else if ws_len s = 0 then hd s # sub_whitespace (tl s)
      else CHR '' '' # sub_whitespace (lstrip s))"
  by pat_completeness auto
termination
  by (relation "measure length") (auto simp: lstrip_shorter)

declare sub_whitespace.simps [simp del]

definition semantic_text :: "text_ops \<Rightarrow> string \<Rightarrow> string" where
  "semantic_text ops s = op_casefold ops (strip (sub_whitespace (op_nfkc ops s)))"

definition py_str :: "text_ops \<Rightarrow> pyval \<Rightarrow> string" where
  "py_str ops v = (case str_value v of Some s \<Rightarrow> s | None \<Rightarrow> op_repr ops v)"

text \<open>\<^verbatim>\<open>re.findall(r"[a-z0-9]+", s)\<close>.\<close>

definition word_char :: "char \<Rightarrow> bool" where
  "word_char c \<longleftrightarrow> is_lower c \<or> is_digit c"

function word_tokens :: "string \<Rightarrow> string list" where
  "word_tokens s =
     (let r = dropWhile (\<lambda>c. \<not> word_char c) s in
      if r = [] then [] else takeWhile word_char r # word_tokens (dropWhile word_char r))"
  by pat_completeness auto
termination
proof (relation "measure length", goal_cases)
  case (2 s r)
  have r: "length r \<le> length s" using 2(1) by (simp add: length_dropWhile_le)
  have "word_char (hd r)" using 2 hd_dropWhile by blast
  with 2(2) have "length (dropWhile word_char r) < length r"
    by (cases r) (auto simp: less_Suc_eq_le length_dropWhile_le)
  with r show ?case by simp
qed simp

declare word_tokens.simps [simp del]

definition stem :: "string \<Rightarrow> string" where
  "stem t =
     (let u = (if t \<in> {''check'', ''checked'', ''checking'', ''checks''} then ''check'' else t) in
      if u \<in> {''insert'', ''inserted'', ''inserting'', ''inserts''} then ''insert'' else u)"

definition all_mechanisms :: "mechanism_code list" where
  "all_mechanisms = [CHECK_THEN_INSERT_RACE, LATE_RECEIPT_WRITE, WORKER_RETRY_DUPLICATION, PAYLOAD_ID_COLLISION]"

text \<open>A dictionary read by a text key; the enumerations are string enumerations, equal to their value.\<close>

definition py_lookup :: "string \<Rightarrow> (pyval \<times> pyval) list \<Rightarrow> pyval option" where
  "py_lookup k items = map_option snd (find (\<lambda>kv. key_string (fst kv) = Some k) items)"

definition py_get :: "string \<Rightarrow> pyval \<Rightarrow> (pyval \<times> pyval) list \<Rightarrow> pyval" where
  "py_get k d items = (case py_lookup k items of None \<Rightarrow> d | Some v \<Rightarrow> v)"

definition mechanism_of_text :: "text_ops \<Rightarrow> string \<Rightarrow> string" where
  "mechanism_of_text ops text =
     (let normalized = semantic_text ops text;
          stems = set (map stem (word_tokens normalized)) in
      if {''check'', ''insert''} \<subseteq> stems then mechanism_value CHECK_THEN_INSERT_RACE
      else if {''worker'', ''retry''} \<subseteq> stems then mechanism_value WORKER_RETRY_DUPLICATION
      else if {''payload'', ''id''} \<subseteq> stems \<and> stems \<inter> {''reuse'', ''collision'', ''mismatch''} \<noteq> {}
      then mechanism_value PAYLOAD_ID_COLLISION
      else normalized)"

text \<open>A mechanism member is an enumeration member with a mechanism value: no other enumeration of the
  program has one of these values.\<close>

definition semantic_mechanism :: "text_ops \<Rightarrow> pyval \<Rightarrow> string" where
  "semantic_mechanism ops v =
     (case v of
        PyEnum (PyStr s) \<Rightarrow>
          (if s \<in> set (map mechanism_value all_mechanisms) then s else mechanism_of_text ops (py_str ops v))
      | PyMap items \<Rightarrow>
          (case py_lookup ''code'' items of Some c \<Rightarrow> py_str ops c | None \<Rightarrow> mechanism_of_text ops (py_str ops v))
      | _ \<Rightarrow> mechanism_of_text ops (py_str ops v))"

section \<open>Unordered collections\<close>

text \<open>
  \<^verbatim>\<open>_sort_key\<close> on values that are not normalised: \<^verbatim>\<open>json.dumps\<close> with sorted keys. Anything but the JSON
  types raises \<^verbatim>\<open>TypeError\<close>, and so does sorting the keys of a dictionary that mixes text with numbers.
  Number keys are ordered as integers; dictionaries with several float keys are outside the model, which
  answers with the same error.
\<close>

fun key_text :: "pyval \<Rightarrow> string option" where
  "key_text (PyStr s) = Some s"
| "key_text (PyEnum (PyStr s)) = Some s"
| "key_text (PyInt i) = Some (show_int i)"
| "key_text (PyBool b) = Some (if b then ''true'' else ''false'')"
| "key_text PyNone = Some ''null''"
| "key_text (PyFloat (Finite s)) = Some s"
| "key_text (PyFloat (NonFinite s)) = Some s"
| "key_text _ = None"

fun key_number :: "pyval \<Rightarrow> int option" where
  "key_number (PyInt i) = Some i"
| "key_number (PyBool b) = Some (if b then 1 else 0)"
| "key_number _ = None"

definition sort_items :: "(pyval \<times> string) list \<Rightarrow> fingerprint_error + (string \<times> string) list" where
  "sort_items items =
     (let named = map_result (\<lambda>(k, t). case key_text k of None \<Rightarrow> Inl JsonTypeError | Some s \<Rightarrow> Inr (s, t)) in
      if list_all (\<lambda>(k, t). key_string k \<noteq> None) items then rbind (named items) (\<lambda>kts. Inr (sort_key fst kts))
      else if list_all (\<lambda>(k, t). key_number k \<noteq> None) items
      then named (sort_key (\<lambda>(k, t). case key_number k of Some i \<Rightarrow> i | None \<Rightarrow> 0) items)
      else if length items \<le> 1 then named items
      else Inl JsonTypeError)"

fun py_dumps :: "pyval \<Rightarrow> fingerprint_error + string"
  and py_dumps_list :: "pyval list \<Rightarrow> fingerprint_error + string list"
  and py_dumps_items :: "(pyval \<times> pyval) list \<Rightarrow> fingerprint_error + (pyval \<times> string) list"
where
  "py_dumps PyNone = Inr ''null''"
| "py_dumps (PyBool b) = Inr (if b then ''true'' else ''false'')"
| "py_dumps (PyInt i) = Inr (show_int i)"
| "py_dumps (PyFloat (Finite s)) = Inr s"
| "py_dumps (PyFloat (NonFinite s)) = Inr s"
| "py_dumps (PyStr s) = Inr (quote s)"
| "py_dumps (PyEnum (PyStr s)) = Inr (quote s)"
| "py_dumps (PyList vs) = rbind (py_dumps_list vs) (\<lambda>ts. Inr (''['' @ join '','' ts @ '']''))"
| "py_dumps (PyMap items) =
     rbind (py_dumps_items items) (\<lambda>kts. rbind (sort_items kts)
       (\<lambda>sorted. Inr (''{'' @ join '','' (map member_text sorted) @ ''}'')))"
| "py_dumps _ = Inl JsonTypeError"
| "py_dumps_list [] = Inr []"
| "py_dumps_list (v # vs) = rbind (py_dumps v) (\<lambda>t. rbind (py_dumps_list vs) (\<lambda>ts. Inr (t # ts)))"
| "py_dumps_items [] = Inr []"
| "py_dumps_items ((k, v) # items) =
     rbind (py_dumps v) (\<lambda>t. rbind (py_dumps_items items) (\<lambda>kts. Inr ((k, t) # kts)))"

text \<open>\<^verbatim>\<open>sorted(values, key=_sort_key)\<close>.\<close>

definition sorted_by_dumps :: "pyval list \<Rightarrow> fingerprint_error + pyval list" where
  "sorted_by_dumps vs =
     rbind (map_result (\<lambda>v. rbind (py_dumps v) (\<lambda>t. Inr (t, v))) vs)
       (\<lambda>keyed. Inr (map snd (sort_key fst keyed)))"

fun semantic_value :: "text_ops \<Rightarrow> pyval \<Rightarrow> fingerprint_error + pyval"
  and semantic_values :: "text_ops \<Rightarrow> pyval list \<Rightarrow> fingerprint_error + pyval list"
  and semantic_items :: "text_ops \<Rightarrow> (pyval \<times> pyval) list \<Rightarrow> fingerprint_error + (pyval \<times> pyval) list"
where
  "semantic_value ops (PyStr s) = Inr (PyStr (semantic_text ops s))"
| "semantic_value ops (PyEnum v) =
     (case v of PyStr s \<Rightarrow> Inr (PyStr (semantic_text ops s)) | _ \<Rightarrow> Inr v)"
| "semantic_value ops (PyMap items) = rbind (semantic_items ops items) (\<lambda>kvs. Inr (PyMap kvs))"
| "semantic_value ops (PyList vs) =
     rbind (semantic_values ops vs) (\<lambda>ws. rbind (sorted_by_dumps ws) (\<lambda>xs. Inr (PyList xs)))"
| "semantic_value ops (PySet vs) =
     rbind (semantic_values ops vs) (\<lambda>ws. rbind (sorted_by_dumps ws) (\<lambda>xs. Inr (PyList xs)))"
| "semantic_value ops v = Inr v"
| "semantic_values ops [] = Inr []"
| "semantic_values ops (v # vs) =
     rbind (semantic_value ops v) (\<lambda>w. rbind (semantic_values ops vs) (\<lambda>ws. Inr (w # ws)))"
| "semantic_items ops [] = Inr []"
| "semantic_items ops ((k, v) # items) =
     rbind (semantic_value ops v) (\<lambda>w. rbind (semantic_items ops items) (\<lambda>kvs. Inr ((k, w) # kvs)))"

fun model_dump :: "pyval \<Rightarrow> pyval" where
  "model_dump (PyRootModel v) = model_dump v"
| "model_dump (PyBaseModel v) = v"
| "model_dump (PyList vs) = PyList (map model_dump vs)"
| "model_dump (PyMap items) = PyMap (map (\<lambda>(k, v). (k, model_dump v)) items)"
| "model_dump v = v"

definition as_mapping :: "pyval \<Rightarrow> fingerprint_error + (pyval \<times> pyval) list" where
  "as_mapping payload =
     (let root = (case payload of PyRootModel v \<Rightarrow> v | _ \<Rightarrow> payload);
          dumped = (case root of PyBaseModel _ \<Rightarrow> model_dump root | PyRootModel _ \<Rightarrow> model_dump root | _ \<Rightarrow> root) in
      case dumped of PyMap items \<Rightarrow> Inr items | _ \<Rightarrow> Inl SeatOutputNotObject)"

definition ordered_semantic_set :: "text_ops \<Rightarrow> pyval \<Rightarrow> fingerprint_error + pyval" where
  "ordered_semantic_set ops v =
     (case v of
        PyNone \<Rightarrow> Inr (PyList [])
      | PyList _ \<Rightarrow> semantic_value ops v
      | PySet _ \<Rightarrow> semantic_value ops v
      | _ \<Rightarrow> Inl NotASemanticCollection)"

section \<open>Diffs\<close>

text \<open>\<^verbatim>\<open>value.replace("\r\n", "\n").replace("\r", "\n")\<close>.\<close>

fun unix_newlines :: "string \<Rightarrow> string" where
  "unix_newlines [] = []"
| "unix_newlines [c] = [if c = CHR 0x0D then CHR 0x0A else c]"
| "unix_newlines (c # d # cs) =
     (if c = CHR 0x0D \<and> d = CHR 0x0A then CHR 0x0A # unix_newlines cs
      else (if c = CHR 0x0D then CHR 0x0A else c) # unix_newlines (d # cs))"

definition normalize_diff :: "string \<Rightarrow> string" where
  "normalize_diff value =
     strip (join newline (map rstrip (split_on (CHR 0x0A) (unix_newlines value)))) @ newline"

section \<open>Material items per seat\<close>

text \<open>The elements a \<^verbatim>\<open>for\<close> loop takes from a value, \<open>None\<close> for \<^verbatim>\<open>TypeError\<close>: the characters of a
  text, the keys of a dictionary.\<close>

function text_chars :: "string \<Rightarrow> string list" where
  "text_chars s =
     (if s = [] then [] else take (max 1 (utf8_unit True s)) s # text_chars (drop (max 1 (utf8_unit True s)) s))"
  by pat_completeness auto
termination
  by (relation "measure length") (auto simp: max_def)

declare text_chars.simps [simp del]

fun iteration :: "pyval \<Rightarrow> pyval list option" where
  "iteration (PyList vs) = Some vs"
| "iteration (PySet vs) = Some vs"
| "iteration (PyMap items) = Some (map fst items)"
| "iteration (PyStr s) = Some (map PyStr (text_chars s))"
| "iteration (PyEnum (PyStr s)) = Some (map PyStr (text_chars s))"
| "iteration (PyBaseModel (PyMap items)) = Some (map (\<lambda>(k, v). PyList [k, v]) items)"
| "iteration (PyRootModel v) = Some [PyList [PyStr ''root'', v]]"
| "iteration _ = None"

definition semantic_change :: "text_ops \<Rightarrow> pyval \<Rightarrow> fingerprint_error + pyval" where
  "semantic_change ops change =
     (case change of
        PyMap items \<Rightarrow>
          rbind (semantic_value ops (py_get ''code'' (PyStr []) items))
            (\<lambda>c. Inr (py_fields [(''code'', c), (''target'', py_get ''target'' PyNone items)]))
      | _ \<Rightarrow> semantic_value ops change)"

definition inspector_material :: "text_ops \<Rightarrow> (pyval \<times> pyval) list \<Rightarrow> fingerprint_error + pyval" where
  "inspector_material ops items =
     rbind (ordered_semantic_set ops (py_get ''evidence_ids'' (PyList []) items)) (\<lambda>evidence.
     rbind (ordered_semantic_set ops (py_get ''falsifiers'' (PyList []) items)) (\<lambda>falsifiers.
     Inr (py_fields
       [(''mechanism'', PyStr (semantic_mechanism ops (py_get ''mechanism'' (PyStr []) items))),
        (''evidence_ids'', evidence), (''falsifiers'', falsifiers)])))"

definition prosecutor_material :: "text_ops \<Rightarrow> (pyval \<times> pyval) list \<Rightarrow> fingerprint_error + pyval" where
  "prosecutor_material ops output =
     (let items = (case py_get ''root'' PyNone output of PyMap nested \<Rightarrow> nested | _ \<Rightarrow> output);
          outcome = py_get ''outcome'' PyNone items in
      rbind (ordered_semantic_set ops (py_get ''counterexample_ids'' (PyList []) items)) (\<lambda>counterexamples.
      rbind (ordered_semantic_set ops (py_get ''test_ids'' (PyList []) items)) (\<lambda>tests.
      Inr (py_fields
        ([(''outcome'', outcome), (''counterexample_ids'', counterexamples), (''test_ids'', tests)] @
         (if str_value outcome = Some ''SUPPORTED_RIVAL''
          then [(''rival_mechanism'',
                 PyStr (semantic_mechanism ops (py_get ''rival_mechanism'' (PyStr []) items)))]
          else []))))))"

definition counsel_material :: "text_ops \<Rightarrow> (pyval \<times> pyval) list \<Rightarrow> fingerprint_error + pyval" where
  "counsel_material ops items =
     rbind (ordered_semantic_set ops (py_get ''test_intentions'' (PyList []) items)) (\<lambda>intentions.
     Inr (py_fields
       [(''normalized_diff'',
         PyStr (normalize_diff (py_str ops (py_get ''normalized_diff'' (PyStr []) items)))),
        (''test_intentions'', intentions)]))"

definition magistrate_material :: "text_ops \<Rightarrow> (pyval \<times> pyval) list \<Rightarrow> fingerprint_error + pyval" where
  "magistrate_material ops items =
     (case iteration (py_get ''required_changes'' (PyList []) items) of
        None \<Rightarrow> Inl NotIterable
      | Some changes \<Rightarrow>
          rbind (map_result (semantic_change ops) changes) (\<lambda>required.
          rbind (ordered_semantic_set ops (py_get ''finding_codes'' (PyList []) items)) (\<lambda>codes.
          rbind (ordered_semantic_set ops (PyList required)) (\<lambda>required_set.
          Inr (py_fields
            [(''verdict'', py_get ''verdict'' PyNone items), (''finding_codes'', codes),
             (''required_changes'', required_set), (''remand_target'', py_get ''remand_target'' PyNone items)])))))"

fun semantic_payload :: "text_ops \<Rightarrow> seat \<Rightarrow> pyval \<Rightarrow> fingerprint_error + pyval" where
  "semantic_payload ops INSPECTOR payload = rbind (as_mapping payload) (inspector_material ops)"
| "semantic_payload ops PROSECUTOR payload = rbind (as_mapping payload) (prosecutor_material ops)"
| "semantic_payload ops COUNSEL payload = rbind (as_mapping payload) (counsel_material ops)"
| "semantic_payload ops MAGISTRATE payload = rbind (as_mapping payload) (magistrate_material ops)"
| "semantic_payload ops BAILIFF payload =
     rbind (as_mapping payload) (\<lambda>items. Inr (py_fields [(''warrant_id'', py_get ''warrant_id'' PyNone items)]))"

definition semantic_fingerprint ::
  "(string \<Rightarrow> string) \<Rightarrow> text_ops \<Rightarrow> seat \<Rightarrow> pyval \<Rightarrow> fingerprint_error + string" where
  "semantic_fingerprint sha ops s payload =
     rbind (semantic_payload ops s payload) (\<lambda>m. map_error Canonicalization (sha256_hex sha (op_nfc ops) m))"

definition classify_retry :: "string \<Rightarrow> string \<Rightarrow> retry_disposition" where
  "classify_retry previous_fingerprint retry_fingerprint =
     (if previous_fingerprint = retry_fingerprint then FAILED_RETRY_DUPLICATE else MATERIAL)"

section \<open>The material of typed outputs\<close>

text \<open>What two outputs of a seat must share for their fingerprints to agree: the material fields, up to
  text folding and the order of the collections.\<close>

definition folded :: "text_ops \<Rightarrow> string list \<Rightarrow> string multiset" where
  "folded ops xs = mset (map (semantic_text ops) xs)"

definition fold_intention :: "text_ops \<Rightarrow> test_intention \<Rightarrow> string \<times> string" where
  "fold_intention ops t = (semantic_text ops (ti_catalog_id t), semantic_text ops (ti_purpose t))"

definition fold_change :: "text_ops \<Rightarrow> required_change \<Rightarrow> string \<times> string option" where
  "fold_change ops c =
     (semantic_text ops (semantic_text ops (rc_code c)), map_option (semantic_text ops \<circ> seat_value) (rc_target c))"

fun same_material :: "text_ops \<Rightarrow> seat_output \<Rightarrow> seat_output \<Rightarrow> bool" where
  "same_material ops (InspectorOutput a) (InspectorOutput b) \<longleftrightarrow>
     io_mechanism a = io_mechanism b \<and> folded ops (io_evidence_ids a) = folded ops (io_evidence_ids b) \<and>
     folded ops (io_falsifiers a) = folded ops (io_falsifiers b)"
| "same_material ops (ProsecutorOutput (SupportedRival m ces ts es t))
     (ProsecutorOutput (SupportedRival m' ces' ts' es' t')) \<longleftrightarrow>
     m = m' \<and> folded ops ces = folded ops ces' \<and> folded ops ts = folded ops ts'"
| "same_material ops (ProsecutorOutput (NoSupportedRival ces ts es t))
     (ProsecutorOutput (NoSupportedRival ces' ts' es' t')) \<longleftrightarrow>
     folded ops ces = folded ops ces' \<and> folded ops ts = folded ops ts'"
| "same_material ops (CounselOutput a) (CounselOutput b) \<longleftrightarrow>
     normalize_diff (co_normalized_diff a) = normalize_diff (co_normalized_diff b) \<and>
     mset (map (fold_intention ops) (co_test_intentions a)) =
       mset (map (fold_intention ops) (co_test_intentions b))"
| "same_material ops (MagistrateOutput a) (MagistrateOutput b) \<longleftrightarrow>
     mo_verdict a = mo_verdict b \<and> folded ops (mo_finding_codes a) = folded ops (mo_finding_codes b) \<and>
     mset (map (fold_change ops) (mo_required_changes a)) = mset (map (fold_change ops) (mo_required_changes b)) \<and>
     mo_remand_target a = mo_remand_target b"
| "same_material ops (BailiffOutput w) (BailiffOutput w') \<longleftrightarrow> w = w'"
| "same_material ops _ _ \<longleftrightarrow> False"

fun seat_of_output :: "seat_output \<Rightarrow> seat" where
  "seat_of_output (InspectorOutput _) = INSPECTOR"
| "seat_of_output (ProsecutorOutput _) = PROSECUTOR"
| "seat_of_output (CounselOutput _) = COUNSEL"
| "seat_of_output (MagistrateOutput _) = MAGISTRATE"
| "seat_of_output (BailiffOutput _) = BAILIFF"

text \<open>Sorting by an injective key sees the multiset of the elements only.\<close>

lemma sort_key_eq_iff_mset:
  assumes "inj f"
  shows "sort_key f xs = sort_key f ys \<longleftrightarrow> mset xs = mset ys"
proof
  assume "mset xs = mset ys"
  then show "sort_key f xs = sort_key f ys"
    using assms by (intro sort_key_inj_key_eq) (auto intro: inj_on_subset)
qed (metis mset_sort)

lemma inj_quote: "inj quote"
  by (rule injI) (metis append_Nil2 quote_inject)

lemma sorted_by_dumps_map:
  assumes "\<And>x. py_dumps (f x) = Inr (g x)"
  shows "sorted_by_dumps (map f xs) = Inr (map f (sort_key g xs))"
proof -
  have "map_result (\<lambda>v. rbind (py_dumps v) (\<lambda>t. Inr (t, v))) (map f xs) = Inr (map (\<lambda>x. (g x, f x)) xs)"
    by (induction xs) (simp_all add: assms)
  moreover have "sort_key fst (map (\<lambda>x. (g x, f x)) xs) = map (\<lambda>x. (g x, f x)) (sort_key g xs)"
    by (simp add: sort_key_map comp_def)
  ultimately show ?thesis by (simp add: sorted_by_dumps_def comp_def)
qed

text \<open>The material of an output in normal form.\<close>

definition folded_sorted :: "text_ops \<Rightarrow> string list \<Rightarrow> string list" where
  "folded_sorted ops xs = sort_key quote (map (semantic_text ops) xs)"

fun intention_py :: "string \<times> string \<Rightarrow> pyval" where
  "intention_py (i, p) = py_fields [(''catalog_id'', PyStr i), (''purpose'', PyStr p)]"

fun intention_text :: "string \<times> string \<Rightarrow> string" where
  "intention_text (i, p) =
     ''{'' @ quote ''catalog_id'' @ '':'' @ quote i @ '','' @ quote ''purpose'' @ '':'' @ quote p @ ''}''"

fun change_py :: "string \<times> string option \<Rightarrow> pyval" where
  "change_py (c, t) = py_fields [(''code'', PyStr c), (''target'', case t of None \<Rightarrow> PyNone | Some s \<Rightarrow> PyStr s)]"

fun change_text :: "string \<times> string option \<Rightarrow> string" where
  "change_text (c, t) =
     ''{'' @ quote ''code'' @ '':'' @ quote c @ '','' @ quote ''target'' @ '':'' @
     (case t of None \<Rightarrow> ''null'' | Some s \<Rightarrow> quote s) @ ''}''"

fun material_py :: "text_ops \<Rightarrow> seat_output \<Rightarrow> pyval" where
  "material_py ops (InspectorOutput a) =
     py_fields [(''mechanism'', PyStr (mechanism_value (io_mechanism a))),
       (''evidence_ids'', strs (folded_sorted ops (io_evidence_ids a))),
       (''falsifiers'', strs (folded_sorted ops (io_falsifiers a)))]"
| "material_py ops (ProsecutorOutput (SupportedRival m ces ts es t)) =
     py_fields [(''outcome'', PyStr ''SUPPORTED_RIVAL''), (''counterexample_ids'', strs (folded_sorted ops ces)),
       (''test_ids'', strs (folded_sorted ops ts)), (''rival_mechanism'', PyStr (mechanism_value m))]"
| "material_py ops (ProsecutorOutput (NoSupportedRival ces ts es t)) =
     py_fields [(''outcome'', PyStr ''NO_SUPPORTED_RIVAL''), (''counterexample_ids'', strs (folded_sorted ops ces)),
       (''test_ids'', strs (folded_sorted ops ts))]"
| "material_py ops (CounselOutput a) =
     py_fields [(''normalized_diff'', PyStr (normalize_diff (co_normalized_diff a))),
       (''test_intentions'',
        PyList (map intention_py (sort_key intention_text (map (fold_intention ops) (co_test_intentions a)))))]"
| "material_py ops (MagistrateOutput a) =
     py_fields [(''verdict'', PyEnum (PyStr (verdict_value (mo_verdict a)))),
       (''finding_codes'', strs (folded_sorted ops (mo_finding_codes a))),
       (''required_changes'',
        PyList (map change_py (sort_key change_text (map (fold_change ops) (mo_required_changes a))))),
       (''remand_target'', optional_seat (mo_remand_target a))]"
| "material_py ops (BailiffOutput w) = py_fields [(''warrant_id'', PyStr w)]"

lemma py_dumps_intention: "py_dumps (intention_py x) = Inr (intention_text x)"
  by (cases x) (simp add: py_fields_def sort_items_def member_text_def)

lemma py_dumps_change: "py_dumps (change_py x) = Inr (change_text x)"
  by (cases x) (simp add: py_fields_def sort_items_def member_text_def split: option.splits)

lemma inj_intention_text: "inj intention_text"
  by (rule injI) (auto dest!: quote_inject elim!: intention_text.elims)

lemma quote_not_null: "quote s @ x \<noteq> ''null'' @ y"
  by (simp add: quote_def)

lemma inj_change_text: "inj change_text"
proof (rule injI)
  fix x y :: "string \<times> string option"
  assume eq: "change_text x = change_text y"
  obtain c t where x: "x = (c, t)" by fastforce
  obtain d u where y: "y = (d, u)" by fastforce
  have "quote c @ '','' @ quote ''target'' @ '':'' @ (case t of None \<Rightarrow> ''null'' | Some s \<Rightarrow> quote s) @ ''}'' =
    quote d @ '','' @ quote ''target'' @ '':'' @ (case u of None \<Rightarrow> ''null'' | Some s \<Rightarrow> quote s) @ ''}''"
    using eq unfolding x y change_text.simps by simp
  from quote_inject [OF this] have "c = d"
    and tu: "(case t of None \<Rightarrow> ''null'' | Some s \<Rightarrow> quote s) @ ''}'' =
      (case u of None \<Rightarrow> ''null'' | Some s \<Rightarrow> quote s) @ ''}''"
    by simp_all
  have "t = u"
    using tu quote_not_null [of _ "''}''"  "''}''"] quote_inject [of _ "''}''" _ "''}''"]
    by (cases t; cases u) (simp_all, metis+)
  with \<open>c = d\<close> show "x = y" by (simp add: x y)
qed

lemma semantic_values_strs: "semantic_values ops (map PyStr xs) = Inr (map PyStr (map (semantic_text ops) xs))"
  by (induction xs) simp_all

lemma ordered_set_strs [simp]: "ordered_semantic_set ops (strs xs) = Inr (strs (folded_sorted ops xs))"
  using sorted_by_dumps_map [of PyStr quote "map (semantic_text ops) xs"]
  by (simp add: ordered_semantic_set_def strs_def folded_sorted_def semantic_values_strs)

lemma semantic_intentions:
  "semantic_values ops (map test_intention_py ts) = Inr (map intention_py (map (fold_intention ops) ts))"
  by (induction ts) (simp_all add: test_intention_py_def fold_intention_def py_fields_def)

definition half_folded :: "text_ops \<Rightarrow> required_change \<Rightarrow> pyval" where
  "half_folded ops c =
     py_fields [(''code'', PyStr (semantic_text ops (rc_code c))), (''target'', optional_seat (rc_target c))]"

lemma semantic_changes:
  "map_result (semantic_change ops) (map required_change_py cs) = Inr (map (half_folded ops) cs)"
  by (induction cs)
    (simp_all add: semantic_change_def required_change_py_def half_folded_def py_fields_def py_get_def py_lookup_def)

lemma semantic_half_folded:
  "semantic_values ops (map (half_folded ops) cs) = Inr (map change_py (map (fold_change ops) cs))"
  by (induction cs)
    (simp_all add: half_folded_def fold_change_def py_fields_def optional_seat_def split: option.splits)

lemma ordered_set_intentions [simp]:
  "ordered_semantic_set ops (PyList (map test_intention_py ts)) =
   Inr (PyList (map intention_py (sort_key intention_text (map (fold_intention ops) ts))))"
  by (simp add: ordered_semantic_set_def semantic_intentions sorted_by_dumps_map [OF py_dumps_intention]
      del: map_map)

lemma ordered_set_changes [simp]:
  "ordered_semantic_set ops (PyList (map (half_folded ops) cs)) =
   Inr (PyList (map change_py (sort_key change_text (map (fold_change ops) cs))))"
  by (simp add: ordered_semantic_set_def semantic_half_folded sorted_by_dumps_map [OF py_dumps_change]
      del: map_map)

lemma semantic_mechanism_member [simp]: "semantic_mechanism ops (mechanism_py m) = mechanism_value m"
  by (cases m) (simp_all add: semantic_mechanism_def mechanism_py_def all_mechanisms_def)

lemmas payload_simps = output_py_def as_mapping_def py_fields_def py_get_def py_lookup_def

lemma payload_of_output: "semantic_payload ops (seat_of_output a) (output_py a) = Inr (material_py ops a)"
proof (cases a)
  case (ProsecutorOutput v)
  then show ?thesis by (cases v) (simp_all add: payload_simps prosecutor_material_def Let_def)
qed (simp_all add: payload_simps inspector_material_def counsel_material_def magistrate_material_def
      semantic_changes py_str_def)

lemma folded_iff: "folded ops xs = folded ops ys \<longleftrightarrow> folded_sorted ops xs = folded_sorted ops ys"
  unfolding folded_def folded_sorted_def by (rule sort_key_eq_iff_mset [OF inj_quote, symmetric])

lemmas material_order = folded_iff sort_key_eq_iff_mset [OF inj_intention_text, symmetric]
  sort_key_eq_iff_mset [OF inj_change_text, symmetric]

lemma same_material_material_py: "same_material ops a b \<Longrightarrow> material_py ops a = material_py ops b"
  by (cases "(ops, a, b)" rule: same_material.cases) (auto simp: material_order simp del: mset_map)

lemma same_material_seat: "same_material ops a b \<Longrightarrow> seat_of_output b = seat_of_output a"
  by (cases "(ops, a, b)" rule: same_material.cases) simp_all

lemma fingerprint_of_output:
  "semantic_fingerprint sha ops (seat_of_output a) (output_py a) =
   map_error Canonicalization (sha256_hex sha (op_nfc ops) (material_py ops a))"
  by (simp add: semantic_fingerprint_def payload_of_output)

section \<open>Outputs whose folded text is in normal form\<close>

text \<open>What is relied on of the Unicode tables: NFC and NFKC leave ASCII text alone, case folding keeps it
  ASCII.\<close>

definition text_laws :: "text_ops \<Rightarrow> bool" where
  "text_laws ops \<longleftrightarrow> nfc_laws (op_nfc ops) \<and>
     (\<forall>s. is_ascii s \<longrightarrow> op_nfkc ops s = s \<and> is_ascii (op_casefold ops s))"

text \<open>The fingerprint sorts the folded texts before the canonical encoding brings them into NFC. An output is
  normal when its folded texts are in NFC already: folding is NFKC followed by case folding, which leaves
  all but a few texts in normal form, and all ASCII texts.\<close>

definition normal_text :: "text_ops \<Rightarrow> string \<Rightarrow> bool" where
  "normal_text ops s \<longleftrightarrow> op_nfc ops s = s"

fun normal_output :: "text_ops \<Rightarrow> seat_output \<Rightarrow> bool" where
  "normal_output ops (InspectorOutput a) \<longleftrightarrow>
     list_all (normal_text ops \<circ> semantic_text ops) (io_evidence_ids a @ io_falsifiers a)"
| "normal_output ops (ProsecutorOutput (SupportedRival m ces ts es t)) \<longleftrightarrow>
     list_all (normal_text ops \<circ> semantic_text ops) (ces @ ts)"
| "normal_output ops (ProsecutorOutput (NoSupportedRival ces ts es t)) \<longleftrightarrow>
     list_all (normal_text ops \<circ> semantic_text ops) (ces @ ts)"
| "normal_output ops (CounselOutput a) \<longleftrightarrow> normal_text ops (normalize_diff (co_normalized_diff a)) \<and>
     list_all (\<lambda>t. normal_text ops (semantic_text ops (ti_catalog_id t)) \<and>
                   normal_text ops (semantic_text ops (ti_purpose t))) (co_test_intentions a)"
| "normal_output ops (MagistrateOutput a) \<longleftrightarrow>
     list_all (normal_text ops \<circ> semantic_text ops) (mo_finding_codes a) \<and>
     list_all (\<lambda>c. normal_text ops (semantic_text ops (semantic_text ops (rc_code c)))) (mo_required_changes a)"
| "normal_output ops (BailiffOutput w) \<longleftrightarrow> normal_text ops w"

text \<open>The outputs all of whose material text is ASCII.\<close>

fun ascii_output :: "seat_output \<Rightarrow> bool" where
  "ascii_output (InspectorOutput a) \<longleftrightarrow> list_all is_ascii (io_evidence_ids a @ io_falsifiers a)"
| "ascii_output (ProsecutorOutput (SupportedRival m ces ts es t)) \<longleftrightarrow> list_all is_ascii (ces @ ts)"
| "ascii_output (ProsecutorOutput (NoSupportedRival ces ts es t)) \<longleftrightarrow> list_all is_ascii (ces @ ts)"
| "ascii_output (CounselOutput a) \<longleftrightarrow> is_ascii (co_normalized_diff a) \<and>
     list_all (\<lambda>t. is_ascii (ti_catalog_id t) \<and> is_ascii (ti_purpose t)) (co_test_intentions a)"
| "ascii_output (MagistrateOutput a) \<longleftrightarrow> list_all is_ascii (mo_finding_codes a) \<and>
     list_all (\<lambda>c. is_ascii (rc_code c)) (mo_required_changes a)"
| "ascii_output (BailiffOutput w) \<longleftrightarrow> is_ascii w"

lemma is_ascii_simps [simp]:
  "is_ascii []" "is_ascii (c # s) \<longleftrightarrow> code c < 128 \<and> is_ascii s" "is_ascii (s @ t) \<longleftrightarrow> is_ascii s \<and> is_ascii t"
  by (simp_all add: is_ascii_def)

lemma set_rstrip: "set (rstrip s) \<subseteq> set s"
  by (induction s) auto

lemma set_lstrip: "set (lstrip s) \<subseteq> set s"
proof (induction s rule: lstrip.induct)
  case (1 s)
  then show ?case by (subst lstrip.simps) (auto dest: in_set_dropD)
qed

lemma set_sub_whitespace: "set (sub_whitespace s) \<subseteq> insert (CHR '' '') (set s)"
proof (induction s rule: sub_whitespace.induct)
  case (1 s)
  then show ?case
    by (subst sub_whitespace.simps) (use set_lstrip [of s] in \<open>auto dest: list.set_sel\<close>)
qed

lemma is_ascii_set: "is_ascii s \<longleftrightarrow> (\<forall>c \<in> set s. code c < 128)"
  by (simp add: is_ascii_def list_all_iff)

lemma is_ascii_semantic_text [simp]: "text_laws ops \<Longrightarrow> is_ascii s \<Longrightarrow> is_ascii (semantic_text ops s)"
proof -
  assume laws: "text_laws ops" and s: "is_ascii s"
  have "set (strip (sub_whitespace s)) \<subseteq> insert (CHR '' '') (set s)"
    unfolding strip_def using set_rstrip set_lstrip set_sub_whitespace by (meson subset_trans)
  then have "is_ascii (strip (sub_whitespace s))" using s by (fastforce simp: is_ascii_set)
  with laws s show ?thesis by (simp add: semantic_text_def text_laws_def)
qed

lemma set_unix_newlines: "set (unix_newlines s) \<subseteq> insert (CHR 0x0A) (set s)"
  by (induction s rule: unix_newlines.induct) auto

lemma is_ascii_join: "is_ascii sep \<Longrightarrow> list_all is_ascii ws \<Longrightarrow> is_ascii (join sep ws)"
  by (induction sep ws rule: join.induct) auto

lemma set_split_on: "w \<in> set (split_on d s) \<Longrightarrow> set w \<subseteq> set s"
proof (induction s arbitrary: w)
  case (Cons a s)
  then show ?case by (cases "split_on d s") (force split: if_splits)+
qed simp

lemma is_ascii_normalize_diff [simp]: "is_ascii s \<Longrightarrow> is_ascii (normalize_diff s)"
proof -
  assume s: "is_ascii s"
  have "is_ascii (unix_newlines s)" using s set_unix_newlines [of s] by (fastforce simp: is_ascii_set)
  then have "list_all is_ascii (map rstrip (split_on (CHR 0x0A) (unix_newlines s)))"
    using set_split_on set_rstrip by (fastforce simp: list_all_iff is_ascii_set)
  then have "is_ascii (join newline (map rstrip (split_on (CHR 0x0A) (unix_newlines s))))"
    by (intro is_ascii_join) (simp_all add: newline_def)
  then show ?thesis
    using set_rstrip set_lstrip by (fastforce simp: normalize_diff_def strip_def is_ascii_set newline_def)
qed

lemma text_nfc_ascii [simp]: "text_laws ops \<Longrightarrow> is_ascii s \<Longrightarrow> op_nfc ops s = s"
  by (simp add: text_laws_def nfc_laws_def)

lemma normal_text_ascii [simp]: "text_laws ops \<Longrightarrow> is_ascii s \<Longrightarrow> normal_text ops s"
  by (simp add: normal_text_def)

lemma ascii_output_normal: "text_laws ops \<Longrightarrow> ascii_output a \<Longrightarrow> normal_output ops a"
  by (cases "(ops, a)" rule: normal_output.cases) (auto simp: list_all_iff)

lemma mechanism_value_ascii [simp]: "is_ascii (mechanism_value m)"
  by (cases m) simp_all

lemma seat_value_ascii [simp]: "is_ascii (seat_value s)"
  by (cases s) simp_all

lemma verdict_value_ascii [simp]: "is_ascii (verdict_value v)"
  by (cases v) simp_all

lemma enum_values_inject [simp]:
  "mechanism_value m = mechanism_value n \<longleftrightarrow> m = n" "verdict_value v = verdict_value w \<longleftrightarrow> v = w"
  "seat_value s = seat_value t \<longleftrightarrow> s = t"
  subgoal by (cases m; cases n) simp_all
  subgoal by (cases v; cases w) simp_all
  subgoal by (cases s; cases t) simp_all
  done

lemma normalize_list_inject:
  assumes "normalize nfc (PyList (map f xs)) = normalize nfc (PyList (map f ys))"
    and "\<And>x. x \<in> set xs \<union> set ys \<Longrightarrow> normalize nfc (f x) = Inr (g x)"
    and "inj_on g (set xs \<union> set ys)"
  shows "xs = ys"
proof -
  have "normalize_list nfc (map f zs) = Inr (map g zs)" if "set zs \<subseteq> set xs \<union> set ys" for zs
    using that assms(2) by (induction zs) simp_all
  then have "map g xs = map g ys" using assms(1) by simp
  then show ?thesis using assms(3) by (simp add: map_inj_on)
qed

lemma normalize_strs_inject:
  assumes "text_laws ops" "list_all (normal_text ops) xs" "list_all (normal_text ops) ys"
    and "normalize (op_nfc ops) (strs xs) = normalize (op_nfc ops) (strs ys)"
  shows "xs = ys"
  by (rule normalize_list_inject [of "op_nfc ops" PyStr _ _ JStr])
    (use assms in \<open>auto simp: strs_def list_all_iff inj_on_def normal_text_def\<close>)

lemma list_all_folded_sorted [simp]:
  "list_all (normal_text ops \<circ> semantic_text ops) xs \<Longrightarrow> list_all (normal_text ops) (folded_sorted ops xs)"
  by (simp add: folded_sorted_def list_all_iff)

fun intention_json :: "string \<times> string \<Rightarrow> json" where
  "intention_json (i, p) = JObj [(''catalog_id'', JStr i), (''purpose'', JStr p)]"

fun change_json :: "string \<times> string option \<Rightarrow> json" where
  "change_json (c, t) = JObj [(''code'', JStr c), (''target'', case t of None \<Rightarrow> JNull | Some s \<Rightarrow> JStr s)]"

lemma normalize_intention:
  "text_laws ops \<Longrightarrow> normal_text ops (fst x) \<Longrightarrow> normal_text ops (snd x) \<Longrightarrow>
   normalize (op_nfc ops) (intention_py x) = Inr (intention_json x)"
  by (cases x) (simp add: py_fields_def normal_text_def)

lemma normalize_change:
  "text_laws ops \<Longrightarrow> normal_text ops (fst x) \<Longrightarrow> pred_option (normal_text ops) (snd x) \<Longrightarrow>
   normalize (op_nfc ops) (change_py x) = Inr (change_json x)"
  by (cases x; cases "snd x") (simp_all add: py_fields_def normal_text_def)

lemma normalize_intentions_inject:
  assumes "text_laws ops" "list_all (\<lambda>x. normal_text ops (fst x) \<and> normal_text ops (snd x)) (xs @ ys)"
    and "normalize (op_nfc ops) (PyList (map intention_py xs)) = normalize (op_nfc ops) (PyList (map intention_py ys))"
  shows "xs = ys"
  by (rule normalize_list_inject [of "op_nfc ops" intention_py _ _ intention_json])
    (use assms in \<open>auto simp: normalize_intention list_all_iff inj_on_def
       simp del: intention_py.simps\<close>)

lemma normalize_changes_inject:
  assumes "text_laws ops" "list_all (\<lambda>x. normal_text ops (fst x) \<and> pred_option (normal_text ops) (snd x)) (xs @ ys)"
    and "normalize (op_nfc ops) (PyList (map change_py xs)) = normalize (op_nfc ops) (PyList (map change_py ys))"
  shows "xs = ys"
  by (rule normalize_list_inject [of "op_nfc ops" change_py _ _ change_json])
    (use assms in \<open>auto simp: normalize_change list_all_iff inj_on_def
       simp del: change_py.simps split: option.splits\<close>)

text \<open>Equal normal forms of the material mean the same material.\<close>

lemma normalize_field_eq:
  assumes "normalize nfc (py_fields xs) = Inr j" "normalize nfc (py_fields ys) = Inr j"
    and "k \<in> fst ` set xs" "k \<in> fst ` set ys"
  shows "normalize nfc (the (map_of xs k)) = normalize nfc (the (map_of ys k))"
proof -
  have "map_of xs k = Some (the (map_of xs k))" "map_of ys k = Some (the (map_of ys k))"
    using assms(3,4) by (metis map_of_eq_None_iff option.collapse)+
  then show ?thesis using normalize_fields_eq [OF assms(1,2)] map_of_SomeD by metis
qed

lemma normal_fold_intention:
  "list_all (\<lambda>t. normal_text ops (semantic_text ops (ti_catalog_id t)) \<and>
     normal_text ops (semantic_text ops (ti_purpose t))) ts \<Longrightarrow>
   list_all (\<lambda>x. normal_text ops (fst x) \<and> normal_text ops (snd x)) (map (fold_intention ops) ts)"
  by (simp add: list_all_iff fold_intention_def)

lemma normal_fold_change:
  "text_laws ops \<Longrightarrow> list_all (\<lambda>c. normal_text ops (semantic_text ops (semantic_text ops (rc_code c)))) cs \<Longrightarrow>
   list_all (\<lambda>x. normal_text ops (fst x) \<and> pred_option (normal_text ops) (snd x)) (map (fold_change ops) cs)"
  by (auto simp: list_all_iff fold_change_def pred_option_def)

lemma inspector_same_material:
  assumes laws: "text_laws ops" and "normal_output ops (InspectorOutput a)" "normal_output ops (InspectorOutput b)"
    and j: "normalize (op_nfc ops) (material_py ops (InspectorOutput a)) = Inr j"
      "normalize (op_nfc ops) (material_py ops (InspectorOutput b)) = Inr j"
  shows "same_material ops (InspectorOutput a) (InspectorOutput b)"
proof -
  note field = normalize_field_eq [OF j [unfolded material_py.simps]]
  have "io_mechanism a = io_mechanism b" using field [of "''mechanism''"] laws by simp
  moreover have "folded_sorted ops (io_evidence_ids a) = folded_sorted ops (io_evidence_ids b)"
    using field [of "''evidence_ids''"] laws assms(2,3) by (intro normalize_strs_inject) simp_all
  moreover have "folded_sorted ops (io_falsifiers a) = folded_sorted ops (io_falsifiers b)"
    using field [of "''falsifiers''"] laws assms(2,3) by (intro normalize_strs_inject) simp_all
  ultimately show ?thesis by (simp add: folded_iff)
qed

lemma counsel_same_material:
  assumes laws: "text_laws ops" and "normal_output ops (CounselOutput a)" "normal_output ops (CounselOutput b)"
    and j: "normalize (op_nfc ops) (material_py ops (CounselOutput a)) = Inr j"
      "normalize (op_nfc ops) (material_py ops (CounselOutput b)) = Inr j"
  shows "same_material ops (CounselOutput a) (CounselOutput b)"
proof -
  note field = normalize_field_eq [OF j [unfolded material_py.simps]]
  have "normalize_diff (co_normalized_diff a) = normalize_diff (co_normalized_diff b)"
    using field [of "''normalized_diff''"] laws assms(2,3) by (simp add: normal_text_def)
  moreover have "sort_key intention_text (map (fold_intention ops) (co_test_intentions a)) =
      sort_key intention_text (map (fold_intention ops) (co_test_intentions b))"
    by (rule normalize_intentions_inject [OF laws])
      (use field [of "''test_intentions''"] laws assms(2,3) in \<open>simp_all add: normal_fold_intention\<close>)
  ultimately show ?thesis by (simp add: material_order del: mset_map)
qed

lemma magistrate_same_material:
  assumes laws: "text_laws ops" and "normal_output ops (MagistrateOutput a)" "normal_output ops (MagistrateOutput b)"
    and j: "normalize (op_nfc ops) (material_py ops (MagistrateOutput a)) = Inr j"
      "normalize (op_nfc ops) (material_py ops (MagistrateOutput b)) = Inr j"
  shows "same_material ops (MagistrateOutput a) (MagistrateOutput b)"
proof -
  note field = normalize_field_eq [OF j [unfolded material_py.simps]]
  have "mo_verdict a = mo_verdict b" using field [of "''verdict''"] laws by simp
  moreover have "folded_sorted ops (mo_finding_codes a) = folded_sorted ops (mo_finding_codes b)"
    using field [of "''finding_codes''"] laws assms(2,3) by (intro normalize_strs_inject) simp_all
  moreover have "sort_key change_text (map (fold_change ops) (mo_required_changes a)) =
      sort_key change_text (map (fold_change ops) (mo_required_changes b))"
    by (rule normalize_changes_inject [OF laws])
      (use field [of "''required_changes''"] laws assms(2,3) in \<open>simp_all add: normal_fold_change\<close>)
  moreover have "mo_remand_target a = mo_remand_target b"
    using field [of "''remand_target''"] laws by (simp add: optional_seat_def split: option.splits)
  ultimately show ?thesis by (simp add: material_order del: mset_map)
qed

lemma prosecutor_same_material:
  assumes laws: "text_laws ops" and "normal_output ops (ProsecutorOutput a)" "normal_output ops (ProsecutorOutput b)"
    and j: "normalize (op_nfc ops) (material_py ops (ProsecutorOutput a)) = Inr j"
      "normalize (op_nfc ops) (material_py ops (ProsecutorOutput b)) = Inr j"
  shows "same_material ops (ProsecutorOutput a) (ProsecutorOutput b)"
proof (cases a; cases b)
  fix m ces ts es t m' ces' ts' es' t'
  assume a: "a = SupportedRival m ces ts es t" and b: "b = SupportedRival m' ces' ts' es' t'"
  note field = normalize_field_eq [OF j [unfolded a b material_py.simps]]
  have "m = m'" using field [of "''rival_mechanism''"] laws by simp
  moreover have "folded_sorted ops ces = folded_sorted ops ces'" "folded_sorted ops ts = folded_sorted ops ts'"
    using field [of "''counterexample_ids''"] field [of "''test_ids''"] laws assms(2,3) a b
    by (auto intro!: normalize_strs_inject [OF laws])
  ultimately show ?thesis by (simp add: folded_iff a b)
next
  fix ces ts es t ces' ts' es' t'
  assume a: "a = NoSupportedRival ces ts es t" and b: "b = NoSupportedRival ces' ts' es' t'"
  note field = normalize_field_eq [OF j [unfolded a b material_py.simps]]
  have "folded_sorted ops ces = folded_sorted ops ces'" "folded_sorted ops ts = folded_sorted ops ts'"
    using field [of "''counterexample_ids''"] field [of "''test_ids''"] laws assms(2,3) a b
    by (auto intro!: normalize_strs_inject [OF laws])
  then show ?thesis by (simp add: folded_iff a b)
next
  fix m ces ts es t ces' ts' es' t'
  assume a: "a = SupportedRival m ces ts es t" and b: "b = NoSupportedRival ces' ts' es' t'"
  show ?thesis using normalize_field_eq [OF j [unfolded a b material_py.simps], of "''outcome''"] laws by simp
next
  fix m ces ts es t ces' ts' es' t'
  assume a: "a = NoSupportedRival ces ts es t" and b: "b = SupportedRival m ces' ts' es' t'"
  show ?thesis using normalize_field_eq [OF j [unfolded a b material_py.simps], of "''outcome''"] laws by simp
qed

lemma bailiff_same_material:
  assumes laws: "text_laws ops" and "normal_output ops (BailiffOutput a)" "normal_output ops (BailiffOutput b)"
    and j: "normalize (op_nfc ops) (material_py ops (BailiffOutput a)) = Inr j"
      "normalize (op_nfc ops) (material_py ops (BailiffOutput b)) = Inr j"
  shows "same_material ops (BailiffOutput a) (BailiffOutput b)"
  using normalize_field_eq [OF j [unfolded material_py.simps], of "''warrant_id''"] assms by (simp add: normal_text_def)

lemma normalized_material_same:
  assumes "text_laws ops" "normal_output ops a" "normal_output ops b" "seat_of_output a = seat_of_output b"
    and "normalize (op_nfc ops) (material_py ops a) = Inr j" "normalize (op_nfc ops) (material_py ops b) = Inr j"
  shows "same_material ops a b"
  using assms inspector_same_material prosecutor_same_material counsel_same_material magistrate_same_material
    bailiff_same_material
  by (cases a; cases b) (simp_all only: seat_of_output.simps seat.distinct)

text \<open>The fingerprint of a typed output always exists.\<close>

lemma normalize_ok_list: "\<forall>v \<in> set vs. is_ok (normalize nfc v) \<Longrightarrow> is_ok (normalize nfc (PyList vs))"
proof -
  assume "\<forall>v \<in> set vs. is_ok (normalize nfc v)"
  then have "is_ok (normalize_list nfc vs)"
  proof (induction vs)
    case (Cons v vs)
    then show ?case by (cases "normalize nfc v"; cases "normalize_list nfc vs") simp_all
  qed simp
  then show ?thesis by (cases "normalize_list nfc vs") simp_all
qed

lemma normalize_fields_ok:
  assumes "nfc_laws nfc" "list_all (is_ascii \<circ> fst) xs" "distinct (map fst xs)"
    and "list_all (\<lambda>(k, v). is_ok (normalize nfc v)) xs"
  shows "is_ok (normalize nfc (py_fields xs))"
proof -
  have "\<forall>(k, v) \<in> set xs. is_ok (normalize nfc v)" using assms(4) by (simp add: list_all_iff)
  from normalize_py_fields_ok [OF assms(1-3) this] show ?thesis by (metis is_ok_simps(1))
qed

lemma normalize_strs_ok [simp]: "is_ok (normalize nfc (strs xs))"
  unfolding strs_def by (rule normalize_ok_list) simp

lemma normalize_enum_ok [simp]: "is_ok (normalize nfc (optional_seat t))"
  by (cases t) (simp_all add: optional_seat_def)

lemma normalize_intentions_ok [simp]:
  "nfc_laws nfc \<Longrightarrow> is_ok (normalize nfc (PyList (map intention_py ts)))"
  by (rule normalize_ok_list)
    (auto intro!: normalize_fields_ok elim!: intention_py.elims simp del: normalize.simps(11) simp: normalize.simps(6))

lemma normalize_changes_ok [simp]:
  "nfc_laws nfc \<Longrightarrow> is_ok (normalize nfc (PyList (map change_py cs)))"
  by (rule normalize_ok_list)
    (auto intro!: normalize_fields_ok split: option.splits simp del: normalize.simps(11) simp: normalize.simps(6))

lemma material_normalizes:
  assumes "nfc_laws nfc"
  shows "is_ok (normalize nfc (material_py ops a))"
  by (cases "(ops, a)" rule: material_py.cases)
    (use assms in \<open>auto intro!: normalize_fields_ok simp del: normalize.simps(11,13)\<close>)

lemma material_floats_ok: "floats_ok (material_py ops a)"
  by (cases "(ops, a)" rule: material_py.cases)
    (auto simp: py_fields_def strs_def optional_seat_def list_all_iff fold_intention_def fold_change_def
      split: option.splits)

lemma typed_fingerprint:
  assumes "nfc_laws (op_nfc ops)"
  obtains b where "canonical_json (op_nfc ops) (material_py ops a) = Inr b"
    "semantic_fingerprint sha ops (seat_of_output a) (output_py a) = Inr (sha b)"
proof -
  obtain j where "normalize (op_nfc ops) (material_py ops a) = Inr j"
    using material_normalizes [OF assms, of ops a] by (cases "normalize (op_nfc ops) (material_py ops a)") simp_all
  then show thesis
    by (intro that [of "dumps j"]) (simp_all add: canonical_json_def fingerprint_of_output sha256_hex_def)
qed

section \<open>Properties\<close>

definition lower_char :: "char \<Rightarrow> char" where
  "lower_char c = (if is_upper c then char_of (code c + 32) else c)"

definition ascii_ops :: text_ops where
  "ascii_ops = \<lparr>op_nfc = id, op_nfkc = id, op_casefold = map lower_char, op_repr = (\<lambda>_. [])\<rparr>"

definition first_finding :: seat_output where
  "first_finding = InspectorOutput \<lparr>io_mechanism = CHECK_THEN_INSERT_RACE, io_evidence_ids = [''EV-1'', ''ev-2''],
     io_falsifiers = [''No  duplicate row''], io_analysis = ''first''\<rparr>"

definition reworded_finding :: seat_output where
  "reworded_finding = InspectorOutput \<lparr>io_mechanism = CHECK_THEN_INSERT_RACE, io_evidence_ids = [''ev-2'', ''ev-1''],
     io_falsifiers = ['' no duplicate ROW''], io_analysis = ''a longer analysis''\<rparr>"

lemma ascii_ops_laws: "text_laws ascii_ops"
  by (auto simp: text_laws_def nfc_laws_def ascii_ops_def is_ascii_def list_all_iff lower_char_def is_upper_def)

text \<open>C23. When a retry is classified as a duplicate, for outputs of one seat under a hash without collisions
  on the two encodings. Both fingerprints exist. Outputs with the same material (the seat's material
  fields, up to NFKC, case folding, whitespace and the order of collections, whatever their analysis prose
  and citations) are always classified FAILED_RETRY_DUPLICATE; when the folded texts of both outputs are
  in NFC, as those of ASCII outputs are, only those are.\<close>

theorem retry_duplicate_iff_same_material:
  assumes "text_laws ops" "seat_of_output b = seat_of_output a"
    and "inj_on sha {c. canonical_json (op_nfc ops) (material_py ops a) = Inr c \<or>
                        canonical_json (op_nfc ops) (material_py ops b) = Inr c}"
  shows "\<exists>x y. semantic_fingerprint sha ops (seat_of_output a) (output_py a) = Inr x \<and>
     semantic_fingerprint sha ops (seat_of_output a) (output_py b) = Inr y \<and>
     (same_material ops a b \<longrightarrow> classify_retry x y = FAILED_RETRY_DUPLICATE) \<and>
     (normal_output ops a \<and> normal_output ops b \<longrightarrow>
        (classify_retry x y = FAILED_RETRY_DUPLICATE \<longleftrightarrow> same_material ops a b)) \<and>
     (ascii_output a \<and> ascii_output b \<longrightarrow> normal_output ops a \<and> normal_output ops b)"
proof -
  have laws: "nfc_laws (op_nfc ops)" using assms(1) by (simp add: text_laws_def)
  obtain p where p: "canonical_json (op_nfc ops) (material_py ops a) = Inr p"
    "semantic_fingerprint sha ops (seat_of_output a) (output_py a) = Inr (sha p)"
    by (rule typed_fingerprint [OF laws])
  obtain q where q: "canonical_json (op_nfc ops) (material_py ops b) = Inr q"
    "semantic_fingerprint sha ops (seat_of_output b) (output_py b) = Inr (sha q)"
    by (rule typed_fingerprint [OF laws])
  have hash: "sha p = sha q \<longleftrightarrow> p = q" using assms(3) p(1) q(1) by (auto simp: inj_on_def)
  have same: "same_material ops a b \<Longrightarrow> p = q" using p(1) q(1) by (simp add: same_material_material_py)
  moreover have "same_material ops a b" if "p = q" "normal_output ops a" "normal_output ops b"
  proof -
    have "normalize (op_nfc ops) (material_py ops a) = normalize (op_nfc ops) (material_py ops b)"
      using canonical_json_eq_iff [OF material_floats_ok material_floats_ok p(1) q(1)] that(1) by simp
    then show ?thesis
      using normalized_material_same [OF assms(1) that(2,3) assms(2) [symmetric]] p(1)
      by (metis canonical_json_def rbind_eq_Inr)
  qed
  ultimately show ?thesis
    using p(2) q(2) assms(2) hash ascii_output_normal [OF assms(1)] by (auto simp: classify_retry_def)
qed

text \<open>An environment whose NFKC resolves the ligature U+FB01.\<close>

definition ligature :: string where
  "ligature = [CHR 0xEF, CHR 0xAC, CHR 0x81]"

definition ligature_ops :: text_ops where
  "ligature_ops = ascii_ops\<lparr>op_nfkc := (\<lambda>s. if s = ligature then ''fi'' else s)\<rparr>"

definition finding_of :: "string \<Rightarrow> string \<Rightarrow> seat_output" where
  "finding_of falsifier analysis = InspectorOutput \<lparr>io_mechanism = CHECK_THEN_INSERT_RACE,
     io_evidence_ids = [''EV-1'', ''ev-2''], io_falsifiers = [falsifier], io_analysis = analysis\<rparr>"

lemma ligature_ops_laws: "text_laws ligature_ops"
  using ascii_ops_laws by (auto simp: text_laws_def ligature_ops_def ligature_def)

theorem retry_duplicate_iff_same_material_witness:
  "\<exists>x y z. semantic_fingerprint id ligature_ops INSPECTOR (output_py (finding_of ligature ''first'')) = Inr x \<and>
     semantic_fingerprint id ligature_ops INSPECTOR (output_py (finding_of ''FI'' ''second'')) = Inr y \<and>
     semantic_fingerprint id ligature_ops INSPECTOR (output_py (finding_of ''fo'' ''first'')) = Inr z \<and>
     classify_retry x y = FAILED_RETRY_DUPLICATE \<and> classify_retry x z = MATERIAL"
proof -
  have seat: "seat_of_output (finding_of f n) = INSPECTOR" for f n by (simp add: finding_of_def)
  have same: "same_material ligature_ops (finding_of ligature ''first'') (finding_of ''FI'' ''second'')"
    "\<not> same_material ligature_ops (finding_of ligature ''first'') (finding_of ''fo'' ''first'')"
    "normal_output ligature_ops (finding_of ligature ''first'')" "normal_output ligature_ops (finding_of ''fo'' ''first'')"
    by code_simp+
  have "x = MATERIAL" if "x \<noteq> FAILED_RETRY_DUPLICATE" for x using that by (cases x) simp_all
  then show ?thesis
    using retry_duplicate_iff_same_material [OF ligature_ops_laws, of "finding_of ''FI'' ''second''" "finding_of ligature ''first''" id]
      retry_duplicate_iff_same_material [OF ligature_ops_laws, of "finding_of ''fo'' ''first''" "finding_of ligature ''first''" id]
      same seat by fastforce
qed

end
