(* ===== verification/CP_Escalation.thy ===== *)
theory CP_Escalation
  imports CP_Fingerprint
begin

text \<open>
  The effort escalation policy of \<^verbatim>\<open>orchestration/escalation.py\<close>. The tracker is the dictionary
  \<^verbatim>\<open>_states\<close>, a map from incident and seat to the seat's state; an operation returns its result or the
  exception it raises together with the tracker as the exception leaves it, because \<^verbatim>\<open>accept_retry\<close>
  clears the pending flag before it raises.
  The results: in every reachable tracker the escalation count is the position on the seat's effort ladder
  and stays within the seat's budget; along any history, restorations included, a seat's count is the restored
  count plus the escalations granted since and never exceeds the budget; the effort of a seat never falls; a retry is
  accepted only if its fingerprint changed; and what a valid state persists is restored to the same state.
\<close>

section \<open>State and operations\<close>

record seat_state =
  ss_effort_index :: nat
  ss_escalation_count :: nat
  ss_fingerprint :: string
  ss_retry_pending :: bool
  ss_pending_reason :: "string option"

record escalation_decision =
  ed_effort :: effort
  ed_escalation_count :: nat
  ed_reason :: string
  ed_explanation :: string

definition ESCALATION_EXPLANATION :: string where
  "ESCALATION_EXPLANATION = ''The room only thinks harder when the judge is unsatisfied.''"

datatype escalation_error =
    FingerprintFailed fingerprint_error
  | LadderInconsistent
  | EffortOutsidePolicy
  | CountDisagreesWithEffort
  | PendingWithoutReason
  | CompletedKeepsReason
  | NoInitialOutput
  | RetryAlreadyPending
  | EscalationExhausted seat
  | ReasonDisagrees
  | NoRetryPending
  | DuplicateRetry seat
  | LadderIndexError

type_synonym tracker = "string \<times> seat \<rightharpoonup> seat_state"

type_synonym 'a tracked = "(escalation_error + 'a) \<times> tracker"

definition spec_by_seat :: "seat \<Rightarrow> seat_spec" where
  "spec_by_seat s = (case find (\<lambda>spec. spec_seat spec = s) SEAT_SPECS of Some spec \<Rightarrow> spec | None \<Rightarrow> hd SEAT_SPECS)"

definition ladder_at :: "seat \<Rightarrow> nat \<Rightarrow> escalation_error + effort" where
  "ladder_at s i =
     (if i < length (effort_ladder (spec_by_seat s)) then Inr (effort_ladder (spec_by_seat s) ! i)
      else Inl LadderIndexError)"

definition record_initial ::
  "(string \<Rightarrow> string) \<Rightarrow> text_ops \<Rightarrow> string \<Rightarrow> seat \<Rightarrow> pyval \<Rightarrow> tracker \<Rightarrow> unit tracked" where
  "record_initial sha ops incident_id s output t =
     (let spec = spec_by_seat s; existing = t (incident_id, s) in
      case semantic_fingerprint sha ops s output of
        Inl e \<Rightarrow> (Inl (FingerprintFailed e), t)
      | Inr fp \<Rightarrow>
          (let t' = t((incident_id, s) \<mapsto>
             \<lparr>ss_effort_index = (case existing of None \<Rightarrow> 0 | Some st \<Rightarrow> ss_effort_index st),
              ss_escalation_count = (case existing of None \<Rightarrow> 0 | Some st \<Rightarrow> ss_escalation_count st),
              ss_fingerprint = fp, ss_retry_pending = False, ss_pending_reason = None\<rparr>) in
           if ladder_at s 0 \<noteq> Inr (initial_effort spec) then (Inl LadderInconsistent, t') else (Inr (), t')))"

text \<open>\<^verbatim>\<open>tuple.index\<close>, \<open>None\<close> for ValueError.\<close>

fun index_of :: "'a \<Rightarrow> 'a list \<Rightarrow> nat option" where
  "index_of x [] = None"
| "index_of x (y # ys) = (if x = y then Some 0 else map_option Suc (index_of x ys))"

definition restore ::
  "(string \<Rightarrow> string) \<Rightarrow> text_ops \<Rightarrow> string \<Rightarrow> seat \<Rightarrow> pyval \<Rightarrow> effort \<Rightarrow> int \<Rightarrow> bool \<Rightarrow> string option \<Rightarrow>
   tracker \<Rightarrow> unit tracked" where
  "restore sha ops incident_id s output eff escalation_count retry_pending pending_reason t =
     (let spec = spec_by_seat s in
      case index_of eff (effort_ladder spec) of
        None \<Rightarrow> (Inl EffortOutsidePolicy, t)
      | Some effort_index \<Rightarrow>
          if escalation_count \<noteq> int effort_index \<or> escalation_count > int (max_escalations spec)
          then (Inl CountDisagreesWithEffort, t)
          else if retry_pending \<and> (escalation_count = 0 \<or> pending_reason \<in> {None, Some []})
          then (Inl PendingWithoutReason, t)
          else if \<not> retry_pending \<and> pending_reason \<noteq> None then (Inl CompletedKeepsReason, t)
          else (case semantic_fingerprint sha ops s output of
                  Inl e \<Rightarrow> (Inl (FingerprintFailed e), t)
                | Inr fp \<Rightarrow>
                    (Inr (), t((incident_id, s) \<mapsto>
                       \<lparr>ss_effort_index = effort_index, ss_escalation_count = nat escalation_count,
                        ss_fingerprint = fp, ss_retry_pending = retry_pending,
                        ss_pending_reason = pending_reason\<rparr>))))"

definition current_effort :: "string \<Rightarrow> seat \<Rightarrow> tracker \<Rightarrow> escalation_error + effort" where
  "current_effort incident_id s t =
     ladder_at s (case t (incident_id, s) of None \<Rightarrow> 0 | Some st \<Rightarrow> ss_effort_index st)"

definition decision_of :: "seat \<Rightarrow> seat_state \<Rightarrow> string \<Rightarrow> escalation_error + escalation_decision" where
  "decision_of s st reason =
     rbind (ladder_at s (ss_effort_index st)) (\<lambda>eff.
       Inr \<lparr>ed_effort = eff, ed_escalation_count = ss_escalation_count st, ed_reason = reason,
            ed_explanation = ESCALATION_EXPLANATION\<rparr>)"

definition begin_escalation :: "string \<Rightarrow> seat \<Rightarrow> string \<Rightarrow> tracker \<Rightarrow> escalation_decision tracked" where
  "begin_escalation incident_id s reason t =
     (case t (incident_id, s) of
        None \<Rightarrow> (Inl NoInitialOutput, t)
      | Some st \<Rightarrow>
          (let spec = spec_by_seat s in
           if ss_retry_pending st then (Inl RetryAlreadyPending, t)
           else if ss_escalation_count st \<ge> max_escalations spec \<or>
                   ss_effort_index st + 1 \<ge> length (effort_ladder spec)
           then (Inl (EscalationExhausted s), t)
           else (let st' = st\<lparr>ss_effort_index := ss_effort_index st + 1,
                      ss_escalation_count := ss_escalation_count st + 1,
                      ss_retry_pending := True, ss_pending_reason := Some reason\<rparr> in
                 (decision_of s st' reason, t((incident_id, s) \<mapsto> st')))))"

definition resume_pending_escalation ::
  "string \<Rightarrow> seat \<Rightarrow> string \<Rightarrow> tracker \<Rightarrow> escalation_error + escalation_decision option" where
  "resume_pending_escalation incident_id s reason t =
     (case t (incident_id, s) of
        None \<Rightarrow> Inr None
      | Some st \<Rightarrow>
          if \<not> ss_retry_pending st then Inr None
          else if ss_pending_reason st \<noteq> Some reason then Inl ReasonDisagrees
          else rbind (decision_of s st reason) (\<lambda>d. Inr (Some d)))"

definition accept_retry ::
  "(string \<Rightarrow> string) \<Rightarrow> text_ops \<Rightarrow> string \<Rightarrow> seat \<Rightarrow> pyval \<Rightarrow> tracker \<Rightarrow> string tracked" where
  "accept_retry sha ops incident_id s output t =
     (case t (incident_id, s) of
        None \<Rightarrow> (Inl NoRetryPending, t)
      | Some st \<Rightarrow>
          if \<not> ss_retry_pending st then (Inl NoRetryPending, t)
          else (case semantic_fingerprint sha ops s output of
                  Inl e \<Rightarrow> (Inl (FingerprintFailed e), t)
                | Inr fp \<Rightarrow>
                    (let st' = st\<lparr>ss_retry_pending := False, ss_pending_reason := None\<rparr> in
                     if fp = ss_fingerprint st
                     then (Inl (DuplicateRetry s), t((incident_id, s) \<mapsto> st'))
                     else (Inr fp, t((incident_id, s) \<mapsto> st'\<lparr>ss_fingerprint := fp\<rparr>)))))"

section \<open>The policy invariant\<close>

definition state_ok :: "seat \<Rightarrow> seat_state \<Rightarrow> bool" where
  "state_ok s st \<longleftrightarrow>
     ss_effort_index st < length (effort_ladder (spec_by_seat s)) \<and>
     ss_escalation_count st = ss_effort_index st \<and> ss_escalation_count st \<le> max_escalations (spec_by_seat s) \<and>
     (if ss_retry_pending st then 0 < ss_escalation_count st \<and> ss_pending_reason st \<noteq> None
      else ss_pending_reason st = None)"

definition tracker_ok :: "tracker \<Rightarrow> bool" where
  "tracker_ok t \<longleftrightarrow> (\<forall>i s st. t (i, s) = Some st \<longrightarrow> state_ok s st)"

lemma spec_by_seat_simps [simp]:
  "max_escalations (spec_by_seat s) = (if s = BAILIFF then 0 else 2)"
  "length (effort_ladder (spec_by_seat s)) = (if s = BAILIFF then 1 else 3)"
  "ladder_at s 0 = Inr (initial_effort (spec_by_seat s))"
  by (cases s; simp add: spec_by_seat_def SEAT_SPECS_def ladder_at_def)+

lemma index_of_less: "index_of x xs = Some i \<Longrightarrow> i < length xs \<and> xs ! i = x"
  by (induction xs arbitrary: i) (auto split: if_splits)

lemma tracker_okD: "tracker_ok t \<Longrightarrow> t (i, s) = Some st \<Longrightarrow> state_ok s st"
  by (simp add: tracker_ok_def)

lemma tracker_ok_update [intro]: "tracker_ok t \<Longrightarrow> state_ok s st \<Longrightarrow> tracker_ok (t((i, s) \<mapsto> st))"
  by (simp add: tracker_ok_def)

lemma record_initial_ok: "tracker_ok t \<Longrightarrow> tracker_ok (snd (record_initial sha ops i s out t))"
  using tracker_okD [of t i s]
  by (auto simp: record_initial_def Let_def state_ok_def split: sum.splits option.splits)

lemma restore_ok: "tracker_ok t \<Longrightarrow> tracker_ok (snd (restore sha ops i s out eff n pending reason t))"
  by (auto simp: restore_def Let_def state_ok_def dest!: index_of_less split: sum.splits option.splits)

lemma begin_escalation_ok: "tracker_ok t \<Longrightarrow> tracker_ok (snd (begin_escalation i s reason t))"
  using tracker_okD [of t i s]
  by (auto simp: begin_escalation_def Let_def state_ok_def split: option.splits if_splits)

lemma accept_retry_ok: "tracker_ok t \<Longrightarrow> tracker_ok (snd (accept_retry sha ops i s out t))"
  using tracker_okD [of t i s]
  by (auto simp: accept_retry_def Let_def state_ok_def split: sum.splits option.splits)

lemmas operations_ok = record_initial_ok restore_ok begin_escalation_ok accept_retry_ok

section \<open>Reachable trackers\<close>

inductive tracker_reachable :: "(string \<Rightarrow> string) \<Rightarrow> text_ops \<Rightarrow> tracker \<Rightarrow> bool"
  for sha ops
where
  new_tracker: "tracker_reachable sha ops Map.empty"
| recorded: "tracker_reachable sha ops t \<Longrightarrow> tracker_reachable sha ops (snd (record_initial sha ops i s out t))"
| restored: "tracker_reachable sha ops t \<Longrightarrow>
    tracker_reachable sha ops (snd (restore sha ops i s out eff n pending reason t))"
| escalated: "tracker_reachable sha ops t \<Longrightarrow> tracker_reachable sha ops (snd (begin_escalation i s reason t))"
| retried: "tracker_reachable sha ops t \<Longrightarrow> tracker_reachable sha ops (snd (accept_retry sha ops i s out t))"

lemma reachable_ok: "tracker_reachable sha ops t \<Longrightarrow> tracker_ok t"
  by (induction rule: tracker_reachable.induct) (auto intro: operations_ok, simp add: tracker_ok_def)

section \<open>The retry budget\<close>

text \<open>The interface the coordinator relies on: every accepted retry uses up work that no other operation
  gives back.\<close>

locale retry_policy =
  fixes work :: "'t \<Rightarrow> string \<Rightarrow> nat"
    and initial :: "string \<Rightarrow> seat \<Rightarrow> 'out \<Rightarrow> 't \<Rightarrow> (escalation_error + unit) \<times> 't"
    and escalate :: "string \<Rightarrow> seat \<Rightarrow> string \<Rightarrow> 't \<Rightarrow> (escalation_error + escalation_decision) \<times> 't"
    and accept :: "string \<Rightarrow> seat \<Rightarrow> 'out \<Rightarrow> 't \<Rightarrow> (escalation_error + string) \<times> 't"
  assumes initial_work: "work (snd (initial i s out t)) j \<le> work t j"
    and escalate_work: "work (snd (escalate i s r t)) j \<le> work t j"
    and accept_work: "work (snd (accept i s out t)) j \<le> work t j"
    and accepted_work: "fst (accept i s out t) = Inr fp \<Longrightarrow> work (snd (accept i s out t)) i < work t i"
begin

text \<open>The number of retries accepted for an incident along a sequence of operations.\<close>

fun accepted :: "string \<Rightarrow> (string \<times> seat \<times> ('out + string) \<times> bool) list \<Rightarrow> 't \<Rightarrow> nat" where
  "accepted j [] t = 0"
| "accepted j ((i, s, Inl out, retry) # xs) t =
     (if retry
      then (case accept i s out t of
              (Inr fp, t') \<Rightarrow> (if i = j then 1 else 0) + accepted j xs t'
            | (Inl e, t') \<Rightarrow> accepted j xs t')
      else accepted j xs (snd (initial i s out t)))"
| "accepted j ((i, s, Inr reason, retry) # xs) t = accepted j xs (snd (escalate i s reason t))"

lemma accepted_bounded: "accepted j xs t \<le> work t j"
proof (induction j xs t rule: accepted.induct)
  case (2 j i s out retry xs t)
  obtain r t' where r: "accept i s out t = (r, t')" by fastforce
  have less: "work t' j \<le> work t j" using accept_work [of i s out t j] r by simp
  show ?case
  proof (cases retry)
    case True
    then have IH: "accepted j xs t' \<le> work t' j" using 2(1,2) [OF True r [symmetric]] by (cases r) simp_all
    have "r = Inr fp \<Longrightarrow> work t' i < work t i" for fp using accepted_work [of i s out t fp] r by simp
    with IH less show ?thesis using True r by (cases r) auto
  next
    case False
    then show ?thesis using 2(3) initial_work [of i s out t j] by auto
  qed
next
  case (3 j i s reason retry xs t)
  then show ?case using escalate_work [of i s reason t j] by simp
qed simp

end

definition seat_work :: "seat \<Rightarrow> seat_state option \<Rightarrow> nat" where
  "seat_work s st =
     (case st of None \<Rightarrow> max_escalations (spec_by_seat s)
      | Some st \<Rightarrow> max_escalations (spec_by_seat s) - ss_escalation_count st + of_bool (ss_retry_pending st))"

definition retry_work :: "tracker \<Rightarrow> string \<Rightarrow> nat" where
  "retry_work t i = sum_list (map (\<lambda>s. seat_work s (t (i, s))) all_seats)"

lemma retry_work_update:
  "retry_work (t((i, s) \<mapsto> st)) j + (if i = j then seat_work s (t (i, s)) else 0) =
   retry_work t j + (if i = j then seat_work s (Some st) else 0)"
  by (cases s) (simp_all add: retry_work_def all_seats_def)

lemma retry_work_mono:
  "seat_work s (Some st) \<le> seat_work s (t (i, s)) \<Longrightarrow> retry_work (t((i, s) \<mapsto> st)) j \<le> retry_work t j"
  using retry_work_update [of t i s st j] by (auto split: if_splits)

lemma retry_work_less:
  "seat_work s (Some st) < seat_work s (t (i, s)) \<Longrightarrow> retry_work (t((i, s) \<mapsto> st)) i < retry_work t i"
  using retry_work_update [of t i s st i] by auto

lemma record_initial_work: "retry_work (snd (record_initial sha ops i s out t)) j \<le> retry_work t j"
  by (auto simp: record_initial_def Let_def seat_work_def intro!: retry_work_mono split: sum.splits option.splits)

lemma begin_escalation_work: "retry_work (snd (begin_escalation i s reason t)) j \<le> retry_work t j"
  by (auto simp: begin_escalation_def Let_def seat_work_def intro!: retry_work_mono split: option.splits)

lemma accept_retry_work: "retry_work (snd (accept_retry sha ops i s out t)) j \<le> retry_work t j"
  by (auto simp: accept_retry_def Let_def seat_work_def intro!: retry_work_mono split: sum.splits option.splits)

lemma accepted_retry_work:
  "fst (accept_retry sha ops i s out t) = Inr fp \<Longrightarrow>
   retry_work (snd (accept_retry sha ops i s out t)) i < retry_work t i"
  by (auto simp: accept_retry_def Let_def seat_work_def intro!: retry_work_less
      split: sum.splits option.splits if_splits)

lemma seat_work_le: "tracker_ok t \<Longrightarrow> seat_work s (t (i, s)) \<le> max_escalations (spec_by_seat s)"
  using tracker_okD [of t i s] by (auto simp: seat_work_def state_ok_def split: option.splits if_splits)

lemma retry_work_le: "tracker_ok t \<Longrightarrow> retry_work t i \<le> 8"
  using seat_work_le [of t PROSECUTOR i] seat_work_le [of t INSPECTOR i] seat_work_le [of t COUNSEL i]
    seat_work_le [of t MAGISTRATE i] seat_work_le [of t BAILIFF i]
  by (simp add: retry_work_def all_seats_def)

interpretation tracker_policy: retry_policy retry_work "record_initial sha ops" begin_escalation "accept_retry sha ops"
  by unfold_locales (fact record_initial_work begin_escalation_work accept_retry_work accepted_retry_work)+

section \<open>Histories\<close>

text \<open>A history of one tracker, with the log of the escalations it granted and the states restored into it,
  newest first. \<^verbatim>\<open>restore\<close> belongs to it: the coordinator calls it on a live tracker before each repair and
  revision cycle, and it overwrites the count.\<close>

datatype history_event =
    Granted "string \<times> seat"
  | Restored "string \<times> seat" nat

inductive tracker_history ::
  "(string \<Rightarrow> string) \<Rightarrow> text_ops \<Rightarrow> tracker \<Rightarrow> history_event list \<Rightarrow> bool"
  for sha ops
where
  no_history: "tracker_history sha ops Map.empty []"
| history_recorded: "tracker_history sha ops t ws \<Longrightarrow>
    tracker_history sha ops (snd (record_initial sha ops i s out t)) ws"
| history_restored: "tracker_history sha ops t ws \<Longrightarrow>
    restore sha ops i s out eff n pending reason t = (Inr (), t') \<Longrightarrow>
    tracker_history sha ops t' (Restored (i, s) (nat n) # ws)"
| history_restore_failed: "tracker_history sha ops t ws \<Longrightarrow>
    restore sha ops i s out eff n pending reason t = (Inl e, t') \<Longrightarrow> tracker_history sha ops t' ws"
| history_granted: "tracker_history sha ops t ws \<Longrightarrow> begin_escalation i s reason t = (Inr d, t') \<Longrightarrow>
    tracker_history sha ops t' (Granted (i, s) # ws)"
| history_refused: "tracker_history sha ops t ws \<Longrightarrow> begin_escalation i s reason t = (Inl e, t') \<Longrightarrow>
    tracker_history sha ops t' ws"
| history_retried: "tracker_history sha ops t ws \<Longrightarrow>
    tracker_history sha ops (snd (accept_retry sha ops i s out t)) ws"

text \<open>What a log says of a seat: the escalations granted since the last restoration, and the count that
  restoration installed (0 when there was none).\<close>

fun granted_since :: "history_event list \<Rightarrow> string \<times> seat \<Rightarrow> nat" where
  "granted_since [] k = 0"
| "granted_since (Granted k' # ws) k = of_bool (k' = k) + granted_since ws k"
| "granted_since (Restored k' n # ws) k = (if k' = k then 0 else granted_since ws k)"

fun restored_count :: "history_event list \<Rightarrow> string \<times> seat \<Rightarrow> nat" where
  "restored_count [] k = 0"
| "restored_count (Granted k' # ws) k = restored_count ws k"
| "restored_count (Restored k' n # ws) k = (if k' = k then n else restored_count ws k)"

text \<open>No restoration of the seat installed a smaller count than the tracker had.\<close>

fun never_lowered :: "history_event list \<Rightarrow> string \<times> seat \<Rightarrow> bool" where
  "never_lowered [] k \<longleftrightarrow> True"
| "never_lowered (Granted k' # ws) k \<longleftrightarrow> never_lowered ws k"
| "never_lowered (Restored k' n # ws) k \<longleftrightarrow>
     never_lowered ws k \<and> (k' = k \<longrightarrow> granted_since ws k + restored_count ws k \<le> n)"

lemma never_lowered_total:
  "never_lowered ws k \<Longrightarrow> count_list ws (Granted k) \<le> granted_since ws k + restored_count ws k"
  by (induction ws k rule: never_lowered.induct) auto

definition used_escalations :: "tracker \<Rightarrow> string \<times> seat \<Rightarrow> nat" where
  "used_escalations t k = (case t k of None \<Rightarrow> 0 | Some st \<Rightarrow> ss_escalation_count st)"

lemma used_recorded: "used_escalations (snd (record_initial sha ops i s out t)) k = used_escalations t k"
  by (auto simp: used_escalations_def record_initial_def Let_def split: sum.splits option.splits)

lemma used_retried: "used_escalations (snd (accept_retry sha ops i s out t)) k = used_escalations t k"
  by (auto simp: used_escalations_def accept_retry_def Let_def split: sum.splits option.splits)

lemma begin_escalation_granted:
  assumes "begin_escalation i s reason t = (Inr d, t')"
  obtains st where "t (i, s) = Some st" "\<not> ss_retry_pending st" "ss_escalation_count st < max_escalations (spec_by_seat s)"
    "t' = t((i, s) \<mapsto> st\<lparr>ss_effort_index := ss_effort_index st + 1, ss_escalation_count := ss_escalation_count st + 1,
       ss_retry_pending := True, ss_pending_reason := Some reason\<rparr>)"
    "ladder_at s (ss_effort_index st + 1) = Inr (ed_effort d)" "ed_escalation_count d = ss_escalation_count st + 1"
  using assms by (auto simp: begin_escalation_def Let_def decision_of_def result_simps split: option.splits if_splits)

lemma begin_escalation_refused:
  assumes "tracker_ok t" "begin_escalation i s reason t = (Inl e, t')"
  shows "t' = t"
  using assms tracker_okD [OF assms(1), of i s]
  by (auto simp: begin_escalation_def Let_def decision_of_def ladder_at_def state_ok_def result_simps
      split: option.splits if_splits)

lemma history_ok: "tracker_history sha ops t ws \<Longrightarrow> tracker_ok t"
proof (induction rule: tracker_history.induct)
  case no_history
  show ?case by (simp add: tracker_ok_def)
qed (use operations_ok in \<open>metis snd_conv\<close>)+

lemma history_counts:
  "tracker_history sha ops t ws \<Longrightarrow> granted_since ws k + restored_count ws k = used_escalations t k"
proof (induction rule: tracker_history.induct)
  case (history_granted t ws i s reason d t')
  obtain st where "t (i, s) = Some st" "t' = t((i, s) \<mapsto> st\<lparr>ss_effort_index := ss_effort_index st + 1,
      ss_escalation_count := ss_escalation_count st + 1, ss_retry_pending := True, ss_pending_reason := Some reason\<rparr>)"
    by (rule begin_escalation_granted [OF history_granted.hyps(2)])
  then show ?case using history_granted.IH by (auto simp: used_escalations_def)
next
  case (history_restored t ws i s out eff n pending reason t')
  then show ?case
    by (auto simp: used_escalations_def restore_def Let_def split: option.splits if_splits sum.splits)
next
  case (history_restore_failed t ws i s out eff n pending reason e t')
  then have "t' = t" by (auto simp: restore_def Let_def split: option.splits if_splits sum.splits)
  then show ?case using history_restore_failed.IH by simp
next
  case (history_refused t ws i s reason e t')
  then show ?case using begin_escalation_refused [OF history_ok [OF history_refused.hyps(1)]] by metis
qed (simp_all add: used_recorded used_retried, simp add: used_escalations_def)

lemma bailiff_not_granted: "tracker_history sha ops t ws \<Longrightarrow> Granted (i, BAILIFF) \<notin> set ws"
proof (induction rule: tracker_history.induct)
  case (history_granted t ws j s reason d t')
  then show ?case using begin_escalation_granted [OF history_granted.hyps(2)] by fastforce
qed simp_all

section \<open>Properties\<close>

lemma index_of_nth: "distinct xs \<Longrightarrow> i < length xs \<Longrightarrow> index_of (xs ! i) xs = Some i"
proof (induction xs arbitrary: i)
  case (Cons x xs)
  then show ?case by (cases i) auto
qed simp

lemma ladder_distinct: "distinct (effort_ladder (spec_by_seat s))"
  by (cases s) (simp_all add: spec_by_seat_def SEAT_SPECS_def)

definition finding_recorded :: tracker where
  "finding_recorded = snd (record_initial id ascii_ops ''inc-1'' INSPECTOR (output_py first_finding) Map.empty)"

definition finding_escalated :: tracker where
  "finding_escalated = snd (begin_escalation ''inc-1'' INSPECTOR ''remand'' finding_recorded)"

lemma finding_fingerprint:
  obtains fp where "semantic_fingerprint id ascii_ops INSPECTOR (output_py first_finding) = Inr fp"
proof -
  have "nfc_laws (op_nfc ascii_ops)" using ascii_ops_laws by (simp add: text_laws_def)
  then obtain b where "semantic_fingerprint id ascii_ops (seat_of_output first_finding) (output_py first_finding) = Inr (id b)"
    by (rule typed_fingerprint)
  with that show thesis by (simp add: first_finding_def)
qed

lemma finding_escalated_history: "tracker_history id ascii_ops finding_escalated [Granted (''inc-1'', INSPECTOR)]"
proof -
  obtain fp where fp: "semantic_fingerprint id ascii_ops INSPECTOR (output_py first_finding) = Inr fp"
    by (rule finding_fingerprint)
  then have recorded: "finding_recorded = [(''inc-1'', INSPECTOR) \<mapsto>
      \<lparr>ss_effort_index = 0, ss_escalation_count = 0, ss_fingerprint = fp, ss_retry_pending = False, ss_pending_reason = None\<rparr>]"
    by (simp add: finding_recorded_def record_initial_def Let_def)
  have "fst (begin_escalation ''inc-1'' INSPECTOR ''remand'' finding_recorded) =
      Inr \<lparr>ed_effort = HIGH, ed_escalation_count = 1, ed_reason = ''remand'', ed_explanation = ESCALATION_EXPLANATION\<rparr>"
    by (simp add: recorded begin_escalation_def decision_of_def Let_def)
      (simp add: ladder_at_def spec_by_seat_def SEAT_SPECS_def)
  then have "\<exists>d. begin_escalation ''inc-1'' INSPECTOR ''remand'' finding_recorded = (Inr d, finding_escalated)"
    by (metis finding_escalated_def prod.collapse)
  then show ?thesis
    using history_granted [OF history_recorded [OF no_history]] unfolding finding_recorded_def by metis
qed

text \<open>The escalation policy is an invariant of every tracker that any sequence of operations and
  restarts can produce: the escalation count of a seat is its position on the effort ladder, it is within
  the seat's budget, a reason is stored exactly while a retry is pending, and the current effort is the
  ladder entry of the count.\<close>

theorem escalation_invariant:
  assumes "tracker_reachable sha ops t" "t (i, s) = Some st"
  shows "ss_escalation_count st = ss_effort_index st \<and>
     ss_escalation_count st \<le> max_escalations (spec_by_seat s) \<and>
     (ss_retry_pending st \<longleftrightarrow> ss_pending_reason st \<noteq> None) \<and>
     current_effort i s t = Inr (effort_ladder (spec_by_seat s) ! ss_escalation_count st)"
  using tracker_okD [OF reachable_ok [OF assms(1)] assms(2)] assms(2)
  by (auto simp: state_ok_def current_effort_def ladder_at_def split: if_splits)

theorem escalation_invariant_witness:
  "current_effort ''inc-1'' INSPECTOR finding_escalated = Inr HIGH"
proof -
  have reach: "tracker_reachable id ascii_ops finding_escalated"
    unfolding finding_escalated_def finding_recorded_def by (intro tracker_reachable.intros)
  obtain st where st: "finding_escalated (''inc-1'', INSPECTOR) = Some st" "ss_escalation_count st = 1"
    by (cases "finding_escalated (''inc-1'', INSPECTOR)")
      (use history_counts [OF finding_escalated_history, of "(''inc-1'', INSPECTOR)"] in
        \<open>simp_all add: used_escalations_def\<close>)
  show ?thesis
    using escalation_invariant [OF reach st(1)] st(2) by (simp add: spec_by_seat_def SEAT_SPECS_def)
qed

text \<open>C22. Escalations are bounded: along every history in which outputs are recorded, states restored,
  escalations requested and retries submitted in any order, a seat's recorded count is the count last
  restored (0 when none was) plus the escalations granted since, and it never exceeds the seat's budget;
  so while no restoration lowers the count, the escalations granted over the whole history stay within
  the budget; the Bailiff is never granted one.\<close>

theorem escalations_bounded:
  assumes "tracker_history sha ops t ws"
  shows "granted_since ws (i, s) + restored_count ws (i, s) = used_escalations t (i, s) \<and>
     used_escalations t (i, s) \<le> max_escalations (spec_by_seat s) \<and>
     (never_lowered ws (i, s) \<longrightarrow> count_list ws (Granted (i, s)) \<le> max_escalations (spec_by_seat s)) \<and>
     Granted (i, BAILIFF) \<notin> set ws"
proof -
  have used: "used_escalations t (i, s) \<le> max_escalations (spec_by_seat s)"
    using tracker_okD [OF history_ok [OF assms], of i s]
    by (auto simp: used_escalations_def state_ok_def split: option.splits)
  then show ?thesis
    using never_lowered_total [of ws "(i, s)"] history_counts [OF assms, of "(i, s)"] bailiff_not_granted [OF assms]
    by auto
qed

definition finding_restored :: tracker where
  "finding_restored = snd (restore id ascii_ops ''inc-1'' INSPECTOR (output_py first_finding) HIGH 1 True
     (Some ''remand'') finding_escalated)"

theorem escalations_bounded_witness:
  "used_escalations finding_restored (''inc-1'', INSPECTOR) = 1 \<and>
   count_list [Restored (''inc-1'', INSPECTOR) 1, Granted (''inc-1'', INSPECTOR)] (Granted (''inc-1'', INSPECTOR))
     \<le> max_escalations (spec_by_seat INSPECTOR)"
proof -
  have "restore id ascii_ops ''inc-1'' INSPECTOR (output_py first_finding) HIGH 1 True (Some ''remand'') finding_escalated
      = (Inr (), finding_restored)"
  proof (rule prod_eqI)
    obtain fp where "semantic_fingerprint id ascii_ops INSPECTOR (output_py first_finding) = Inr fp"
      by (rule finding_fingerprint)
    then show "fst (restore id ascii_ops ''inc-1'' INSPECTOR (output_py first_finding) HIGH 1 True (Some ''remand'')
        finding_escalated) = fst (Inr (), finding_restored)"
      by (simp add: restore_def spec_by_seat_def SEAT_SPECS_def)
  qed (simp add: finding_restored_def)
  from escalations_bounded [OF history_restored [OF finding_escalated_history this], of "''inc-1''" INSPECTOR]
  show ?thesis by simp
qed

text \<open>A restart loses nothing: restoring the persisted effort, count, pending flag and reason of a
  state that obeys the policy, with the output it was fingerprinted from, rebuilds exactly that state.\<close>

theorem restore_rebuilds_state:
  assumes "state_ok s st" "ss_pending_reason st \<noteq> Some []"
    and "semantic_fingerprint sha ops s out = Inr (ss_fingerprint st)"
  shows "restore sha ops i s out (effort_ladder (spec_by_seat s) ! ss_effort_index st)
     (int (ss_escalation_count st)) (ss_retry_pending st) (ss_pending_reason st) t = (Inr (), t((i, s) \<mapsto> st))"
  using assms index_of_nth [OF ladder_distinct, of "ss_effort_index st" s]
  by (auto simp: restore_def Let_def state_ok_def split: if_splits)

theorem restore_rebuilds_state_witness:
  "restore id ascii_ops ''inc-1'' BAILIFF (output_py (BailiffOutput ''w'')) NONE 0 False None Map.empty =
   (Inr (), [(''inc-1'', BAILIFF) \<mapsto>
     \<lparr>ss_effort_index = 0, ss_escalation_count = 0, ss_fingerprint = ''{'' @ quote ''warrant_id'' @ '':'' @ quote ''w'' @ ''}'',
      ss_retry_pending = False, ss_pending_reason = None\<rparr>])"
proof -
  let ?st = "\<lparr>ss_effort_index = 0, ss_escalation_count = 0,
      ss_fingerprint = ''{'' @ quote ''warrant_id'' @ '':'' @ quote ''w'' @ ''}'',
      ss_retry_pending = False, ss_pending_reason = None\<rparr>"
  have fp: "semantic_fingerprint id ascii_ops BAILIFF (output_py (BailiffOutput ''w'')) = Inr (ss_fingerprint ?st)"
    by code_simp
  have "effort_ladder (spec_by_seat BAILIFF) ! 0 = NONE" by (simp add: spec_by_seat_def SEAT_SPECS_def)
  with restore_rebuilds_state [OF _ _ fp, of "''inc-1''" Map.empty] show ?thesis
    by (simp add: state_ok_def)
qed

end
