(* ===== verification/CP_Evidence.thy ===== *)
theory CP_Evidence
  imports CP_Domain
begin

text \<open>
  The evidence shapes that cross a model-facing boundary: sanitisation tags and sanitised evidence of
  \<^verbatim>\<open>evidence/sanitizer.py\<close> and the envelope of \<^verbatim>\<open>evidence/views.py\<close> with its field validators.
\<close>

datatype tag_kind =
    POTENTIAL_INSTRUCTION_REDACTED | SECRET_REDACTED | CONTROL_SEQUENCE_REMOVED
  | INVALID_UTF8_REPLACED | LINE_TRUNCATED | EVIDENCE_TRUNCATED

record sanitization_tag =
  tag_kind_of :: tag_kind
  tag_raw_byte_start :: nat
  tag_raw_byte_end :: nat
  tag_raw_sha256 :: string
  tag_sanitized_sha256 :: string

record sanitized_evidence =
  se_provenance :: string
  se_provenance_sha256 :: string
  se_provenance_tags :: "tag_kind list"
  se_text :: string
  se_raw_sha256 :: string
  se_sanitized_sha256 :: string
  se_raw_size_bytes :: nat
  se_sanitized_size_bytes :: nat
  se_truncated :: bool
  se_tags :: "sanitization_tag list"

datatype evidence_kind =
    EK_LOG | EK_TRACE | EK_ISSUE | EK_SOURCE | EK_COMMENT | EK_DIFF | EK_TEST_OUTPUT | EK_TIMELINE | EK_MCP_RESULT

record evidence_envelope =
  ee_evidence_id :: string
  ee_incident_id :: string
  ee_kind :: evidence_kind
  ee_provenance :: string
  ee_provenance_sha256 :: string
  ee_provenance_tags :: "tag_kind list"
  ee_text :: string
  ee_raw_sha256 :: string
  ee_sanitized_sha256 :: string
  ee_raw_size_bytes :: nat
  ee_sanitized_size_bytes :: nat
  ee_truncated :: bool
  ee_tags :: "sanitization_tag list"

end
