(* ===== verification/CP_Coordinator.thy ===== *)
theory CP_Coordinator
  imports CP_Escalation CP_Evidence "HOL-Library.AList"
begin

text \<open>
  The orchestration of a case: \<^verbatim>\<open>orchestration/coordinator.py\<close> with the failure taxonomy of
  \<^verbatim>\<open>orchestration/failures.py\<close> and the agent inputs of \<^verbatim>\<open>agents/schemas.py\<close>. The agent runtime, the
  authority gateway and the citation authority are the protocols the coordinator is constructed with: they
  are the functions of a record \<open>gateway\<close>, each of which may raise and may change a world of its own. The
  coordinator's own state is its tracker and its two dictionaries; the mutable local \<^verbatim>\<open>outputs\<close> of a run,
  which the exception handler reads, is part of the state, and every call of the gateway is appended to a
  log, so that the order of effects can be stated.
\<close>

section \<open>Failures\<close>

datatype failure =
    OrchestrationFailure
  | ModelRefusal
  | OutputCutoff
  | TruncatedResponse
  | IncompleteResponse
  | NetworkFailure
  | InvalidSchema
  | MissingEvidenceReference
  | SDKException
  | GuardrailStop
  | UnknownVerdict string
  | EscalationFailure
  | TimeoutError
  | APITimeoutError
  | APIConnectionError
  | ModelRefusalError
  | InputGuardrailTripwire
  | OutputGuardrailTripwire
  | ToolInputGuardrailTripwire
  | ToolOutputGuardrailTripwire
  | ModelBehaviorError
  | TrackerError escalation_error
  | RequestInvalid
  | LookupError
  | PermissionError
  | OtherException string
  | Cancelled

fun failure_reason :: "failure \<Rightarrow> string" where
  "failure_reason OrchestrationFailure = ''sdk_exception''"
| "failure_reason ModelRefusal = ''refusal''"
| "failure_reason OutputCutoff = ''cutoff''"
| "failure_reason TruncatedResponse = ''truncated''"
| "failure_reason IncompleteResponse = ''incomplete_response''"
| "failure_reason NetworkFailure = ''network_failure''"
| "failure_reason InvalidSchema = ''invalid_schema''"
| "failure_reason MissingEvidenceReference = ''missing_evidence_references''"
| "failure_reason SDKException = ''sdk_exception''"
| "failure_reason GuardrailStop = ''guardrail_stop''"
| "failure_reason (UnknownVerdict _) = ''unknown_verdict''"
| "failure_reason EscalationFailure = ''escalation_exhausted''"
| "failure_reason TimeoutError = ''timeout''"
| "failure_reason APITimeoutError = ''timeout''"
| "failure_reason APIConnectionError = ''network_failure''"
| "failure_reason ModelRefusalError = ''refusal''"
| "failure_reason InputGuardrailTripwire = ''guardrail_stop''"
| "failure_reason OutputGuardrailTripwire = ''guardrail_stop''"
| "failure_reason ToolInputGuardrailTripwire = ''guardrail_stop''"
| "failure_reason ToolOutputGuardrailTripwire = ''guardrail_stop''"
| "failure_reason ModelBehaviorError = ''invalid_schema''"
| "failure_reason _ = ''sdk_exception''"

text \<open>The exceptions private to the coordinator, which no collaborator can raise: a duplicate retry, a
  \<^verbatim>\<open>RuntimeError\<close>, and the \<^verbatim>\<open>EscalationFailure\<close> whose outcome the authority has already recorded.\<close>

datatype coordinator_failure =
    Raised failure
  | DuplicateRetryAttempt seat effort string seat_output
  | RetryFailureAlreadyPersisted

fun reason_of :: "coordinator_failure \<Rightarrow> string" where
  "reason_of (Raised e) = failure_reason e"
| "reason_of (DuplicateRetryAttempt _ _ _ _) = ''sdk_exception''"
| "reason_of RetryFailureAlreadyPersisted = failure_reason EscalationFailure"

text \<open>\<^verbatim>\<open>isinstance(error, Exception)\<close>: a cancellation is not caught by \<^verbatim>\<open>except Exception\<close>.\<close>

definition is_exception :: "coordinator_failure \<Rightarrow> bool" where
  "is_exception e \<longleftrightarrow> e \<noteq> Raised Cancelled"

section \<open>Agent inputs\<close>

datatype scenario = WebhookRace | WebhookPayloadEquivalence

record agent_summary =
  as_seat :: seat
  as_semantic_sha256 :: string
  as_material :: pyval

record agent_run_input =
  ar_incident_id :: string
  ar_scenario :: scenario
  ar_candidate_plan_id :: string
  ar_phase :: string
  ar_evidence :: "evidence_envelope list"
  ar_citable_evidence_ids :: "string list"
  ar_prior_outputs :: "agent_summary list"

text \<open>The full match of \<^verbatim>\<open>[a-z0-9-]{1,64}\<close>.\<close>

definition is_phase :: "string \<Rightarrow> bool" where
  "is_phase s \<longleftrightarrow> 1 \<le> length s \<and> length s \<le> 64 \<and> list_all (\<lambda>c. is_lower c \<or> is_digit c \<or> c = CHR ''-'') s"

definition run_input_ok :: "agent_run_input \<Rightarrow> bool" where
  "run_input_ok r \<longleftrightarrow>
     is_storage_id (ar_incident_id r) \<and> is_identifier (ar_candidate_plan_id r) \<and> is_phase (ar_phase r)"

definition summarize_output ::
  "(string \<Rightarrow> string) \<Rightarrow> text_ops \<Rightarrow> seat \<Rightarrow> seat_output \<Rightarrow> failure + agent_summary" where
  "summarize_output sha ops s out =
     (case semantic_fingerprint sha ops s (output_py out) of
        Inl e \<Rightarrow> Inl (TrackerError (FingerprintFailed e))
      | Inr fp \<Rightarrow>
          (case semantic_payload ops s (output_py out) of
             Inl e \<Rightarrow> Inl (TrackerError (FingerprintFailed e))
           | Inr material \<Rightarrow>
               if is_sha256 fp then Inr \<lparr>as_seat = s, as_semantic_sha256 = fp, as_material = material\<rparr>
               else Inl RequestInvalid))"

section \<open>The coordinator's environment and state\<close>

record incident_input =
  ii_incident_id :: string
  ii_scenario :: scenario
  ii_candidate_plan_id :: string
  ii_evidence :: "evidence_envelope list"

type_synonym outputs = "(seat \<times> seat_output) list"

record coordinator_result =
  cr_verdict :: verdict
  cr_seat_outputs :: outputs
  cr_pending_warrant_id :: "string option"
  cr_failure_reason :: "string option"

text \<open>What a runtime may return where an output is expected: an instance of an output class, a dictionary,
  or anything else.\<close>

datatype raw_output = Typed seat_output | Dict "(pyval \<times> pyval) list" | Foreign

type_synonym ('w, 'a) effect = "'w \<Rightarrow> (failure + 'a) \<times> 'w"

text \<open>The collaborators of the coordinator, after the hash and the text operations its fingerprints use.
  \<open>gw_deferred\<close> is present when the runtime implements \<^verbatim>\<open>DeferredRetryRuntime\<close>; the handoff returns
  \<open>None\<close> for a value that is not an \<^verbatim>\<open>InspectorProsecutorResult\<close>.\<close>

record 'w gateway =
  gw_sha :: "string \<Rightarrow> string"
  gw_text :: text_ops
  gw_handoff :: "agent_run_input \<Rightarrow> effort \<Rightarrow> effort \<Rightarrow> (inspector_output \<Rightarrow> ('w, inspector_output) effect) \<Rightarrow>
     ('w, (inspector_output \<times> prosecutor_variant) option) effect"
  gw_run_seat :: "seat \<Rightarrow> effort \<Rightarrow> string \<Rightarrow> agent_run_input \<Rightarrow> ('w, raw_output) effect"
  gw_deferred :: "((seat \<Rightarrow> effort \<Rightarrow> string \<Rightarrow> agent_run_input \<Rightarrow> ('w, raw_output) effect) \<times>
     (string \<Rightarrow> seat \<Rightarrow> effort \<Rightarrow> string \<Rightarrow> seat_output \<Rightarrow> ('w, unit) effect)) option"
  gw_execute_approved_warrant :: "string \<Rightarrow> string \<Rightarrow> string \<Rightarrow> ('w, raw_output) effect"
  gw_begin_review :: "string \<Rightarrow> ('w, unit) effect"
  gw_fail_closed_abstain :: "string \<Rightarrow> string \<Rightarrow> ('w, unit) effect"
  gw_record_verdict :: "string \<Rightarrow> magistrate_output \<Rightarrow> ('w, unit) effect"
  gw_open_approval :: "string \<Rightarrow> magistrate_output \<Rightarrow> outputs \<Rightarrow> ('w, string) effect"
  gw_record_escalation :: "string \<Rightarrow> seat \<Rightarrow> escalation_decision \<Rightarrow> ('w, unit) effect"
  gw_reject_duplicate_retry :: "string \<Rightarrow> seat \<Rightarrow> effort \<Rightarrow> string \<Rightarrow> seat_output \<Rightarrow> string \<Rightarrow> ('w, unit) effect"
  gw_approved_warrant :: "string \<Rightarrow> string \<Rightarrow> ('w, string option) effect"
  gw_contains_all :: "string \<Rightarrow> string list \<Rightarrow> ('w, bool) effect"

datatype call =
    CallHandoff
  | CallRunSeat seat effort string
  | CallRunRetry seat effort string
  | CallPublishRetry seat effort string seat_output
  | CallExecute string string
  | CallBeginReview
  | CallFailClosed string
  | CallRecordVerdict magistrate_output
  | CallOpenApproval magistrate_output outputs
  | CallRecordEscalation seat escalation_decision
  | CallRejectDuplicate seat effort string seat_output string
  | CallApprovedWarrant string
  | CallContainsAll "string list"

record 'w coord =
  co_world :: 'w
  co_tracker :: tracker
  co_incident_outputs :: "string \<rightharpoonup> outputs"
  co_incident_phases :: "string \<rightharpoonup> (seat \<rightharpoonup> string)"
  co_local :: outputs
  co_log :: "call list"

type_synonym ('w, 'a) comp = "'w coord \<Rightarrow> (coordinator_failure + 'a) \<times> 'w coord"

definition return_with :: "'a \<Rightarrow> ('w, 'a) comp" where
  "return_with x st = (Inr x, st)"

definition fail_with :: "failure \<Rightarrow> ('w, 'a) comp" where
  "fail_with e st = (Inl (Raised e), st)"

definition bind_with :: "('w, 'a) comp \<Rightarrow> ('a \<Rightarrow> ('w, 'b) comp) \<Rightarrow> ('w, 'b) comp" where
  "bind_with m f st = (case m st of (Inl e, st') \<Rightarrow> (Inl e, st') | (Inr x, st') \<Rightarrow> f x st')"

definition then_with :: "('w, 'a) comp \<Rightarrow> ('w, 'b) comp \<Rightarrow> ('w, 'b) comp" where
  "then_with m n = bind_with m (\<lambda>_. n)"

text \<open>A call of the gateway, and an operation of the tracker.\<close>

definition call_gateway :: "call \<Rightarrow> ('w, 'a) effect \<Rightarrow> ('w, 'a) comp" where
  "call_gateway c f st =
     (let (r, w) = f (co_world st) in (map_error Raised r, st\<lparr>co_world := w, co_log := co_log st @ [c]\<rparr>))"

definition with_tracker :: "(escalation_error \<Rightarrow> coordinator_failure) \<Rightarrow> (tracker \<Rightarrow> 'a tracked) \<Rightarrow> ('w, 'a) comp" where
  "with_tracker raise f st =
     (let (r, t) = f (co_tracker st) in (map_error raise r, st\<lparr>co_tracker := t\<rparr>))"

definition lift_result :: "('w coord \<Rightarrow> failure + 'a) \<Rightarrow> ('w, 'a) comp" where
  "lift_result f st = (map_error Raised (f st), st)"

section \<open>Validation and requests\<close>

fun evidence_ids :: "seat_output \<Rightarrow> string list" where
  "evidence_ids (InspectorOutput a) = io_evidence_ids a"
| "evidence_ids (ProsecutorOutput (SupportedRival m ces ts es t)) = es"
| "evidence_ids (ProsecutorOutput (NoSupportedRival ces ts es t)) = es"
| "evidence_ids (CounselOutput a) = co_evidence_ids a"
| "evidence_ids (MagistrateOutput a) = mo_evidence_ids a"
| "evidence_ids (BailiffOutput w) = []"

definition REMAND_TARGETS :: "seat list" where
  "REMAND_TARGETS = [PROSECUTOR, INSPECTOR, COUNSEL]"

fun remand_ok :: "seat_output \<Rightarrow> bool" where
  "remand_ok (MagistrateOutput m) \<longleftrightarrow>
     (if mo_verdict m = REMAND then (case mo_remand_target m of Some t \<Rightarrow> t \<in> set REMAND_TARGETS | None \<Rightarrow> False)
      else mo_remand_target m = None)"
| "remand_ok _ \<longleftrightarrow> True"

text \<open>The checks of \<^verbatim>\<open>_validate\<close> that need no citation authority.\<close>

definition check_output :: "seat \<Rightarrow> raw_output \<Rightarrow> failure + seat_output" where
  "check_output s raw =
     (case raw of
        Typed out \<Rightarrow>
          if seat_of_output out \<noteq> s \<or> \<not> remand_ok out then Inl InvalidSchema
          else if s \<noteq> BAILIFF \<and> evidence_ids out = [] then Inl MissingEvidenceReference
          else Inr out
      | Dict items \<Rightarrow>
          (case str_value (py_get ''verdict'' PyNone items) of
             Some v \<Rightarrow>
               if s = MAGISTRATE \<and> v \<notin> set (map verdict_value all_verdicts) then Inl (UnknownVerdict v)
               else Inl InvalidSchema
           | None \<Rightarrow> Inl InvalidSchema)
      | Foreign \<Rightarrow> Inl InvalidSchema)"

definition validate :: "'w gateway \<Rightarrow> string \<Rightarrow> seat \<Rightarrow> raw_output \<Rightarrow> ('w, seat_output) comp" where
  "validate env incident_id s raw =
     bind_with (lift_result (\<lambda>_. check_output s raw)) (\<lambda>out.
       if s = BAILIFF then return_with out
       else bind_with (call_gateway (CallContainsAll (evidence_ids out))
                         (gw_contains_all env incident_id (evidence_ids out)))
              (\<lambda>known. if known then return_with out else fail_with MissingEvidenceReference))"

text \<open>The callback \<^verbatim>\<open>validate_inspector\<close> as the runtime sees it during the handoff.\<close>

definition validate_inspector :: "'w gateway \<Rightarrow> string \<Rightarrow> inspector_output \<Rightarrow> ('w, inspector_output) effect" where
  "validate_inspector env incident_id a w =
     (case check_output INSPECTOR (Typed (InspectorOutput a)) of
        Inl e \<Rightarrow> (Inl e, w)
      | Inr _ \<Rightarrow>
          (case gw_contains_all env incident_id (io_evidence_ids a) w of
             (Inl e, w') \<Rightarrow> (Inl e, w')
           | (Inr known, w') \<Rightarrow> (if known then Inr a else Inl MissingEvidenceReference, w')))"

definition request_of ::
  "'w gateway \<Rightarrow> incident_input \<Rightarrow> string \<Rightarrow> outputs \<Rightarrow> failure + agent_run_input" where
  "request_of env incident phase outs =
     rbind (map_result (\<lambda>(s, out). summarize_output (gw_sha env) (gw_text env) s out) outs) (\<lambda>summaries.
       let r = \<lparr>ar_incident_id = ii_incident_id incident, ar_scenario = ii_scenario incident,
                ar_candidate_plan_id = ii_candidate_plan_id incident, ar_phase = phase,
                ar_evidence = ii_evidence incident,
                ar_citable_evidence_ids = map ee_evidence_id (ii_evidence incident),
                ar_prior_outputs = summaries\<rparr> in
       if run_input_ok r then Inr r else Inl RequestInvalid)"

section \<open>Running a seat\<close>

definition store_output :: "string \<Rightarrow> seat \<Rightarrow> string \<Rightarrow> seat_output \<Rightarrow> ('w, unit) comp" where
  "store_output incident_id s phase out st =
     (Inr (), st\<lparr>co_local := AList.update s out (co_local st),
        co_incident_phases := (co_incident_phases st)(incident_id \<mapsto>
          (case co_incident_phases st incident_id of None \<Rightarrow> Map.empty | Some ph \<Rightarrow> ph)(s \<mapsto> phase))\<rparr>)"

definition select_effort :: "string \<Rightarrow> seat \<Rightarrow> effort option \<Rightarrow> ('w, effort) comp" where
  "select_effort incident_id s eff =
     lift_result (\<lambda>st. case eff of
         Some e \<Rightarrow> Inr e
       | None \<Rightarrow> map_error TrackerError (current_effort incident_id s (co_tracker st)))"

definition invoke_runtime ::
  "'w gateway \<Rightarrow> bool \<Rightarrow> seat \<Rightarrow> effort \<Rightarrow> string \<Rightarrow> agent_run_input \<Rightarrow> ('w, raw_output) comp" where
  "invoke_runtime env retry s eff phase req =
     (case (if retry then gw_deferred env else None) of
        None \<Rightarrow> call_gateway (CallRunSeat s eff phase) (gw_run_seat env s eff phase req)
      | Some (run_unpublished_retry, _) \<Rightarrow>
          call_gateway (CallRunRetry s eff phase) (run_unpublished_retry s eff phase req))"

definition accept_error :: "seat \<Rightarrow> effort \<Rightarrow> string \<Rightarrow> seat_output \<Rightarrow> escalation_error \<Rightarrow> coordinator_failure" where
  "accept_error s eff phase out e =
     (case e of DuplicateRetry _ \<Rightarrow> DuplicateRetryAttempt s eff phase out | _ \<Rightarrow> Raised (TrackerError e))"

definition settle_output ::
  "'w gateway \<Rightarrow> string \<Rightarrow> bool \<Rightarrow> seat \<Rightarrow> effort \<Rightarrow> string \<Rightarrow> seat_output \<Rightarrow> ('w, unit) comp" where
  "settle_output env incident_id retry s eff phase out =
     (if retry
      then then_with (with_tracker (accept_error s eff phase out)
             (accept_retry (gw_sha env) (gw_text env) incident_id s (output_py out)))
           (case gw_deferred env of
              None \<Rightarrow> return_with ()
            | Some (_, publish_accepted_retry) \<Rightarrow>
                call_gateway (CallPublishRetry s eff phase out) (publish_accepted_retry incident_id s eff phase out))
      else with_tracker (Raised \<circ> TrackerError)
             (record_initial (gw_sha env) (gw_text env) incident_id s (output_py out)))"

definition run_seat ::
  "'w gateway \<Rightarrow> incident_input \<Rightarrow> seat \<Rightarrow> string \<Rightarrow> effort option \<Rightarrow> bool \<Rightarrow> ('w, seat_output) comp" where
  "run_seat env incident s phase eff retry =
     (let i = ii_incident_id incident in
      bind_with (select_effort i s eff) (\<lambda>selected.
      bind_with (lift_result (\<lambda>st. request_of env incident phase (co_local st))) (\<lambda>req.
      bind_with (invoke_runtime env retry s selected phase req) (\<lambda>raw.
      bind_with (validate env i s raw) (\<lambda>out.
      then_with (settle_output env i retry s selected phase out)
      (then_with (store_output i s phase out) (return_with out)))))))"

definition record_output :: "'w gateway \<Rightarrow> string \<Rightarrow> seat_output \<Rightarrow> ('w, unit) comp" where
  "record_output env i out =
     with_tracker (Raised \<circ> TrackerError) (record_initial (gw_sha env) (gw_text env) i (seat_of_output out) (output_py out))"

definition initial_handoff :: "'w gateway \<Rightarrow> incident_input \<Rightarrow> ('w, unit) comp" where
  "initial_handoff env incident =
     (let i = ii_incident_id incident in
      bind_with (lift_result (\<lambda>st. request_of env incident ''mechanism-analysis'' (co_local st))) (\<lambda>req.
      bind_with (select_effort i INSPECTOR None) (\<lambda>inspector_effort.
      bind_with (select_effort i PROSECUTOR None) (\<lambda>prosecutor_effort.
      bind_with (call_gateway CallHandoff
        (gw_handoff env req inspector_effort prosecutor_effort (validate_inspector env i))) (\<lambda>result.
      case result of
        None \<Rightarrow> fail_with InvalidSchema
      | Some (a, v) \<Rightarrow>
          bind_with (validate env i INSPECTOR (Typed (InspectorOutput a))) (\<lambda>inspector.
          bind_with (validate env i PROSECUTOR (Typed (ProsecutorOutput v))) (\<lambda>prosecutor.
          then_with (record_output env i inspector)
         (then_with (record_output env i prosecutor)
         (then_with (store_output i INSPECTOR ''mechanism-analysis'' inspector)
                    (store_output i PROSECUTOR ''hypothesis-challenge'' prosecutor))))))))))"

section \<open>Escalation and fail closure\<close>

definition begin_error :: "escalation_error \<Rightarrow> coordinator_failure" where
  "begin_error e = Raised (case e of EscalationExhausted _ \<Rightarrow> EscalationFailure | _ \<Rightarrow> TrackerError e)"

definition reject_duplicate ::
  "'w gateway \<Rightarrow> string \<Rightarrow> string \<Rightarrow> ('w, seat_output) comp \<Rightarrow> ('w, seat_output) comp" where
  "reject_duplicate env i reason m st =
     (case m st of
        (Inl (DuplicateRetryAttempt s eff phase out), st') \<Rightarrow>
          then_with (call_gateway (CallRejectDuplicate s eff phase out reason)
                       (gw_reject_duplicate_retry env i s eff phase out reason))
            (\<lambda>st. (Inl RetryFailureAlreadyPersisted, st)) st'
      | r \<Rightarrow> r)"

definition grant_escalation ::
  "'w gateway \<Rightarrow> string \<Rightarrow> seat \<Rightarrow> string \<Rightarrow> ('w, escalation_decision) comp" where
  "grant_escalation env i s reason =
     bind_with (lift_result (\<lambda>st. map_error TrackerError (resume_pending_escalation i s reason (co_tracker st))))
       (\<lambda>pending. case pending of
          Some d \<Rightarrow> return_with d
        | None \<Rightarrow>
            bind_with (with_tracker begin_error (begin_escalation i s reason)) (\<lambda>d.
              then_with (call_gateway (CallRecordEscalation s d) (gw_record_escalation env i s d)) (return_with d)))"

definition escalate ::
  "'w gateway \<Rightarrow> incident_input \<Rightarrow> seat \<Rightarrow> string \<Rightarrow> string \<Rightarrow> ('w, seat_output) comp" where
  "escalate env incident s reason phase =
     bind_with (grant_escalation env (ii_incident_id incident) s reason) (\<lambda>d.
       reject_duplicate env (ii_incident_id incident) reason
         (run_seat env incident s phase (Some (ed_effort d)) True))"

definition keep_outputs :: "string \<Rightarrow> ('w, unit) comp" where
  "keep_outputs i st = (Inr (), st\<lparr>co_incident_outputs := (co_incident_outputs st)(i \<mapsto> co_local st)\<rparr>)"

definition fail_closed :: "'w gateway \<Rightarrow> string \<Rightarrow> coordinator_failure \<Rightarrow> ('w, coordinator_result) comp" where
  "fail_closed env i e =
     (let reason = reason_of e in
      then_with (if e = RetryFailureAlreadyPersisted then return_with ()
                 else call_gateway (CallFailClosed reason) (gw_fail_closed_abstain env i reason))
     (then_with (keep_outputs i)
        (\<lambda>st. (Inr \<lparr>cr_verdict = ABSTAIN, cr_seat_outputs = co_local st, cr_pending_warrant_id = None,
                    cr_failure_reason = Some reason\<rparr>, st))))"

definition try_closed ::
  "'w gateway \<Rightarrow> string \<Rightarrow> ('w, coordinator_result) comp \<Rightarrow> ('w, coordinator_result) comp" where
  "try_closed env i m st =
     (case m st of
        (Inl e, st') \<Rightarrow> if is_exception e then fail_closed env i e st' else (Inl e, st')
      | (Inr r, st') \<Rightarrow> (Inr r, st'))"

section \<open>The verdict loop\<close>

definition as_magistrate :: "seat_output \<Rightarrow> ('w, magistrate_output) comp" where
  "as_magistrate out = (case out of MagistrateOutput m \<Rightarrow> return_with m | _ \<Rightarrow> fail_with InvalidSchema)"

definition remand_review ::
  "'w gateway \<Rightarrow> incident_input \<Rightarrow> seat \<Rightarrow> ('w, magistrate_output) comp" where
  "remand_review env incident target =
     then_with (if target \<noteq> COUNSEL
                then then_with (run_seat env incident COUNSEL ''remand-patch'' None False) (return_with ())
                else return_with ())
    (then_with (run_seat env incident PROSECUTOR ''remand-challenge'' None False)
    (bind_with (run_seat env incident MAGISTRATE ''remand-review'' None False) as_magistrate))"

definition remand_round ::
  "'w gateway \<Rightarrow> incident_input \<Rightarrow> magistrate_output \<Rightarrow> ('w, magistrate_output) comp" where
  "remand_round env incident m =
     then_with (call_gateway (CallRecordVerdict m) (gw_record_verdict env (ii_incident_id incident) m))
       (case mo_remand_target m of
          None \<Rightarrow> fail_with InvalidSchema
        | Some target \<Rightarrow>
            if target \<notin> set REMAND_TARGETS then fail_with InvalidSchema
            else then_with (escalate env incident target ''remand'' ''remand-revision'')
                           (remand_review env incident target))"

section \<open>Relations kept by every step\<close>

text \<open>The calls of a review: everything but opening an approval, failing closed and executing a warrant.\<close>

fun review_call :: "call \<Rightarrow> bool" where
  "review_call (CallFailClosed _) \<longleftrightarrow> False"
| "review_call (CallOpenApproval _ _) \<longleftrightarrow> False"
| "review_call (CallExecute _ _) \<longleftrightarrow> False"
| "review_call (CallApprovedWarrant _) \<longleftrightarrow> False"
| "review_call _ \<longleftrightarrow> True"

text \<open>What \<^verbatim>\<open>_validate\<close> guarantees of an output it returns: the class of the seat, a remand target exactly
  for REMAND, and, for every seat but the Bailiff, citations the citation authority confirmed.\<close>

definition validated :: "'w gateway \<Rightarrow> string \<Rightarrow> seat \<Rightarrow> seat_output \<Rightarrow> bool" where
  "validated env i s out \<longleftrightarrow> seat_of_output out = s \<and> remand_ok out \<and>
     (s = BAILIFF \<or> evidence_ids out \<noteq> [] \<and>
        (\<exists>w w'. gw_contains_all env i (evidence_ids out) w = (Inr True, w')))"

lemma check_output_Inr:
  "check_output s raw = Inr out \<longleftrightarrow>
     raw = Typed out \<and> seat_of_output out = s \<and> remand_ok out \<and> (s = BAILIFF \<or> evidence_ids out \<noteq> [])"
  by (auto simp: check_output_def split: raw_output.splits option.splits)

lemma bind_with_Inr [result_simps]:
  "bind_with m f st = (Inr y, st') \<longleftrightarrow> (\<exists>x st1. m st = (Inr x, st1) \<and> f x st1 = (Inr y, st'))"
  by (auto simp: bind_with_def split: prod.splits sum.splits)

lemma then_with_Inr [result_simps]:
  "then_with m n st = (Inr y, st') \<longleftrightarrow> (\<exists>x st1. m st = (Inr x, st1) \<and> n st1 = (Inr y, st'))"
  by (auto simp: then_with_def result_simps)

lemma validate_Inr:
  assumes "validate env i s raw st = (Inr out, st')"
  shows "validated env i s out"
proof -
  have check: "check_output s raw = Inr out"
    using assms by (auto simp: validate_def result_simps lift_result_def return_with_def fail_with_def split: if_splits)
  have "s = BAILIFF \<or> (\<exists>w w'. gw_contains_all env i (evidence_ids out) w = (Inr True, w'))"
    using assms check
    by (auto simp: validate_def result_simps lift_result_def return_with_def fail_with_def call_gateway_def Let_def
        split: if_splits prod.splits)
  then show ?thesis using check by (auto simp: validated_def check_output_Inr)
qed

locale review_relation =
  fixes env :: "'w gateway" and i :: string
    and R :: "'w coord \<Rightarrow> 'w coord \<Rightarrow> bool"
  assumes R_refl: "R st st"
    and R_trans: "R st st' \<Longrightarrow> R st' st'' \<Longrightarrow> R st st''"
    and R_call: "review_call c \<Longrightarrow> R st (st\<lparr>co_world := w, co_log := co_log st @ [c]\<rparr>)"
    and R_store: "validated env i s out \<Longrightarrow>
      R st (st\<lparr>co_local := AList.update s out (co_local st), co_incident_phases := ph\<rparr>)"
    and R_record: "R st (st\<lparr>co_tracker := snd (record_initial sha ops j s out' (co_tracker st))\<rparr>)"
    and R_begin: "R st (st\<lparr>co_tracker := snd (begin_escalation j s reason (co_tracker st))\<rparr>)"
    and R_accept: "R st (st\<lparr>co_tracker := snd (accept_retry sha ops j s out' (co_tracker st))\<rparr>)"
begin

definition keeps :: "('w, 'a) comp \<Rightarrow> bool" where
  "keeps m \<longleftrightarrow> (\<forall>st. R st (snd (m st)))"

lemma keepsD: "keeps m \<Longrightarrow> m st = (r, st') \<Longrightarrow> R st st'"
  by (metis keeps_def snd_conv)

lemma keeps_return [intro!]: "keeps (return_with x)" "keeps (fail_with e)" "keeps (lift_result f)"
  by (simp_all add: keeps_def return_with_def fail_with_def lift_result_def R_refl)

lemma keeps_bind [intro!]:
  assumes "keeps m" "\<And>x st st'. m st = (Inr x, st') \<Longrightarrow> keeps (f x)"
  shows "keeps (bind_with m f)"
  unfolding keeps_def
proof
  fix st
  obtain r st1 where m: "m st = (r, st1)" by fastforce
  have "R st st1" using keepsD [OF assms(1) m] .
  moreover have "r = Inr x \<Longrightarrow> R st1 (snd (f x st1))" for x
    using assms(2) [of st x st1] m by (simp add: keeps_def)
  ultimately show "R st (snd (bind_with m f st))"
    using m R_trans by (cases r) (auto simp: bind_with_def)
qed

lemma keeps_then [intro!]: "keeps m \<Longrightarrow> keeps n \<Longrightarrow> keeps (then_with m n)"
  unfolding then_with_def by (rule keeps_bind)

lemma keeps_if [intro!]: "keeps m \<Longrightarrow> keeps n \<Longrightarrow> keeps (if b then m else n)"
  by simp

lemma keeps_call [intro!]: "review_call c \<Longrightarrow> keeps (call_gateway c f)"
  by (auto simp: keeps_def call_gateway_def Let_def case_prod_beta intro: R_call)

lemma keeps_tracker [intro!]:
  "keeps (with_tracker raise (record_initial sha ops j s out))"
  "keeps (with_tracker raise (begin_escalation j s reason))"
  "keeps (with_tracker raise (accept_retry sha ops j s out))"
  by (auto simp: keeps_def with_tracker_def Let_def case_prod_beta intro: R_record R_begin R_accept)

lemma keeps_store [intro!]: "validated env i s out \<Longrightarrow> keeps (store_output j s ph out)"
  by (simp add: keeps_def store_output_def R_store)

lemma keeps_validate [intro!]: "keeps (validate env j s raw)"
  by (auto simp: validate_def)

lemma keeps_select [intro!]: "keeps (select_effort j s eff)"
  by (auto simp: select_effort_def)

lemma keeps_invoke [intro!]: "keeps (invoke_runtime env retry s eff ph req)"
  by (auto simp: invoke_runtime_def split: option.splits)

lemma keeps_settle [intro!]: "keeps (settle_output env j retry s eff ph out)"
  by (auto simp: settle_output_def split: option.splits)

lemma keeps_run_seat [intro!]: "ii_incident_id incident = i \<Longrightarrow> keeps (run_seat env incident s ph eff retry)"
  by (auto simp: run_seat_def Let_def dest: validate_Inr)

lemma keeps_record_output [intro!]: "keeps (record_output env j out)"
  by (auto simp: record_output_def)

lemma keeps_handoff [intro!]: "ii_incident_id incident = i \<Longrightarrow> keeps (initial_handoff env incident)"
  by (auto simp: initial_handoff_def Let_def dest: validate_Inr split: option.splits)

lemma keeps_reject [intro!]: "keeps m \<Longrightarrow> keeps (reject_duplicate env j reason m)"
  unfolding keeps_def
proof
  fix st
  assume m: "\<forall>st. R st (snd (m st))"
  obtain r st1 where r: "m st = (r, st1)" by fastforce
  have "R st st1" using m r by (metis snd_conv)
  moreover have "keeps (then_with (call_gateway (CallRejectDuplicate s eff phase out reason) f)
      ((\<lambda>st. (Inl RetryFailureAlreadyPersisted, st)) :: ('w, seat_output) comp))" for s eff phase out and f :: "('w, unit) effect"
    by (rule keeps_then, rule keeps_call) (simp_all add: keeps_def R_refl)
  ultimately show "R st (snd (reject_duplicate env j reason m st))"
    using r R_trans by (auto simp: reject_duplicate_def keeps_def split: sum.splits coordinator_failure.splits)
qed

lemma keeps_grant [intro!]: "keeps (grant_escalation env j s reason)"
  by (auto simp: grant_escalation_def split: option.splits)

lemma keeps_escalate [intro!]: "ii_incident_id incident = i \<Longrightarrow> keeps (escalate env incident s reason ph)"
  by (auto simp: escalate_def)

lemma keeps_magistrate [intro!]: "keeps (as_magistrate out)"
  by (auto simp: as_magistrate_def split: seat_output.splits)

lemma keeps_remand_review [intro!]: "ii_incident_id incident = i \<Longrightarrow> keeps (remand_review env incident target)"
  by (auto simp: remand_review_def)

lemma keeps_remand_round [intro!]: "ii_incident_id incident = i \<Longrightarrow> keeps (remand_round env incident m)"
  by (auto simp: remand_round_def split: option.splits)

end

interpretation work_relation:
  review_relation env i "\<lambda>st st'. retry_work (co_tracker st') j \<le> retry_work (co_tracker st) j" for env i j
  by unfold_locales (simp_all add: record_initial_work begin_escalation_work accept_retry_work)

interpretation policy_relation:
  review_relation env i "\<lambda>st st'. tracker_ok (co_tracker st) \<longrightarrow> tracker_ok (co_tracker st')" for env i
  by unfold_locales (simp_all add: operations_ok)

definition outputs_validated :: "'w gateway \<Rightarrow> string \<Rightarrow> outputs \<Rightarrow> bool" where
  "outputs_validated env i outs \<longleftrightarrow> (\<forall>s out. map_of outs s = Some out \<longrightarrow> validated env i s out)"

lemma outputs_validated_update:
  "outputs_validated env i outs \<Longrightarrow> validated env i s out \<Longrightarrow> outputs_validated env i (AList.update s out outs)"
  unfolding outputs_validated_def by (simp add: update_conv')

interpretation outputs_relation:
  review_relation env i "\<lambda>st st'. outputs_validated env i (co_local st) \<longrightarrow> outputs_validated env i (co_local st')" for env i
  by unfold_locales (simp_all add: outputs_validated_update)

section \<open>Every remand uses up retry work\<close>

text \<open>The parts of a run before the tracker is asked leave it alone.\<close>

lemma call_gateway_tracker [simp]: "co_tracker (snd (call_gateway c f st)) = co_tracker st"
  by (simp add: call_gateway_def Let_def case_prod_beta)

lemma bind_with_tracker:
  assumes "\<And>st. co_tracker (snd (m st)) = co_tracker st" "\<And>x st. co_tracker (snd (f x st)) = co_tracker st"
  shows "co_tracker (snd (bind_with m f st)) = co_tracker st"
  using assms by (auto simp: bind_with_def split: prod.splits sum.splits) (metis snd_conv)+

lemma basic_tracker [simp]:
  "co_tracker (snd (return_with x st)) = co_tracker st" "co_tracker (snd (fail_with e st)) = co_tracker st"
  "co_tracker (snd (lift_result f st)) = co_tracker st" "co_tracker (snd (store_output i s ph out st)) = co_tracker st"
  by (simp_all add: return_with_def fail_with_def lift_result_def store_output_def)

lemma validate_tracker [simp]: "co_tracker (snd (validate env i s raw st)) = co_tracker st"
  unfolding validate_def by (rule bind_with_tracker) (auto intro!: bind_with_tracker)

lemma invoke_tracker [simp]: "co_tracker (snd (invoke_runtime env retry s eff ph req st)) = co_tracker st"
  by (auto simp: invoke_runtime_def split: option.splits)

lemma settle_retry_work:
  assumes "settle_output env i True s eff ph out st = (Inr u, st')"
  shows "retry_work (co_tracker st') i < retry_work (co_tracker st) i"
proof -
  let ?acc = "accept_retry (gw_sha env) (gw_text env) i s (output_py out)"
  obtain fp st1 where st1: "with_tracker (accept_error s eff ph out) ?acc st = (Inr fp, st1)"
    and st': "co_tracker st' = co_tracker st1"
    using assms
    by (auto simp: settle_output_def result_simps return_with_def split: option.splits)
      (metis call_gateway_tracker snd_conv)+
  then have "co_tracker st1 = snd (?acc (co_tracker st))" "fst (?acc (co_tracker st)) = Inr fp"
    by (auto simp: with_tracker_def Let_def case_prod_beta result_simps)
  then show ?thesis using accepted_retry_work [of "gw_sha env" "gw_text env" i s "output_py out"] st' by simp
qed

lemma run_retry_work:
  assumes "run_seat env incident s ph eff True st = (Inr out, st')"
  shows "retry_work (co_tracker st') (ii_incident_id incident) < retry_work (co_tracker st) (ii_incident_id incident)"
proof -
  obtain selected st1 req st2 raw st3 out' st4 u st5 where
    steps: "select_effort (ii_incident_id incident) s eff st = (Inr selected, st1)"
      "lift_result (\<lambda>st. request_of env incident ph (co_local st)) st1 = (Inr req, st2)"
      "invoke_runtime env True s selected ph req st2 = (Inr raw, st3)"
      "validate env (ii_incident_id incident) s raw st3 = (Inr out', st4)"
    and settle: "settle_output env (ii_incident_id incident) True s selected ph out' st4 = (Inr u, st5)"
    and st': "then_with (store_output (ii_incident_id incident) s ph out') (return_with out') st5 = (Inr out, st')"
    using assms unfolding run_seat_def Let_def by (simp only: bind_with_Inr then_with_Inr) blast
  have "co_tracker st4 = co_tracker st"
    using steps by (metis basic_tracker(3) invoke_tracker validate_tracker select_effort_def snd_conv)
  moreover have "co_tracker st' = co_tracker st5"
    using st' by (auto simp: result_simps return_with_def) (metis basic_tracker(4) snd_conv)
  ultimately show ?thesis using settle_retry_work [OF settle] by simp
qed

lemma reject_duplicate_Inr [result_simps]:
  "reject_duplicate env i reason m st = (Inr y, st') \<longleftrightarrow> m st = (Inr y, st')"
  by (auto simp: reject_duplicate_def result_simps fail_with_def split: prod.splits sum.splits coordinator_failure.splits)

lemma escalate_work:
  assumes "escalate env incident s reason ph st = (Inr out, st')"
  shows "retry_work (co_tracker st') (ii_incident_id incident) < retry_work (co_tracker st) (ii_incident_id incident)"
proof -
  obtain d st1 where grant: "grant_escalation env (ii_incident_id incident) s reason st = (Inr d, st1)"
    and run: "run_seat env incident s ph (Some (ed_effort d)) True st1 = (Inr out, st')"
    using assms by (auto simp: escalate_def result_simps)
  show ?thesis
    using run_retry_work [OF run] work_relation.keepsD [OF work_relation.keeps_grant grant] by (rule less_le_trans)
qed

lemma remand_round_work:
  assumes "remand_round env incident m st = (Inr m', st')"
  shows "retry_work (co_tracker st') (ii_incident_id incident) < retry_work (co_tracker st) (ii_incident_id incident)"
proof -
  obtain target where target: "mo_remand_target m = Some target" "target \<in> set REMAND_TARGETS"
    using assms by (auto simp: remand_round_def result_simps fail_with_def split: option.splits if_splits)
  then obtain u st1 out st2 where st1: "call_gateway (CallRecordVerdict m)
      (gw_record_verdict env (ii_incident_id incident) m) st = (Inr u, st1)"
    and esc: "escalate env incident target ''remand'' ''remand-revision'' st1 = (Inr out, st2)"
    and rest: "remand_review env incident target st2 = (Inr m', st')"
    using assms unfolding remand_round_def by (simp add: then_with_Inr) blast
  have "co_tracker st1 = co_tracker st" using st1 by (metis call_gateway_tracker snd_conv)
  with escalate_work [OF esc] show ?thesis
    using work_relation.keepsD [OF work_relation.keeps_remand_review rest] by (metis order_le_less_trans)
qed

function resolve_loop ::
  "'w gateway \<Rightarrow> incident_input \<Rightarrow> magistrate_output \<Rightarrow> ('w, magistrate_output) comp" where
  "resolve_loop env incident m st =
     (if mo_verdict m \<noteq> REMAND then (Inr m, st)
      else (case remand_round env incident m st of
              (Inl e, st') \<Rightarrow> (Inl e, st')
            | (Inr m', st') \<Rightarrow> resolve_loop env incident m' st'))"
  by pat_completeness auto
termination
  by (relation "measure (\<lambda>(env, incident, m, st). retry_work (co_tracker st) (ii_incident_id incident))")
    (auto dest: remand_round_work [OF sym])

declare resolve_loop.simps [simp del]

section \<open>The operations of the coordinator\<close>

definition finish_verdict ::
  "'w gateway \<Rightarrow> incident_input \<Rightarrow> magistrate_output \<Rightarrow> ('w, coordinator_result) comp" where
  "finish_verdict env incident m =
     (let i = ii_incident_id incident in
      then_with (keep_outputs i) (\<lambda>st.
        if mo_verdict m = CLEAR
        then bind_with (call_gateway (CallOpenApproval m (co_local st)) (gw_open_approval env i m (co_local st)))
               (\<lambda>warrant_id st'. (Inr \<lparr>cr_verdict = CLEAR, cr_seat_outputs = co_local st',
                  cr_pending_warrant_id = Some warrant_id, cr_failure_reason = None\<rparr>, st')) st
        else then_with (call_gateway (CallRecordVerdict m) (gw_record_verdict env i m))
               (\<lambda>st'. (Inr \<lparr>cr_verdict = mo_verdict m, cr_seat_outputs = co_local st',
                  cr_pending_warrant_id = None, cr_failure_reason = None\<rparr>, st')) st))"

definition resolve_verdict ::
  "'w gateway \<Rightarrow> incident_input \<Rightarrow> magistrate_output \<Rightarrow> ('w, coordinator_result) comp" where
  "resolve_verdict env incident m = bind_with (resolve_loop env incident m) (finish_verdict env incident)"

definition set_local :: "outputs \<Rightarrow> ('w, unit) comp" where
  "set_local outs st = (Inr (), st\<lparr>co_local := outs\<rparr>)"

text \<open>A review is a sequence of seats that ends with a verdict of the Magistrate, resolved under the
  exception handler.\<close>

definition closed_review ::
  "'w gateway \<Rightarrow> incident_input \<Rightarrow> ('w, magistrate_output) comp \<Rightarrow> ('w, coordinator_result) comp" where
  "closed_review env incident verdict =
     try_closed env (ii_incident_id incident) (bind_with verdict (resolve_verdict env incident))"

definition magistrate_review :: "'w gateway \<Rightarrow> incident_input \<Rightarrow> string \<Rightarrow> ('w, magistrate_output) comp" where
  "magistrate_review env incident phase =
     bind_with (run_seat env incident MAGISTRATE phase None False) as_magistrate"

definition first_verdict :: "'w gateway \<Rightarrow> incident_input \<Rightarrow> ('w, magistrate_output) comp" where
  "first_verdict env incident =
     then_with (initial_handoff env incident)
    (then_with (run_seat env incident INSPECTOR ''mechanism-revision'' None False)
    (then_with (run_seat env incident COUNSEL ''patch-proposal'' None False)
    (then_with (run_seat env incident PROSECUTOR ''patch-challenge'' None False)
               (magistrate_review env incident ''verdict-review''))))"

definition run_incident :: "'w gateway \<Rightarrow> incident_input \<Rightarrow> ('w, coordinator_result) comp" where
  "run_incident env incident =
     then_with (set_local [])
    (then_with (call_gateway CallBeginReview (gw_begin_review env (ii_incident_id incident)))
       (closed_review env incident (first_verdict env incident)))"

definition resume_after_approval :: "'w gateway \<Rightarrow> string \<Rightarrow> string \<Rightarrow> ('w, string) comp" where
  "resume_after_approval env incident_id warrant_id =
     bind_with (call_gateway (CallApprovedWarrant warrant_id) (gw_approved_warrant env incident_id warrant_id))
       (\<lambda>approval. case approval of
          None \<Rightarrow> fail_with PermissionError
        | Some approval_reference \<Rightarrow>
            bind_with (call_gateway (CallExecute warrant_id approval_reference)
                         (gw_execute_approved_warrant env incident_id warrant_id approval_reference))
              (\<lambda>result. case result of
                 Typed (BailiffOutput w) \<Rightarrow> if w = warrant_id then return_with w else fail_with InvalidSchema
               | _ \<Rightarrow> fail_with InvalidSchema))"

text \<open>\<^verbatim>\<open>dict(self._incident_outputs.get(incident_id, {}))\<close>, an error if it is empty.\<close>

definition load_outputs :: "string \<Rightarrow> ('w, unit) comp" where
  "load_outputs i st =
     (case co_incident_outputs st i of
        Some (x # xs) \<Rightarrow> (Inr (), st\<lparr>co_local := x # xs\<rparr>)
      | _ \<Rightarrow> (Inl (Raised LookupError), st))"

definition phase_of :: "string \<Rightarrow> seat \<Rightarrow> 'w coord \<Rightarrow> string option" where
  "phase_of i s st = Option.bind (co_incident_phases st i) (\<lambda>ph. ph s)"

text \<open>\<^verbatim>\<open>self._incident_phases.setdefault(incident_id, {})\<close>.\<close>

definition open_phases :: "string \<Rightarrow> ('w, unit) comp" where
  "open_phases i st =
     (Inr (), case co_incident_phases st i of
        None \<Rightarrow> st\<lparr>co_incident_phases := (co_incident_phases st)(i \<mapsto> Map.empty)\<rparr> | Some _ \<Rightarrow> st)"

definition unless_phase :: "string \<Rightarrow> seat \<Rightarrow> string \<Rightarrow> ('w, unit) comp \<Rightarrow> ('w, unit) comp" where
  "unless_phase i s phase m st = (if phase_of i s st = Some phase then (Inr (), st) else m st)"

definition test_failure_verdict :: "'w gateway \<Rightarrow> incident_input \<Rightarrow> ('w, magistrate_output) comp" where
  "test_failure_verdict env incident =
     (let i = ii_incident_id incident in
      then_with (unless_phase i COUNSEL ''test-failure-repair''
        (then_with (call_gateway CallBeginReview (gw_begin_review env i))
        (then_with (escalate env incident COUNSEL ''test_failure'' ''test-failure-repair'') (return_with ()))))
     (then_with (unless_phase i PROSECUTOR ''test-failure-challenge''
        (then_with (run_seat env incident PROSECUTOR ''test-failure-challenge'' None False) (return_with ())))
     (\<lambda>st.
        if phase_of i MAGISTRATE st = Some ''test-failure-review''
        then (case map_of (co_local st) MAGISTRATE of
                Some (MagistrateOutput m) \<Rightarrow> (Inr m, st) | _ \<Rightarrow> (Inl (Raised InvalidSchema), st))
        else magistrate_review env incident ''test-failure-review'' st)))"

definition resume_after_test :: "'w gateway \<Rightarrow> incident_input \<Rightarrow> bool \<Rightarrow> ('w, coordinator_result) comp" where
  "resume_after_test env incident test_passed =
     (let i = ii_incident_id incident in
      then_with (load_outputs i)
        (if test_passed
         then (\<lambda>st. (Inr \<lparr>cr_verdict = CLEAR, cr_seat_outputs = co_local st, cr_pending_warrant_id = None,
                          cr_failure_reason = None\<rparr>, st))
         else then_with (open_phases i) (closed_review env incident (test_failure_verdict env incident))))"

definition revision_verdict :: "'w gateway \<Rightarrow> incident_input \<Rightarrow> ('w, magistrate_output) comp" where
  "revision_verdict env incident =
     then_with (call_gateway CallBeginReview (gw_begin_review env (ii_incident_id incident)))
    (then_with (escalate env incident COUNSEL ''human_revision'' ''human-revision-patch'')
    (then_with (run_seat env incident PROSECUTOR ''human-revision-challenge'' None False)
               (magistrate_review env incident ''human-revision-review'')))"

definition resume_after_revision :: "'w gateway \<Rightarrow> incident_input \<Rightarrow> ('w, coordinator_result) comp" where
  "resume_after_revision env incident =
     then_with (load_outputs (ii_incident_id incident))
       (closed_review env incident (revision_verdict env incident))"

fun restore_seats ::
  "'w gateway \<Rightarrow> string \<Rightarrow> (seat \<rightharpoonup> string) \<Rightarrow> (seat \<times> raw_output \<times> effort \<times> int) list \<Rightarrow> ('w, outputs) comp" where
  "restore_seats env i pending [] = return_with []"
| "restore_seats env i pending ((s, raw, eff, n) # rest) =
     (case raw of
        Typed out \<Rightarrow>
          if seat_of_output out \<noteq> s then fail_with InvalidSchema
          else then_with (with_tracker (Raised \<circ> TrackerError)
                 (restore (gw_sha env) (gw_text env) i s (output_py out) eff n (pending s \<noteq> None) (pending s)))
               (bind_with (restore_seats env i pending rest) (\<lambda>outs. return_with ((s, out) # outs)))
      | _ \<Rightarrow> fail_with InvalidSchema)"

definition restore_incident_outputs ::
  "'w gateway \<Rightarrow> string \<Rightarrow> (seat \<times> raw_output \<times> effort \<times> int) list \<Rightarrow> (seat \<rightharpoonup> string) \<Rightarrow> (seat \<rightharpoonup> string) \<Rightarrow>
   ('w, unit) comp" where
  "restore_incident_outputs env i outs completed_phases pending_retries =
     bind_with (restore_seats env i pending_retries outs) (\<lambda>restored st.
       (Inr (), st\<lparr>co_incident_outputs := (co_incident_outputs st)(i \<mapsto> restored),
          co_incident_phases := (co_incident_phases st)(i \<mapsto> completed_phases)\<rparr>))"

section \<open>Runs\<close>

lemma resolve_loop_cases:
  assumes "resolve_loop env incident m st = (r, st')"
  obtains (decided) "mo_verdict m \<noteq> REMAND" "r = Inr m" "st' = st"
  | (failed) e where "mo_verdict m = REMAND" "remand_round env incident m st = (Inl e, st')" "r = Inl e"
  | (remanded) m' st1 where "mo_verdict m = REMAND" "remand_round env incident m st = (Inr m', st1)"
      "resolve_loop env incident m' st1 = (r, st')"
  using assms by (subst (asm) resolve_loop.simps) (auto split: if_splits prod.splits sum.splits)

context review_relation
begin

lemma keeps_resolve_loop [intro!]:
  assumes "ii_incident_id incident = i"
  shows "keeps (resolve_loop env incident m)"
proof -
  have "resolve_loop env incident m st = (r, st') \<Longrightarrow> R st st'" for m st r st'
  proof (induction "retry_work (co_tracker st) (ii_incident_id incident)" arbitrary: m st r st' rule: less_induct)
    case less
    from less.prems show ?case
    proof (cases rule: resolve_loop_cases)
      case (failed e)
      show ?thesis by (rule keepsD [OF keeps_remand_round [OF assms] failed(2)])
    next
      case (remanded m' st1)
      show ?thesis
        by (rule R_trans [OF keepsD [OF keeps_remand_round [OF assms] remanded(2)]
              less.hyps [OF remand_round_work [OF remanded(2)] remanded(3)]])
    qed (simp add: R_refl)
  qed
  then show ?thesis by (metis keeps_def prod.collapse)
qed

lemma keeps_magistrate_review [intro!]: "ii_incident_id incident = i \<Longrightarrow> keeps (magistrate_review env incident ph)"
  by (auto simp: magistrate_review_def)

lemma keeps_first_verdict [intro!]: "ii_incident_id incident = i \<Longrightarrow> keeps (first_verdict env incident)"
  by (auto simp: first_verdict_def)

lemma keeps_unless [intro!]: "keeps m \<Longrightarrow> keeps (unless_phase j s ph m)"
  by (simp add: keeps_def unless_phase_def R_refl)

lemma keeps_choice: "keeps m \<Longrightarrow> keeps (\<lambda>st. if p st then (f st, st) else m st)"
  by (simp add: keeps_def R_refl)

lemma keeps_test_failure_verdict [intro!]:
  "ii_incident_id incident = i \<Longrightarrow> keeps (test_failure_verdict env incident)"
proof -
  assume inc: "ii_incident_id incident = i"
  have "keeps (\<lambda>st. if phase_of i MAGISTRATE st = Some ''test-failure-review''
        then (case map_of (co_local st) MAGISTRATE of
                Some (MagistrateOutput m) \<Rightarrow> (Inr m, st) | _ \<Rightarrow> (Inl (Raised InvalidSchema), st))
        else magistrate_review env incident ''test-failure-review'' st)"
    using keeps_magistrate_review [OF inc] by (auto simp: keeps_def R_refl split: option.splits seat_output.splits)
  with inc show ?thesis unfolding test_failure_verdict_def Let_def by auto
qed

lemma keeps_revision_verdict [intro!]: "ii_incident_id incident = i \<Longrightarrow> keeps (revision_verdict env incident)"
  by (auto simp: revision_verdict_def)

end

text \<open>An output a run returns is validated and is the run's entry for its seat.\<close>

lemma run_seat_entry:
  assumes "run_seat env incident s ph eff retry st = (Inr out, st')"
  shows "validated env (ii_incident_id incident) s out \<and> map_of (co_local st') s = Some out"
proof -
  obtain raw st3 st4 u st5 out' where
    val: "validate env (ii_incident_id incident) s raw st3 = (Inr out', st4)"
    and st': "then_with (store_output (ii_incident_id incident) s ph out') (return_with out') st5 = (Inr out, st')"
    using assms unfolding run_seat_def Let_def by (simp only: bind_with_Inr then_with_Inr) blast
  have "out = out'" "co_local st' = AList.update s out' (co_local st5)"
    using st' by (auto simp: result_simps return_with_def store_output_def)
  with validate_Inr [OF val] show ?thesis by (simp add: update_conv')
qed

definition verdict_entry :: "magistrate_output \<Rightarrow> outputs \<Rightarrow> bool" where
  "verdict_entry m outs \<longleftrightarrow> map_of outs MAGISTRATE = Some (MagistrateOutput m)"

lemma as_magistrate_Inr: "as_magistrate out st = (Inr m, st') \<longleftrightarrow> out = MagistrateOutput m \<and> st' = st"
  by (auto simp: as_magistrate_def return_with_def fail_with_def split: seat_output.splits)

lemma magistrate_review_entry: "magistrate_review env incident ph st = (Inr m, st') \<Longrightarrow> verdict_entry m (co_local st')"
  by (auto simp: magistrate_review_def result_simps as_magistrate_Inr verdict_entry_def dest: run_seat_entry)

lemma remand_round_entry: "remand_round env incident m st = (Inr m', st') \<Longrightarrow> verdict_entry m' (co_local st')"
  by (auto simp: remand_round_def remand_review_def result_simps as_magistrate_Inr verdict_entry_def fail_with_def
      dest!: run_seat_entry split: option.splits if_splits)

lemma resolve_loop_entry:
  "resolve_loop env incident m st = (Inr m', st') \<Longrightarrow> verdict_entry m (co_local st) \<Longrightarrow>
   verdict_entry m' (co_local st') \<and> mo_verdict m' \<noteq> REMAND"
proof (induction "retry_work (co_tracker st) (ii_incident_id incident)" arbitrary: m st rule: less_induct)
  case less
  from less.prems(1) show ?case
  proof (cases rule: resolve_loop_cases)
    case (remanded m1 st1)
    show ?thesis
      by (rule less.hyps [OF remand_round_work [OF remanded(2)] remanded(3) remand_round_entry [OF remanded(2)]])
  qed (use less.prems(2) in auto)
qed

lemma first_verdict_entry: "first_verdict env incident st = (Inr m, st') \<Longrightarrow> verdict_entry m (co_local st')"
  by (auto simp: first_verdict_def result_simps dest: magistrate_review_entry)

lemma revision_verdict_entry: "revision_verdict env incident st = (Inr m, st') \<Longrightarrow> verdict_entry m (co_local st')"
  by (auto simp: revision_verdict_def result_simps dest: magistrate_review_entry)

lemma test_failure_verdict_entry:
  "test_failure_verdict env incident st = (Inr m, st') \<Longrightarrow> verdict_entry m (co_local st')"
  by (auto simp: test_failure_verdict_def Let_def result_simps verdict_entry_def
      dest: magistrate_review_entry [unfolded verdict_entry_def]
      split: if_splits option.splits seat_output.splits)

text \<open>A computation of a review: it adds review calls to the log, and a failure that counts as persisted
  was recorded by the authority just before.\<close>

definition duplicate_recorded :: "call list \<Rightarrow> bool" where
  "duplicate_recorded cs \<longleftrightarrow> (\<exists>ds s eff ph out reason. cs = ds @ [CallRejectDuplicate s eff ph out reason])"

definition reviews :: "('w, 'a) comp \<Rightarrow> bool" where
  "reviews m \<longleftrightarrow> (\<forall>st r st'. m st = (r, st') \<longrightarrow> (\<exists>cs. co_log st' = co_log st @ cs \<and> list_all review_call cs \<and>
     (r = Inl RetryFailureAlreadyPersisted \<longrightarrow> duplicate_recorded cs)))"

lemma reviewsD:
  assumes "reviews m" "m st = (r, st')"
  obtains cs where "co_log st' = co_log st @ cs" "list_all review_call cs"
    "r = Inl RetryFailureAlreadyPersisted \<longrightarrow> duplicate_recorded cs"
  using assms unfolding reviews_def by blast

lemma duplicate_recorded_append: "duplicate_recorded cs \<Longrightarrow> duplicate_recorded (bs @ cs)"
  unfolding duplicate_recorded_def by (metis append.assoc)

lemma reviews_basic [intro!]:
  "reviews (return_with x)" "reviews (fail_with e)" "reviews (lift_result f)" "reviews (store_output i s ph out)"
  "reviews (as_magistrate out)" "review_call c \<Longrightarrow> reviews (call_gateway c g)"
  by (auto simp: reviews_def return_with_def fail_with_def lift_result_def call_gateway_def store_output_def
      as_magistrate_def Let_def result_simps split: prod.splits seat_output.splits)

lemma reviews_tracker [intro!]:
  "(\<And>e. raise e \<noteq> RetryFailureAlreadyPersisted) \<Longrightarrow> reviews (with_tracker raise h)"
  by (auto simp: reviews_def with_tracker_def Let_def result_simps split: prod.splits) metis

lemma reviews_bind [intro!]:
  assumes "reviews m" "\<And>x. reviews (f x)"
  shows "reviews (bind_with m f)"
  unfolding reviews_def
proof (intro allI impI)
  fix st r st'
  assume run: "bind_with m f st = (r, st')"
  obtain x st1 where m: "m st = (x, st1)" by fastforce
  obtain cs where cs: "co_log st1 = co_log st @ cs" "list_all review_call cs"
    "x = Inl RetryFailureAlreadyPersisted \<longrightarrow> duplicate_recorded cs"
    by (rule reviewsD [OF assms(1) m])
  show "\<exists>cs. co_log st' = co_log st @ cs \<and> list_all review_call cs \<and>
     (r = Inl RetryFailureAlreadyPersisted \<longrightarrow> duplicate_recorded cs)"
  proof (cases x)
    case (Inl e)
    then show ?thesis using run m cs by (auto simp: bind_with_def)
  next
    case (Inr y)
    then have "f y st1 = (r, st')" using run m by (simp add: bind_with_def)
    then obtain ds where "co_log st' = co_log st1 @ ds" "list_all review_call ds"
      "r = Inl RetryFailureAlreadyPersisted \<longrightarrow> duplicate_recorded ds"
      using reviewsD [OF assms(2)] by blast
    then show ?thesis using cs(1,2) by (intro exI [of _ "cs @ ds"]) (auto intro: duplicate_recorded_append)
  qed
qed

lemma reviews_then [intro!]: "reviews m \<Longrightarrow> reviews n \<Longrightarrow> reviews (then_with m n)"
  unfolding then_with_def by (rule reviews_bind)

lemma reviews_if [intro!]: "reviews m \<Longrightarrow> reviews n \<Longrightarrow> reviews (if b then m else n)"
  by simp

lemma private_errors [simp]:
  "accept_error s eff ph out e \<noteq> RetryFailureAlreadyPersisted" "begin_error e \<noteq> RetryFailureAlreadyPersisted"
  by (simp_all add: accept_error_def begin_error_def split: escalation_error.splits)

lemma reviews_run_seat [intro!]: "reviews (run_seat env incident s ph eff retry)"
  by (auto simp: run_seat_def Let_def select_effort_def invoke_runtime_def validate_def settle_output_def
      split: option.splits)

lemma reviews_handoff [intro!]: "reviews (initial_handoff env incident)"
  by (auto simp: initial_handoff_def Let_def select_effort_def validate_def record_output_def split: option.splits)

lemma reviews_reject [intro!]:
  assumes "reviews m"
  shows "reviews (reject_duplicate env i reason m)"
  unfolding reviews_def
proof (intro allI impI)
  fix st r st'
  assume run: "reject_duplicate env i reason m st = (r, st')"
  obtain x st1 where m: "m st = (x, st1)" by fastforce
  obtain cs where cs: "co_log st1 = co_log st @ cs" "list_all review_call cs"
    "x = Inl RetryFailureAlreadyPersisted \<longrightarrow> duplicate_recorded cs"
    by (rule reviewsD [OF assms m])
  have "x = r \<and> st1 = st' \<or> (\<exists>s eff ph out. co_log st' = co_log st1 @ [CallRejectDuplicate s eff ph out reason])"
    using run m
    by (auto simp: reject_duplicate_def then_with_def bind_with_def call_gateway_def Let_def
        split: prod.splits sum.splits coordinator_failure.splits)
  then show "\<exists>cs. co_log st' = co_log st @ cs \<and> list_all review_call cs \<and>
     (r = Inl RetryFailureAlreadyPersisted \<longrightarrow> duplicate_recorded cs)"
    using cs by (elim disjE exE) (auto simp: duplicate_recorded_def)
qed

lemma reviews_escalate [intro!]: "reviews (escalate env incident s reason ph)"
  by (auto simp: escalate_def grant_escalation_def split: option.splits)

lemma reviews_remand_round [intro!]: "reviews (remand_round env incident m)"
  by (auto simp: remand_round_def remand_review_def split: option.splits)

lemma reviews_resolve_loop [intro!]: "reviews (resolve_loop env incident m)"
proof -
  have "resolve_loop env incident m st = (r, st') \<Longrightarrow> \<exists>cs. co_log st' = co_log st @ cs \<and>
    list_all review_call cs \<and> (r = Inl RetryFailureAlreadyPersisted \<longrightarrow> duplicate_recorded cs)" for m st r st'
  proof (induction "retry_work (co_tracker st) (ii_incident_id incident)" arbitrary: m st rule: less_induct)
    case less
    from less.prems show ?case
    proof (cases rule: resolve_loop_cases)
      case (failed e)
      then show ?thesis using reviews_remand_round [of env incident m] unfolding reviews_def by blast
    next
      case (remanded m' st1)
      obtain cs where "co_log st1 = co_log st @ cs" "list_all review_call cs"
        using reviewsD [OF reviews_remand_round remanded(2)] by blast
      moreover obtain ds where "co_log st' = co_log st1 @ ds" "list_all review_call ds"
        "r = Inl RetryFailureAlreadyPersisted \<longrightarrow> duplicate_recorded ds"
        using less.hyps [OF remand_round_work [OF remanded(2)] remanded(3)] by blast
      ultimately show ?thesis by (intro exI [of _ "cs @ ds"]) (auto intro: duplicate_recorded_append)
    qed simp
  qed
  then show ?thesis unfolding reviews_def by blast
qed

lemma reviews_first_verdict [intro!]: "reviews (first_verdict env incident)"
  by (auto simp: first_verdict_def magistrate_review_def)

lemma reviews_revision_verdict [intro!]: "reviews (revision_verdict env incident)"
  by (auto simp: revision_verdict_def magistrate_review_def)

section \<open>How a review ends\<close>

text \<open>The calls a finished review adds and the result it returns: an opened approval for a CLEAR verdict,
  a recorded BLOCK or ABSTAIN, a duplicate retry the authority recorded, or a recorded failure.\<close>

inductive closes :: "call list \<Rightarrow> coordinator_result \<Rightarrow> bool" where
  opened: "list_all review_call cs \<Longrightarrow> mo_verdict m = CLEAR \<Longrightarrow> verdict_entry m outs \<Longrightarrow>
    closes (cs @ [CallOpenApproval m outs])
      \<lparr>cr_verdict = CLEAR, cr_seat_outputs = outs, cr_pending_warrant_id = Some w, cr_failure_reason = None\<rparr>"
| decided: "list_all review_call cs \<Longrightarrow> mo_verdict m \<in> {BLOCK, ABSTAIN} \<Longrightarrow> verdict_entry m outs \<Longrightarrow>
    closes (cs @ [CallRecordVerdict m])
      \<lparr>cr_verdict = mo_verdict m, cr_seat_outputs = outs, cr_pending_warrant_id = None, cr_failure_reason = None\<rparr>"
| duplicate: "list_all review_call (cs @ [CallRejectDuplicate s eff ph out reason]) \<Longrightarrow>
    closes (cs @ [CallRejectDuplicate s eff ph out reason])
      \<lparr>cr_verdict = ABSTAIN, cr_seat_outputs = outs, cr_pending_warrant_id = None,
       cr_failure_reason = Some ''escalation_exhausted''\<rparr>"
| failed: "list_all (\<lambda>c. review_call c \<or> (\<exists>m outs. c = CallOpenApproval m outs)) cs \<Longrightarrow>
    closes (cs @ [CallFailClosed reason])
      \<lparr>cr_verdict = ABSTAIN, cr_seat_outputs = outs, cr_pending_warrant_id = None, cr_failure_reason = Some reason\<rparr>"

lemma finish_verdict_Inr:
  assumes "finish_verdict env incident m st = (Inr res, st')"
  obtains (cleared) w where "mo_verdict m = CLEAR" "co_log st' = co_log st @ [CallOpenApproval m (co_local st)]"
      "res = \<lparr>cr_verdict = CLEAR, cr_seat_outputs = co_local st, cr_pending_warrant_id = Some w, cr_failure_reason = None\<rparr>"
  | (other) "mo_verdict m \<noteq> CLEAR" "co_log st' = co_log st @ [CallRecordVerdict m]"
      "res = \<lparr>cr_verdict = mo_verdict m, cr_seat_outputs = co_local st, cr_pending_warrant_id = None, cr_failure_reason = None\<rparr>"
  using assms
  by (auto simp: finish_verdict_def Let_def result_simps keep_outputs_def call_gateway_def
      split: if_splits prod.splits)

lemma finish_verdict_Inl:
  assumes "finish_verdict env incident m st = (Inl e, st')"
  shows "e \<noteq> RetryFailureAlreadyPersisted \<and>
    (co_log st' = co_log st @ [CallOpenApproval m (co_local st)] \<or> co_log st' = co_log st @ [CallRecordVerdict m]) \<and>
    co_local st' = co_local st"
  using assms
  by (auto simp: finish_verdict_def Let_def result_simps keep_outputs_def call_gateway_def then_with_def bind_with_def
      split: if_splits prod.splits sum.splits)

lemma fail_closed_cases:
  assumes "fail_closed env i e st = (r, st')"
  obtains (kept) "e = RetryFailureAlreadyPersisted" "co_log st' = co_log st"
      "r = Inr \<lparr>cr_verdict = ABSTAIN, cr_seat_outputs = co_local st, cr_pending_warrant_id = None,
                cr_failure_reason = Some ''escalation_exhausted''\<rparr>"
  | (recorded) "co_log st' = co_log st @ [CallFailClosed (reason_of e)]"
      "r = Inr \<lparr>cr_verdict = ABSTAIN, cr_seat_outputs = co_local st, cr_pending_warrant_id = None,
                cr_failure_reason = Some (reason_of e)\<rparr>"
  | (unrecorded) f where "fst (gw_fail_closed_abstain env i (reason_of e) (co_world st)) = Inl f" "r = Inl (Raised f)"
proof (cases "e = RetryFailureAlreadyPersisted")
  case True
  then show thesis
    using assms by (intro kept) (auto simp: fail_closed_def then_with_def bind_with_def return_with_def keep_outputs_def)
next
  case False
  obtain x w where x: "gw_fail_closed_abstain env i (reason_of e) (co_world st) = (x, w)" by fastforce
  show thesis
  proof (cases x)
    case (Inl f)
    then show thesis
      using assms False x
      by (intro unrecorded [of f]) (auto simp: fail_closed_def Let_def then_with_def bind_with_def call_gateway_def)
  next
    case (Inr u)
    then show thesis
      using assms False x
      by (intro recorded)
        (auto simp: fail_closed_def Let_def then_with_def bind_with_def call_gateway_def keep_outputs_def)
  qed
qed

lemma resolve_verdict_split:
  "bind_with verdict (resolve_verdict env incident) st =
   (case bind_with verdict (resolve_loop env incident) st of
      (Inl e, st1) \<Rightarrow> (Inl e, st1) | (Inr m, st1) \<Rightarrow> finish_verdict env incident m st1)"
  by (cases "verdict st"; cases "fst (verdict st)") (simp_all add: resolve_verdict_def bind_with_def)

text \<open>Before the exception handler: either the case is closed, or the calls are those of a review and, at
  most, one attempt to open an approval.\<close>

lemma review_before_handler:
  assumes "bind_with verdict (resolve_verdict env incident) st = (r, st')" and "reviews verdict"
    and entry: "\<And>st m st'. verdict st = (Inr m, st') \<Longrightarrow> verdict_entry m (co_local st')"
  obtains cs where "co_log st' = co_log st @ cs"
    "list_all (\<lambda>c. review_call c \<or> (\<exists>m outs. c = CallOpenApproval m outs)) cs"
    "r = Inl RetryFailureAlreadyPersisted \<longrightarrow> list_all review_call cs \<and> duplicate_recorded cs"
    "\<forall>res. r = Inr res \<longrightarrow> closes cs res"
proof -
  let ?run = "bind_with verdict (resolve_loop env incident)"
  obtain x st1 where x: "?run st = (x, st1)" by fastforce
  have "reviews ?run" using assms(2) by auto
  from reviewsD [OF this x] obtain cs where cs: "co_log st1 = co_log st @ cs" "list_all review_call cs"
    "x = Inl RetryFailureAlreadyPersisted \<longrightarrow> duplicate_recorded cs" by blast
  have weaker: "list_all (\<lambda>c. review_call c \<or> (\<exists>m outs. c = CallOpenApproval m outs)) cs"
    using cs(2) by (auto simp: list_all_iff)
  show thesis
  proof (cases x)
    case (Inl e)
    then have "r = Inl e" "st' = st1" using assms(1) x by (auto simp: resolve_verdict_split)
    with cs weaker Inl show thesis by (intro that [of cs]) auto
  next
    case (Inr m)
    then have fin: "finish_verdict env incident m st1 = (r, st')" using assms(1) x by (simp add: resolve_verdict_split)
    obtain m0 st0 where "verdict st = (Inr m0, st0)" "resolve_loop env incident m0 st0 = (Inr m, st1)"
      using x Inr by (auto simp: result_simps)
    then have m: "verdict_entry m (co_local st1)" "mo_verdict m \<noteq> REMAND"
      using entry resolve_loop_entry by blast+
    show thesis
    proof (cases r)
      case (Inl e)
      with finish_verdict_Inl [of env incident m st1 e st'] fin cs weaker show thesis
        by (intro that [of "cs @ [if co_log st' = co_log st1 @ [CallRecordVerdict m] then CallRecordVerdict m
                              else CallOpenApproval m (co_local st1)]"]) auto
    next
      case (Inr res)
      from fin [unfolded Inr] show thesis
      proof (cases rule: finish_verdict_Inr)
        case (cleared w)
        show thesis
          by (rule that [of "cs @ [CallOpenApproval m (co_local st1)]"])
            (use cs weaker cleared Inr m closes.opened [OF cs(2) cleared(1) m(1)] in auto)
      next
        case other
        then have "mo_verdict m \<in> {BLOCK, ABSTAIN}" using m(2) by (cases "mo_verdict m") auto
        with other show thesis
          by (intro that [of "cs @ [CallRecordVerdict m]"])
            (use cs weaker Inr m closes.decided [OF cs(2) _ m(1)] in auto)
      qed
    qed
  qed
qed

lemma closed_review_closes:
  assumes run: "closed_review env incident verdict st = (Inr res, st')" and "reviews verdict"
    and entry: "\<And>st m st'. verdict st = (Inr m, st') \<Longrightarrow> verdict_entry m (co_local st')"
  shows "\<exists>cs. co_log st' = co_log st @ cs \<and> closes cs res"
proof -
  obtain x st1 where x: "bind_with verdict (resolve_verdict env incident) st = (x, st1)" by fastforce
  obtain cs where cs: "co_log st1 = co_log st @ cs"
    "list_all (\<lambda>c. review_call c \<or> (\<exists>m outs. c = CallOpenApproval m outs)) cs"
    "x = Inl RetryFailureAlreadyPersisted \<longrightarrow> list_all review_call cs \<and> duplicate_recorded cs"
    "\<forall>res. x = Inr res \<longrightarrow> closes cs res"
    by (rule review_before_handler [OF x assms(2) entry])
  show ?thesis
  proof (cases x)
    case (Inr r)
    then show ?thesis using run x cs by (auto simp: closed_review_def try_closed_def)
  next
    case (Inl e)
    then have "fail_closed env (ii_incident_id incident) e st1 = (Inr res, st')"
      using run x by (simp add: closed_review_def try_closed_def split: if_splits)
    then show ?thesis
    proof (cases rule: fail_closed_cases)
      case kept
      then obtain ds s eff ph out reason where "cs = ds @ [CallRejectDuplicate s eff ph out reason]"
        using cs(3) Inl by (auto simp: duplicate_recorded_def)
      then show ?thesis using kept cs(1,3) Inl closes.duplicate by (metis sum.inject(2))
    next
      case recorded
      then show ?thesis using cs(1) closes.failed [OF cs(2)] by (intro exI [of _ "cs @ [CallFailClosed (reason_of e)]"]) auto
    qed simp
  qed
qed

lemma closed_review_raises:
  assumes "closed_review env incident verdict st = (Inl e, st')"
  shows "e = Raised Cancelled \<or>
    (\<exists>f reason w. fst (gw_fail_closed_abstain env (ii_incident_id incident) reason w) = Inl f \<and> e = Raised f)"
proof -
  obtain x st1 where x: "bind_with verdict (resolve_verdict env incident) st = (x, st1)" by fastforce
  with assms obtain e1 where e1: "x = Inl e1"
    and "if is_exception e1 then fail_closed env (ii_incident_id incident) e1 st1 = (Inl e, st') else e = e1"
    by (cases x) (auto simp: closed_review_def try_closed_def split: if_splits)
  then show ?thesis
    by (auto simp: is_exception_def split: if_splits elim: fail_closed_cases)
qed

lemma finish_verdict_local: "co_local (snd (finish_verdict env incident m st)) = co_local st"
  by (auto simp: finish_verdict_def Let_def then_with_def bind_with_def keep_outputs_def call_gateway_def
      split: prod.splits sum.splits)

lemma closed_review_outputs:
  assumes run: "closed_review env incident verdict st = (Inr res, st')"
    and keep: "outputs_relation.keeps env (ii_incident_id incident) verdict"
    and start: "outputs_validated env (ii_incident_id incident) (co_local st)"
  shows "outputs_validated env (ii_incident_id incident) (cr_seat_outputs res)"
proof -
  obtain x st1 where x: "bind_with verdict (resolve_loop env incident) st = (x, st1)" by fastforce
  have "outputs_relation.keeps env (ii_incident_id incident) (bind_with verdict (resolve_loop env incident))"
    using keep by (intro outputs_relation.keeps_bind outputs_relation.keeps_resolve_loop) simp_all
  from outputs_relation.keepsD [OF this x] start
  have st1: "outputs_validated env (ii_incident_id incident) (co_local st1)" by blast
  have split: "bind_with verdict (resolve_verdict env incident) st =
      (case x of Inl e \<Rightarrow> (Inl e, st1) | Inr m \<Rightarrow> finish_verdict env incident m st1)"
    using x by (simp add: resolve_verdict_split)
  obtain y st2 where y: "bind_with verdict (resolve_verdict env incident) st = (y, st2)" by fastforce
  have local: "co_local st2 = co_local st1"
    using finish_verdict_local [of env incident _ st1] split [unfolded y] by (cases x) (auto, metis snd_conv)
  show ?thesis
  proof (cases y)
    case (Inr r)
    then have "r = res" using run y by (simp add: closed_review_def try_closed_def)
    moreover obtain m where "finish_verdict env incident m st1 = (Inr r, st2)"
      using y split Inr by (cases x) auto
    then have "cr_seat_outputs r = co_local st1" by (auto elim!: finish_verdict_Inr)
    ultimately show ?thesis using st1 by simp
  next
    case (Inl e)
    then have "fail_closed env (ii_incident_id incident) e st2 = (Inr res, st')"
      using run y by (simp add: closed_review_def try_closed_def split: if_splits)
    then have "cr_seat_outputs res = co_local st2" by (auto elim!: fail_closed_cases)
    then show ?thesis using st1 local by simp
  qed
qed

lemma reviews_unless: "reviews m \<Longrightarrow> reviews (unless_phase i s ph m)"
  by (simp add: reviews_def unless_phase_def)

lemma reviews_test_failure_verdict [intro!]: "reviews (test_failure_verdict env incident)"
proof -
  have "reviews (\<lambda>st. if phase_of (ii_incident_id incident) MAGISTRATE st = Some ''test-failure-review''
        then (case map_of (co_local st) MAGISTRATE of
                Some (MagistrateOutput m) \<Rightarrow> (Inr m, st) | _ \<Rightarrow> (Inl (Raised InvalidSchema), st))
        else magistrate_review env incident ''test-failure-review'' st)"
  proof -
    have "reviews (magistrate_review env incident ''test-failure-review'')" by (auto simp: magistrate_review_def)
    then show ?thesis by (auto simp: reviews_def split: option.splits seat_output.splits)
  qed
  then show ?thesis
    unfolding test_failure_verdict_def Let_def by (intro reviews_then reviews_unless) auto
qed

text \<open>The verdict loop with fuel: how many rounds it may take.\<close>

fun loop_fuel ::
  "nat \<Rightarrow> 'w gateway \<Rightarrow> incident_input \<Rightarrow> magistrate_output \<Rightarrow> 'w coord \<Rightarrow>
   ((coordinator_failure + magistrate_output) \<times> 'w coord) option" where
  "loop_fuel 0 env incident m st = None"
| "loop_fuel (Suc n) env incident m st =
     (if mo_verdict m \<noteq> REMAND then Some (Inr m, st)
      else (case remand_round env incident m st of
              (Inl e, st') \<Rightarrow> Some (Inl e, st')
            | (Inr m', st') \<Rightarrow> loop_fuel n env incident m' st'))"

lemma loop_fuel_enough:
  "retry_work (co_tracker st) (ii_incident_id incident) < n \<Longrightarrow>
   loop_fuel n env incident m st = Some (resolve_loop env incident m st)"
proof (induction n arbitrary: m st)
  case (Suc n)
  show ?case
  proof (cases "mo_verdict m = REMAND")
    case True
    obtain x st1 where x: "remand_round env incident m st = (x, st1)" by fastforce
    show ?thesis
    proof (cases x)
      case (Inr m')
      then have "retry_work (co_tracker st1) (ii_incident_id incident) < n"
        using remand_round_work [of env incident m st m' st1] x Suc.prems by simp
      with Suc.IH [of st1 m'] show ?thesis using True x Inr by (simp add: resolve_loop.simps [of env incident m st])
    qed (use True x in \<open>simp add: resolve_loop.simps [of env incident m st]\<close>)
  qed (simp add: resolve_loop.simps [of env incident m st])
qed simp

section \<open>A concrete case\<close>

definition case_inspector :: inspector_output where
  "case_inspector = \<lparr>io_mechanism = CHECK_THEN_INSERT_RACE, io_evidence_ids = [''ev-1''], io_falsifiers = [],
     io_analysis = []\<rparr>"

definition case_prosecutor :: prosecutor_variant where
  "case_prosecutor = NoSupportedRival [''cx-1''] [''t-1''] [''ev-1''] []"

definition case_counsel :: counsel_output where
  "case_counsel = \<lparr>co_normalized_diff = ''diff'', co_test_intentions = [\<lparr>ti_catalog_id = ''t'', ti_purpose = ''p''\<rparr>],
     co_evidence_ids = [''ev-1''], co_analysis = []\<rparr>"

definition case_magistrate :: magistrate_output where
  "case_magistrate = \<lparr>mo_verdict = CLEAR, mo_finding_codes = [''f''], mo_required_changes = [], mo_remand_target = None,
     mo_evidence_ids = [''ev-1''], mo_analysis = []\<rparr>"

fun case_output :: "seat \<Rightarrow> seat_output" where
  "case_output INSPECTOR = InspectorOutput case_inspector"
| "case_output PROSECUTOR = ProsecutorOutput case_prosecutor"
| "case_output COUNSEL = CounselOutput case_counsel"
| "case_output MAGISTRATE = MagistrateOutput case_magistrate"
| "case_output BAILIFF = BailiffOutput ''w-1''"

definition case_gateway :: "unit gateway" where
  "case_gateway =
     \<lparr>gw_sha = (\<lambda>_. replicate 64 (CHR ''0'')), gw_text = ascii_ops,
      gw_handoff = (\<lambda>req a b v w. (Inr (Some (case_inspector, case_prosecutor)), w)),
      gw_run_seat = (\<lambda>s eff ph req w. (Inr (Typed (case_output s)), w)), gw_deferred = None,
      gw_execute_approved_warrant = (\<lambda>i w a u. (Inr (Typed (BailiffOutput w)), u)),
      gw_begin_review = (\<lambda>i w. (Inr (), w)), gw_fail_closed_abstain = (\<lambda>i r w. (Inr (), w)),
      gw_record_verdict = (\<lambda>i m w. (Inr (), w)), gw_open_approval = (\<lambda>i m outs w. (Inr ''w-1'', w)),
      gw_record_escalation = (\<lambda>i s d w. (Inr (), w)),
      gw_reject_duplicate_retry = (\<lambda>i s eff ph out r w. (Inr (), w)),
      gw_approved_warrant = (\<lambda>i w u. (Inr (if w = ''w-1'' then Some ''approval-1'' else None), u)),
      gw_contains_all = (\<lambda>i ids w. (Inr (set ids \<subseteq> {''ev-1''}), w))\<rparr>"

definition case_incident :: incident_input where
  "case_incident = \<lparr>ii_incident_id = ''inc-1'', ii_scenario = WebhookRace, ii_candidate_plan_id = ''plan-1'',
     ii_evidence = []\<rparr>"

definition new_coordinator :: "unit coord" where
  "new_coordinator = \<lparr>co_world = (), co_tracker = Map.empty, co_incident_outputs = Map.empty,
     co_incident_phases = Map.empty, co_local = [], co_log = []\<rparr>"

definition case_result :: coordinator_result where
  "case_result = \<lparr>cr_verdict = CLEAR, cr_seat_outputs = map (\<lambda>s. (s, case_output s)) [INSPECTOR, PROSECUTOR, COUNSEL, MAGISTRATE],
     cr_pending_warrant_id = Some ''w-1'', cr_failure_reason = None\<rparr>"

lemma case_incident_id [simp]: "ii_incident_id case_incident = ''inc-1''"
  by (simp add: case_incident_def)

lemma ascii_nfc_laws: "nfc_laws (op_nfc ascii_ops)"
  using ascii_ops_laws by (simp add: text_laws_def)

lemma zero_fingerprint:
  "seat_of_output out = s \<Longrightarrow>
   semantic_fingerprint (\<lambda>_. replicate 64 (CHR ''0'')) ascii_ops s (output_py out) = Inr (replicate 64 (CHR ''0''))"
  using typed_fingerprint [OF ascii_nfc_laws, of out "\<lambda>_. replicate 64 (CHR ''0'')"] by metis

lemma zero_summary:
  "seat_of_output out = s \<Longrightarrow> is_ok (summarize_output (\<lambda>_. replicate 64 (CHR ''0'')) ascii_ops s out)"
  using payload_of_output [of ascii_ops out]
  by (auto simp: summarize_output_def zero_fingerprint is_sha256_def is_hex_def is_digit_def list_all_iff simp del: replicate.simps)

definition typed_outputs :: "outputs \<Rightarrow> bool" where
  "typed_outputs outs \<longleftrightarrow> list_all (\<lambda>(s, out). seat_of_output out = s) outs"

lemma typed_outputs_update:
  "typed_outputs outs \<Longrightarrow> seat_of_output out = s \<Longrightarrow> typed_outputs (AList.update s out outs)"
  by (induction outs) (auto simp: typed_outputs_def)

lemma case_request:
  assumes "typed_outputs outs" "is_phase ph"
  obtains req where "request_of case_gateway case_incident ph outs = Inr req"
proof -
  have "is_ok (map_result (\<lambda>(s, out). summarize_output (gw_sha case_gateway) (gw_text case_gateway) s out) outs)"
    using assms(1)
  proof (induction outs)
    case (Cons x outs)
    obtain s out where x: "x = (s, out)" by fastforce
    have "is_ok (summarize_output (gw_sha case_gateway) (gw_text case_gateway) s out)"
      using Cons.prems x zero_summary [of out s] by (simp add: typed_outputs_def case_gateway_def)
    with Cons x show ?case
      by (cases "summarize_output (gw_sha case_gateway) (gw_text case_gateway) s out";
          cases "map_result (\<lambda>(s, out). summarize_output (gw_sha case_gateway) (gw_text case_gateway) s out) outs")
        (auto simp: typed_outputs_def)
  qed simp
  then obtain sums where
    "map_result (\<lambda>(s, out). summarize_output (gw_sha case_gateway) (gw_text case_gateway) s out) outs = Inr sums"
    by (auto simp: is_ok_def split: sum.splits)
  moreover have "is_storage_id ''inc-1''" "is_identifier ''plan-1''" by code_simp+
  ultimately show thesis
    using that assms(2) by (simp add: request_of_def run_input_ok_def case_incident_def)
qed

definition case_state :: "unit coord \<Rightarrow> bool" where
  "case_state st \<longleftrightarrow> tracker_ok (co_tracker st) \<and> typed_outputs (co_local st)"

lemma case_record:
  assumes "case_state st" "seat_of_output out = s"
  obtains st' where "with_tracker (Raised \<circ> TrackerError)
      (record_initial (gw_sha case_gateway) (gw_text case_gateway) i s (output_py out)) st = (Inr (), st')"
    "case_state st'" "co_local st' = co_local st"
  using assms record_initial_ok [of "co_tracker st" "gw_sha case_gateway" "gw_text case_gateway" i s "output_py out"]
  by (auto simp: with_tracker_def case_state_def record_initial_def case_gateway_def zero_fingerprint Let_def
      simp del: replicate.simps)

lemma case_store:
  assumes "case_state st" "seat_of_output out = s"
  obtains st' where "store_output i s ph out st = (Inr (), st')" "case_state st'"
    "co_local st' = AList.update s out (co_local st)"
proof -
  have "typed_outputs (AList.update s out (co_local st))"
    using assms by (simp add: case_state_def typed_outputs_update)
  then show thesis using assms that by (simp add: store_output_def case_state_def)
qed

lemma case_validate:
  assumes "case_state st" "seat_of_output out = s" "s \<noteq> BAILIFF" "remand_ok out" "evidence_ids out = [''ev-1'']"
  obtains st' where "validate case_gateway i s (Typed out) st = (Inr out, st')" "case_state st'"
    "co_local st' = co_local st"
  using assms
  by (auto simp: validate_def bind_with_def lift_result_def check_output_def call_gateway_def return_with_def
      case_gateway_def case_state_def)

lemma case_effort:
  assumes "case_state st"
  obtains e where "select_effort i s None st = (Inr e, st)"
proof -
  have "state_ok s x" if "co_tracker st (i, s) = Some x" for x
    using assms that by (auto simp: case_state_def dest: tracker_okD)
  then have "(case co_tracker st (i, s) of None \<Rightarrow> 0 | Some x \<Rightarrow> ss_effort_index x) <
      length (effort_ladder (spec_by_seat s))"
    by (auto simp: state_ok_def split: option.splits)
  then have "current_effort i s (co_tracker st) =
      Inr (effort_ladder (spec_by_seat s) ! (case co_tracker st (i, s) of None \<Rightarrow> 0 | Some x \<Rightarrow> ss_effort_index x))"
    by (simp only: current_effort_def ladder_at_def if_True)
  then show thesis using that by (simp add: select_effort_def lift_result_def)
qed

lemma case_output_facts:
  "s \<noteq> BAILIFF \<Longrightarrow> seat_of_output (case_output s) = s \<and> remand_ok (case_output s) \<and> evidence_ids (case_output s) = [''ev-1'']"
  by (cases s) (simp_all add: case_inspector_def case_prosecutor_def case_counsel_def case_magistrate_def)

lemma case_run_seat:
  assumes st: "case_state st" and s: "s \<noteq> BAILIFF" and ph: "is_phase ph"
  obtains st' where "run_seat case_gateway case_incident s ph None False st = (Inr (case_output s), st')"
    "case_state st'" "co_local st' = AList.update s (case_output s) (co_local st)"
proof -
  note facts = case_output_facts [OF s]
  obtain e where e: "select_effort ''inc-1'' s None st = (Inr e, st)" by (rule case_effort [OF st])
  obtain req where req: "request_of case_gateway case_incident ph (co_local st) = Inr req"
    by (rule case_request [OF _ ph, of "co_local st"]) (use st in \<open>simp add: case_state_def\<close>)
  define st1 where "st1 = st\<lparr>co_world := (), co_log := co_log st @ [CallRunSeat s e ph]\<rparr>"
  have inv: "invoke_runtime case_gateway False s e ph req st = (Inr (Typed (case_output s)), st1)"
    by (simp add: invoke_runtime_def call_gateway_def case_gateway_def st1_def)
  have "case_state st1" "co_local st1 = co_local st" using st by (simp_all add: st1_def case_state_def)
  then obtain st2 where v: "validate case_gateway ''inc-1'' s (Typed (case_output s)) st1 = (Inr (case_output s), st2)"
    "case_state st2" "co_local st2 = co_local st"
    using case_validate [of st1 "case_output s" s "''inc-1''"] facts s by metis
  obtain st3 where r: "settle_output case_gateway ''inc-1'' False s e ph (case_output s) st2 = (Inr (), st3)"
    "case_state st3" "co_local st3 = co_local st"
    using case_record [OF v(2), of "case_output s" s "''inc-1''"] facts v(3) by (auto simp: settle_output_def)
  obtain st4 where "store_output ''inc-1'' s ph (case_output s) st3 = (Inr (), st4)" "case_state st4"
    "co_local st4 = AList.update s (case_output s) (co_local st3)"
    by (rule case_store [OF r(2), of "case_output s" s "''inc-1''" ph]) (use facts in auto)
  with e req inv v(1) r show thesis
    by (intro that [of st4])
      (simp_all add: run_seat_def Let_def bind_with_def then_with_def lift_result_def return_with_def)
qed

lemma case_handoff:
  assumes st: "case_state st" and empty: "co_local st = []"
  obtains st' where "initial_handoff case_gateway case_incident st = (Inr (), st')" "case_state st'"
    "co_local st' = [(INSPECTOR, case_output INSPECTOR), (PROSECUTOR, case_output PROSECUTOR)]"
proof -
  obtain e f where e: "select_effort ''inc-1'' INSPECTOR None st = (Inr e, st)"
    "select_effort ''inc-1'' PROSECUTOR None st = (Inr f, st)"
    by (metis case_effort [OF st])
  have "is_phase ''mechanism-analysis''" by code_simp
  then obtain req where req: "request_of case_gateway case_incident ''mechanism-analysis'' (co_local st) = Inr req"
    using case_request [of "co_local st"] st by (auto simp: case_state_def)
  define st1 where "st1 = st\<lparr>co_world := (), co_log := co_log st @ [CallHandoff]\<rparr>"
  have h: "call_gateway CallHandoff (gw_handoff case_gateway req e f (validate_inspector case_gateway ''inc-1'')) st =
      (Inr (Some (case_inspector, case_prosecutor)), st1)"
    by (simp add: call_gateway_def case_gateway_def st1_def)
  have st1: "case_state st1" "co_local st1 = []" using st empty by (simp_all add: st1_def case_state_def)
  obtain st2 where v: "validate case_gateway ''inc-1'' INSPECTOR (Typed (case_output INSPECTOR)) st1 = (Inr (case_output INSPECTOR), st2)"
    "case_state st2" "co_local st2 = []"
    using case_validate [OF st1(1), of "case_output INSPECTOR" INSPECTOR "''inc-1''"] case_output_facts [of INSPECTOR] st1(2)
    by auto
  obtain st3 where w: "validate case_gateway ''inc-1'' PROSECUTOR (Typed (case_output PROSECUTOR)) st2 = (Inr (case_output PROSECUTOR), st3)"
    "case_state st3" "co_local st3 = []"
    using case_validate [OF v(2), of "case_output PROSECUTOR" PROSECUTOR "''inc-1''"] case_output_facts [of PROSECUTOR] v(3)
    by auto
  obtain st4 where r: "record_output case_gateway ''inc-1'' (case_output INSPECTOR) st3 = (Inr (), st4)"
    "case_state st4" "co_local st4 = []"
    using case_record [OF w(2), of "case_output INSPECTOR" INSPECTOR "''inc-1''"] w(3)
    by (auto simp: record_output_def)
  obtain st5 where r': "record_output case_gateway ''inc-1'' (case_output PROSECUTOR) st4 = (Inr (), st5)"
    "case_state st5" "co_local st5 = []"
    using case_record [OF r(2), of "case_output PROSECUTOR" PROSECUTOR "''inc-1''"] r(3)
    by (auto simp: record_output_def)
  obtain st6 where s: "store_output ''inc-1'' INSPECTOR ''mechanism-analysis'' (case_output INSPECTOR) st5 = (Inr (), st6)"
    "case_state st6" "co_local st6 = [(INSPECTOR, case_output INSPECTOR)]"
    by (rule case_store [OF r'(2), of "case_output INSPECTOR" INSPECTOR]) (use r'(3) in auto)
  obtain st7 where s': "store_output ''inc-1'' PROSECUTOR ''hypothesis-challenge'' (case_output PROSECUTOR) st6 = (Inr (), st7)"
    "case_state st7" "co_local st7 = [(INSPECTOR, case_output INSPECTOR), (PROSECUTOR, case_output PROSECUTOR)]"
    by (rule case_store [OF s(2), of "case_output PROSECUTOR" PROSECUTOR]) (use s(3) in auto)
  from e req h v(1) w(1) r(1) r'(1) s(1) s' show thesis
    by (intro that [of st7])
      (simp_all add: initial_handoff_def Let_def bind_with_def then_with_def lift_result_def)
qed

lemma case_run:
  obtains st' where "run_incident case_gateway case_incident new_coordinator = (Inr case_result, st')"
proof -
  define st0 where "st0 = new_coordinator\<lparr>co_local := [], co_world := (), co_log := [CallBeginReview]\<rparr>"
  have st0: "case_state st0" "co_local st0 = []"
    by (simp_all add: st0_def new_coordinator_def case_state_def tracker_ok_def typed_outputs_def)
  obtain st1 where h: "initial_handoff case_gateway case_incident st0 = (Inr (), st1)" "case_state st1"
    "co_local st1 = [(INSPECTOR, case_output INSPECTOR), (PROSECUTOR, case_output PROSECUTOR)]"
    by (rule case_handoff [OF st0])
  have ph: "is_phase ''mechanism-revision''" "is_phase ''patch-proposal''" "is_phase ''patch-challenge''"
    "is_phase ''verdict-review''" by code_simp+
  obtain st2 where a: "run_seat case_gateway case_incident INSPECTOR ''mechanism-revision'' None False st1 = (Inr (case_output INSPECTOR), st2)"
    "case_state st2" "co_local st2 = co_local st1"
    using case_run_seat [OF h(2) _ ph(1), of INSPECTOR] h(3) by auto
  obtain st3 where b: "run_seat case_gateway case_incident COUNSEL ''patch-proposal'' None False st2 = (Inr (case_output COUNSEL), st3)"
    "case_state st3" "co_local st3 = co_local st1 @ [(COUNSEL, case_output COUNSEL)]"
    using case_run_seat [OF a(2) _ ph(2), of COUNSEL] h(3) a(3) by auto
  obtain st4 where c: "run_seat case_gateway case_incident PROSECUTOR ''patch-challenge'' None False st3 = (Inr (case_output PROSECUTOR), st4)"
    "case_state st4" "co_local st4 = co_local st3"
    using case_run_seat [OF b(2) _ ph(3), of PROSECUTOR] h(3) b(3) by auto
  obtain st5 where d: "run_seat case_gateway case_incident MAGISTRATE ''verdict-review'' None False st4 = (Inr (case_output MAGISTRATE), st5)"
    "co_local st5 = co_local st3 @ [(MAGISTRATE, case_output MAGISTRATE)]"
    using case_run_seat [OF c(2) _ ph(4), of MAGISTRATE] h(3) b(3) c(3) by auto
  have verdict: "first_verdict case_gateway case_incident st0 = (Inr case_magistrate, st5)"
    using h(1) a(1) b(1) c(1) d(1)
    by (simp add: first_verdict_def magistrate_review_def then_with_def bind_with_def as_magistrate_def return_with_def)
  have "resolve_loop case_gateway case_incident case_magistrate st5 = (Inr case_magistrate, st5)"
    by (subst resolve_loop.simps) (simp add: case_magistrate_def)
  moreover obtain st6 where "finish_verdict case_gateway case_incident case_magistrate st5 = (Inr case_result, st6)"
    using d(2) b(3) h(3)
    by (auto simp: finish_verdict_def then_with_def bind_with_def keep_outputs_def call_gateway_def case_magistrate_def
        case_gateway_def case_result_def)
  ultimately have "closed_review case_gateway case_incident (first_verdict case_gateway case_incident) st0 = (Inr case_result, st6)"
    using verdict by (simp add: closed_review_def try_closed_def resolve_verdict_def bind_with_def)
  then show thesis
    by (intro that [of st6])
      (simp add: run_incident_def then_with_def bind_with_def set_local_def call_gateway_def st0_def case_gateway_def
        new_coordinator_def)
qed

section \<open>Properties\<close>

lemma run_incident_start:
  assumes "run_incident env incident st = (Inr res, st')"
  shows "\<exists>st1. co_log st1 = co_log st @ [CallBeginReview] \<and> co_local st1 = [] \<and>
    closed_review env incident (first_verdict env incident) st1 = (Inr res, st')"
proof -
  obtain u st1 where "call_gateway CallBeginReview (gw_begin_review env (ii_incident_id incident))
      (st\<lparr>co_local := []\<rparr>) = (Inr u, st1)"
    and run: "closed_review env incident (first_verdict env incident) st1 = (Inr res, st')"
    using assms by (auto simp: run_incident_def result_simps set_local_def)
  then have "co_log st1 = co_log st @ [CallBeginReview]" "co_local st1 = []"
    by (auto simp: call_gateway_def Let_def split: prod.splits)
  with run show ?thesis by blast
qed

lemma load_outputs_log: "load_outputs i st = (Inr u, st1) \<Longrightarrow> co_log st1 = co_log st"
  by (auto simp: load_outputs_def split: option.splits list.splits)

lemma resume_start:
  assumes "resume_after_revision env incident st = (Inr res, st') \<and> verdict = revision_verdict env incident \<or>
    resume_after_test env incident False st = (Inr res, st') \<and> verdict = test_failure_verdict env incident"
  shows "\<exists>st1. co_log st1 = co_log st \<and> closed_review env incident verdict st1 = (Inr res, st')"
proof -
  have open_log: "open_phases i st1 = (Inr u, st2) \<Longrightarrow> co_log st2 = co_log st1" for i u and st1 st2 :: "'a coord"
    by (auto simp: open_phases_def split: option.splits)
  show ?thesis
    using assms
    by (auto simp: resume_after_revision_def resume_after_test_def Let_def result_simps)
      (metis load_outputs_log open_log)+
qed

lemma closes_after_begin: "closes cs res \<Longrightarrow> closes (CallBeginReview # cs) res"
proof (induction rule: closes.induct)
  case (opened cs m outs w)
  then show ?case using closes.opened [of "CallBeginReview # cs" m outs w] by simp
next
  case (decided cs m outs)
  then show ?case using closes.decided [of "CallBeginReview # cs" m outs] by simp
next
  case (duplicate cs s eff ph out reason outs)
  then show ?case using closes.duplicate [of "CallBeginReview # cs" s eff ph out reason outs] by simp
next
  case (failed cs reason outs)
  then show ?case using closes.failed [of "CallBeginReview # cs" reason outs] by simp
qed

text \<open>C19. Every review that returns is closed: whatever the runtime, the authority and the citation
  authority do, the result of a first review, of the review after a failed test and of the review after a
  human revision is one of four, told by the last call: CLEAR with a pending warrant, after an approval was
  opened for a CLEAR verdict that is the Magistrate's entry of the outputs; BLOCK or ABSTAIN, recorded; or
  ABSTAIN with a reason, after the failure or the duplicate retry was recorded. No result is REMAND and no
  failure leads to an approval.\<close>

theorem returned_review_is_closed:
  assumes "run_incident env incident st = (Inr res, st') \<or> resume_after_revision env incident st = (Inr res, st') \<or>
    resume_after_test env incident False st = (Inr res, st')"
  shows "\<exists>cs. co_log st' = co_log st @ cs \<and> closes cs res"
proof -
  have resumed: ?thesis if rev: "reviews verdict"
      and entry: "\<And>st m st'. verdict st = (Inr m, st') \<Longrightarrow> verdict_entry m (co_local st')"
      and run: "resume_after_revision env incident st = (Inr res, st') \<and> verdict = revision_verdict env incident \<or>
       resume_after_test env incident False st = (Inr res, st') \<and> verdict = test_failure_verdict env incident" for verdict
  proof -
    obtain st1 where st1: "co_log st1 = co_log st" "closed_review env incident verdict st1 = (Inr res, st')"
      using resume_start [OF run] by blast
    have "\<exists>cs. co_log st' = co_log st1 @ cs \<and> closes cs res"
      by (rule closed_review_closes [OF st1(2) rev]) (rule entry)
    with st1(1) show ?thesis by simp
  qed
  from assms show ?thesis
  proof (elim disjE)
    assume "run_incident env incident st = (Inr res, st')"
    then obtain st1 where st1: "co_log st1 = co_log st @ [CallBeginReview]"
      "closed_review env incident (first_verdict env incident) st1 = (Inr res, st')"
      using run_incident_start by blast
    have "\<exists>cs. co_log st' = co_log st1 @ cs \<and> closes cs res"
      by (rule closed_review_closes [OF st1(2) reviews_first_verdict]) (rule first_verdict_entry)
    with st1(1) show ?thesis using closes_after_begin by auto
  next
    assume "resume_after_revision env incident st = (Inr res, st')"
    then show ?thesis by (intro resumed [OF reviews_revision_verdict]) (auto intro: revision_verdict_entry)
  next
    assume "resume_after_test env incident False st = (Inr res, st')"
    then show ?thesis by (intro resumed [OF reviews_test_failure_verdict]) (auto intro: test_failure_verdict_entry)
  qed
qed

theorem returned_review_is_closed_witness:
  "\<exists>cs st'. run_incident case_gateway case_incident new_coordinator = (Inr case_result, st') \<and>
    co_log st' = co_log new_coordinator @ cs \<and> closes cs case_result"
proof -
  obtain st' where run: "run_incident case_gateway case_incident new_coordinator = (Inr case_result, st')"
    by (rule case_run)
  from returned_review_is_closed [OF disjI1 [OF run]] run show ?thesis by auto
qed

text \<open>C20. Every output a first review returns was validated by the application: it is of the class of its
  seat, names a remand target only with REMAND, and cites at least one evidence identifier, all of them
  confirmed by the citation authority for this incident.\<close>

theorem returned_outputs_are_validated:
  assumes "run_incident env incident st = (Inr res, st')" "map_of (cr_seat_outputs res) s = Some out"
  shows "validated env (ii_incident_id incident) s out"
proof -
  obtain st1 where st1: "co_local st1 = []" "closed_review env incident (first_verdict env incident) st1 = (Inr res, st')"
    using run_incident_start [OF assms(1)] by blast
  have "outputs_validated env (ii_incident_id incident) (cr_seat_outputs res)"
    by (rule closed_review_outputs [OF st1(2) outputs_relation.keeps_first_verdict [OF refl]])
      (simp add: outputs_validated_def st1(1))
  then show ?thesis using assms(2) by (simp add: outputs_validated_def)
qed

theorem returned_outputs_are_validated_witness:
  "validated case_gateway ''inc-1'' MAGISTRATE (MagistrateOutput case_magistrate)"
proof -
  obtain st' where run: "run_incident case_gateway case_incident new_coordinator = (Inr case_result, st')"
    by (rule case_run)
  from returned_outputs_are_validated [OF run, of MAGISTRATE "MagistrateOutput case_magistrate"] show ?thesis
    by (simp add: case_result_def)
qed

text \<open>A first review raises only what it cannot record: the cancellation of its task, or an exception
  the authority itself raised when the review was begun or when the failure was to be recorded.\<close>

theorem review_raises_only_unrecordable:
  assumes "run_incident env incident st = (Inl e, st')"
  shows "e = Raised Cancelled \<or> (\<exists>f w. e = Raised f \<and>
    (fst (gw_begin_review env (ii_incident_id incident) w) = Inl f \<or>
     (\<exists>reason. fst (gw_fail_closed_abstain env (ii_incident_id incident) reason w) = Inl f)))"
proof -
  obtain x w where x: "gw_begin_review env (ii_incident_id incident) (co_world st) = (x, w)" by fastforce
  show ?thesis
  proof (cases x)
    case (Inl f)
    then show ?thesis
      using assms x by (auto simp: run_incident_def then_with_def bind_with_def set_local_def call_gateway_def)
        (metis fst_conv)
  next
    case (Inr u)
    then obtain st1 where "closed_review env incident (first_verdict env incident) st1 = (Inl e, st')"
      using assms x by (auto simp: run_incident_def then_with_def bind_with_def set_local_def call_gateway_def)
    from closed_review_raises [OF this] show ?thesis by blast
  qed
qed

definition refusing_gateway :: "unit gateway" where
  "refusing_gateway = case_gateway\<lparr>gw_begin_review := \<lambda>i w. (Inl TimeoutError, w)\<rparr>"

theorem review_raises_only_unrecordable_witness:
  "Raised TimeoutError = Raised Cancelled \<or> (\<exists>f w. Raised TimeoutError = Raised f \<and>
    (fst (gw_begin_review refusing_gateway ''inc-1'' w) = Inl f \<or>
     (\<exists>reason. fst (gw_fail_closed_abstain refusing_gateway ''inc-1'' reason w) = Inl f)))"
proof -
  have "fst (run_incident refusing_gateway case_incident new_coordinator) = Inl (Raised TimeoutError)"
    by (simp add: run_incident_def then_with_def bind_with_def set_local_def call_gateway_def refusing_gateway_def)
  then obtain st' where "run_incident refusing_gateway case_incident new_coordinator = (Inl (Raised TimeoutError), st')"
    by (metis prod.collapse)
  from review_raises_only_unrecordable [OF this] show ?thesis by simp
qed

text \<open>C21. The remand loop ends: whatever verdicts the Magistrate returns, nine rounds of fuel run the
  \<^verbatim>\<open>while\<close> loop to its end in every state whose tracker obeys the escalation policy, because every remand
  that does not fail spends a unit of the incident's retry budget of eight.\<close>

theorem remand_loop_ends:
  assumes "tracker_ok (co_tracker st)"
  shows "loop_fuel 9 env incident m st = Some (resolve_loop env incident m st)"
  by (rule loop_fuel_enough) (use retry_work_le [OF assms, of "ii_incident_id incident"] in simp)

theorem remand_loop_ends_witness:
  "loop_fuel 9 case_gateway case_incident case_magistrate new_coordinator =
   Some (resolve_loop case_gateway case_incident case_magistrate new_coordinator)"
  by (rule remand_loop_ends) (simp add: new_coordinator_def tracker_ok_def)

text \<open>The Bailiff acts only on an approval: the runtime is asked to execute a warrant only with the
  reference the authority just returned for it, without one nothing is executed, and the result names the
  warrant that was asked for.\<close>

theorem execution_needs_approval:
  assumes "resume_after_approval env incident_id warrant_id st = (r, st')"
  shows "(\<forall>w. r = Inr w \<longrightarrow> w = warrant_id) \<and>
    (case fst (gw_approved_warrant env incident_id warrant_id (co_world st)) of
       Inr (Some approval) \<Rightarrow> co_log st' = co_log st @ [CallApprovedWarrant warrant_id, CallExecute warrant_id approval]
     | Inr None \<Rightarrow> co_log st' = co_log st @ [CallApprovedWarrant warrant_id] \<and> r = Inl (Raised PermissionError)
     | Inl f \<Rightarrow> co_log st' = co_log st @ [CallApprovedWarrant warrant_id] \<and> r = Inl (Raised f))"
  using assms
  by (auto simp: resume_after_approval_def bind_with_def call_gateway_def fail_with_def return_with_def Let_def
      split: prod.splits sum.splits option.splits raw_output.splits seat_output.splits if_splits)

theorem execution_needs_approval_witness:
  "co_log (snd (resume_after_approval case_gateway ''inc-1'' ''w-1'' new_coordinator)) =
   [CallApprovedWarrant ''w-1'', CallExecute ''w-1'' ''approval-1'']"
  using execution_needs_approval [of case_gateway "''inc-1''" "''w-1''" new_coordinator
      "fst (resume_after_approval case_gateway ''inc-1'' ''w-1'' new_coordinator)"
      "snd (resume_after_approval case_gateway ''inc-1'' ''w-1'' new_coordinator)"]
  by (simp add: case_gateway_def new_coordinator_def)

end
