(* ===== verification/CP_Export.thy ===== *)
theory CP_Export
  imports CP_Warrant
begin

text \<open>
  Signed case archives: \<^verbatim>\<open>export/builder.py\<close> (bindings, artifacts, the manifest, \<^verbatim>\<open>CaseExportBuilder.build\<close>)
  and \<^verbatim>\<open>export/verifier.py\<close> (\<^verbatim>\<open>verify_export\<close> with every check it makes and its failure codes).
  The ZIP container, Ed25519, SHA-256, the Unicode tables and the float printer are the functions of
  \<open>archive_lib\<close>. A \<^verbatim>\<open>dict\<close> is written in key order, the order \<^verbatim>\<open>json.dumps(sort_keys=True)\<close> prints.
  The results: an archive the builder makes is accepted and gives its manifest back, as long as it
  stays within the verifier's limits; an accepted archive has a signed manifest, and its other members are exactly
  the listed files, with the listed sizes and hashes, all of one incident and none of them raw; the
  verifier raises only when the decompressor itself does.
\<close>

section \<open>The libraries\<close>

record zip_info =
  zi_filename :: string
  zi_flag_bits :: nat
  zi_external_attr :: nat
  zi_file_size :: nat
  zi_compress_size :: nat

text \<open>What reading a member can raise: \<^verbatim>\<open>EOFError\<close>, \<^verbatim>\<open>RuntimeError\<close>, \<^verbatim>\<open>BadZipFile\<close>; an \<^verbatim>\<open>OSError\<close> (corrupt bzip2
  data among them) or \<^verbatim>\<open>ValueError\<close>; and exceptions that are none of these: \<^verbatim>\<open>zlib.error\<close>, \<^verbatim>\<open>lzma.LZMAError\<close>
  (the verifier does not look at the compression type), or whatever else the interpreter raises there.\<close>

datatype read_error = ReadEOF | ReadRuntime | ReadBadZip | ReadValue | ReadZlib | ReadLzma | ReadOther

record 'k archive_lib =
  al_nfc :: "string \<Rightarrow> string"
  al_casefold :: "string \<Rightarrow> string"
  al_sha :: "string \<Rightarrow> string"
  al_refloat :: "string \<Rightarrow> string option"
  al_write :: "(string \<times> string) list \<Rightarrow> string"
  al_infolist :: "string \<Rightarrow> zip_info list option"
  al_read :: "string \<Rightarrow> zip_info \<Rightarrow> nat \<Rightarrow> nat \<Rightarrow> read_error + string"
  al_sign :: "string \<Rightarrow> string"
  al_public_key :: "string \<Rightarrow> 'k option"
  al_verify :: "'k \<Rightarrow> string \<Rightarrow> string \<Rightarrow> bool"

section \<open>Bindings and artifacts\<close>

definition FORMAT :: string where
  "FORMAT = ''crosspatch-case-v1''"

definition MANIFEST_NAME :: string where
  "MANIFEST_NAME = ''manifest.json''"

definition SIGNATURE_NAME :: string where
  "SIGNATURE_NAME = ''manifest.sig''"

definition ALLOWED_ARTIFACT_KINDS :: "string list" where
  "ALLOWED_ARTIFACT_KINDS =
     [''agent_metadata'', ''receipt'', ''sanitized_evidence'', ''test'', ''timeline'', ''verdict'', ''warrant'']"

definition is_hex_40_or_64 :: "string \<Rightarrow> bool" where
  "is_hex_40_or_64 s \<longleftrightarrow> (length s = 40 \<or> length s = 64) \<and> list_all is_hex s"

text \<open>The seven proof fields are checked dynamically by the code, so they are JSON values here, \<^const>\<open>JNull\<close>
  for \<^verbatim>\<open>None\<close>; the two tuples are optional lists.\<close>

record case_binding =
  cb_incident_id :: string
  cb_base_sha :: string
  cb_verdict_sha256 :: string
  cb_warrant_sha256 :: string
  cb_receipt_sha256 :: string
  cb_timeline_head :: string
  cb_scenario :: json
  cb_plan_id :: json
  cb_plan_sha256 :: json
  cb_execution_status :: json
  cb_response_statuses :: "json list option"
  cb_counts :: "json list option"
  cb_trusted_observation_sha256 :: json

datatype binding_error = BindingValueError string | BindingTypeError

fun sha256_value :: "json \<Rightarrow> bool" where
  "sha256_value (JStr s) \<longleftrightarrow> is_sha256 s"
| "sha256_value _ \<longleftrightarrow> False"

fun status_code :: "json \<Rightarrow> bool" where
  "status_code (JInt i) \<longleftrightarrow> 100 \<le> i \<and> i \<le> 599"
| "status_code _ \<longleftrightarrow> False"

fun count_value :: "json \<Rightarrow> bool" where
  "count_value (JInt i) \<longleftrightarrow> 0 \<le> i"
| "count_value _ \<longleftrightarrow> False"

text \<open>Lists and dicts are not hashable, so testing them for membership in a set raises.\<close>

fun hashable :: "json \<Rightarrow> bool" where
  "hashable (JObj _) \<longleftrightarrow> False"
| "hashable (JArr _) \<longleftrightarrow> False"
| "hashable _ \<longleftrightarrow> True"

definition proof_absences :: "case_binding \<Rightarrow> bool list" where
  "proof_absences b =
     [cb_scenario b = JNull, cb_plan_id b = JNull, cb_plan_sha256 b = JNull, cb_execution_status b = JNull,
      cb_response_statuses b = None, cb_counts b = None, cb_trusted_observation_sha256 b = JNull]"

definition check_proof :: "case_binding \<Rightarrow> binding_error + unit" where
  "check_proof b =
     (if cb_scenario b \<noteq> JStr ''webhook-payload-equivalence''
      then Inl (BindingValueError ''typed scenario proof has an unsupported scenario'')
      else if cb_plan_id b \<noteq> JStr ''victim.payload-equivalence.candidate''
      then Inl (BindingValueError ''typed scenario proof has an unsupported plan'')
      else if \<not> sha256_value (cb_plan_sha256 b)
      then Inl (BindingValueError ''plan_sha256 must be a lowercase SHA-256'')
      else if \<not> hashable (cb_execution_status b) then Inl BindingTypeError
      else if cb_execution_status b \<notin> {JStr ''EXECUTED'', JStr ''TEST_FAILED''}
      then Inl (BindingValueError ''typed scenario proof has an invalid execution status'')
      else if (case cb_response_statuses b of None \<Rightarrow> True
               | Some ss \<Rightarrow> \<not> (1 \<le> length ss \<and> length ss \<le> 32) \<or> \<not> list_all status_code ss)
      then Inl (BindingValueError ''typed scenario proof has invalid response statuses'')
      else if (case cb_counts b of None \<Rightarrow> True | Some cs \<Rightarrow> length cs \<noteq> 3 \<or> \<not> list_all count_value cs)
      then Inl (BindingValueError ''typed scenario proof has invalid counts'')
      else if \<not> sha256_value (cb_trusted_observation_sha256 b)
      then Inl (BindingValueError ''trusted_observation_sha256 must be a lowercase SHA-256'')
      else Inr ())"

definition check_binding :: "case_binding \<Rightarrow> binding_error + unit" where
  "check_binding b =
     (if \<not> is_storage_id (cb_incident_id b) then Inl (BindingValueError ''invalid incident identifier'')
      else if \<not> is_hex_40_or_64 (cb_base_sha b)
      then Inl (BindingValueError ''base SHA must be lowercase 40- or 64-character hex'')
      else if \<not> is_sha256 (cb_verdict_sha256 b)
      then Inl (BindingValueError ''verdict_sha256 must be a lowercase SHA-256'')
      else if \<not> is_sha256 (cb_warrant_sha256 b)
      then Inl (BindingValueError ''warrant_sha256 must be a lowercase SHA-256'')
      else if \<not> is_sha256 (cb_receipt_sha256 b)
      then Inl (BindingValueError ''receipt_sha256 must be a lowercase SHA-256'')
      else if \<not> is_sha256 (cb_timeline_head b)
      then Inl (BindingValueError ''timeline_head must be a lowercase SHA-256'')
      else if list_all id (proof_absences b) then Inr ()
      else if list_ex id (proof_absences b)
      then Inl (BindingValueError ''typed scenario proof must be complete'')
      else check_proof b)"

record export_artifact =
  ea_path :: string
  ea_incident_id :: string
  ea_kind :: string
  ea_data :: string
  ea_provenance :: string
  ea_publicable :: bool

definition artifact_ok :: "export_artifact \<Rightarrow> bool" where
  "artifact_ok a \<longleftrightarrow> ea_provenance a \<noteq> [] \<and> char_count (ea_provenance a) \<le> 512"

section \<open>Canonical manifest bytes\<close>

text \<open>Printing a parsed float reparses nothing: \<open>al_refloat\<close> is what \<^verbatim>\<open>repr(float(literal))\<close> gives, nothing
  for a number that is not finite, which \<^verbatim>\<open>allow_nan=False\<close> refuses.\<close>

fun refloat :: "(string \<Rightarrow> string option) \<Rightarrow> json \<Rightarrow> json option"
  and refloat_items :: "(string \<Rightarrow> string option) \<Rightarrow> (string \<times> json) list \<Rightarrow> (string \<times> json) list option"
  and refloat_list :: "(string \<Rightarrow> string option) \<Rightarrow> json list \<Rightarrow> json list option"
where
  "refloat f (JFloat s) = map_option JFloat (f s)"
| "refloat f (JObj kvs) = map_option JObj (refloat_items f kvs)"
| "refloat f (JArr vs) = map_option JArr (refloat_list f vs)"
| "refloat f v = Some v"
| "refloat_items f [] = Some []"
| "refloat_items f ((k, v) # kvs) =
     (case (refloat f v, refloat_items f kvs) of (Some w, Some ws) \<Rightarrow> Some ((k, w) # ws) | _ \<Rightarrow> None)"
| "refloat_list f [] = Some []"
| "refloat_list f (v # vs) =
     (case (refloat f v, refloat_list f vs) of (Some w, Some ws) \<Rightarrow> Some (w # ws) | _ \<Rightarrow> None)"

definition canonical_json_bytes :: "'k archive_lib \<Rightarrow> json \<Rightarrow> string option" where
  "canonical_json_bytes lib v = map_option (\<lambda>w. ascii_escape (dumps w)) (refloat (al_refloat lib) v)"

section \<open>Building\<close>

definition safe_parts :: "string \<Rightarrow> bool" where
  "safe_parts value \<longleftrightarrow> list_all (\<lambda>p. p \<notin> {[], ''.'', ''..''}) (posix_parts value)"

definition drive_qualified :: "string \<Rightarrow> bool" where
  "drive_qualified value \<longleftrightarrow> posix_parts value \<noteq> [] \<and> CHR '':'' \<in> set (hd (posix_parts value))"

definition safe_relative_path :: "'k archive_lib \<Rightarrow> string \<Rightarrow> string + string" where
  "safe_relative_path lib value =
     (if value = [] \<or> char_count value > 1024 then Inl ''artifact path must be a bounded relative path''
      else if al_nfc lib value \<noteq> value \<or> CHR 0x5C \<in> set value \<or> CHR 0x00 \<in> set value
      then Inl ''artifact path is not canonical''
      else if posix_root value \<noteq> [] \<or> as_posix value \<noteq> value
      then Inl ''artifact path must be a canonical relative POSIX path''
      else if \<not> safe_parts value then Inl ''artifact path traversal is forbidden''
      else if drive_qualified value then Inl ''drive-qualified artifact paths are forbidden''
      else Inr (as_posix value))"

definition raw_part :: "'k archive_lib \<Rightarrow> string \<Rightarrow> bool" where
  "raw_part lib p \<longleftrightarrow> prefix ''raw'' (al_casefold lib p)"

definition incident_prefix :: "string \<Rightarrow> string" where
  "incident_prefix i = ''incidents/'' @ i @ ''/''"

definition artifact_member :: "'k archive_lib \<Rightarrow> case_binding \<Rightarrow> export_artifact \<Rightarrow> string + string" where
  "artifact_member lib b a =
     (if ea_incident_id a \<noteq> cb_incident_id b then Inl ''cross-incident artifacts are forbidden''
      else if \<not> ea_publicable a then Inl ''unpublished artifacts cannot be exported''
      else if ea_kind a \<notin> set ALLOWED_ARTIFACT_KINDS then Inl ''artifact kind is not publicable''
      else rbind (safe_relative_path lib (ea_path a)) (\<lambda>relative.
        if list_ex (raw_part lib) (posix_parts relative) then Inl ''raw artifacts cannot be exported''
        else Inr (incident_prefix (cb_incident_id b) @ relative)))"

definition entry_json :: "'k archive_lib \<Rightarrow> string \<Rightarrow> export_artifact \<Rightarrow> json" where
  "entry_json lib path a =
     JObj [(''incident_id'', JStr (ea_incident_id a)), (''kind'', JStr (ea_kind a)), (''path'', JStr path),
           (''provenance'', JStr (ea_provenance a)), (''sha256'', JStr (al_sha lib (ea_data a))),
           (''size_bytes'', JInt (int (length (ea_data a))))]"

fun collect_members ::
  "'k archive_lib \<Rightarrow> case_binding \<Rightarrow> string list \<Rightarrow> export_artifact list \<Rightarrow> string + (string \<times> export_artifact) list" where
  "collect_members lib b seen [] = Inr []"
| "collect_members lib b seen (a # as) =
     rbind (artifact_member lib b a) (\<lambda>member_path.
       if member_path \<in> set seen then Inl ''duplicate export artifact path''
       else rbind (collect_members lib b (member_path # seen) as) (\<lambda>rest. Inr ((member_path, a) # rest)))"

definition base_fields :: "case_binding \<Rightarrow> (string \<times> json) list" where
  "base_fields b =
     [(''base_sha'', JStr (cb_base_sha b)), (''id'', JStr (cb_incident_id b)),
      (''receipt_sha256'', JStr (cb_receipt_sha256 b)), (''timeline_head'', JStr (cb_timeline_head b)),
      (''verdict_sha256'', JStr (cb_verdict_sha256 b)), (''warrant_sha256'', JStr (cb_warrant_sha256 b))]"

definition proof_fields :: "case_binding \<Rightarrow> (string \<times> json) list" where
  "proof_fields b =
     [(''counts'', JObj [(''deliveries'', the (cb_counts b) ! 2), (''jobs'', the (cb_counts b) ! 1),
                         (''receipts'', the (cb_counts b) ! 0)]),
      (''execution_status'', cb_execution_status b), (''plan_id'', cb_plan_id b),
      (''plan_sha256'', cb_plan_sha256 b), (''response_statuses'', JArr (the (cb_response_statuses b))),
      (''scenario'', cb_scenario b), (''trusted_observation_sha256'', cb_trusted_observation_sha256 b)]"

definition incident_manifest :: "case_binding \<Rightarrow> json" where
  "incident_manifest b =
     JObj (sort_key fst (base_fields b @ (if cb_scenario b \<noteq> JNull then proof_fields b else [])))"

definition manifest_json :: "'k archive_lib \<Rightarrow> case_binding \<Rightarrow> (string \<times> export_artifact) list \<Rightarrow> json" where
  "manifest_json lib b members =
     JObj [(''files'', JArr (map (\<lambda>(p, a). entry_json lib p a) (sort_key fst members))),
           (''format'', JStr FORMAT), (''incident'', incident_manifest b)]"

definition archive_members :: "'k archive_lib \<Rightarrow> string \<Rightarrow> (string \<times> export_artifact) list \<Rightarrow> (string \<times> string) list" where
  "archive_members lib manifest_bytes members =
     [(MANIFEST_NAME, manifest_bytes), (SIGNATURE_NAME, b64encode (al_sign lib manifest_bytes))] @
     map (\<lambda>(p, a). (p, ea_data a)) (sort_key fst members)"

definition build :: "'k archive_lib \<Rightarrow> case_binding \<Rightarrow> export_artifact list \<Rightarrow> string + string" where
  "build lib b artifacts =
     rbind (collect_members lib b [] artifacts) (\<lambda>members.
       case canonical_json_bytes lib (manifest_json lib b members) of
         None \<Rightarrow> Inl ''Out of range float values are not JSON compliant''
       | Some manifest_bytes \<Rightarrow> Inr (al_write lib (archive_members lib manifest_bytes members)))"

section \<open>Verification\<close>

datatype archive_error = ArchiveRejected string | ArchiveCaught | ArchiveEscaped

text \<open>The compression ratio is a whole number here (the default is 100.0); the code's is a float, so fractional
  and non-finite ratios are not modelled.\<close>

record verification_limits =
  max_members :: nat
  max_archive_bytes :: nat
  max_member_bytes :: nat
  max_total_bytes :: nat
  max_central_directory_bytes :: nat
  max_compression_ratio :: nat

definition default_limits :: verification_limits where
  "default_limits = \<lparr>max_members = 256, max_archive_bytes = 64 * 1024 * 1024, max_member_bytes = 8 * 1024 * 1024,
     max_total_bytes = 32 * 1024 * 1024, max_central_directory_bytes = 2 * 1024 * 1024, max_compression_ratio = 100\<rparr>"

definition limits_ok :: "verification_limits \<Rightarrow> bool" where
  "limits_ok l \<longleftrightarrow> 3 \<le> max_members l \<and> 1 \<le> max_archive_bytes l \<and> 1 \<le> max_member_bytes l \<and>
     1 \<le> max_total_bytes l \<and> 1 \<le> max_central_directory_bytes l \<and> 1 \<le> max_compression_ratio l"

record verification_result =
  vr_valid :: bool
  vr_errors :: "string list"
  vr_manifest :: "json option"

text \<open>The archive is bytes, or a file whose kind, size and content the operating system reports.\<close>

datatype archive_source = ArchiveBytes string | ArchiveFile bool nat string | ArchiveMissing | ArchiveOther

definition archive_bytes :: "archive_source \<Rightarrow> verification_limits \<Rightarrow> archive_error + string" where
  "archive_bytes source limits =
     rbind (case source of
              ArchiveFile regular st_size content \<Rightarrow>
                if \<not> regular \<or> st_size > max_archive_bytes limits then Inl (ArchiveRejected ''ARCHIVE_SIZE'')
                else Inr content
            | ArchiveMissing \<Rightarrow> Inl ArchiveCaught
            | ArchiveBytes b \<Rightarrow> Inr b
            | ArchiveOther \<Rightarrow> Inl ArchiveCaught) (\<lambda>value.
       if length value > max_archive_bytes limits then Inl (ArchiveRejected ''ARCHIVE_SIZE'') else Inr value)"

datatype 'k key_source = KeyObject 'k | KeyBytes string | KeyOther

definition public_key :: "'k archive_lib \<Rightarrow> 'k key_source \<Rightarrow> archive_error + 'k" where
  "public_key lib source =
     (case source of
        KeyObject k \<Rightarrow> Inr k
      | KeyOther \<Rightarrow> Inl (ArchiveRejected ''PUBLIC_KEY_INVALID'')
      | KeyBytes b \<Rightarrow>
          if length b \<noteq> 32 then Inl (ArchiveRejected ''PUBLIC_KEY_INVALID'')
          else (case al_public_key lib b of None \<Rightarrow> Inl (ArchiveRejected ''PUBLIC_KEY_INVALID'') | Some k \<Rightarrow> Inr k))"

subsection \<open>The end-of-central-directory record\<close>

definition EOCD_SIGNATURE :: string where
  "EOCD_SIGNATURE = [CHR ''P'', CHR ''K'', CHR 0x05, CHR 0x06]"

definition EOCD_SIZE :: nat where
  "EOCD_SIZE = 22"

definition MAX_EOCD_SEARCH :: nat where
  "MAX_EOCD_SEARCH = EOCD_SIZE + 65535"

text \<open>\<^verbatim>\<open>archive.rfind(signature, start)\<close>, by positions counted down from the end.\<close>

fun rfind_from :: "string \<Rightarrow> string \<Rightarrow> nat \<Rightarrow> nat \<Rightarrow> nat option" where
  "rfind_from sub s start 0 = None"
| "rfind_from sub s start (Suc i) =
     (if i < start then None
      else if prefix sub (drop i s) then Some i else rfind_from sub s start i)"

definition rfind :: "string \<Rightarrow> string \<Rightarrow> nat \<Rightarrow> nat option" where
  "rfind sub s start = rfind_from sub s start (Suc (length s))"

definition le16 :: "string \<Rightarrow> nat \<Rightarrow> nat" where
  "le16 s i = code (s ! i) + 256 * code (s ! (i + 1))"

definition le32 :: "string \<Rightarrow> nat \<Rightarrow> nat" where
  "le32 s i = le16 s i + 65536 * le16 s (i + 2)"

definition validate_central_directory_bounds :: "string \<Rightarrow> verification_limits \<Rightarrow> archive_error + unit" where
  "validate_central_directory_bounds archive limits =
     (case rfind EOCD_SIGNATURE archive (length archive - MAX_EOCD_SEARCH) of
        None \<Rightarrow> Inl (ArchiveRejected ''ARCHIVE_INVALID'')
      | Some eocd \<Rightarrow>
          if eocd + EOCD_SIZE > length archive then Inl (ArchiveRejected ''ARCHIVE_INVALID'')
          else (let disk_number = le16 archive (eocd + 4); central_disk = le16 archive (eocd + 6);
                    disk_entries = le16 archive (eocd + 8); total_entries = le16 archive (eocd + 10);
                    central_size = le32 archive (eocd + 12); central_offset = le32 archive (eocd + 16);
                    comment_size = le16 archive (eocd + 20)
                in if eocd + EOCD_SIZE + comment_size \<noteq> length archive then Inl (ArchiveRejected ''ARCHIVE_INVALID'')
                   else if disk_number \<noteq> 0 \<or> central_disk \<noteq> 0 \<or> disk_entries \<noteq> total_entries
                   then Inl (ArchiveRejected ''MULTIDISK_ARCHIVE'')
                   else if total_entries = 0xFFFF \<or> central_size = 0xFFFFFFFF \<or> central_offset = 0xFFFFFFFF
                   then Inl (ArchiveRejected ''ZIP64_UNSUPPORTED'')
                   else if total_entries < 2 \<or> total_entries > max_members limits
                   then Inl (ArchiveRejected ''MEMBER_COUNT'')
                   else if central_size > max_central_directory_bytes limits
                   then Inl (ArchiveRejected ''CENTRAL_DIRECTORY_SIZE'')
                   else if central_offset + central_size > eocd then Inl (ArchiveRejected ''ARCHIVE_INVALID'')
                   else Inr ()))"

subsection \<open>The directory\<close>

definition safe_member_name :: "'k archive_lib \<Rightarrow> string \<Rightarrow> archive_error + string" where
  "safe_member_name lib value =
     (if value = [] \<or> char_count value > 2048 \<or> CHR 0x5C \<in> set value \<or> CHR 0x00 \<in> set value \<or>
         al_nfc lib value \<noteq> value \<or> posix_root value \<noteq> [] \<or> as_posix value \<noteq> value \<or>
         \<not> safe_parts value \<or> drive_qualified value
      then Inl (ArchiveRejected ''UNSAFE_MEMBER_NAME'') else Inr value)"

text \<open>\<^verbatim>\<open>stat.S_IFMT(external_attr >> 16)\<close> in units of 0o10000: 8 is a regular file, 10 a link.\<close>

definition file_type :: "zip_info \<Rightarrow> nat" where
  "file_type i = zi_external_attr i div 65536 div 4096 mod 16"

definition check_member :: "verification_limits \<Rightarrow> nat \<Rightarrow> zip_info \<Rightarrow> archive_error + unit" where
  "check_member limits total_size i =
     (if odd (zi_flag_bits i) then Inl (ArchiveRejected ''ENCRYPTED_MEMBER'')
      else if last (zi_filename i) = CHR ''/'' \<or> file_type i = 10 \<or> file_type i \<notin> {0, 8}
      then Inl (ArchiveRejected ''UNSAFE_MEMBER_TYPE'')
      else if zi_file_size i > max_member_bytes limits then Inl (ArchiveRejected ''MEMBER_SIZE'')
      else if total_size + zi_file_size i > max_total_bytes limits then Inl (ArchiveRejected ''TOTAL_SIZE'')
      else if zi_file_size i \<noteq> 0 \<and>
              (zi_compress_size i = 0 \<or> zi_file_size i > max_compression_ratio limits * zi_compress_size i)
      then Inl (ArchiveRejected ''COMPRESSION_RATIO'')
      else Inr ())"

fun validate_directory ::
  "'k archive_lib \<Rightarrow> verification_limits \<Rightarrow> string set \<Rightarrow> string set \<Rightarrow> nat \<Rightarrow> zip_info list \<Rightarrow> archive_error + unit" where
  "validate_directory lib limits names keys total_size [] = Inr ()"
| "validate_directory lib limits names keys total_size (i # is) =
     rbind (safe_member_name lib (zi_filename i)) (\<lambda>name.
       if name \<in> names \<or> al_casefold lib (al_nfc lib name) \<in> keys
       then Inl (ArchiveRejected ''DUPLICATE_MEMBER'')
       else rbind (check_member limits total_size i) (\<lambda>_.
         validate_directory lib limits (insert name names) (insert (al_casefold lib (al_nfc lib name)) keys)
           (total_size + zi_file_size i) is))"

definition info_named :: "zip_info list \<Rightarrow> string \<Rightarrow> zip_info option" where
  "info_named infos name = find (\<lambda>i. zi_filename i = name) infos"

subsection \<open>Reading a member\<close>

definition READ_CHUNK :: nat where
  "READ_CHUNK = 64 * 1024"

fun read_failure :: "read_error \<Rightarrow> archive_error" where
  "read_failure ReadEOF = ArchiveRejected ''MEMBER_READ''"
| "read_failure ReadRuntime = ArchiveRejected ''MEMBER_READ''"
| "read_failure ReadBadZip = ArchiveRejected ''MEMBER_READ''"
| "read_failure ReadValue = ArchiveCaught"
| "read_failure ReadZlib = ArchiveEscaped"
| "read_failure ReadLzma = ArchiveEscaped"
| "read_failure ReadOther = ArchiveEscaped"

text \<open>The loop of \<^verbatim>\<open>_read_bounded\<close>; \<open>got\<close> is what has been read, which stays within the maximum.\<close>

function read_loop :: "(nat \<Rightarrow> nat \<Rightarrow> read_error + string) \<Rightarrow> nat \<Rightarrow> nat \<Rightarrow> nat \<Rightarrow> archive_error + string" where
  "read_loop read file_size maximum got =
     rbind (map_error read_failure (read got (min READ_CHUNK (maximum - got + 1)))) (\<lambda>chunk.
       if chunk = [] then (if got \<noteq> file_size then Inl (ArchiveRejected ''MEMBER_SIZE'') else Inr [])
       else if got + length chunk > maximum \<or> got + length chunk > file_size
       then Inl (ArchiveRejected ''MEMBER_SIZE'')
       else rbind (read_loop read file_size maximum (got + length chunk)) (\<lambda>rest. Inr (chunk @ rest)))"
  by pat_completeness auto
termination
  by (relation "measure (\<lambda>(read, file_size, maximum, got). maximum - got)") (auto simp: length_greater_0_conv [symmetric] simp del: length_greater_0_conv)

declare read_loop.simps [simp del]

definition read_bounded :: "'k archive_lib \<Rightarrow> string \<Rightarrow> zip_info \<Rightarrow> nat \<Rightarrow> archive_error + string" where
  "read_bounded lib archive info maximum = read_loop (al_read lib archive info) (zi_file_size info) maximum 0"

subsection \<open>The manifest\<close>

fun manifest_failure :: "json_error \<Rightarrow> archive_error" where
  "manifest_failure (DuplicateKeyError _) = ArchiveRejected ''MANIFEST_DUPLICATE_KEY''"
| "manifest_failure IntegerDigitLimit = ArchiveCaught"
| "manifest_failure _ = ArchiveRejected ''MANIFEST_INVALID''"

definition parse_manifest :: "'k archive_lib \<Rightarrow> string \<Rightarrow> archive_error + (string \<times> json) list" where
  "parse_manifest lib value =
     (if \<not> is_ascii value then Inl (ArchiveRejected ''MANIFEST_INVALID'')
      else rbind (map_error manifest_failure (loads_text value)) (\<lambda>parsed.
        case parsed of
          JObj kvs \<Rightarrow>
            (case canonical_json_bytes lib parsed of
               None \<Rightarrow> Inl ArchiveCaught
             | Some bytes \<Rightarrow>
                 if bytes \<noteq> value then Inl (ArchiveRejected ''MANIFEST_NONCANONICAL'') else Inr kvs)
        | _ \<Rightarrow> Inl (ArchiveRejected ''MANIFEST_INVALID'')))"

definition jget :: "string \<Rightarrow> (string \<times> json) list \<Rightarrow> json" where
  "jget k kvs = (case map_of kvs k of None \<Rightarrow> JNull | Some v \<Rightarrow> v)"

definition incident_keys :: "string list" where
  "incident_keys = [''base_sha'', ''id'', ''receipt_sha256'', ''timeline_head'', ''verdict_sha256'', ''warrant_sha256'']"

definition proof_keys :: "string list" where
  "proof_keys = [''counts'', ''execution_status'', ''plan_id'', ''plan_sha256'', ''response_statuses'', ''scenario'',
     ''trusted_observation_sha256'']"

definition file_keys :: "string list" where
  "file_keys = [''incident_id'', ''kind'', ''path'', ''provenance'', ''sha256'', ''size_bytes'']"

fun text_of :: "json \<Rightarrow> string" where
  "text_of (JStr s) = s"
| "text_of _ = []"

definition binding_of :: "(string \<times> json) list \<Rightarrow> json list \<Rightarrow> (string \<times> json) list \<Rightarrow> case_binding" where
  "binding_of incident statuses counts =
     \<lparr>cb_incident_id = text_of (jget ''id'' incident), cb_base_sha = text_of (jget ''base_sha'' incident),
      cb_verdict_sha256 = text_of (jget ''verdict_sha256'' incident),
      cb_warrant_sha256 = text_of (jget ''warrant_sha256'' incident),
      cb_receipt_sha256 = text_of (jget ''receipt_sha256'' incident),
      cb_timeline_head = text_of (jget ''timeline_head'' incident),
      cb_scenario = jget ''scenario'' incident, cb_plan_id = jget ''plan_id'' incident,
      cb_plan_sha256 = jget ''plan_sha256'' incident, cb_execution_status = jget ''execution_status'' incident,
      cb_response_statuses = Some statuses,
      cb_counts = Some [jget ''receipts'' counts, jget ''jobs'' counts, jget ''deliveries'' counts],
      cb_trusted_observation_sha256 = jget ''trusted_observation_sha256'' incident\<rparr>"

definition validate_proof :: "(string \<times> json) list \<Rightarrow> archive_error + unit" where
  "validate_proof incident =
     (case (jget ''response_statuses'' incident, jget ''counts'' incident) of
        (JArr statuses, JObj counts) \<Rightarrow>
          if set (map fst counts) \<noteq> {''receipts'', ''jobs'', ''deliveries''}
          then Inl (ArchiveRejected ''INCIDENT_BINDING'')
          else map_error (\<lambda>_. ArchiveRejected ''INCIDENT_BINDING'')
                 (check_binding (binding_of incident statuses counts))
      | _ \<Rightarrow> Inl (ArchiveRejected ''INCIDENT_BINDING''))"

definition validate_incident :: "json \<Rightarrow> archive_error + string" where
  "validate_incident value =
     (case value of
        JObj incident \<Rightarrow>
          if set (map fst incident) \<noteq> set incident_keys \<and> set (map fst incident) \<noteq> set (incident_keys @ proof_keys)
          then Inl (ArchiveRejected ''MANIFEST_SCHEMA'')
          else if \<not> is_storage_id (text_of (jget ''id'' incident)) then Inl (ArchiveRejected ''INCIDENT_BINDING'')
          else if \<not> is_hex_40_or_64 (text_of (jget ''base_sha'' incident))
          then Inl (ArchiveRejected ''INCIDENT_BINDING'')
          else if \<not> list_all (\<lambda>k. sha256_value (jget k incident))
                       [''receipt_sha256'', ''timeline_head'', ''verdict_sha256'', ''warrant_sha256'']
          then Inl (ArchiveRejected ''INCIDENT_BINDING'')
          else rbind (if set proof_keys \<subseteq> set (map fst incident) then validate_proof incident else Inr ())
                 (\<lambda>_. Inr (text_of (jget ''id'' incident)))
      | _ \<Rightarrow> Inl (ArchiveRejected ''MANIFEST_SCHEMA''))"

record manifest_entry =
  me_path :: string
  me_kind :: string
  me_provenance :: string
  me_sha256 :: string
  me_size_bytes :: int

definition allowed_kind :: "json \<Rightarrow> bool" where
  "allowed_kind v \<longleftrightarrow> (case v of JStr k \<Rightarrow> k \<in> set ALLOWED_ARTIFACT_KINDS | _ \<Rightarrow> False)"

definition validate_entry :: "'k archive_lib \<Rightarrow> string \<Rightarrow> string \<Rightarrow> json \<Rightarrow> archive_error + manifest_entry" where
  "validate_entry lib incident_id previous_path value =
     (case value of
        JObj entry \<Rightarrow>
          if set (map fst entry) \<noteq> set file_keys then Inl (ArchiveRejected ''MANIFEST_SCHEMA'')
          else (case jget ''path'' entry of
            JStr path \<Rightarrow>
              rbind (safe_member_name lib path) (\<lambda>_.
              if path \<le> previous_path then Inl (ArchiveRejected ''MANIFEST_ORDER'')
              else if jget ''incident_id'' entry \<noteq> JStr incident_id \<or> \<not> prefix (incident_prefix incident_id) path
              then Inl (ArchiveRejected ''CROSS_INCIDENT_MEMBER'')
              else if \<not> hashable (jget ''kind'' entry) then Inl ArchiveCaught
              else if \<not> allowed_kind (jget ''kind'' entry) \<or> list_ex (raw_part lib) (drop 2 (posix_parts path))
              then Inl (ArchiveRejected ''PRIVATE_MEMBER'')
              else if text_of (jget ''provenance'' entry) = [] then Inl (ArchiveRejected ''MANIFEST_SCHEMA'')
              else if \<not> sha256_value (jget ''sha256'' entry) then Inl (ArchiveRejected ''MANIFEST_SCHEMA'')
              else (case jget ''size_bytes'' entry of
                      JInt n \<Rightarrow>
                        if n < 0 then Inl (ArchiveRejected ''MANIFEST_SCHEMA'')
                        else Inr \<lparr>me_path = path, me_kind = text_of (jget ''kind'' entry),
                               me_provenance = text_of (jget ''provenance'' entry),
                               me_sha256 = text_of (jget ''sha256'' entry), me_size_bytes = n\<rparr>
                    | _ \<Rightarrow> Inl (ArchiveRejected ''MANIFEST_SCHEMA'')))
          | _ \<Rightarrow> Inl (ArchiveRejected ''MANIFEST_SCHEMA''))
      | _ \<Rightarrow> Inl (ArchiveRejected ''MANIFEST_SCHEMA''))"

fun validate_files :: "'k archive_lib \<Rightarrow> string \<Rightarrow> string \<Rightarrow> json list \<Rightarrow> archive_error + manifest_entry list" where
  "validate_files lib incident_id previous_path [] = Inr []"
| "validate_files lib incident_id previous_path (v # vs) =
     rbind (validate_entry lib incident_id previous_path v) (\<lambda>e.
     rbind (validate_files lib incident_id (me_path e) vs) (\<lambda>es. Inr (e # es)))"

definition validate_manifest :: "'k archive_lib \<Rightarrow> (string \<times> json) list \<Rightarrow> archive_error + manifest_entry list" where
  "validate_manifest lib manifest =
     (if set (map fst manifest) \<noteq> {''files'', ''format'', ''incident''} \<or> jget ''format'' manifest \<noteq> JStr FORMAT
      then Inl (ArchiveRejected ''MANIFEST_SCHEMA'')
      else rbind (validate_incident (jget ''incident'' manifest)) (\<lambda>incident_id.
        case jget ''files'' manifest of
          JArr files \<Rightarrow> validate_files lib incident_id [] files
        | _ \<Rightarrow> Inl (ArchiveRejected ''MANIFEST_SCHEMA'')))"

subsection \<open>The archive\<close>

definition check_signature :: "'k archive_lib \<Rightarrow> 'k \<Rightarrow> string \<Rightarrow> string \<Rightarrow> archive_error + unit" where
  "check_signature lib key signature_text manifest_bytes =
     (case b64decode signature_text of
        None \<Rightarrow> Inl (ArchiveRejected ''SIGNATURE_INVALID'')
      | Some signature \<Rightarrow>
          if length signature \<noteq> 64 \<or> \<not> al_verify lib key signature manifest_bytes
          then Inl (ArchiveRejected ''SIGNATURE_INVALID'') else Inr ())"

definition check_payload ::
  "'k archive_lib \<Rightarrow> verification_limits \<Rightarrow> string \<Rightarrow> zip_info list \<Rightarrow> manifest_entry \<Rightarrow> archive_error + string" where
  "check_payload lib limits archive infos e =
     (case info_named infos (me_path e) of
        None \<Rightarrow> Inl ArchiveEscaped
      | Some info \<Rightarrow>
          if int (zi_file_size info) \<noteq> me_size_bytes e then Inl (ArchiveRejected ''MEMBER_SIZE_MISMATCH'')
          else rbind (read_bounded lib archive info (max_member_bytes limits)) (\<lambda>payload.
            if al_sha lib payload \<noteq> me_sha256 e then Inl (ArchiveRejected ''MEMBER_HASH_MISMATCH'')
            else Inr payload))"

definition verify_archive ::
  "'k archive_lib \<Rightarrow> string \<Rightarrow> 'k \<Rightarrow> verification_limits \<Rightarrow> archive_error + json" where
  "verify_archive lib archive key limits =
     rbind (validate_central_directory_bounds archive limits) (\<lambda>_.
     case al_infolist lib archive of
       None \<Rightarrow> Inl ArchiveCaught
     | Some infos \<Rightarrow>
         if length infos < 2 \<or> length infos > max_members limits then Inl (ArchiveRejected ''MEMBER_COUNT'')
         else rbind (validate_directory lib limits {} {} 0 infos) (\<lambda>_.
           case (info_named infos MANIFEST_NAME, info_named infos SIGNATURE_NAME) of
             (Some manifest_info, Some signature_info) \<Rightarrow>
               rbind (read_bounded lib archive manifest_info (max_member_bytes limits)) (\<lambda>manifest_bytes.
               rbind (read_bounded lib archive signature_info 256) (\<lambda>signature_text.
               rbind (parse_manifest lib manifest_bytes) (\<lambda>manifest.
               rbind (check_signature lib key signature_text manifest_bytes) (\<lambda>_.
               rbind (validate_manifest lib manifest) (\<lambda>entries.
                 if set (map zi_filename infos) \<noteq> {MANIFEST_NAME, SIGNATURE_NAME} \<union> set (map me_path entries)
                 then Inl (ArchiveRejected ''UNMANIFESTED_MEMBER'')
                 else rbind (map_result (check_payload lib limits archive infos) entries)
                        (\<lambda>_. Inr (JObj manifest)))))))
           | _ \<Rightarrow> Inl (ArchiveRejected ''MANIFEST_MISSING'')))"

text \<open>A result, or the exception that leaves \<^verbatim>\<open>verify_export\<close>.\<close>

definition verify_export ::
  "'k archive_lib \<Rightarrow> archive_source \<Rightarrow> 'k key_source \<Rightarrow> verification_limits \<Rightarrow> archive_error + verification_result" where
  "verify_export lib source key limits =
     (case rbind (archive_bytes source limits) (\<lambda>b.
           rbind (public_key lib key) (\<lambda>k. verify_archive lib b k limits)) of
        Inl (ArchiveRejected c) \<Rightarrow> Inr \<lparr>vr_valid = False, vr_errors = [c], vr_manifest = None\<rparr>
      | Inl ArchiveCaught \<Rightarrow> Inr \<lparr>vr_valid = False, vr_errors = [''ARCHIVE_INVALID''], vr_manifest = None\<rparr>
      | Inl ArchiveEscaped \<Rightarrow> Inl ArchiveEscaped
      | Inr m \<Rightarrow> Inr \<lparr>vr_valid = True, vr_errors = [], vr_manifest = Some m\<rparr>)"

section \<open>What an accepted archive is\<close>

text \<open>The content of a named member, read the way the verifier reads it.\<close>

definition member_payload :: "'k archive_lib \<Rightarrow> verification_limits \<Rightarrow> string \<Rightarrow> string \<Rightarrow> archive_error + string" where
  "member_payload lib limits archive name =
     (case al_infolist lib archive of
        None \<Rightarrow> Inl ArchiveCaught
      | Some infos \<Rightarrow>
          (case info_named infos name of
             None \<Rightarrow> Inl (ArchiveRejected ''MANIFEST_MISSING'')
           | Some info \<Rightarrow> read_bounded lib archive info (max_member_bytes limits)))"

definition member_names :: "'k archive_lib \<Rightarrow> string \<Rightarrow> string list" where
  "member_names lib archive = (case al_infolist lib archive of None \<Rightarrow> [] | Some infos \<Rightarrow> map zi_filename infos)"

text \<open>The file an entry promises: in the incident's directory, of a public kind, with no raw part.\<close>

definition public_entry :: "'k archive_lib \<Rightarrow> string \<Rightarrow> manifest_entry \<Rightarrow> bool" where
  "public_entry lib incident_id e \<longleftrightarrow>
     prefix (incident_prefix incident_id) (me_path e) \<and> me_kind e \<in> set ALLOWED_ARTIFACT_KINDS \<and>
     \<not> list_ex (raw_part lib) (drop 2 (posix_parts (me_path e))) \<and>
     list_all (\<lambda>p. p \<notin> {[], ''.'', ''..''}) (posix_parts (me_path e)) \<and> posix_root (me_path e) = []"

lemma read_loop_Inr:
  assumes "read_loop read fsize maximum got = Inr s"
  obtains "got = fsize" "s = []"
  | chunk rest where "map_error read_failure (read got (min READ_CHUNK (maximum - got + 1))) = Inr chunk" "chunk \<noteq> []"
      "\<not> (got + length chunk > maximum \<or> got + length chunk > fsize)" "s = chunk @ rest"
      "read_loop read fsize maximum (got + length chunk) = Inr rest"
  using assms unfolding read_loop.simps [of read fsize maximum got] rbind_eq_Inr
  by (auto simp: rbind_eq_Inr split: if_splits)

lemma read_loop_length:
  "read_loop read fsize maximum got = Inr s \<Longrightarrow> got + length s = fsize \<and> (got \<le> maximum \<longrightarrow> got + length s \<le> maximum)"
proof (induction read fsize maximum got arbitrary: s rule: read_loop.induct)
  case (1 read fsize maximum got)
  from "1.prems" show ?case
  proof (cases rule: read_loop_Inr)
    case (2 chunk rest)
    then show ?thesis using "1.IH" [OF 2(1-3,5)] by auto
  qed simp
qed

lemma read_bounded_length:
  "read_bounded lib archive info maximum = Inr s \<Longrightarrow> length s = zi_file_size info \<and> length s \<le> maximum"
  by (auto simp: read_bounded_def dest: read_loop_length)

lemma validate_directory_distinct:
  "validate_directory lib limits names keys n is = Inr u \<Longrightarrow>
   distinct (map zi_filename is) \<and> set (map zi_filename is) \<inter> names = {} \<and>
   (\<forall>i \<in> set is. safe_member_name lib (zi_filename i) = Inr (zi_filename i))"
proof (induction lib limits names keys n "is" rule: validate_directory.induct)
  case (2 lib limits names keys n i "is")
  then show ?case
    by (fastforce simp: result_simps safe_member_name_def split: if_splits)
qed simp

lemma validate_directory_total:
  "validate_directory lib limits names keys n is = Inr u \<Longrightarrow> n \<le> max_total_bytes limits \<Longrightarrow>
   n + sum_list (map zi_file_size is) \<le> max_total_bytes limits"
proof (induction lib limits names keys n "is" rule: validate_directory.induct)
  case (2 lib limits names keys n i "is")
  then show ?case
    by (fastforce simp: result_simps check_member_def split: if_splits)
qed simp

lemma validate_entry_public:
  assumes "validate_entry lib incident_id previous v = Inr e"
  shows "public_entry lib incident_id e \<and> previous < me_path e \<and> is_sha256 (me_sha256 e) \<and> 0 \<le> me_size_bytes e"
  using assms
  by (auto simp: validate_entry_def public_entry_def allowed_kind_def safe_member_name_def safe_parts_def result_simps
      split: json.splits if_splits elim!: sha256_value.elims)

lemma validate_files_public:
  "validate_files lib incident_id previous vs = Inr es \<Longrightarrow>
   (\<forall>e \<in> set es. public_entry lib incident_id e \<and> previous < me_path e) \<and>
   sorted (map me_path es) \<and> distinct (map me_path es)"
proof (induction vs arbitrary: previous es)
  case (Cons v vs)
  then obtain e es' where es: "es = e # es'" "validate_entry lib incident_id previous v = Inr e"
    "validate_files lib incident_id (me_path e) vs = Inr es'"
    by (auto simp: result_simps)
  then show ?case
    using Cons.IH [OF es(3)] validate_entry_public [OF es(2)] by (fastforce intro: less_imp_le)
qed simp

text \<open>Everything an accepting run has established.\<close>

definition accepted ::
  "'k archive_lib \<Rightarrow> 'k \<Rightarrow> verification_limits \<Rightarrow> string \<Rightarrow> string \<Rightarrow> (string \<times> json) list \<Rightarrow> manifest_entry list \<Rightarrow> bool" where
  "accepted lib key limits archive manifest_bytes manifest entries \<longleftrightarrow>
     member_payload lib limits archive MANIFEST_NAME = Inr manifest_bytes \<and>
     parse_manifest lib manifest_bytes = Inr manifest \<and>
     (\<exists>signature. length signature = 64 \<and> al_verify lib key signature manifest_bytes) \<and>
     validate_manifest lib manifest = Inr entries \<and>
     distinct (member_names lib archive) \<and>
     set (member_names lib archive) = {MANIFEST_NAME, SIGNATURE_NAME} \<union> set (map me_path entries) \<and>
     list_all (\<lambda>e. \<exists>payload. member_payload lib limits archive (me_path e) = Inr payload \<and>
                  int (length payload) = me_size_bytes e \<and> al_sha lib payload = me_sha256 e) entries"

lemma check_payload_Inr:
  assumes "al_infolist lib archive = Some infos" "check_payload lib limits archive infos e = Inr payload"
  shows "member_payload lib limits archive (me_path e) = Inr payload \<and> int (length payload) = me_size_bytes e \<and>
    al_sha lib payload = me_sha256 e"
  using assms by (auto simp: check_payload_def member_payload_def result_simps
      split: option.splits if_splits dest: read_bounded_length)

lemma verify_archive_accepted:
  assumes "verify_archive lib archive key limits = Inr m"
  shows "\<exists>manifest_bytes manifest entries.
    m = JObj manifest \<and> accepted lib key limits archive manifest_bytes manifest entries"
proof -
  from assms obtain infos mi si mb st kvs es ps where run:
    "al_infolist lib archive = Some infos" "validate_directory lib limits {} {} 0 infos = Inr ()"
    "info_named infos MANIFEST_NAME = Some mi" "info_named infos SIGNATURE_NAME = Some si"
    "read_bounded lib archive mi (max_member_bytes limits) = Inr mb" "parse_manifest lib mb = Inr kvs"
    "check_signature lib key st mb = Inr ()" "validate_manifest lib kvs = Inr es"
    "set (map zi_filename infos) = {MANIFEST_NAME, SIGNATURE_NAME} \<union> set (map me_path es)"
    "map_result (check_payload lib limits archive infos) es = Inr ps" "m = JObj kvs"
    by (auto simp: verify_archive_def result_simps split: option.splits if_splits)
  have "list_all (\<lambda>e. \<exists>payload. check_payload lib limits archive infos e = Inr payload) es"
    using run(10) by (induction es arbitrary: ps) (auto simp: result_simps)
  then have "accepted lib key limits archive mb kvs es"
    using run validate_directory_distinct [OF run(2)]
    by (fastforce simp: accepted_def member_payload_def [of _ _ _ MANIFEST_NAME] member_names_def check_signature_def list_all_iff
        split: option.splits if_splits dest: check_payload_Inr [OF run(1)])
  then show ?thesis using run(11) by blast
qed

lemma parse_manifest_bytes: "parse_manifest lib mb = Inr kvs \<Longrightarrow> canonical_json_bytes lib (JObj kvs) = Some mb"
proof -
  assume "parse_manifest lib mb = Inr kvs"
  then obtain v where "map_error manifest_failure (loads_text mb) = Inr v"
    "(case v of JObj kvs \<Rightarrow>
        (case canonical_json_bytes lib v of None \<Rightarrow> Inl ArchiveCaught
         | Some bytes \<Rightarrow> if bytes \<noteq> mb then Inl (ArchiveRejected ''MANIFEST_NONCANONICAL'') else Inr kvs)
      | _ \<Rightarrow> Inl (ArchiveRejected ''MANIFEST_INVALID'')) = Inr kvs"
    unfolding parse_manifest_def by (simp only: rbind_eq_Inr split: if_splits) auto
  then show ?thesis by (cases v) (auto split: option.splits if_splits)
qed

lemma validate_manifest_files:
  "validate_manifest lib kvs = Inr es \<Longrightarrow> \<exists>i files. jget ''files'' kvs = JArr files \<and> validate_files lib i [] files = Inr es"
  by (cases "jget ''files'' kvs") (auto simp: validate_manifest_def result_simps split: if_splits)

lemma verify_export_valid:
  "verify_export lib (ArchiveBytes archive) (KeyObject key) limits = Inr r \<Longrightarrow> vr_valid r \<Longrightarrow>
   \<exists>m. verify_archive lib archive key limits = Inr m \<and> vr_manifest r = Some m"
  by (cases "verify_archive lib archive key limits")
    (auto simp: verify_export_def archive_bytes_def public_key_def split: archive_error.splits if_splits)

text \<open>C25. An archive that \<^verbatim>\<open>verify_export\<close> accepts carries a manifest whose bytes the pinned key signed; its
  member names are distinct and are exactly the manifest, the signature and the listed files; every
  listed file has the listed size and hash, lies below the directory of one incident without any
  traversal, is of a public kind and has no raw path part; and the listed paths are strictly sorted.\<close>

theorem accepted_archive_is_bound:
  assumes "verify_export lib (ArchiveBytes archive) (KeyObject key) limits = Inr r" "vr_valid r"
  shows "\<exists>manifest_bytes manifest entries incident_id.
    vr_manifest r = Some (JObj manifest) \<and> accepted lib key limits archive manifest_bytes manifest entries \<and>
    canonical_json_bytes lib (JObj manifest) = Some manifest_bytes \<and>
    list_all (public_entry lib incident_id) entries \<and> sorted (map me_path entries) \<and> distinct (map me_path entries)"
proof -
  from verify_export_valid [OF assms] obtain m where m: "verify_archive lib archive key limits = Inr m" "vr_manifest r = Some m"
    by blast
  from verify_archive_accepted [OF m(1)] obtain mb kvs es where
    a: "m = JObj kvs" "accepted lib key limits archive mb kvs es" by blast
  then have parsed: "parse_manifest lib mb = Inr kvs" "validate_manifest lib kvs = Inr es"
    by (simp_all add: accepted_def)
  from validate_manifest_files [OF parsed(2)] obtain i files where "validate_files lib i [] files = Inr es" by blast
  from validate_files_public [OF this] show ?thesis
    using m(2) a parse_manifest_bytes [OF parsed(1)] by (auto simp: list_all_iff)
qed

text \<open>Tamper evidence: two archives accepted with the same manifest have the same members, and, when the hash has no
  collision between the two contents, every member but the signature has the same content.\<close>

theorem same_manifest_same_members:
  assumes "verify_archive lib a key limits = Inr m" "verify_archive lib a' key' limits = Inr m"
    and "member_payload lib limits a name = Inr x" "member_payload lib limits a' name = Inr y"
    and "name \<noteq> SIGNATURE_NAME" "al_sha lib x = al_sha lib y \<longrightarrow> x = y"
  shows "set (member_names lib a) = set (member_names lib a') \<and> x = y"
proof -
  from verify_archive_accepted [OF assms(1)] verify_archive_accepted [OF assms(2)]
  obtain mb mb' kvs es es' where
    a: "accepted lib key limits a mb kvs es" "accepted lib key' limits a' mb' kvs es'" by blast
  then have es: "es' = es" "mb' = mb"
    by (auto simp: accepted_def dest!: parse_manifest_bytes)
  have "name \<in> set (member_names lib a)"
    using assms(3) by (auto simp: member_payload_def member_names_def info_named_def find_Some_iff split: option.splits)
  then consider "name = MANIFEST_NAME" | e where "e \<in> set es" "name = me_path e"
    using a(1) assms(5) by (auto simp: accepted_def)
  then have "x = y"
  proof cases
    case 1
    then show ?thesis using a es assms(3,4) by (simp add: accepted_def)
  next
    case (2 e)
    then have "al_sha lib x = me_sha256 e" "al_sha lib y = me_sha256 e"
      using a es assms(3,4) by (fastforce simp: accepted_def list_all_iff)+
    then show ?thesis using assms(6) by simp
  qed
  then show ?thesis using a es by (simp add: accepted_def)
qed

section \<open>What the verifier raises\<close>

text \<open>A member of the archive whose reading raises an exception that no clause of the verifier catches.\<close>

definition uncaught_member :: "'k archive_lib \<Rightarrow> string \<Rightarrow> zip_info list \<Rightarrow> bool" where
  "uncaught_member lib archive infos \<longleftrightarrow>
     (\<exists>info \<in> set infos. \<exists>off n x. al_read lib archive info off n = Inl x \<and> x \<in> {ReadZlib, ReadLzma, ReadOther})"

lemma read_loop_escaped:
  "read_loop read fsize maximum got = Inl ArchiveEscaped \<Longrightarrow>
   \<exists>off n x. read off n = Inl x \<and> x \<in> {ReadZlib, ReadLzma, ReadOther}"
proof (induction read fsize maximum got rule: read_loop.induct)
  case (1 read fsize maximum got)
  let ?m = "read got (min READ_CHUNK (maximum - got + 1))"
  show ?case
  proof (cases ?m)
    case (Inl e)
    then show ?thesis
      using "1.prems" unfolding read_loop.simps [of read fsize maximum got] by (cases e) auto
  next
    case (Inr chunk)
    then have "chunk \<noteq> []" "\<not> (got + length chunk > maximum \<or> got + length chunk > fsize)"
      "read_loop read fsize maximum (got + length chunk) = Inl ArchiveEscaped"
      using "1.prems" unfolding read_loop.simps [of read fsize maximum got]
      by (auto simp: rbind_eq_Inl split: if_splits)
    then show ?thesis using "1.IH" [of chunk] Inr by simp
  qed
qed

lemma read_bounded_escaped:
  assumes "read_bounded lib archive info maximum = Inl ArchiveEscaped" "info_named infos name = Some info"
  shows "uncaught_member lib archive infos"
proof -
  have "info \<in> set infos" using assms(2) by (auto simp: info_named_def find_Some_iff)
  then show ?thesis
    using read_loop_escaped assms(1) unfolding read_bounded_def uncaught_member_def by blast
qed

text \<open>The checks that read no member never let an exception escape.\<close>

lemma validate_directory_caught: "validate_directory lib limits names keys n is \<noteq> Inl ArchiveEscaped"
proof (induction lib limits names keys n "is" rule: validate_directory.induct)
  case (2 lib limits names keys n i "is")
  then show ?case by (auto simp: rbind_eq_Inl safe_member_name_def check_member_def require_def)
qed simp

lemma manifest_failure_caught: "manifest_failure e \<noteq> ArchiveEscaped"
  by (cases e) auto

lemma parse_manifest_caught: "parse_manifest lib b \<noteq> Inl ArchiveEscaped"
  by (auto simp: parse_manifest_def rbind_eq_Inl map_error_eq_Inl manifest_failure_caught [symmetric]
      split: json.splits option.splits)

lemma validate_entry_caught: "validate_entry lib i p v \<noteq> Inl ArchiveEscaped"
  by (cases v) (auto simp: validate_entry_def rbind_eq_Inl safe_member_name_def split: json.splits)

lemma validate_files_caught: "validate_files lib i p vs \<noteq> Inl ArchiveEscaped"
  by (induction vs arbitrary: p) (auto simp: rbind_eq_Inl validate_entry_caught)

lemma validate_incident_caught: "validate_incident v \<noteq> Inl ArchiveEscaped"
  by (cases v) (auto simp: validate_incident_def validate_proof_def rbind_eq_Inl map_error_eq_Inl split: json.splits)

lemma validate_manifest_caught: "validate_manifest lib kvs \<noteq> Inl ArchiveEscaped"
  by (auto simp: validate_manifest_def rbind_eq_Inl validate_incident_caught validate_files_caught split: json.splits)

lemma check_payload_escaped:
  assumes "check_payload lib limits archive infos e = Inl ArchiveEscaped" "me_path e \<in> set (map zi_filename infos)"
  shows "uncaught_member lib archive infos"
proof -
  obtain info where info: "info_named infos (me_path e) = Some info"
    using assms(2) by (cases "info_named infos (me_path e)") (auto simp: info_named_def find_None_iff)
  then have "read_bounded lib archive info (max_member_bytes limits) = Inl ArchiveEscaped"
    using assms(1) by (auto simp: check_payload_def rbind_eq_Inl split: if_splits)
  then show ?thesis using info by (rule read_bounded_escaped)
qed

lemma map_result_eq_Inl: "map_result f xs = Inl e \<Longrightarrow> \<exists>x \<in> set xs. f x = Inl e"
  by (induction xs) (auto simp: result_simps)

lemma bounds_caught: "validate_central_directory_bounds archive limits \<noteq> Inl ArchiveEscaped"
  by (auto simp: validate_central_directory_bounds_def Let_def split: option.splits)

lemma verify_archive_escaped:
  assumes "verify_archive lib archive key limits = Inl ArchiveEscaped"
  obtains infos where "al_infolist lib archive = Some infos" "uncaught_member lib archive infos"
proof -
  from assms obtain infos where infos: "al_infolist lib archive = Some infos" and
    "(\<exists>info name m. info_named infos name = Some info \<and> read_bounded lib archive info m = Inl ArchiveEscaped) \<or>
     (\<exists>es. set (map zi_filename infos) = {MANIFEST_NAME, SIGNATURE_NAME} \<union> set (map me_path es) \<and>
           map_result (check_payload lib limits archive infos) es = Inl ArchiveEscaped)"
    unfolding verify_archive_def
    by (fastforce simp: rbind_eq_Inl bounds_caught validate_directory_caught parse_manifest_caught
        validate_manifest_caught check_signature_def split: option.splits if_splits)
  then have "uncaught_member lib archive infos"
    by (elim disjE exE conjE) (erule (1) read_bounded_escaped [rotated], drule map_result_eq_Inl,
        force intro: check_payload_escaped)
  with infos show thesis by (rule that)
qed

text \<open>C29. \<^verbatim>\<open>verify_export\<close> promises stable failure codes only; it raises in no case but one: reading a member
  that the directory of the given archive lists raises \<^verbatim>\<open>zlib.error\<close>, \<^verbatim>\<open>lzma.LZMAError\<close> or another exception
  that is no \<^verbatim>\<open>EOFError\<close>, \<^verbatim>\<open>RuntimeError\<close>, \<^verbatim>\<open>BadZipFile\<close>, \<^verbatim>\<open>OSError\<close>, \<^verbatim>\<open>ValueError\<close> or \<^verbatim>\<open>TypeError\<close>. The witness is
  an archive with a corrupt LZMA member.\<close>

theorem verifier_raises_only_decompressor_errors:
  assumes "verify_export lib source key limits = Inl e"
  shows "e = ArchiveEscaped \<and> (\<exists>archive infos. archive_bytes source limits = Inr archive \<and>
    al_infolist lib archive = Some infos \<and> uncaught_member lib archive infos)"
proof -
  have "archive_bytes source limits \<noteq> Inl ArchiveEscaped" "public_key lib key \<noteq> Inl ArchiveEscaped"
    by (cases source; auto simp: archive_bytes_def)
      (cases key; auto simp: public_key_def split: option.splits)
  with assms obtain b k where e: "e = ArchiveEscaped" and b: "archive_bytes source limits = Inr b"
    and v: "verify_archive lib b k limits = Inl ArchiveEscaped"
    by (auto simp: verify_export_def rbind_def split: sum.splits archive_error.splits)
  obtain infos where "al_infolist lib b = Some infos" "uncaught_member lib b infos"
    by (rule verify_archive_escaped [OF v])
  with e b show ?thesis by blast
qed

end
