(* ===== verification/CP_ExportRoundtrip.thy ===== *)
theory CP_ExportRoundtrip
  imports CP_Export
begin

text \<open>
  The round trip between \<^verbatim>\<open>export/builder.py\<close> and \<^verbatim>\<open>export/verifier.py\<close>: every archive the builder makes is
  accepted and gives back the manifest it was built from. What is asked beside the promises of the
  libraries: the archive stays within the verifier's limits, names do not fold together, artifact paths and provenances are
  printable ASCII, and no artifact path is a single dot, which the builder lets through.
\<close>

section \<open>The manifest is read back\<close>

lemma refloat_integral:
  "integral v \<Longrightarrow> refloat f v = Some v"
  "list_all (\<lambda>(k, v). integral v) kvs \<Longrightarrow> refloat_items f kvs = Some kvs"
  "list_all integral vs \<Longrightarrow> refloat_list f vs = Some vs"
  by (induction f v and f kvs and f vs rule: refloat_refloat_items_refloat_list.induct) auto

lemma canonical_json_bytes_printable:
  "integral v \<Longrightarrow> printable_strings v \<Longrightarrow> canonical_json_bytes lib v = Some (dumps v)"
  by (simp add: canonical_json_bytes_def refloat_integral ascii_escape_printable printable_dumps)

lemma parse_manifest_dumps:
  assumes "canonical_value (JObj kvs)" "integral (JObj kvs)" "printable_strings (JObj kvs)"
  shows "parse_manifest lib (dumps (JObj kvs)) = Inr kvs"
proof -
  have "loads_text (dumps (JObj kvs)) = Inr (JObj kvs)"
    using scan_canonical_text [OF assms(1,2)] by (simp add: loads_text_def del: dumps.simps)
  then show ?thesis
    using canonical_json_bytes_printable [OF assms(2,3), of lib] printable_ascii [OF printable_dumps [OF assms(3)]]
    by (simp add: parse_manifest_def del: dumps.simps)
qed

definition incident_fields :: "case_binding \<Rightarrow> (string \<times> json) list" where
  "incident_fields b = base_fields b @ (if cb_scenario b \<noteq> JNull then proof_fields b else [])"

lemma incident_fields_distinct: "distinct (map fst (incident_fields b))"
  by (cases "cb_scenario b = JNull") (auto simp: incident_fields_def base_fields_def proof_fields_def)

lemma jget_incident: "jget k (sort_key fst (incident_fields b)) = jget k (incident_fields b)"
  by (simp add: jget_def map_of_sort_key_fst incident_fields_distinct)

lemma check_binding_complete:
  assumes "check_binding b = Inr ()"
  shows "cb_scenario b = JNull \<or> check_proof b = Inr ()"
  using assms by (auto simp: check_binding_def proof_absences_def split: if_splits)

lemma check_proof_fields:
  assumes "check_proof b = Inr ()"
  obtains statuses x y z where "cb_response_statuses b = Some statuses" "list_all status_code statuses"
    "cb_counts b = Some [JInt x, JInt y, JInt z]"
proof -
  from assms obtain ss cs where *: "cb_response_statuses b = Some ss" "list_all status_code ss"
    "cb_counts b = Some cs" "length cs = 3" "list_all count_value cs"
    by (auto simp: check_proof_def split: if_splits option.splits)
  then obtain x y z where "cs = [JInt x, JInt y, JInt z]"
    by (auto simp: length_Suc_conv eval_nat_numeral elim!: count_value.elims)
  with * show ?thesis by (intro that) auto
qed

lemma validate_incident_built:
  assumes "check_binding b = Inr ()"
  shows "validate_incident (incident_manifest b) = Inr (cb_incident_id b)"
proof -
  let ?f = "incident_fields b"
  have ids: "is_storage_id (cb_incident_id b)" "is_hex_40_or_64 (cb_base_sha b)" "is_sha256 (cb_verdict_sha256 b)"
    "is_sha256 (cb_warrant_sha256 b)" "is_sha256 (cb_receipt_sha256 b)" "is_sha256 (cb_timeline_head b)"
    using assms by (auto simp: check_binding_def split: if_splits)
  have base: "jget ''id'' ?f = JStr (cb_incident_id b)" "jget ''base_sha'' ?f = JStr (cb_base_sha b)"
    "jget ''verdict_sha256'' ?f = JStr (cb_verdict_sha256 b)" "jget ''warrant_sha256'' ?f = JStr (cb_warrant_sha256 b)"
    "jget ''receipt_sha256'' ?f = JStr (cb_receipt_sha256 b)" "jget ''timeline_head'' ?f = JStr (cb_timeline_head b)"
    by (simp_all add: jget_def incident_fields_def base_fields_def)
  show ?thesis
  proof (cases "cb_scenario b = JNull")
    case True
    then have "fst ` set ?f = set incident_keys"
      by (auto simp: incident_fields_def base_fields_def incident_keys_def)
    then show ?thesis
      using ids base by (simp add: validate_incident_def incident_manifest_def incident_fields_def [symmetric]
          jget_incident proof_keys_def incident_keys_def)
  next
    case False
    with check_binding_complete [OF assms] have "check_proof b = Inr ()" by simp
    then obtain ss x y z where p: "cb_response_statuses b = Some ss" "cb_counts b = Some [JInt x, JInt y, JInt z]"
      by (rule check_proof_fields)
    let ?counts = "[(''deliveries'', JInt z), (''jobs'', JInt y), (''receipts'', JInt x)]"
    have proof_part: "jget ''response_statuses'' ?f = JArr ss" "jget ''counts'' ?f = JObj ?counts"
      "jget ''scenario'' ?f = cb_scenario b" "jget ''plan_id'' ?f = cb_plan_id b"
      "jget ''plan_sha256'' ?f = cb_plan_sha256 b" "jget ''execution_status'' ?f = cb_execution_status b"
      "jget ''trusted_observation_sha256'' ?f = cb_trusted_observation_sha256 b"
      using False p by (simp_all add: jget_def incident_fields_def base_fields_def proof_fields_def)
    have same: "binding_of (sort_key fst ?f) ss ?counts = b"
      using p by (simp add: binding_of_def jget_incident base proof_part) (simp add: jget_def)
    have keys: "fst ` set ?f = set (incident_keys @ proof_keys)"
      using False by (auto simp: incident_fields_def base_fields_def proof_fields_def incident_keys_def proof_keys_def)
    have "validate_proof (sort_key fst ?f) = Inr ()"
      using assms same by (auto simp: validate_proof_def jget_incident proof_part)
    then show ?thesis
      using ids base keys by (simp add: validate_incident_def incident_manifest_def incident_fields_def [symmetric] jget_incident)
  qed
qed

section \<open>Member paths\<close>

lemma char_count_append [simp]: "char_count (s @ r) = char_count s + char_count r"
  by (simp add: char_count_def)

lemma char_count_le: "char_count s \<le> length s"
  by (simp add: char_count_def)

lemma identifier_char_code:
  assumes "is_identifier_char c"
  shows "32 \<le> code c \<and> code c < 127 \<and> code c \<noteq> 47 \<and> code c \<noteq> 92"
proof -
  from assms consider "is_alnum c" | "c = CHR ''.''" | "c = CHR ''_''" | "c = CHR '':''" | "c = CHR ''-''"
    by (auto simp: is_identifier_char_def)
  then show ?thesis
    by cases (auto simp: is_alnum_def is_digit_def is_lower_def is_upper_def)
qed

lemma storage_id_facts:
  assumes "is_storage_id i"
  shows "CHR ''/'' \<notin> set i" "CHR 0x5C \<notin> set i" "CHR 0x00 \<notin> set i" "i \<noteq> []" "i \<noteq> ''.''" "i \<noteq> ''..''" "length i \<le> 128" "printable i"
proof -
  from assms obtain c cs where i: "i = c # cs" "is_alnum c" "length cs \<le> 127" "list_all is_identifier_char cs"
    by (auto simp: is_storage_id_def is_identifier_def split: list.splits)
  then have all: "\<forall>d \<in> set i. 32 \<le> code d \<and> code d < 127 \<and> code d \<noteq> 47 \<and> code d \<noteq> 92"
    using identifier_char_code by (auto simp: is_identifier_char_def [of c] list_all_iff)
  then show "CHR ''/'' \<notin> set i" "CHR 0x5C \<notin> set i" "CHR 0x00 \<notin> set i" "printable i"
    by (auto simp: printable_def list_all_iff)
  show "i \<noteq> []" "i \<noteq> ''.''" "i \<noteq> ''..''" "length i \<le> 128"
    using i by (auto simp: is_alnum_def is_digit_def is_lower_def is_upper_def)
qed

lemma posix_parts_member:
  assumes "is_storage_id i" "posix_root rel = []"
  shows "posix_root (incident_prefix i @ rel) = []"
    and "posix_tail (incident_prefix i @ rel) = ''incidents'' # i # posix_tail rel"
    and "posix_parts (incident_prefix i @ rel) = ''incidents'' # i # posix_parts rel"
proof -
  have "split_on (CHR ''/'') (''incidents'' @ CHR ''/'' # i @ CHR ''/'' # rel) = ''incidents'' # i # split_on (CHR ''/'') rel"
    using storage_id_facts(1) [OF assms(1)] by (subst split_on_append_sep; simp add: split_on_append_sep)
  then show tail: "posix_tail (incident_prefix i @ rel) = ''incidents'' # i # posix_tail rel"
    using storage_id_facts(4,5) [OF assms(1)] by (simp add: posix_tail_def incident_prefix_def)
  show root: "posix_root (incident_prefix i @ rel) = []"
    by (simp add: posix_root_def incident_prefix_def)
  show "posix_parts (incident_prefix i @ rel) = ''incidents'' # i # posix_parts rel"
    using tail root assms(2) by (simp add: posix_parts_def)
qed

lemma safe_relative_path_Inr:
  assumes "safe_relative_path lib value = Inr rel"
  shows "rel = value \<and> value \<noteq> [] \<and> char_count value \<le> 1024 \<and> CHR 0x5C \<notin> set value \<and> CHR 0x00 \<notin> set value \<and>
    posix_root value = [] \<and> as_posix value = value \<and> safe_parts value"
  using assms by (auto simp: safe_relative_path_def split: if_splits)

lemma safe_member_of_relative:
  assumes "is_storage_id i" "safe_relative_path lib value = Inr rel" "value \<noteq> ''.''" "printable value"
    "nfc_laws (al_nfc lib)"
  shows "safe_member_name lib (incident_prefix i @ value) = Inr (incident_prefix i @ value)"
proof -
  have rel: "value \<noteq> []" "char_count value \<le> 1024" "CHR 0x5C \<notin> set value" "CHR 0x00 \<notin> set value"
    "posix_root value = []" "as_posix value = value" "safe_parts value"
    using safe_relative_path_Inr [OF assms(2)] by auto
  note i = storage_id_facts [OF assms(1)]
  have "posix_tail value \<noteq> []" using rel(6) assms(3) rel(5) by (auto simp: as_posix_def)
  then have "as_posix (incident_prefix i @ value) = incident_prefix i @ value"
    using rel(5,6) posix_parts_member(1,2) [OF assms(1) rel(5)]
    by (auto simp: as_posix_def incident_prefix_def join_Cons)
  moreover have "char_count (incident_prefix i @ value) \<le> 2048"
    unfolding incident_prefix_def append_assoc char_count_append
    using rel(2) i(7) char_count_le [of i] char_count_le [of "''incidents/''"] char_count_le [of "''/''"] by simp
  moreover have "al_nfc lib (incident_prefix i @ value) = incident_prefix i @ value"
    using assms(4,5) i(8) by (simp add: nfc_laws_def incident_prefix_def printable_ascii)
  moreover have "CHR 0x5C \<notin> set (incident_prefix i @ value)" "CHR 0x00 \<notin> set (incident_prefix i @ value)"
    using rel(3,4) i(2,3) by (auto simp: incident_prefix_def)
  moreover have "incident_prefix i @ value \<noteq> []" by (simp add: incident_prefix_def)
  moreover have "safe_parts (incident_prefix i @ value)" "\<not> drive_qualified (incident_prefix i @ value)"
    using rel(7) i(4-6) posix_parts_member(3) [OF assms(1) rel(5)]
    by (simp_all add: safe_parts_def drive_qualified_def)
  ultimately show ?thesis
    using posix_parts_member(1) [OF assms(1) rel(5)] by (simp add: safe_member_name_def)
qed

section \<open>The listed files pass\<close>

text \<open>The artifacts of a build together with their member paths.\<close>

definition members_ok :: "'k archive_lib \<Rightarrow> case_binding \<Rightarrow> (string \<times> export_artifact) list \<Rightarrow> bool" where
  "members_ok lib b members \<longleftrightarrow>
     list_all (\<lambda>(p, a). artifact_member lib b a = Inr p \<and> artifact_ok a \<and> ea_path a \<noteq> ''.'' \<and>
                 printable (ea_path a) \<and> printable (ea_provenance a) \<and> is_sha256 (al_sha lib (ea_data a))) members"

lemma collect_members_Inr:
  "collect_members lib b seen as = Inr members \<Longrightarrow>
   map snd members = as \<and> list_all (\<lambda>(p, a). artifact_member lib b a = Inr p) members \<and>
   distinct (map fst members) \<and> set (map fst members) \<inter> set seen = {}"
proof (induction as arbitrary: seen members)
  case (Cons a as)
  then obtain p rest where "members = (p, a) # rest" "artifact_member lib b a = Inr p" "p \<notin> set seen"
    "collect_members lib b (p # seen) as = Inr rest"
    by (auto simp: result_simps split: if_splits)
  then show ?case using Cons.IH [of "p # seen" rest] by auto
qed simp

lemma artifact_member_Inr:
  assumes "artifact_member lib b a = Inr p"
  obtains "p = incident_prefix (cb_incident_id b) @ ea_path a" "safe_relative_path lib (ea_path a) = Inr (ea_path a)"
    "ea_kind a \<in> set ALLOWED_ARTIFACT_KINDS" "ea_incident_id a = cb_incident_id b"
    "\<not> list_ex (raw_part lib) (posix_parts (ea_path a))"
proof -
  from assms obtain rel where "safe_relative_path lib (ea_path a) = Inr rel"
    "p = incident_prefix (cb_incident_id b) @ rel" "\<not> list_ex (raw_part lib) (posix_parts rel)"
    "ea_kind a \<in> set ALLOWED_ARTIFACT_KINDS" "ea_incident_id a = cb_incident_id b"
    by (auto simp: artifact_member_def result_simps split: if_splits)
  with safe_relative_path_Inr [of lib "ea_path a" rel] show ?thesis by (intro that) auto
qed

definition entry_of :: "'k archive_lib \<Rightarrow> string \<times> export_artifact \<Rightarrow> manifest_entry" where
  "entry_of lib pa = \<lparr>me_path = fst pa, me_kind = ea_kind (snd pa), me_provenance = ea_provenance (snd pa),
     me_sha256 = al_sha lib (ea_data (snd pa)), me_size_bytes = int (length (ea_data (snd pa)))\<rparr>"

lemma validate_entry_built:
  assumes "members_ok lib b [(p, a)]" "is_storage_id (cb_incident_id b)" "nfc_laws (al_nfc lib)" "previous < p"
  shows "validate_entry lib (cb_incident_id b) previous (entry_json lib p a) = Inr (entry_of lib (p, a))"
proof -
  from assms(1) have a: "artifact_member lib b a = Inr p" "artifact_ok a" "ea_path a \<noteq> ''.''" "printable (ea_path a)"
    "is_sha256 (al_sha lib (ea_data a))"
    by (auto simp: members_ok_def)
  from a(1) show ?thesis
  proof (rule artifact_member_Inr)
    assume m: "p = incident_prefix (cb_incident_id b) @ ea_path a" "safe_relative_path lib (ea_path a) = Inr (ea_path a)"
      "ea_kind a \<in> set ALLOWED_ARTIFACT_KINDS" "ea_incident_id a = cb_incident_id b"
      "\<not> list_ex (raw_part lib) (posix_parts (ea_path a))"
    have "safe_member_name lib p = Inr p"
      using safe_member_of_relative [OF assms(2) m(2) a(3,4) assms(3)] m(1) by simp
    moreover have "posix_root (ea_path a) = []" using safe_relative_path_Inr [OF m(2)] by blast
    then have "drop 2 (posix_parts p) = posix_parts (ea_path a)"
      using posix_parts_member(3) [OF assms(2)] m(1) by simp
    moreover have "ea_provenance a \<noteq> []" using a(2) by (simp add: artifact_ok_def)
    ultimately show ?thesis
      using m a(5) assms(4)
      by (simp add: validate_entry_def entry_json_def jget_def file_keys_def allowed_kind_def entry_of_def insert_commute)
  qed
qed

lemma validate_files_built:
  assumes "members_ok lib b members" "is_storage_id (cb_incident_id b)" "nfc_laws (al_nfc lib)"
    "sorted (map fst members)" "distinct (map fst members)" "\<forall>p \<in> set (map fst members). previous < p"
  shows "validate_files lib (cb_incident_id b) previous (map (\<lambda>(p, a). entry_json lib p a) members) = Inr (map (entry_of lib) members)"
  using assms(1,4,5,6)
proof (induction members arbitrary: previous)
  case (Cons m ms)
  obtain p a where m: "m = (p, a)" by (cases m)
  have "members_ok lib b [(p, a)]" "members_ok lib b ms" using Cons.prems(1) by (simp_all add: members_ok_def m)
  then show ?case
    using validate_entry_built [OF _ assms(2,3), of p a previous] Cons.IH [of p] Cons.prems
    by (force simp: m entry_of_def less_le)
qed simp

section \<open>The directory and the contents\<close>

text \<open>What \<^verbatim>\<open>zipfile\<close> promises of an archive it wrote: the members in order, with their sizes, as unencrypted
  regular files, and reads that return the written bytes.\<close>

definition holds_member :: "'k archive_lib \<Rightarrow> string \<Rightarrow> zip_info \<Rightarrow> string \<times> string \<Rightarrow> bool" where
  "holds_member lib archive i m \<longleftrightarrow>
     zi_filename i = fst m \<and> zi_file_size i = length (snd m) \<and> even (zi_flag_bits i) \<and> file_type i = 8 \<and>
     (\<forall>off n. al_read lib archive i off n = Inr (take n (drop off (snd m))))"

definition holds_members :: "'k archive_lib \<Rightarrow> string \<Rightarrow> (string \<times> string) list \<Rightarrow> bool" where
  "holds_members lib archive ms \<longleftrightarrow>
     (\<exists>infos. al_infolist lib archive = Some infos \<and> list_all2 (holds_member lib archive) infos ms)"

text \<open>The archive stays within the verifier's limits and no two names fold together.\<close>

definition archive_fits :: "'k archive_lib \<Rightarrow> verification_limits \<Rightarrow> string \<Rightarrow> bool" where
  "archive_fits lib limits archive \<longleftrightarrow>
     length archive \<le> max_archive_bytes limits \<and> validate_central_directory_bounds archive limits = Inr () \<and>
     (case al_infolist lib archive of None \<Rightarrow> False
      | Some infos \<Rightarrow>
          length infos \<le> max_members limits \<and>
          list_all (\<lambda>i. zi_file_size i \<le> max_member_bytes limits \<and>
             (zi_file_size i = 0 \<or> zi_compress_size i \<noteq> 0 \<and>
                zi_file_size i \<le> max_compression_ratio limits * zi_compress_size i)) infos \<and>
          sum_list (map zi_file_size infos) \<le> max_total_bytes limits \<and>
          distinct (map (\<lambda>i. al_casefold lib (al_nfc lib (zi_filename i))) infos))"

lemma read_loop_all:
  assumes "\<And>off n. read off n = Inr (take n (drop off d))" "length d \<le> maximum" "got \<le> length d"
  shows "read_loop read (length d) maximum got = Inr (drop got d)"
  using assms(3)
proof (induction "length d - got" arbitrary: got rule: less_induct)
  case less
  define n where "n = min READ_CHUNK (maximum - got + 1)"
  define chunk where "chunk = take n (drop got d)"
  have n: "0 < n" by (simp add: n_def READ_CHUNK_def)
  have step: "read_loop read (length d) maximum got =
      (if chunk = [] then (if got \<noteq> length d then Inl (ArchiveRejected ''MEMBER_SIZE'') else Inr [])
       else if got + length chunk > maximum \<or> got + length chunk > length d then Inl (ArchiveRejected ''MEMBER_SIZE'')
       else rbind (read_loop read (length d) maximum (got + length chunk)) (\<lambda>rest. Inr (chunk @ rest)))"
    unfolding read_loop.simps [of read "length d" maximum got] n_def [symmetric] assms(1) chunk_def by simp
  show ?case
  proof (cases "got = length d")
    case True
    then have "chunk = []" by (simp add: chunk_def)
    with True step show ?thesis by simp
  next
    case False
    with less.prems n have c: "chunk \<noteq> []" "got + length chunk \<le> length d" "length chunk > 0"
      by (auto simp: chunk_def)
    have "read_loop read (length d) maximum (got + length chunk) = Inr (drop (got + length chunk) d)"
      by (rule less.hyps) (use c(2,3) in arith)+
    moreover have "chunk @ drop (got + length chunk) d = drop got d"
    proof -
      have "take (length chunk) (drop got d) = chunk" by (simp add: chunk_def min_def)
      then show ?thesis using append_take_drop_id [of "length chunk" "drop got d"] by (simp add: add.commute)
    qed
    ultimately show ?thesis using c assms(2) by (auto simp: step)
  qed
qed

lemma read_bounded_holds:
  "holds_member lib archive i m \<Longrightarrow> length (snd m) \<le> maximum \<Longrightarrow> read_bounded lib archive i maximum = Inr (snd m)"
  using read_loop_all [of "al_read lib archive i" "snd m" maximum 0] by (simp add: holds_member_def read_bounded_def)

lemma info_named_holds:
  assumes "list_all2 (holds_member lib archive) infos ms" "distinct (map fst ms)" "(name, data) \<in> set ms"
  obtains i where "info_named infos name = Some i" "i \<in> set infos" "holds_member lib archive i (name, data)"
proof -
  have "\<exists>i. info_named infos name = Some i \<and> i \<in> set infos \<and> holds_member lib archive i (name, data)"
    using assms
  proof (induction infos ms rule: list_all2_induct)
    case (Cons i infos m ms)
    show ?case
    proof (cases "fst m = name")
      case True
      then have "m = (name, data)" using Cons.prems by (cases m) (force simp: image_iff)
      then show ?thesis using Cons.hyps by (auto simp: info_named_def holds_member_def)
    next
      case False
      then have "zi_filename i \<noteq> name" using Cons.hyps(1) by (simp add: holds_member_def)
      with False Cons.prems Cons.IH show ?thesis by (auto simp: info_named_def)
    qed
  qed simp
  with that show ?thesis by blast
qed

lemma last_join: "ws \<noteq> [] \<Longrightarrow> [] \<notin> set ws \<Longrightarrow> join sep ws \<noteq> [] \<and> last (join sep ws) = last (last ws)"
  by (induction sep ws rule: join.induct) auto

lemma safe_name_last:
  assumes "safe_member_name lib name = Inr r"
  shows "last name \<noteq> CHR ''/''"
proof -
  have name: "posix_root name = []" "as_posix name = name"
    using assms by (auto simp: safe_member_name_def split: if_splits)
  have parts: "w \<noteq> [] \<and> CHR ''/'' \<notin> set w" if "w \<in> set (posix_tail name)" for w
    using that by (auto simp: posix_tail_def dest: split_on_no_sep)
  show ?thesis
  proof (cases "posix_tail name = []")
    case True
    then have "name = ''.''" using name by (simp add: as_posix_def)
    then show ?thesis by simp
  next
    case False
    then have "name = join ''/'' (posix_tail name)" using name by (simp add: as_posix_def)
    moreover have "last (join ''/'' (posix_tail name)) = last (last (posix_tail name))"
      using last_join [OF False] parts by blast
    moreover have "last (posix_tail name) \<in> set (posix_tail name)" using False by simp
    ultimately show ?thesis using parts by (metis last_in_set)
  qed
qed

lemma validate_directory_built:
  assumes "list_all (\<lambda>i. safe_member_name lib (zi_filename i) = Inr (zi_filename i) \<and> even (zi_flag_bits i) \<and>
      file_type i = 8 \<and> zi_file_size i \<le> max_member_bytes limits \<and>
      (zi_file_size i = 0 \<or> zi_compress_size i \<noteq> 0 \<and> zi_file_size i \<le> max_compression_ratio limits * zi_compress_size i)) infos"
    "n + sum_list (map zi_file_size infos) \<le> max_total_bytes limits"
    "distinct (map zi_filename infos)" "set (map zi_filename infos) \<inter> names = {}"
    "distinct (map (\<lambda>i. al_casefold lib (al_nfc lib (zi_filename i))) infos)"
    "set (map (\<lambda>i. al_casefold lib (al_nfc lib (zi_filename i))) infos) \<inter> keys = {}"
  shows "validate_directory lib limits names keys n infos = Inr ()"
  using assms
proof (induction infos arbitrary: names keys n)
  case (Cons i infos)
  have "last (zi_filename i) \<noteq> CHR ''/''"
    using Cons.prems(1) by (auto dest: safe_name_last)
  with Cons show ?case by (auto simp: check_member_def)
qed simp

section \<open>The round trip\<close>

lemma b64encode_length: "length (b64encode s) = 4 * ((length s + 2) div 3)"
proof (induction s rule: b64encode.induct)
  case (4 a b c s)
  have "(5 + length s) div 3 = Suc ((length s + 2) div 3)" by presburger
  with 4 show ?case by simp
qed simp_all

lemma manifest_canonical:
  assumes "check_binding b = Inr ()"
  shows "canonical_value (manifest_json lib b members)"
proof -
  have "canonical_value (entry_json lib p a)" for p a
    by (simp add: entry_json_def)
  moreover have "list_all (\<lambda>(k, v). canonical_value v) (incident_fields b)"
  proof (cases "cb_scenario b = JNull")
    case True
    then show ?thesis by (simp add: incident_fields_def base_fields_def)
  next
    case False
    with check_binding_complete [OF assms] have p: "check_proof b = Inr ()" by simp
    then obtain ss x y z where "cb_response_statuses b = Some ss" "list_all status_code ss"
      "cb_counts b = Some [JInt x, JInt y, JInt z]"
      by (rule check_proof_fields)
    moreover from this(2) have "list_all canonical_value ss"
      by (auto simp: list_all_iff elim!: status_code.elims)
    moreover have "canonical_value (cb_plan_sha256 b)" "canonical_value (cb_trusted_observation_sha256 b)"
      "canonical_value (cb_scenario b)" "canonical_value (cb_plan_id b)" "canonical_value (cb_execution_status b)"
      using p by (auto simp: check_proof_def split: if_splits elim!: sha256_value.elims)
    ultimately show ?thesis using False by (simp add: incident_fields_def base_fields_def proof_fields_def)
  qed
  then have "canonical_value (incident_manifest b)"
    using incident_fields_distinct [of b] by (simp add: incident_manifest_def incident_fields_def [symmetric])
  ultimately show ?thesis
    by (simp add: manifest_json_def list_all_iff case_prod_beta)
qed

lemma hex_printable: "list_all is_hex s \<Longrightarrow> printable s"
  by (auto simp: printable_def list_all_iff is_hex_def is_digit_def)

lemma sha256_printable: "is_sha256 s \<Longrightarrow> printable s"
  by (simp add: is_sha256_def hex_printable)

lemma sha256_value_printable: "sha256_value v \<Longrightarrow> printable_strings v"
  by (cases v) (auto simp: sha256_printable)

lemma binding_printable:
  assumes "check_binding b = Inr ()"
  shows "printable_strings (incident_manifest b)"
proof -
  have ids: "printable (cb_incident_id b)" "printable (cb_base_sha b)" "printable (cb_verdict_sha256 b)"
    "printable (cb_warrant_sha256 b)" "printable (cb_receipt_sha256 b)" "printable (cb_timeline_head b)"
    using assms by (auto simp: check_binding_def is_hex_40_or_64_def storage_id_facts(8) sha256_printable hex_printable
        split: if_splits)
  have "list_all (\<lambda>(k, v). printable k \<and> printable_strings v) (incident_fields b)"
  proof (cases "cb_scenario b = JNull")
    case True
    then show ?thesis using ids by (simp add: incident_fields_def base_fields_def)
  next
    case False
    with check_binding_complete [OF assms] have p: "check_proof b = Inr ()" by simp
    then obtain ss x y z where *: "cb_response_statuses b = Some ss" "list_all status_code ss"
      "cb_counts b = Some [JInt x, JInt y, JInt z]"
      by (rule check_proof_fields)
    from *(2) have "list_all printable_strings ss"
      by (auto simp: list_all_iff elim!: status_code.elims)
    moreover have "printable_strings (cb_plan_sha256 b)" "printable_strings (cb_trusted_observation_sha256 b)"
      "printable_strings (cb_scenario b)" "printable_strings (cb_plan_id b)" "printable_strings (cb_execution_status b)"
      using p by (auto simp: check_proof_def sha256_value_printable split: if_splits)
    ultimately show ?thesis using False ids * by (simp add: incident_fields_def base_fields_def proof_fields_def)
  qed
  then show ?thesis by (simp add: incident_manifest_def incident_fields_def [symmetric])
qed

lemma allowed_kind_printable: "k \<in> set ALLOWED_ARTIFACT_KINDS \<Longrightarrow> printable k"
  by (auto simp: ALLOWED_ARTIFACT_KINDS_def)

lemma entry_printable:
  assumes "members_ok lib b [(p, a)]" "is_storage_id (cb_incident_id b)"
  shows "printable_strings (entry_json lib p a)"
proof -
  from assms(1) have a: "artifact_member lib b a = Inr p" "printable (ea_path a)" "printable (ea_provenance a)"
    "is_sha256 (al_sha lib (ea_data a))"
    by (auto simp: members_ok_def)
  from a(1) show ?thesis
    by (rule artifact_member_Inr)
      (simp add: entry_json_def incident_prefix_def a sha256_printable allowed_kind_printable storage_id_facts(8) [OF assms(2)])
qed

lemma manifest_printable:
  assumes "check_binding b = Inr ()" "members_ok lib b members"
  shows "printable_strings (manifest_json lib b members)"
proof -
  have "is_storage_id (cb_incident_id b)" using assms(1) by (auto simp: check_binding_def split: if_splits)
  then have "printable_strings (entry_json lib p a)" if "(p, a) \<in> set members" for p a
    using entry_printable [of lib b p a] assms(2) that by (auto simp: members_ok_def list_all_iff)
  then show ?thesis
    using binding_printable [OF assms(1)] by (auto simp: manifest_json_def FORMAT_def list_all_iff)
qed

lemma validate_manifest_built:
  assumes "check_binding b = Inr ()" "members_ok lib b members" "nfc_laws (al_nfc lib)" "distinct (map fst members)"
    "manifest_json lib b members = JObj kvs"
  shows "validate_manifest lib kvs = Inr (map (entry_of lib) (sort_key fst members))"
proof -
  have kvs: "kvs = [(''files'', JArr (map (\<lambda>(p, a). entry_json lib p a) (sort_key fst members))),
      (''format'', JStr FORMAT), (''incident'', incident_manifest b)]"
    using assms(5) by (simp add: manifest_json_def)
  have i: "is_storage_id (cb_incident_id b)" using assms(1) by (auto simp: check_binding_def split: if_splits)
  have "members_ok lib b (sort_key fst members)" using assms(2) by (simp add: members_ok_def)
  moreover have "\<forall>p \<in> set (map fst (sort_key fst members)). [] < p"
  proof
    fix p assume "p \<in> set (map fst (sort_key fst members))"
    then obtain a where "artifact_member lib b a = Inr p" using assms(2) by (auto simp: members_ok_def list_all_iff)
    then have "p \<noteq> []" by (rule artifact_member_Inr) (simp add: incident_prefix_def)
    then show "[] < p" by (cases p) simp_all
  qed
  ultimately have "validate_files lib (cb_incident_id b) [] (map (\<lambda>(p, a). entry_json lib p a) (sort_key fst members)) =
      Inr (map (entry_of lib) (sort_key fst members))"
    using validate_files_built [OF _ i assms(3)] assms(4) by simp
  then show ?thesis
    using validate_incident_built [OF assms(1)] by (simp add: validate_manifest_def kvs jget_def)
qed

text \<open>What is asked of an artifact: its class accepts it, its texts are printable, its path is not the dot.\<close>

definition exportable :: "'k archive_lib \<Rightarrow> export_artifact \<Rightarrow> bool" where
  "exportable lib a \<longleftrightarrow> artifact_ok a \<and> ea_path a \<noteq> ''.'' \<and> printable (ea_path a) \<and> printable (ea_provenance a) \<and>
     is_sha256 (al_sha lib (ea_data a))"

lemma top_names_safe:
  assumes "nfc_laws (al_nfc lib)"
  shows "safe_member_name lib MANIFEST_NAME = Inr MANIFEST_NAME" "safe_member_name lib SIGNATURE_NAME = Inr SIGNATURE_NAME"
proof -
  have "al_nfc lib MANIFEST_NAME = MANIFEST_NAME" "al_nfc lib SIGNATURE_NAME = SIGNATURE_NAME"
    using assms by (simp_all add: nfc_laws_def MANIFEST_NAME_def SIGNATURE_NAME_def)
  then show "safe_member_name lib MANIFEST_NAME = Inr MANIFEST_NAME" "safe_member_name lib SIGNATURE_NAME = Inr SIGNATURE_NAME"
    by (simp_all add: safe_member_name_def MANIFEST_NAME_def SIGNATURE_NAME_def char_count_def is_cont_def posix_root_def
        posix_tail_def posix_parts_def as_posix_def safe_parts_def drive_qualified_def)
qed

lemma incident_member_not_top: "incident_prefix i @ r \<noteq> MANIFEST_NAME \<and> incident_prefix i @ r \<noteq> SIGNATURE_NAME"
  by (simp add: incident_prefix_def MANIFEST_NAME_def SIGNATURE_NAME_def)

lemma holds_member_names: "list_all2 (holds_member lib archive) infos ms \<Longrightarrow> map zi_filename infos = map fst ms"
  by (induction infos ms rule: list_all2_induct) (simp_all add: holds_member_def)

text \<open>The facts about the members of a built archive that the verifier's run uses.\<close>

lemma built_members:
  fixes mb :: string
  assumes "check_binding b = Inr ()" "collect_members lib b [] artifacts = Inr members" "list_all (exportable lib) artifacts"
    "nfc_laws (al_nfc lib)"
  defines "ms \<equiv> archive_members lib mb members"
  shows "members_ok lib b members" "distinct (map fst members)" "distinct (map fst ms)"
    and "list_all (\<lambda>m. safe_member_name lib (fst m) = Inr (fst m)) ms"
proof -
  note c = collect_members_Inr [OF assms(2)]
  have i: "is_storage_id (cb_incident_id b)" using assms(1) by (auto simp: check_binding_def split: if_splits)
  show ok: "members_ok lib b members"
    using c assms(3) by (fastforce simp: members_ok_def exportable_def list_all_iff)
  show d: "distinct (map fst members)" using c by simp
  have path: "safe_member_name lib p = Inr p \<and> p \<noteq> MANIFEST_NAME \<and> p \<noteq> SIGNATURE_NAME" if "(p, a) \<in> set members" for p a
  proof -
    have a: "artifact_member lib b a = Inr p" "ea_path a \<noteq> ''.''" "printable (ea_path a)"
      using ok that by (auto simp: members_ok_def list_all_iff)
    from a(1) show ?thesis
      by (rule artifact_member_Inr)
        (simp add: safe_member_of_relative [OF i _ a(2,3) assms(4)] incident_member_not_top)
  qed
  have names: "map fst ms = MANIFEST_NAME # SIGNATURE_NAME # map fst (sort_key fst members)"
    by (simp add: ms_def archive_members_def comp_def case_prod_beta)
  have "MANIFEST_NAME \<noteq> SIGNATURE_NAME" by (simp add: MANIFEST_NAME_def SIGNATURE_NAME_def)
  then show "distinct (map fst ms)" unfolding names using d path by fastforce
  have "list_all (\<lambda>n. safe_member_name lib n = Inr n) (map fst ms)"
    unfolding names using path top_names_safe [OF assms(4)] by (fastforce simp: list_all_iff)
  then show "list_all (\<lambda>m. safe_member_name lib (fst m) = Inr (fst m)) ms" by (simp add: list_all_iff)
qed

lemma map_result_total: "(\<And>x. x \<in> set xs \<Longrightarrow> \<exists>y. f x = Inr y) \<Longrightarrow> \<exists>ys. map_result f xs = Inr ys"
  by (induction xs) (auto simp: result_simps)

lemma verify_archive_built:
  assumes "check_binding b = Inr ()" "collect_members lib b [] artifacts = Inr members" "list_all (exportable lib) artifacts"
    "nfc_laws (al_nfc lib)" "manifest_json lib b members = JObj kvs" "integral (JObj kvs)"
    "list_all2 (holds_member lib archive) infos (archive_members lib (dumps (JObj kvs)) members)"
    "al_infolist lib archive = Some infos" "archive_fits lib limits archive"
    "length (al_sign lib (dumps (JObj kvs))) = 64" "al_verify lib key (al_sign lib (dumps (JObj kvs))) (dumps (JObj kvs))"
  shows "verify_archive lib archive key limits = Inr (JObj kvs)"
proof -
  let ?mb = "dumps (JObj kvs)"
  let ?ms = "archive_members lib ?mb members"
  note mem = built_members [OF assms(1-4)]
  have names: "map zi_filename infos = map fst ?ms"
    by (rule holds_member_names [OF assms(7)])
  have fits: "validate_central_directory_bounds archive limits = Inr ()" "length infos \<le> max_members limits"
    "\<forall>i \<in> set infos. zi_file_size i \<le> max_member_bytes limits"
    using assms(8,9) by (auto simp: archive_fits_def list_all_iff)
  have "list_all (\<lambda>n. safe_member_name lib n = Inr n) (map zi_filename infos)"
    unfolding names using mem(4) [of ?mb] by (simp add: list_all_iff del: dumps.simps)
  then have "\<forall>i \<in> set infos. safe_member_name lib (zi_filename i) = Inr (zi_filename i)"
    by (simp add: list_all_iff)
  moreover have "\<forall>i \<in> set infos. even (zi_flag_bits i) \<and> file_type i = 8"
    using assms(7) by (auto simp: holds_member_def list_all2_conv_all_nth in_set_conv_nth)
  ultimately have dir: "validate_directory lib limits {} {} 0 infos = Inr ()"
    using assms(8,9) mem(3) [of ?mb] names by (intro validate_directory_built) (auto simp: archive_fits_def list_all_iff)
  have read: "\<exists>i. info_named infos name = Some i \<and> zi_file_size i = length data \<and>
      length data \<le> max_member_bytes limits \<and> (\<forall>m \<ge> length data. read_bounded lib archive i m = Inr data)"
    if nm: "(name, data) \<in> set ?ms" for name data
  proof -
    from info_named_holds [OF assms(7) mem(3) nm] obtain i where
      "info_named infos name = Some i" "i \<in> set infos" "holds_member lib archive i (name, data)" by blast
    then show ?thesis using fits(3) read_bounded_holds [of lib archive i "(name, data)"] by (auto simp: holds_member_def)
  qed
  obtain mi where mi: "info_named infos MANIFEST_NAME = Some mi"
    "read_bounded lib archive mi (max_member_bytes limits) = Inr ?mb"
    using read [of MANIFEST_NAME ?mb] by (auto simp: archive_members_def)
  have "length (b64encode (al_sign lib ?mb)) \<le> 256" using assms(10) by (simp add: b64encode_length del: dumps.simps)
  then obtain si where si: "info_named infos SIGNATURE_NAME = Some si"
    "read_bounded lib archive si 256 = Inr (b64encode (al_sign lib ?mb))"
    using read [of SIGNATURE_NAME "b64encode (al_sign lib ?mb)"] by (auto simp: archive_members_def simp del: dumps.simps)
  have parsed: "parse_manifest lib ?mb = Inr kvs"
    using manifest_canonical [OF assms(1), of lib members] manifest_printable [OF assms(1) mem(1)] assms(5,6)
    by (intro parse_manifest_dumps) simp_all
  have sig: "check_signature lib key (b64encode (al_sign lib ?mb)) ?mb = Inr ()"
    using assms(10,11) by (simp add: check_signature_def b64decode_encode del: dumps.simps)
  let ?es = "map (entry_of lib) (sort_key fst members)"
  have entries: "validate_manifest lib kvs = Inr ?es"
    by (rule validate_manifest_built [OF assms(1) mem(1) assms(4) mem(2) assms(5)])
  have "\<exists>payload. check_payload lib limits archive infos e = Inr payload" if "e \<in> set ?es" for e
  proof -
    from that obtain p a where e: "e = entry_of lib (p, a)" "(p, a) \<in> set members" by auto
    then have "(p, ea_data a) \<in> set ?ms" by (force simp: archive_members_def)
    from read [OF this] e(1) show ?thesis by (auto simp: check_payload_def entry_of_def)
  qed
  then obtain ps where ps: "map_result (check_payload lib limits archive infos) ?es = Inr ps"
    using map_result_total by blast
  have set_names: "set (map zi_filename infos) = {MANIFEST_NAME, SIGNATURE_NAME} \<union> set (map me_path ?es)"
    unfolding names by (auto simp: archive_members_def entry_of_def image_image case_prod_beta)
  have "2 \<le> length infos"
    using list_all2_lengthD [OF assms(7)] by (simp add: archive_members_def)
  then show ?thesis
    using fits(1,2) dir mi si parsed sig entries ps set_names assms(8)
    by (simp add: verify_archive_def image_image del: dumps.simps)
qed

section \<open>A sample archive\<close>

definition sample_binding :: case_binding where
  "sample_binding = \<lparr>cb_incident_id = ''INC-1'', cb_base_sha = replicate 40 CHR ''a'',
     cb_verdict_sha256 = replicate 64 CHR ''1'', cb_warrant_sha256 = replicate 64 CHR ''2'',
     cb_receipt_sha256 = replicate 64 CHR ''3'', cb_timeline_head = replicate 64 CHR ''4'', cb_scenario = JNull,
     cb_plan_id = JNull, cb_plan_sha256 = JNull, cb_execution_status = JNull, cb_response_statuses = None,
     cb_counts = None, cb_trusted_observation_sha256 = JNull\<rparr>"

definition sample_artifact :: export_artifact where
  "sample_artifact = \<lparr>ea_path = ''timeline.json'', ea_incident_id = ''INC-1'', ea_kind = ''timeline'', ea_data = ''x'',
     ea_provenance = ''unit'', ea_publicable = True\<rparr>"

definition sample_path :: string where
  "sample_path = ''incidents/INC-1/timeline.json''"

definition sample_entry :: json where
  "sample_entry =
     JObj [(''incident_id'', JStr ''INC-1''), (''kind'', JStr ''timeline''), (''path'', JStr sample_path),
           (''provenance'', JStr ''unit''), (''sha256'', JStr (replicate 64 CHR ''0'')), (''size_bytes'', JInt 1)]"

definition sample_manifest :: json where
  "sample_manifest =
     JObj [(''files'', JArr [sample_entry]), (''format'', JStr FORMAT), (''incident'', JObj (base_fields sample_binding))]"

definition sample_members :: "(string \<times> string) list" where
  "sample_members = [(MANIFEST_NAME, dumps sample_manifest), (SIGNATURE_NAME, b64encode (replicate 64 CHR ''s'')),
     (sample_path, ''x'')]"

text \<open>An archive of three members as its end-of-central-directory record.\<close>

definition sample_archive :: string where
  "sample_archive = EOCD_SIGNATURE @ replicate 4 CHR 0x00 @ [CHR 0x03, CHR 0x00, CHR 0x03, CHR 0x00] @ replicate 10 CHR 0x00"

definition sample_info :: "string \<times> string \<Rightarrow> zip_info" where
  "sample_info m = \<lparr>zi_filename = fst m, zi_flag_bits = 0, zi_external_attr = 2175008768,
     zi_file_size = length (snd m), zi_compress_size = length (snd m)\<rparr>"

definition sample_lib :: "unit archive_lib" where
  "sample_lib = \<lparr>al_nfc = id, al_casefold = id, al_sha = (\<lambda>_. replicate 64 CHR ''0''), al_refloat = (\<lambda>_. None),
     al_write = (\<lambda>_. sample_archive), al_infolist = (\<lambda>_. Some (map sample_info sample_members)),
     al_read = (\<lambda>_ i off n. case map_of sample_members (zi_filename i) of
        None \<Rightarrow> Inl ReadBadZip | Some d \<Rightarrow> Inr (take n (drop off d))),
     al_sign = (\<lambda>_. replicate 64 CHR ''s''), al_public_key = (\<lambda>_. Some ()),
     al_verify = (\<lambda>_ s _. s = replicate 64 CHR ''s'')\<rparr>"

definition corrupt_lib :: "unit archive_lib" where
  "corrupt_lib = sample_lib\<lparr>al_read := (\<lambda>_ _ _ _. Inl ReadLzma)\<rparr>"

lemma sample_binding_ok: "check_binding sample_binding = Inr ()"
  by code_simp

lemma sample_lib_text: "al_nfc sample_lib = id" "al_casefold sample_lib = id" "al_sha sample_lib = (\<lambda>_. replicate 64 CHR ''0'')"
  by (simp_all add: sample_lib_def)

lemma sample_collect: "collect_members sample_lib sample_binding [] [sample_artifact] = Inr [(sample_path, sample_artifact)]"
  by (simp add: artifact_member_def safe_relative_path_def sample_artifact_def sample_binding_def sample_lib_text
      ALLOWED_ARTIFACT_KINDS_def char_count_def is_cont_def posix_root_def posix_tail_def posix_parts_def as_posix_def
      safe_parts_def drive_qualified_def raw_part_def incident_prefix_def sample_path_def)

lemma sample_exportable: "list_all (exportable sample_lib) [sample_artifact]"
  by (simp add: exportable_def sample_artifact_def sample_lib_text artifact_ok_def char_count_def is_cont_def is_sha256_def
      is_hex_def is_digit_def list_all_iff)

lemma sample_nfc: "nfc_laws (al_nfc sample_lib)"
  by (simp add: sample_lib_def nfc_laws_def)

lemma sample_sorted: "sort_key fst (base_fields sample_binding) = base_fields sample_binding"
  by code_simp

lemma sample_manifest_json: "manifest_json sample_lib sample_binding [(sample_path, sample_artifact)] = sample_manifest"
  by (simp add: manifest_json_def sample_manifest_def incident_manifest_def sample_sorted entry_json_def sample_entry_def
      sample_lib_def) (simp add: sample_binding_def sample_artifact_def)

lemma sample_integral: "integral sample_manifest"
  by code_simp

lemma sample_archive_members:
  "archive_members sample_lib (dumps sample_manifest) [(sample_path, sample_artifact)] = sample_members"
  by (simp add: archive_members_def sample_members_def sample_lib_def sample_artifact_def)

lemma sample_names_distinct: "distinct (map fst sample_members)"
  by (simp add: sample_members_def MANIFEST_NAME_def SIGNATURE_NAME_def sample_path_def)

lemma sample_holds: "list_all2 (holds_member sample_lib sample_archive) (map sample_info sample_members) sample_members"
proof -
  have "holds_member sample_lib sample_archive (sample_info m) m" if "m \<in> set sample_members" for m
    using that map_of_is_SomeI [OF sample_names_distinct, of "fst m" "snd m"]
    by (simp add: holds_member_def sample_info_def sample_lib_def file_type_def)
  then show ?thesis by (simp add: list.rel_map list.rel_refl_strong)
qed

definition sample_limits :: verification_limits where
  "sample_limits = default_limits\<lparr>max_member_bytes := 256 + length (dumps sample_manifest),
     max_total_bytes := 512 + length (dumps sample_manifest)\<rparr>"

lemma rfind_from_numeral:
  "rfind_from sub s start (numeral k) =
     (if pred_numeral k < start then None
      else if prefix sub (drop (pred_numeral k) s) then Some (pred_numeral k) else rfind_from sub s start (pred_numeral k))"
  by (simp add: numeral_eq_Suc)

lemma sample_archive_explicit:
  "sample_archive = [CHR ''P'', CHR ''K'', CHR 0x05, CHR 0x06, CHR 0x00, CHR 0x00, CHR 0x00, CHR 0x00, CHR 0x03, CHR 0x00,
     CHR 0x03, CHR 0x00, CHR 0x00, CHR 0x00, CHR 0x00, CHR 0x00, CHR 0x00, CHR 0x00, CHR 0x00, CHR 0x00, CHR 0x00, CHR 0x00]"
  by (simp add: sample_archive_def EOCD_SIGNATURE_def numeral_eq_Suc)

lemma sample_rfind: "rfind EOCD_SIGNATURE sample_archive 0 = Some 0"
  by (simp add: rfind_def sample_archive_explicit EOCD_SIGNATURE_def rfind_from_numeral)

lemma sample_fits: "archive_fits sample_lib sample_limits sample_archive"
proof -
  have "validate_central_directory_bounds sample_archive sample_limits = Inr ()"
    using sample_rfind
    by (simp add: validate_central_directory_bounds_def MAX_EOCD_SEARCH_def EOCD_SIZE_def sample_archive_explicit le16_def
        le32_def default_limits_def sample_limits_def)
  moreover have "length sample_archive \<le> max_archive_bytes sample_limits"
    by (simp add: sample_archive_def EOCD_SIGNATURE_def sample_limits_def default_limits_def)
  moreover have "length (b64encode (replicate 64 CHR ''s'')) = 88" by (simp add: b64encode_length)
  ultimately show ?thesis
    using sample_names_distinct
    by (simp add: archive_fits_def sample_lib_def sample_info_def sample_members_def sample_limits_def default_limits_def
        del: dumps.simps)
qed

lemma sample_signature:
  "length (al_sign sample_lib mb) = 64 \<and> al_verify sample_lib () (al_sign sample_lib mb) mb"
  by (simp add: sample_lib_def)

lemma sample_infolist: "al_infolist sample_lib sample_archive = Some (map sample_info sample_members)"
  by (simp add: sample_lib_def)

lemma sample_accepted: "verify_archive sample_lib sample_archive () sample_limits = Inr sample_manifest"
proof -
  obtain kvs where kvs: "sample_manifest = JObj kvs" by (simp add: sample_manifest_def)
  show ?thesis
    unfolding kvs
    by (rule verify_archive_built [OF sample_binding_ok sample_collect sample_exportable sample_nfc])
      (simp_all add: sample_manifest_json sample_integral sample_archive_members sample_holds sample_infolist
        sample_fits sample_signature kvs [symmetric])
qed

text \<open>C26. What the builder returns verifies under the matching public key, and the verifier returns the
  manifest it was built from, under these conditions: the binding is valid; every artifact is accepted by
  its class, has a printable ASCII path other than the single dot and a printable ASCII provenance; the manifest
  has no integer beyond the digit limit; the ZIP library reads back what it wrote and the signature verifies; no two
  member names fold together and the archive stays within the verifier's limits.\<close>

theorem built_archive_verifies:
  assumes "check_binding b = Inr ()" "build lib b artifacts = Inr archive"
    and "collect_members lib b [] artifacts = Inr members" "list_all (exportable lib) artifacts" "nfc_laws (al_nfc lib)"
    and "integral (manifest_json lib b members)"
    and "\<And>mb. canonical_json_bytes lib (manifest_json lib b members) = Some mb \<Longrightarrow>
          holds_members lib archive (archive_members lib mb members) \<and>
          length (al_sign lib mb) = 64 \<and> al_verify lib key (al_sign lib mb) mb"
    and "archive_fits lib limits archive"
  shows "verify_export lib (ArchiveBytes archive) (KeyObject key) limits =
    Inr \<lparr>vr_valid = True, vr_errors = [], vr_manifest = Some (manifest_json lib b members)\<rparr>"
proof -
  obtain kvs where kvs: "manifest_json lib b members = JObj kvs" by (simp add: manifest_json_def)
  have ok: "members_ok lib b members" by (rule built_members(1) [OF assms(1,3,4,5)])
  have mb: "canonical_json_bytes lib (manifest_json lib b members) = Some (dumps (JObj kvs))"
    using canonical_json_bytes_printable [OF assms(6) manifest_printable [OF assms(1) ok]] kvs by simp
  from assms(7) [OF mb] obtain infos where "al_infolist lib archive = Some infos"
    "list_all2 (holds_member lib archive) infos (archive_members lib (dumps (JObj kvs)) members)"
    "length (al_sign lib (dumps (JObj kvs))) = 64" "al_verify lib key (al_sign lib (dumps (JObj kvs))) (dumps (JObj kvs))"
    by (auto simp: holds_members_def)
  then have "verify_archive lib archive key limits = Inr (JObj kvs)"
    using verify_archive_built [OF assms(1,3,4,5) kvs] assms(6,8) kvs by simp
  then show ?thesis
    using assms(8) kvs by (simp add: verify_export_def archive_bytes_def archive_fits_def public_key_def)
qed

theorem built_archive_verifies_witness:
  "build sample_lib sample_binding [sample_artifact] = Inr sample_archive \<and>
   verify_export sample_lib (ArchiveBytes sample_archive) (KeyObject ()) sample_limits =
     Inr \<lparr>vr_valid = True, vr_errors = [], vr_manifest = Some sample_manifest\<rparr>"
proof -
  have mb: "canonical_json_bytes sample_lib sample_manifest = Some (dumps sample_manifest)"
    using built_members(1) [OF sample_binding_ok sample_collect sample_exportable sample_nfc]
      manifest_printable [OF sample_binding_ok] sample_integral
    by (intro canonical_json_bytes_printable) (auto simp: sample_manifest_json [symmetric])
  then have built: "build sample_lib sample_binding [sample_artifact] = Inr sample_archive"
    unfolding build_def sample_collect by (simp add: sample_manifest_json) (simp add: sample_lib_def)
  have "holds_members sample_lib sample_archive sample_members"
    using sample_infolist sample_holds by (auto simp: holds_members_def)
  then show ?thesis
    using built built_archive_verifies [OF sample_binding_ok built sample_collect sample_exportable sample_nfc, of "()" sample_limits]
      sample_integral sample_fits sample_signature mb
    by (simp add: sample_manifest_json sample_archive_members)
qed

section \<open>Witnesses for accepted and rejected archives\<close>

lemma sample_verify_export:
  "verify_export sample_lib (ArchiveBytes sample_archive) (KeyObject ()) sample_limits =
     Inr \<lparr>vr_valid = True, vr_errors = [], vr_manifest = Some sample_manifest\<rparr>"
  using sample_accepted sample_fits by (simp add: verify_export_def archive_bytes_def archive_fits_def public_key_def)

theorem accepted_archive_is_bound_witness:
  "\<exists>manifest_bytes manifest entries incident_id.
    sample_manifest = JObj manifest \<and> accepted sample_lib () sample_limits sample_archive manifest_bytes manifest entries \<and>
    canonical_json_bytes sample_lib (JObj manifest) = Some manifest_bytes \<and>
    list_all (public_entry sample_lib incident_id) entries \<and> sorted (map me_path entries) \<and> distinct (map me_path entries)"
  using accepted_archive_is_bound [OF sample_verify_export] by simp

theorem same_manifest_same_members_witness:
  "member_payload sample_lib sample_limits sample_archive sample_path = Inr ''x'' \<and> ''x'' = ''x'' \<and>
   set (member_names sample_lib sample_archive) = set (member_names sample_lib sample_archive)"
proof -
  have in_ms: "(sample_path, ''x'') \<in> set sample_members" by (simp add: sample_members_def)
  obtain i where "info_named (map sample_info sample_members) sample_path = Some i" "i \<in> set (map sample_info sample_members)"
    "holds_member sample_lib sample_archive i (sample_path, ''x'')"
    by (rule info_named_holds [OF sample_holds sample_names_distinct in_ms])
  then have p: "member_payload sample_lib sample_limits sample_archive sample_path = Inr ''x''"
    using read_bounded_holds [of sample_lib sample_archive i "(sample_path, ''x'')" "max_member_bytes sample_limits"]
    by (simp add: member_payload_def sample_infolist sample_limits_def)
  have "sample_path \<noteq> SIGNATURE_NAME" by (simp add: sample_path_def SIGNATURE_NAME_def)
  from same_manifest_same_members [OF sample_accepted sample_accepted p p this] p show ?thesis by simp
qed

text \<open>An archive whose members are LZMA streams that are corrupt.\<close>

theorem verifier_raises_only_decompressor_errors_witness:
  "verify_export corrupt_lib (ArchiveBytes sample_archive) (KeyObject ()) sample_limits = Inl ArchiveEscaped \<and>
   uncaught_member corrupt_lib sample_archive (map sample_info sample_members)"
proof -
  have same: "safe_member_name corrupt_lib = safe_member_name sample_lib" "al_nfc corrupt_lib = al_nfc sample_lib"
    "al_casefold corrupt_lib = al_casefold sample_lib" "al_infolist corrupt_lib = al_infolist sample_lib"
    by (simp_all add: fun_eq_iff safe_member_name_def corrupt_lib_def)
  then have "validate_directory corrupt_lib limits names keys n is = validate_directory sample_lib limits names keys n is"
    for limits names keys n "is"
    by (induction "is" arbitrary: names keys n) (simp_all cong: if_cong)
  moreover have "read_bounded corrupt_lib archive info m = Inl ArchiveEscaped" for archive info m
    by (simp add: read_bounded_def read_loop.simps corrupt_lib_def)
  ultimately have "verify_archive corrupt_lib sample_archive () sample_limits = Inl ArchiveEscaped"
    using sample_accepted by (auto simp: verify_archive_def same result_simps split: option.splits if_splits)
  then have "verify_export corrupt_lib (ArchiveBytes sample_archive) (KeyObject ()) sample_limits = Inl ArchiveEscaped"
    using sample_fits by (simp add: verify_export_def archive_bytes_def archive_fits_def public_key_def)
  with verifier_raises_only_decompressor_errors [OF this] show ?thesis
    by (auto simp: archive_bytes_def corrupt_lib_def sample_lib_def split: if_splits)
qed

text \<open>A path of one dot passes the builder's checks and names a member the verifier refuses.\<close>

lemma dot_path_is_built_but_refused:
  assumes "nfc_laws (al_nfc lib)" "is_storage_id i"
  shows "safe_relative_path lib ''.'' = Inr ''.''"
    and "safe_member_name lib (incident_prefix i @ ''.'') = Inl (ArchiveRejected ''UNSAFE_MEMBER_NAME'')"
proof -
  have nfc: "al_nfc lib ''.'' = ''.''" using assms(1) by (simp add: nfc_laws_def)
  then show "safe_relative_path lib ''.'' = Inr ''.''"
    by (simp add: safe_relative_path_def char_count_def is_cont_def posix_root_def posix_tail_def posix_parts_def as_posix_def
        safe_parts_def drive_qualified_def)
  have dot: "posix_root ''.'' = []" "posix_tail ''.'' = []" by (simp_all add: posix_root_def posix_tail_def)
  have "as_posix (incident_prefix i @ ''.'') = join ''/'' [''incidents'', i]"
    using posix_parts_member(1,2) [OF assms(2) dot(1)] dot(2) unfolding as_posix_def by simp
  moreover have "length (join ''/'' [''incidents'', i]) \<noteq> length (incident_prefix i @ ''.'')"
    by (simp add: incident_prefix_def)
  ultimately have "as_posix (incident_prefix i @ ''.'') \<noteq> incident_prefix i @ ''.''" by metis
  then show "safe_member_name lib (incident_prefix i @ ''.'') = Inl (ArchiveRejected ''UNSAFE_MEMBER_NAME'')"
    by (simp add: safe_member_name_def)
qed

end
