(* ===== verification/CP_Worktree.thy ===== *)
theory CP_Worktree
  imports CP_Warrant
begin

text \<open>
  The disposable candidate tree: \<^verbatim>\<open>runner/worktree.py\<close> (archive extraction, tree manifests, sealing and
  \<^verbatim>\<open>EphemeralWorktree._prepare\<close>) and \<^verbatim>\<open>runner/candidate_context.py\<close>, which reads the context that
  preparation wrote and compares it with the tree it finds.
  A tree is the list of its paths (by parts) with what is there; Git is a record of the answers of
  its four commands. Temporary directories are created fresh, so a tree starts empty.
  The results: a prepared tree differs from the bound commit in the warrant's allowed paths and in
  nothing else; its context is accepted on the sealed tree; and a context accepted later means that the
  allowed files are still the published ones.
\<close>

section \<open>Trees\<close>

text \<open>A regular file with its bytes and mode, a directory with its mode, a link (to a directory or not), or another special file.\<close>

datatype node = RegFile string nat | DirNode nat | LinkNode bool | SpecialNode

definition is_link :: "node option \<Rightarrow> bool" where
  "is_link n \<longleftrightarrow> (case n of Some (LinkNode to_directory) \<Rightarrow> True | _ \<Rightarrow> False)"

type_synonym tree = "(string list \<times> node) list"

datatype worktree_error =
    UnsafeRepositorySnapshot string
  | WorktreeOSError
  | WorktreeDecodeError
  | WorktreePath path_error
  | WorktreeWarrant warrant_error
  | WorktreeContext canonicalization_error

definition MAX_ARCHIVE_BYTES :: nat where
  "MAX_ARCHIVE_BYTES = 256 * 1024 * 1024"

definition MAX_ARCHIVE_FILES :: nat where
  "MAX_ARCHIVE_FILES = 50000"

text \<open>\<^verbatim>\<open>mode & 0o111\<close>.\<close>

definition executable_mode :: "nat \<Rightarrow> bool" where
  "executable_mode m \<longleftrightarrow> odd m \<or> odd (m div 8) \<or> odd (m div 64)"

section \<open>Extraction\<close>

datatype member_kind = MDir | MReg | MOther

record tar_member =
  tm_name :: string
  tm_kind :: member_kind
  tm_size :: nat
  tm_mode :: nat
  tm_content :: "string option"

definition safe_tar_name :: "(string \<Rightarrow> string) \<Rightarrow> string \<Rightarrow> worktree_error + string list" where
  "safe_tar_name nfkc name =
     (if nfkc name \<noteq> name \<or> CHR 0x5C \<in> set name \<or> CHR 0x00 \<in> set name
      then Inl (UnsafeRepositorySnapshot ''archive path is not canonical'')
      else if posix_root name \<noteq> [] \<or> list_ex (\<lambda>p. p \<in> {[], ''.'', ''..''}) (posix_parts name)
      then Inl (UnsafeRepositorySnapshot ''archive path escapes the standalone snapshot'')
      else if ''.git'' \<in> set (posix_parts name)
      then Inl (UnsafeRepositorySnapshot ''archive contains Git control metadata'')
      else Inr (posix_parts name))"

text \<open>\<^verbatim>\<open>mkdir(parents=True, exist_ok=True)\<close> of the given directories in turn.\<close>

fun make_dirs :: "string list list \<Rightarrow> tree \<Rightarrow> worktree_error + tree" where
  "make_dirs [] t = Inr t"
| "make_dirs (q # qs) t =
     (case map_of t q of
        None \<Rightarrow> make_dirs qs (t @ [(q, DirNode 493)])
      | Some (DirNode m) \<Rightarrow> make_dirs qs t
      | Some _ \<Rightarrow> Inl WorktreeOSError)"

text \<open>An exclusive create: the path must not be there, and it cannot be the tree's own root.\<close>

definition create_file :: "string list \<Rightarrow> string \<Rightarrow> nat \<Rightarrow> tree \<Rightarrow> worktree_error + tree" where
  "create_file path content mode t =
     (if path = [] \<or> map_of t path \<noteq> None then Inl WorktreeOSError else Inr (t @ [(path, RegFile content mode)]))"

fun extract_members ::
  "(string \<Rightarrow> string) \<Rightarrow> nat \<Rightarrow> nat \<Rightarrow> string list list \<Rightarrow> tar_member list \<Rightarrow> tree \<Rightarrow> worktree_error + tree" where
  "extract_members nfkc file_count total_size seen [] t = Inr t"
| "extract_members nfkc file_count total_size seen (m # ms) t =
     rbind (safe_tar_name nfkc (tm_name m)) (\<lambda>relative.
       if relative \<in> set seen then Inl (UnsafeRepositorySnapshot ''archive contains duplicate paths'')
       else (case tm_kind m of
          MDir \<Rightarrow>
            rbind (make_dirs (path_prefixes relative) t)
              (extract_members nfkc file_count total_size (relative # seen) ms)
        | MOther \<Rightarrow> Inl (UnsafeRepositorySnapshot ''archive contains a link or special file'')
        | MReg \<Rightarrow>
            if file_count + 1 > MAX_ARCHIVE_FILES \<or> total_size + tm_size m > MAX_ARCHIVE_BYTES
            then Inl (UnsafeRepositorySnapshot ''archive exceeds snapshot limits'')
            else rbind (make_dirs (path_prefixes (butlast relative)) t) (\<lambda>t1.
              case tm_content m of
                None \<Rightarrow> Inl (UnsafeRepositorySnapshot ''archive regular file has no content'')
              | Some content \<Rightarrow>
                  rbind (create_file relative content (if executable_mode (tm_mode m) then 493 else 420) t1)
                    (extract_members nfkc (file_count + 1) (total_size + tm_size m) (relative # seen) ms))))"

definition extract_regular_archive :: "(string \<Rightarrow> string) \<Rightarrow> tar_member list \<Rightarrow> worktree_error + tree" where
  "extract_regular_archive nfkc ms = extract_members nfkc 0 0 [] ms []"

section \<open>Manifests and sealing\<close>

fun manifest_entries :: "(string \<Rightarrow> string) \<Rightarrow> nat \<Rightarrow> tree \<Rightarrow> worktree_error + (string \<times> string) list" where
  "manifest_entries sha n [] = Inr []"
| "manifest_entries sha n ((path, node) # t) =
     (case node of
        DirNode m \<Rightarrow> manifest_entries sha n t
      | LinkNode to_directory \<Rightarrow>
          Inl (UnsafeRepositorySnapshot
            (if to_directory then ''snapshot directory contains a link'' else ''snapshot contains a link or special file''))
      | SpecialNode \<Rightarrow> Inl (UnsafeRepositorySnapshot ''snapshot contains a link or special file'')
      | RegFile content m \<Rightarrow>
          if n + 1 > MAX_ARCHIVE_FILES then Inl (UnsafeRepositorySnapshot ''snapshot contains too many files'')
          else rbind (manifest_entries sha (n + 1) t) (\<lambda>rest. Inr ((join ''/'' path, sha content) # rest)))"

definition tree_manifest :: "(string \<Rightarrow> string) \<Rightarrow> tree \<Rightarrow> worktree_error + (string \<times> string) list" where
  "tree_manifest sha t = manifest_entries sha 0 t"

definition seal_node :: "node \<Rightarrow> worktree_error + node" where
  "seal_node n =
     (case n of
        RegFile content m \<Rightarrow> Inr (RegFile content (if executable_mode m then 365 else 292))
      | DirNode m \<Rightarrow> Inr (DirNode 365)
      | LinkNode to_directory \<Rightarrow>
          Inl (UnsafeRepositorySnapshot
            (if to_directory then ''candidate tree contains a special directory'' else ''candidate tree contains a special file''))
      | SpecialNode \<Rightarrow> Inl (UnsafeRepositorySnapshot ''candidate tree contains a special file''))"

text \<open>The entries below the root; a tree has no node for the root itself, whose mode the code sets last.\<close>

definition seal_candidate_tree :: "tree \<Rightarrow> worktree_error + tree" where
  "seal_candidate_tree t = map_result (\<lambda>(path, node). rbind (seal_node node) (\<lambda>n. Inr (path, n))) t"

section \<open>Preparation\<close>

text \<open>What Git answers: the resolved commit, the recursive tree listing, the archive's size and members, and the tree
  after \<^verbatim>\<open>git apply\<close>; nothing when the command fails.\<close>

record git_commands =
  git_rev_parse :: "string \<Rightarrow> string option"
  git_ls_tree :: "string \<Rightarrow> string option"
  git_archive :: "string \<Rightarrow> (nat \<times> tar_member list) option"
  git_apply :: "string \<Rightarrow> tree \<Rightarrow> tree option"

definition ascii_space :: "char \<Rightarrow> bool" where
  "ascii_space c \<longleftrightarrow> (9 \<le> code c \<and> code c \<le> 13) \<or> (28 \<le> code c \<and> code c \<le> 32)"

definition ascii_strip :: "string \<Rightarrow> string" where
  "ascii_strip s = rev (dropWhile ascii_space (rev (dropWhile ascii_space s)))"

definition run_git :: "string option \<Rightarrow> worktree_error + string" where
  "run_git r = (case r of None \<Rightarrow> Inl (UnsafeRepositorySnapshot ''bound Git object is unavailable'') | Some out \<Rightarrow> Inr out)"

definition repository_manifest_sha256 :: "(string \<Rightarrow> string) \<Rightarrow> git_commands \<Rightarrow> string \<Rightarrow> worktree_error + string" where
  "repository_manifest_sha256 sha git base_sha = rbind (run_git (git_ls_tree git base_sha)) (\<lambda>listing. Inr (sha listing))"

definition check_commit :: "(string \<Rightarrow> string) \<Rightarrow> git_commands \<Rightarrow> warrant_document \<Rightarrow> worktree_error + unit" where
  "check_commit sha git d =
     rbind (run_git (git_rev_parse git (wd_base_sha d @ ''^{commit}''))) (\<lambda>out.
     rbind (require (is_ascii out) WorktreeDecodeError) (\<lambda>_.
     rbind (require (ascii_strip out = wd_base_sha d)
              (UnsafeRepositorySnapshot ''base SHA does not resolve to the exact bound commit'')) (\<lambda>_.
     rbind (repository_manifest_sha256 sha git (wd_base_sha d)) (\<lambda>manifest.
     require (manifest = wd_repository_manifest_sha256 d)
       (UnsafeRepositorySnapshot ''repository manifest changed from the warrant'')))))"

definition materialize :: "(string \<Rightarrow> string) \<Rightarrow> git_commands \<Rightarrow> warrant_document \<Rightarrow> worktree_error + tree" where
  "materialize nfkc git d =
     (case git_archive git (wd_base_sha d) of
        None \<Rightarrow> Inl (UnsafeRepositorySnapshot ''failed to materialize the bounded source archive'')
      | Some (archive_size, members) \<Rightarrow>
          if archive_size > MAX_ARCHIVE_BYTES
          then Inl (UnsafeRepositorySnapshot ''failed to materialize the bounded source archive'')
          else extract_regular_archive nfkc members)"

text \<open>The tree as the path policy sees it: a path without links below the root resolves below it.\<close>

definition view_of :: "tree \<Rightarrow> repository_view" where
  "view_of t = \<lparr>is_symlink = (\<lambda>parts. is_link (map_of t parts)), resolves_inside = (\<lambda>_. True)\<rparr>"

definition changed_paths :: "(string \<times> string) list \<Rightarrow> (string \<times> string) list \<Rightarrow> string list" where
  "changed_paths base cand =
     sort (remdups (filter (\<lambda>p. map_of base p \<noteq> map_of cand p) (map fst base @ map fst cand)))"

definition CONTEXT_FORMAT :: string where
  "CONTEXT_FORMAT = ''crosspatch-candidate-context-v1''"

definition digest_py :: "string option \<Rightarrow> pyval" where
  "digest_py v = (case v of None \<Rightarrow> PyNone | Some s \<Rightarrow> PyStr s)"

definition context_py ::
  "warrant_document \<Rightarrow> string \<Rightarrow> (string \<times> string) list \<Rightarrow> (string \<times> string) list \<Rightarrow> pyval" where
  "context_py d candidate_root base cand =
     py_fields
       [(''allowed_paths'', PyList (map PyStr (wd_allowed_paths d))),
        (''base_file_sha256'', py_fields (map (\<lambda>p. (p, digest_py (map_of base p))) (wd_allowed_paths d))),
        (''base_sha'', PyStr (wd_base_sha d)),
        (''candidate_file_sha256'', py_fields (map (\<lambda>p. (p, digest_py (map_of cand p))) (wd_allowed_paths d))),
        (''candidate_root'', PyStr candidate_root),
        (''format'', PyStr CONTEXT_FORMAT),
        (''patch_sha256'', PyStr (wd_patch_sha256 d))]"

record prepared_workspace =
  pw_tree :: tree
  pw_context :: string
  pw_context_mode :: nat

definition prepare ::
  "(string \<Rightarrow> string) \<Rightarrow> (string \<Rightarrow> string) \<Rightarrow> (string \<Rightarrow> string) \<Rightarrow> git_commands \<Rightarrow> bool \<Rightarrow> string \<Rightarrow> warrant_document
   \<Rightarrow> worktree_error + prepared_workspace" where
  "prepare sha nfc nfkc git repository_is_dir workspace d =
     rbind (require repository_is_dir (UnsafeRepositorySnapshot ''authority repository root is not a directory'')) (\<lambda>_.
     rbind (check_commit sha git d) (\<lambda>_.
     rbind (materialize nfkc git d) (\<lambda>base_tree.
     rbind (map_error WorktreeWarrant (patch_bytes d)) (\<lambda>patch.
     rbind (map_error WorktreePath (validate_declared_patch_paths nfkc (view_of base_tree) patch (wd_allowed_paths d))) (\<lambda>_.
     rbind (tree_manifest sha base_tree) (\<lambda>base_manifest.
     case git_apply git patch base_tree of
       None \<Rightarrow> Inl (UnsafeRepositorySnapshot ''approved patch does not apply to the bound base'')
     | Some candidate_tree \<Rightarrow>
         rbind (tree_manifest sha candidate_tree) (\<lambda>candidate_manifest.
         if changed_paths base_manifest candidate_manifest \<noteq> wd_allowed_paths d
         then Inl (UnsafeRepositorySnapshot ''resulting tree changed outside exact allowed paths'')
         else rbind (map_error WorktreeContext
                       (canonical_json nfc (context_py d workspace base_manifest candidate_manifest))) (\<lambda>bytes.
              rbind (seal_candidate_tree candidate_tree) (\<lambda>sealed.
              Inr \<lparr>pw_tree = sealed, pw_context = bytes, pw_context_mode = 256\<rparr>)))))))))"

section \<open>Reading the context\<close>

datatype context_error = CandidateContextViolation string | ContextIntegerLimit | ContextOSError

record candidate_context =
  cc_candidate_root :: string
  cc_base_sha :: string
  cc_patch_sha256 :: string
  cc_allowed_paths :: "string list"

text \<open>The context file: whether it lies inside the candidate tree, whether its owner is trusted (root, the runner, or not
  writable by it), its mode and its bytes.\<close>

record context_file =
  cf_inside_root :: bool
  cf_owner_trusted :: bool
  cf_mode :: nat
  cf_bytes :: string

definition CONTEXT_KEYS :: "string list" where
  "CONTEXT_KEYS = [''allowed_paths'', ''base_file_sha256'', ''base_sha'', ''candidate_file_sha256'', ''candidate_root'',
     ''format'', ''patch_sha256'']"

definition EMPTY_SHA256 :: "(string \<Rightarrow> string) \<Rightarrow> string" where
  "EMPTY_SHA256 sha = sha []"

definition digest_value :: "json \<Rightarrow> bool" where
  "digest_value v \<longleftrightarrow> (case v of JNull \<Rightarrow> True | JStr s \<Rightarrow> is_sha256 s | _ \<Rightarrow> False)"

definition digest_of :: "json \<Rightarrow> string option" where
  "digest_of v = (case v of JStr s \<Rightarrow> Some s | _ \<Rightarrow> None)"

definition validate_file_manifest :: "string list \<Rightarrow> string \<Rightarrow> json \<Rightarrow> context_error + (string \<rightharpoonup> string option)" where
  "validate_file_manifest allowed_paths field value =
     (case value of
        JObj kvs \<Rightarrow>
          if set (map fst kvs) \<noteq> set allowed_paths
          then Inl (CandidateContextViolation (field @ '' must cover exactly the allowed paths''))
          else if \<not> list_all (\<lambda>(k, v). digest_value v) kvs
          then Inl (CandidateContextViolation (field @ '' contains an invalid file digest''))
          else Inr (\<lambda>p. map_option digest_of (map_of kvs p))
      | _ \<Rightarrow> Inl (CandidateContextViolation (field @ '' must cover exactly the allowed paths'')))"

definition candidate_file_digest :: "(string \<Rightarrow> string) \<Rightarrow> tree \<Rightarrow> string \<Rightarrow> context_error + string option" where
  "candidate_file_digest sha t relative_path =
     (case map_of t (posix_parts relative_path) of
        Some (LinkNode to_directory) \<Rightarrow> Inl (CandidateContextViolation ''candidate file paths cannot be symlinks'')
      | None \<Rightarrow> Inr None
      | Some (RegFile content m) \<Rightarrow> Inr (Some (sha content))
      | Some _ \<Rightarrow> Inl (CandidateContextViolation ''candidate paths must resolve to regular files''))"

definition check_file :: "(string \<Rightarrow> string) \<Rightarrow> tree \<Rightarrow> (string \<rightharpoonup> string option) \<Rightarrow> string \<Rightarrow> context_error + unit" where
  "check_file sha t candidate_files path =
     rbind (candidate_file_digest sha t path) (\<lambda>actual_digest.
       require (candidate_files path = Some actual_digest)
         (CandidateContextViolation (''candidate file bytes changed after publication: '' @ path)))"

fun text_items :: "json list \<Rightarrow> string list option" where
  "text_items [] = Some []"
| "text_items (JStr s # vs) = map_option ((#) s) (text_items vs)"
| "text_items _ = None"

definition text_array :: "json \<Rightarrow> string list option" where
  "text_array v = (case v of JArr vs \<Rightarrow> text_items vs | _ \<Rightarrow> None)"

definition field_of :: "string \<Rightarrow> (string \<times> json) list \<Rightarrow> json" where
  "field_of k kvs = (case map_of kvs k of None \<Rightarrow> JNull | Some v \<Rightarrow> v)"

definition string_value :: "json \<Rightarrow> string option" where
  "string_value v = (case v of JStr s \<Rightarrow> Some s | _ \<Rightarrow> None)"

fun context_failure :: "json_error \<Rightarrow> context_error" where
  "context_failure (DuplicateKeyError k) = CandidateContextViolation (''duplicate JSON key: '' @ k)"
| "context_failure IntegerDigitLimit = ContextIntegerLimit"
| "context_failure _ = CandidateContextViolation ''candidate context is not strict UTF-8 JSON''"

definition read_context :: "context_file \<Rightarrow> context_error + (string \<times> json) list" where
  "read_context f =
     (if cf_inside_root f
      then Inl (CandidateContextViolation ''candidate context must be outside the candidate worktree'')
      else if \<not> cf_owner_trusted f \<or> odd (cf_mode f div 2) \<or> odd (cf_mode f div 16)
      then Inl (CandidateContextViolation ''candidate context ownership or permissions are unsafe'')
      else if \<not> utf8_valid (cf_bytes f)
      then Inl (CandidateContextViolation ''candidate context is not strict UTF-8 JSON'')
      else rbind (map_error context_failure (loads_text (cf_bytes f))) (\<lambda>payload.
        case payload of
          JObj kvs \<Rightarrow>
            if set (map fst kvs) \<noteq> set CONTEXT_KEYS
            then Inl (CandidateContextViolation ''candidate context fields do not match the v1 contract'') else Inr kvs
        | _ \<Rightarrow> Inl (CandidateContextViolation ''candidate context fields do not match the v1 contract'')))"

definition check_root :: "(string \<Rightarrow> string option) \<Rightarrow> string \<Rightarrow> (string \<times> json) list \<Rightarrow> context_error + unit" where
  "check_root resolve_path root kvs =
     (if field_of ''format'' kvs \<noteq> JStr CONTEXT_FORMAT
      then Inl (CandidateContextViolation ''unsupported candidate context format'')
      else (case string_value (field_of ''candidate_root'' kvs) of
              None \<Rightarrow> Inl (CandidateContextViolation ''candidate root must be a string'')
            | Some declared \<Rightarrow>
                (case resolve_path declared of
                   None \<Rightarrow> Inl (CandidateContextViolation ''declared candidate root is unavailable'')
                 | Some resolved \<Rightarrow>
                     require (resolved = root) (CandidateContextViolation ''candidate root does not match runner context''))))"

definition check_bindings ::
  "(string \<Rightarrow> string) \<Rightarrow> (string \<Rightarrow> string) \<Rightarrow> tree \<Rightarrow> (string \<times> json) list \<Rightarrow> context_error + string \<times> string \<times> string list" where
  "check_bindings sha nfkc t kvs =
     (case string_value (field_of ''base_sha'' kvs) of
        None \<Rightarrow> Inl (CandidateContextViolation ''candidate base SHA is invalid'')
      | Some base_sha \<Rightarrow>
          if \<not> is_git_sha base_sha then Inl (CandidateContextViolation ''candidate base SHA is invalid'')
          else (case string_value (field_of ''patch_sha256'' kvs) of
            None \<Rightarrow> Inl (CandidateContextViolation ''candidate patch SHA-256 is invalid'')
          | Some patch_sha256 \<Rightarrow>
              if \<not> is_sha256 patch_sha256 then Inl (CandidateContextViolation ''candidate patch SHA-256 is invalid'')
              else if patch_sha256 = EMPTY_SHA256 sha
              then Inl (CandidateContextViolation ''candidate context cannot bind an empty patch'')
              else (case text_array (field_of ''allowed_paths'' kvs) of
                 None \<Rightarrow> Inl (CandidateContextViolation ''candidate allowed paths must be a JSON string array'')
               | Some raw_paths \<Rightarrow>
                   (case validate_patch_paths nfkc (view_of t) raw_paths of
                      Inl e \<Rightarrow> Inl (CandidateContextViolation ''candidate allowed path policy failed'')
                    | Inr allowed_paths \<Rightarrow>
                        if allowed_paths \<noteq> raw_paths
                        then Inl (CandidateContextViolation ''candidate allowed paths must be unique and canonical'')
                        else Inr (base_sha, patch_sha256, allowed_paths)))))"

definition load_and_verify_candidate_context ::
  "(string \<Rightarrow> string) \<Rightarrow> (string \<Rightarrow> string) \<Rightarrow> (string \<Rightarrow> string option) \<Rightarrow> string \<Rightarrow> tree \<Rightarrow> context_file
   \<Rightarrow> context_error + candidate_context" where
  "load_and_verify_candidate_context sha nfkc resolve_path root t f =
     rbind (read_context f) (\<lambda>kvs.
     rbind (check_root resolve_path root kvs) (\<lambda>_.
     rbind (check_bindings sha nfkc t kvs) (\<lambda>(base_sha, patch_sha256, allowed_paths).
     rbind (validate_file_manifest allowed_paths ''base_file_sha256'' (field_of ''base_file_sha256'' kvs)) (\<lambda>base_files.
     rbind (validate_file_manifest allowed_paths ''candidate_file_sha256'' (field_of ''candidate_file_sha256'' kvs))
       (\<lambda>candidate_files.
     if list_all (\<lambda>p. base_files p = candidate_files p) allowed_paths
     then Inl (CandidateContextViolation ''candidate context does not describe changed file bytes'')
     else rbind (map_result (check_file sha t candidate_files) allowed_paths) (\<lambda>_.
       Inr \<lparr>cc_candidate_root = root, cc_base_sha = base_sha, cc_patch_sha256 = patch_sha256,
            cc_allowed_paths = allowed_paths\<rparr>))))))"

section \<open>What preparation guarantees\<close>

lemma is_link_simps [simp]:
  "\<not> is_link None" "\<not> is_link (Some (RegFile c m))" "\<not> is_link (Some (DirNode m))" "is_link (Some (LinkNode b))"
  "\<not> is_link (Some SpecialNode)"
  by (simp_all add: is_link_def)

lemma set_changed_paths: "p \<in> set (changed_paths base cand) \<longleftrightarrow> map_of base p \<noteq> map_of cand p"
  by (auto simp: changed_paths_def map_of_eq_None_iff) (metis map_of_eq_None_iff)+

lemma prepare_Inr:
  assumes "prepare sha nfc nfkc git dir workspace d = Inr ws"
  obtains base_tree patch base cand_tree cand where
    "check_commit sha git d = Inr ()" "materialize nfkc git d = Inr base_tree" "patch_bytes d = Inr patch"
    "validate_declared_patch_paths nfkc (view_of base_tree) patch (wd_allowed_paths d) = Inr (wd_allowed_paths d)"
    "tree_manifest sha base_tree = Inr base" "git_apply git patch base_tree = Some cand_tree"
    "tree_manifest sha cand_tree = Inr cand" "changed_paths base cand = wd_allowed_paths d"
    "canonical_json nfc (context_py d workspace base cand) = Inr (pw_context ws)"
    "seal_candidate_tree cand_tree = Inr (pw_tree ws)" "pw_context_mode ws = 256"
proof -
  from assms obtain base_tree patch ps base cand_tree cand where
    *: "check_commit sha git d = Inr ()" "materialize nfkc git d = Inr base_tree" "patch_bytes d = Inr patch"
    "validate_declared_patch_paths nfkc (view_of base_tree) patch (wd_allowed_paths d) = Inr ps"
    "tree_manifest sha base_tree = Inr base" "git_apply git patch base_tree = Some cand_tree"
    "tree_manifest sha cand_tree = Inr cand" "changed_paths base cand = wd_allowed_paths d"
    "canonical_json nfc (context_py d workspace base cand) = Inr (pw_context ws)"
    "seal_candidate_tree cand_tree = Inr (pw_tree ws)" "pw_context_mode ws = 256"
    by (auto simp: prepare_def result_simps split: option.splits if_splits)
  have "sorted (wd_allowed_paths d)" "distinct (wd_allowed_paths d)"
    unfolding *(8) [symmetric] by (simp_all add: changed_paths_def)
  moreover have "validate_patch_paths nfkc (view_of base_tree) (wd_allowed_paths d) = Inr ps"
    using *(4) by (auto simp: validate_declared_patch_paths_def result_simps split: if_splits)
  ultimately have "ps = wd_allowed_paths d"
    by (simp add: validate_patch_paths_eq_Inr sorted_sort_id)
  with * show ?thesis by (intro that) auto
qed

text \<open>The digest of a path in a manifest, by the file that is there.\<close>

definition file_digest :: "(string \<Rightarrow> string) \<Rightarrow> tree \<Rightarrow> string list \<Rightarrow> string option" where
  "file_digest sha t path = (case map_of t path of Some (RegFile content m) \<Rightarrow> Some (sha content) | _ \<Rightarrow> None)"

text \<open>Trees with one node per path and parts that are file names.\<close>

definition file_path :: "string list \<Rightarrow> bool" where
  "file_path path \<longleftrightarrow> path \<noteq> [] \<and> list_all (\<lambda>x. x \<notin> {[], ''.'', ''..''} \<and> CHR ''/'' \<notin> set x) path"

definition tree_ok :: "tree \<Rightarrow> bool" where
  "tree_ok t \<longleftrightarrow> distinct (map fst t) \<and> list_all (\<lambda>(p, n). file_path p) t"

lemma posix_parts_join:
  assumes "file_path path"
  shows "posix_parts (join ''/'' path) = path"
proof -
  have p: "path \<noteq> []" "\<forall>w \<in> set path. CHR ''/'' \<notin> set w" "\<forall>w \<in> set path. w \<noteq> [] \<and> w \<noteq> ''.''"
    using assms by (auto simp: file_path_def list_all_iff)
  then have tail: "posix_tail (join ''/'' path) = path" by (simp add: posix_tail_def split_on_join filter_id_conv)
  obtain w ws where path: "path = w # ws" using p(1) by (cases path) auto
  then obtain c cs where w: "w = c # cs" "c \<noteq> CHR ''/''" using p by (cases w) auto
  then have "\<exists>r. join ''/'' path = c # r" by (simp add: path join_cons_first)
  then have "posix_root (join ''/'' path) = []" using w(2) by (auto simp: posix_root_def)
  with tail show ?thesis by (simp add: posix_parts_def)
qed

lemma join_path_inject: "file_path p \<Longrightarrow> file_path q \<Longrightarrow> join ''/'' p = join ''/'' q \<Longrightarrow> p = q"
  by (metis posix_parts_join)

lemma manifest_digests:
  assumes "manifest_entries sha n t = Inr m" "tree_ok t" "file_path path"
  shows "map_of m (join ''/'' path) = file_digest sha t path"
  using assms(1,2)
proof (induction t arbitrary: n m)
  case Nil
  then show ?case by (simp add: file_digest_def)
next
  case (Cons e t)
  obtain q node where e: "e = (q, node)" by force
  have ok: "tree_ok t" "file_path q" "q \<notin> fst ` set t"
    using Cons.prems(2) by (auto simp: tree_ok_def e)
  show ?case
  proof (cases node)
    case (RegFile content mode)
    then obtain rest where rest: "manifest_entries sha (n + 1) t = Inr rest" "m = (join ''/'' q, sha content) # rest"
      using Cons.prems(1) by (auto simp: e result_simps split: if_splits)
    show ?thesis
    proof (cases "path = q")
      case True
      then show ?thesis by (simp add: rest(2) file_digest_def e RegFile)
    next
      case False
      then have "join ''/'' q \<noteq> join ''/'' path" using join_path_inject ok(2) assms(3) by blast
      with False Cons.IH [OF rest(1) ok(1)] show ?thesis by (simp add: rest(2) file_digest_def e)
    qed
  next
    case (DirNode mode)
    then have "manifest_entries sha n t = Inr m" using Cons.prems(1) by (simp add: e)
    from Cons.IH [OF this ok(1)] show ?thesis
      using map_of_eq_None_iff [of t q] ok(3) by (auto simp: e DirNode file_digest_def)
  qed (use Cons.prems(1) e in simp_all)
qed

lemma seal_digest:
  assumes "seal_candidate_tree t = Inr t'"
  shows "file_digest sha t' path = file_digest sha t path"
    "is_link (map_of t' path) \<longleftrightarrow> False" "map fst t' = map fst t"
    "(p, n) \<in> set t' \<Longrightarrow> (\<exists>content. n = RegFile content 365 \<or> n = RegFile content 292) \<or> n = DirNode 365"
  using assms unfolding seal_candidate_tree_def
  by (induction t arbitrary: t')
    (auto simp: result_simps seal_node_def file_digest_def split: node.splits if_splits)

lemma manifest_keys:
  "manifest_entries sha n t = Inr m \<Longrightarrow> tree_ok t \<Longrightarrow> p \<in> fst ` set m \<Longrightarrow> \<exists>path. file_path path \<and> p = join ''/'' path"
proof (induction t arbitrary: n m)
  case (Cons e t)
  obtain q node where e: "e = (q, node)" by force
  have ok: "tree_ok t" "file_path q" using Cons.prems(2) by (auto simp: tree_ok_def e)
  show ?case
  proof (cases node)
    case (RegFile content mode)
    then obtain rest where "manifest_entries sha (n + 1) t = Inr rest" "m = (join ''/'' q, sha content) # rest"
      using Cons.prems(1) by (auto simp: e result_simps split: if_splits)
    then show ?thesis using Cons.IH [of "n + 1" rest] ok Cons.prems(3) by auto
  qed (use Cons.prems(1,3) Cons.IH ok(1) e in simp_all)
qed simp

subsection \<open>Extraction gives a proper tree\<close>

lemma path_prefixes_file_path: "list_all (\<lambda>x. x \<notin> {[], ''.'', ''..''} \<and> CHR ''/'' \<notin> set x) path \<Longrightarrow> q \<in> set (path_prefixes path) \<Longrightarrow> file_path q"
  by (induction path arbitrary: q) (auto simp: file_path_def)

lemma tree_ok_snoc: "tree_ok t \<Longrightarrow> map_of t q = None \<Longrightarrow> file_path q \<Longrightarrow> tree_ok (t @ [(q, n)])"
  by (auto simp: tree_ok_def map_of_eq_None_iff)

lemma make_dirs_ok:
  "make_dirs qs t = Inr t' \<Longrightarrow> tree_ok t \<Longrightarrow> list_all file_path qs \<Longrightarrow> tree_ok t'"
  by (induction qs t rule: make_dirs.induct) (auto simp: tree_ok_snoc split: option.splits node.splits)

lemma safe_tar_name_parts:
  assumes "safe_tar_name nfkc name = Inr parts"
  shows "list_all (\<lambda>x. x \<notin> {[], ''.'', ''..''} \<and> CHR ''/'' \<notin> set x) parts"
proof -
  have p: "parts = posix_parts name" "posix_root name = []" "\<not> list_ex (\<lambda>p. p \<in> {[], ''.'', ''..''}) (posix_parts name)"
    using assms by (auto simp: safe_tar_name_def split: if_splits)
  then have "parts = posix_tail name" by (simp add: posix_parts_def)
  then show ?thesis using p by (auto simp: list_all_iff list_ex_iff posix_tail_def dest: split_on_no_sep)
qed

lemma list_all_butlast: "list_all P xs \<Longrightarrow> list_all P (butlast xs)"
  by (auto simp: list_all_iff dest: in_set_butlastD)

lemma extract_members_ok:
  "extract_members nfkc n s seen ms t = Inr t' \<Longrightarrow> tree_ok t \<Longrightarrow> tree_ok t'"
proof (induction ms arbitrary: n s seen t)
  case (Cons m ms)
  from Cons.prems(1) obtain rel where rel: "safe_tar_name nfkc (tm_name m) = Inr rel"
    by (auto simp: result_simps)
  note parts = safe_tar_name_parts [OF rel]
  have dirs: "list_all file_path (path_prefixes rel)" "list_all file_path (path_prefixes (butlast rel))"
    using path_prefixes_file_path parts list_all_butlast [OF parts] by (auto simp: list_all_iff)
  show ?case
  proof (cases "tm_kind m")
    case MDir
    with Cons.prems(1) rel obtain t1 where "make_dirs (path_prefixes rel) t = Inr t1"
      "extract_members nfkc n s (rel # seen) ms t1 = Inr t'"
      by (auto simp: result_simps split: if_splits)
    then show ?thesis using Cons.IH make_dirs_ok dirs(1) Cons.prems(2) by blast
  next
    case MReg
    with Cons.prems(1) rel obtain t1 t2 content mode where "make_dirs (path_prefixes (butlast rel)) t = Inr t1"
      "create_file rel content mode t1 = Inr t2" "extract_members nfkc (n + 1) (s + tm_size m) (rel # seen) ms t2 = Inr t'"
      by (auto simp: result_simps split: if_splits option.splits)
    moreover from this have "tree_ok t1" using make_dirs_ok dirs(2) Cons.prems(2) by blast
    ultimately show ?thesis
      using Cons.IH parts by (auto simp: create_file_def file_path_def tree_ok_snoc split: if_splits)
  next
    case MOther
    with Cons.prems(1) rel show ?thesis by (auto simp: result_simps split: if_splits)
  qed
qed simp

lemma materialize_ok: "materialize nfkc git d = Inr t \<Longrightarrow> tree_ok t"
  by (auto simp: materialize_def extract_regular_archive_def tree_ok_def [of "[]"] split: option.splits if_splits
      dest!: extract_members_ok)

text \<open>What is asked of \<^verbatim>\<open>git apply\<close>: it turns a proper tree into a proper tree.\<close>

definition apply_keeps_trees :: "git_commands \<Rightarrow> bool" where
  "apply_keeps_trees git \<longleftrightarrow> (\<forall>patch t t'. tree_ok t \<longrightarrow> git_apply git patch t = Some t' \<longrightarrow> tree_ok t')"

text \<open>A sealed node: a file nobody can write, or a directory nobody can write.\<close>

definition sealed_node :: "node \<Rightarrow> bool" where
  "sealed_node n \<longleftrightarrow> (case n of RegFile content m \<Rightarrow> m = 365 \<or> m = 292 | DirNode m \<Rightarrow> m = 365 | _ \<Rightarrow> False)"

lemma prepared_digests:
  assumes "tree_manifest sha cand_tree = Inr cand" "seal_candidate_tree cand_tree = Inr t" "tree_ok cand_tree" "file_path path"
  shows "file_digest sha t path = map_of cand (join ''/'' path)"
  using manifest_digests [of sha 0 cand_tree cand path] seal_digest(1) [OF assms(2), of sha path] assms(1,3,4)
  by (simp add: tree_manifest_def)

text \<open>C27. A prepared candidate tree differs from the tree of the bound commit in exactly the warrant's allowed paths: the file at a
  path changed, appeared or disappeared if and only if the path is an allowed one. Every entry
  below its root is sealed.\<close>

theorem prepared_tree_changes_exactly_the_allowed_paths:
  assumes "prepare sha nfc nfkc git dir workspace d = Inr ws" "apply_keeps_trees git"
  shows "\<exists>base_tree. check_commit sha git d = Inr () \<and> materialize nfkc git d = Inr base_tree \<and>
    (\<forall>path. file_path path \<longrightarrow>
       (file_digest sha (pw_tree ws) path \<noteq> file_digest sha base_tree path \<longleftrightarrow> join ''/'' path \<in> set (wd_allowed_paths d))) \<and>
    list_all (\<lambda>(p, n). sealed_node n) (pw_tree ws)"
proof -
  from assms(1) obtain base_tree patch base cand_tree cand where
    *: "check_commit sha git d = Inr ()" "materialize nfkc git d = Inr base_tree"
    "tree_manifest sha base_tree = Inr base" "git_apply git patch base_tree = Some cand_tree"
    "tree_manifest sha cand_tree = Inr cand" "changed_paths base cand = wd_allowed_paths d"
    "seal_candidate_tree cand_tree = Inr (pw_tree ws)"
    by (rule prepare_Inr)
  have ok: "tree_ok base_tree" "tree_ok cand_tree"
    using materialize_ok [OF *(2)] assms(2) *(4) by (auto simp: apply_keeps_trees_def)
  have "file_digest sha (pw_tree ws) path \<noteq> file_digest sha base_tree path \<longleftrightarrow> join ''/'' path \<in> set (wd_allowed_paths d)"
    if "file_path path" for path
    using prepared_digests [OF *(5,7) ok(2) that] manifest_digests [of sha 0 base_tree base path] *(3,6) ok(1) that
      set_changed_paths [of "join ''/'' path" base cand] by (auto simp: tree_manifest_def)
  moreover have "list_all (\<lambda>(p, n). sealed_node n) (pw_tree ws)"
    using seal_digest(4) [OF *(7)] by (fastforce simp: list_all_iff sealed_node_def)
  ultimately show ?thesis using *(1,2) by blast
qed

section \<open>The context is read back\<close>

definition digest_json :: "string option \<Rightarrow> json" where
  "digest_json v = (case v of None \<Rightarrow> JNull | Some s \<Rightarrow> JStr s)"

definition context_fields ::
  "warrant_document \<Rightarrow> string \<Rightarrow> (string \<times> string) list \<Rightarrow> (string \<times> string) list \<Rightarrow> (string \<times> json) list" where
  "context_fields d root base cand =
     [(''allowed_paths'', JArr (map JStr (wd_allowed_paths d))),
      (''base_file_sha256'', JObj (sort_key fst (map (\<lambda>p. (p, digest_json (map_of base p))) (wd_allowed_paths d)))),
      (''base_sha'', JStr (wd_base_sha d)),
      (''candidate_file_sha256'', JObj (sort_key fst (map (\<lambda>p. (p, digest_json (map_of cand p))) (wd_allowed_paths d)))),
      (''candidate_root'', JStr root), (''format'', JStr CONTEXT_FORMAT), (''patch_sha256'', JStr (wd_patch_sha256 d))]"

text \<open>What is asked of a document and its workspace: the class accepts it, the texts that are not plain ASCII are in NFC,
  and all digests are SHA-256 digests.\<close>

definition context_ok :: "(string \<Rightarrow> string) \<Rightarrow> warrant_document \<Rightarrow> string \<Rightarrow> bool" where
  "context_ok nfc d root \<longleftrightarrow> document_ok d \<and> nfc_laws nfc \<and> nfc root = root \<and> utf8_valid root \<and>
     list_all (\<lambda>p. nfc p = p) (wd_allowed_paths d)"

lemma hex_ascii: "list_all is_hex s \<Longrightarrow> is_ascii s"
  by (auto simp: is_ascii_def list_all_iff is_hex_def is_digit_def)

lemma context_document:
  assumes "context_ok nfc d root"
  shows "nfc_laws nfc" "is_git_sha (wd_base_sha d)" "is_sha256 (wd_patch_sha256 d)" "is_ascii (wd_base_sha d)"
    "is_ascii (wd_patch_sha256 d)" "distinct (wd_allowed_paths d)" "sorted (wd_allowed_paths d)" "wd_allowed_paths d \<noteq> []"
    "list_all utf8_valid (wd_allowed_paths d)" "list_all (\<lambda>p. nfc p = p) (wd_allowed_paths d)" "utf8_valid root" "nfc root = root"
  using assms is_sha256_ascii [of "wd_patch_sha256 d"] hex_ascii [of "wd_base_sha d"]
  by (simp_all add: context_ok_def document_ok_def document_fields_ok_def is_git_sha_def)

lemma digest_normalize: "nfc_laws nfc \<Longrightarrow> (\<forall>s. v = Some s \<longrightarrow> is_sha256 s) \<Longrightarrow> normalize nfc (digest_py v) = Inr (digest_json v)"
  by (auto simp: digest_py_def digest_json_def nfc_laws_def is_sha256_ascii split: option.splits)

lemma digest_map_normalize:
  assumes "context_ok nfc d root" "\<And>p s. map_of m p = Some s \<Longrightarrow> is_sha256 s"
  shows "normalize nfc (py_fields (map (\<lambda>p. (p, digest_py (map_of m p))) (wd_allowed_paths d))) =
    Inr (JObj (sort_key fst (map (\<lambda>p. (p, digest_json (map_of m p))) (wd_allowed_paths d))))"
proof (rule normalize_py_fields_values)
  have "nfc p = p \<and> normalize nfc (digest_py (map_of m p)) = Inr (digest_json (map_of m p))"
    if "p \<in> set (wd_allowed_paths d)" for p
    using assms that digest_normalize [of nfc "map_of m p"] by (auto simp: context_ok_def list_all_iff)
  then show "list_all2 (\<lambda>(k, v) (k', w). k' = k \<and> nfc k = k \<and> normalize nfc v = Inr w)
      (map (\<lambda>p. (p, digest_py (map_of m p))) (wd_allowed_paths d)) (map (\<lambda>p. (p, digest_json (map_of m p))) (wd_allowed_paths d))"
    by (simp add: list.rel_map list.rel_refl_strong)
  show "distinct (map fst (map (\<lambda>p. (p, digest_json (map_of m p))) (wd_allowed_paths d)))"
    using assms(1) by (simp add: context_ok_def document_ok_def document_fields_ok_def comp_def)
qed

lemma context_normalize:
  assumes "context_ok nfc d root" "\<And>p s. map_of base p = Some s \<Longrightarrow> is_sha256 s" "\<And>p s. map_of cand p = Some s \<Longrightarrow> is_sha256 s"
  shows "normalize nfc (context_py d root base cand) = Inr (JObj (sort_key fst (context_fields d root base cand)))"
proof -
  have "normalize_list nfc (map PyStr ps) = Inr (map JStr ps)" if "list_all (\<lambda>p. nfc p = p) ps" for ps
    using that by (induction ps) auto
  moreover have "nfc s = s" if "is_ascii s" for s using context_document(1) [OF assms(1)] that by (simp add: nfc_laws_def)
  ultimately show ?thesis
    unfolding context_py_def
    using context_document [OF assms(1)] digest_map_normalize [OF assms(1,2)] digest_map_normalize [OF assms(1,3)]
    by (intro normalize_py_fields_values) (simp_all add: context_fields_def CONTEXT_FORMAT_def)
qed

lemma digest_json_plain:
  "canonical_value (digest_json v)" "integral (digest_json v)" "(\<forall>s. v = Some s \<longrightarrow> is_sha256 s) \<Longrightarrow> utf8_strings (digest_json v)"
  by (auto simp: digest_json_def utf8_valid_ascii is_sha256_ascii split: option.splits)

lemma context_fields_distinct: "distinct (map fst (context_fields d root base cand))"
  by (simp add: context_fields_def)

lemma field_of_context: "field_of k (sort_key fst (context_fields d root base cand)) = field_of k (context_fields d root base cand)"
  by (simp add: field_of_def map_of_sort_key_fst context_fields_distinct)

text \<open>The bytes preparation wrote are read back to these fields.\<close>

lemma read_context_prepared:
  assumes "context_ok nfc d root" "\<And>p s. map_of base p = Some s \<Longrightarrow> is_sha256 s" "\<And>p s. map_of cand p = Some s \<Longrightarrow> is_sha256 s"
    "canonical_json nfc (context_py d root base cand) = Inr bytes" "cf_bytes f = bytes"
    "\<not> cf_inside_root f" "cf_owner_trusted f" "cf_mode f = 256"
  shows "read_context f = Inr (sort_key fst (context_fields d root base cand))"
proof -
  let ?v = "JObj (sort_key fst (context_fields d root base cand))"
  have bytes: "bytes = dumps ?v"
    using assms(4) context_normalize [OF assms(1-3)] by (simp add: canonical_json_def del: dumps.simps)
  note doc = context_document [OF assms(1)]
  have "canonical_value ?v" "integral ?v"
    using doc(6) by (simp_all add: context_fields_def list_all_iff digest_json_plain comp_def)
  then have "loads_text (dumps ?v) = Inr ?v"
    using scan_canonical_text by (simp add: loads_text_def del: dumps.simps)
  moreover have "utf8_strings ?v"
    using doc digest_json_plain(3) [of "map_of base p" for p] digest_json_plain(3) [of "map_of cand p" for p] assms(2,3)
    by (auto simp: context_fields_def list_all_iff utf8_valid_ascii CONTEXT_FORMAT_def)
  then have "utf8_valid (dumps ?v)" by (simp add: utf8_valid_def utf8_dumps del: dumps.simps)
  moreover have "set (map fst (sort_key fst (context_fields d root base cand))) = set CONTEXT_KEYS"
    by (simp add: context_fields_def CONTEXT_KEYS_def)
  ultimately show ?thesis
    using assms(5-8) by (simp add: read_context_def bytes del: dumps.simps)
qed

lemma text_items_map: "text_items (map JStr ps) = Some ps"
  by (induction ps) simp_all

lemma digest_of_json: "digest_of (digest_json v) = v"
  by (simp add: digest_of_def digest_json_def split: option.split)

lemma digest_manifest:
  assumes "distinct ps" "\<And>p s. map_of m p = Some s \<Longrightarrow> is_sha256 s"
  shows "validate_file_manifest ps field (JObj (sort_key fst (map (\<lambda>p. (p, digest_json (map_of m p))) ps))) =
    Inr (\<lambda>p. if p \<in> set ps then Some (map_of m p) else None)"
proof -
  have "map_of (map (\<lambda>p. (p, digest_json (map_of m p))) ps) = (\<lambda>p. if p \<in> set ps then Some (digest_json (map_of m p)) else None)"
    by (induction ps) auto
  then have "map_of (sort_key fst (map (\<lambda>p. (p, digest_json (map_of m p))) ps)) =
      (\<lambda>p. if p \<in> set ps then Some (digest_json (map_of m p)) else None)"
    using assms(1) by (simp add: map_of_sort_key_fst comp_def)
  moreover have "digest_value (digest_json (map_of m p))" for p
    using assms(2) [of p] by (auto simp: digest_value_def digest_json_def split: option.split)
  ultimately show ?thesis
    by (auto simp: validate_file_manifest_def list_all_iff image_image digest_of_json fun_eq_iff)
qed

text \<open>Loading a prepared context on any tree: the checks on the context itself pass, and what is left is the path policy
  and the comparison of the files.\<close>

lemma load_prepared:
  assumes "context_ok nfc d root" "\<And>p s. map_of base p = Some s \<Longrightarrow> is_sha256 s" "\<And>p s. map_of cand p = Some s \<Longrightarrow> is_sha256 s"
    "canonical_json nfc (context_py d root base cand) = Inr (cf_bytes f)"
    "\<not> cf_inside_root f" "cf_owner_trusted f" "cf_mode f = 256" "resolve_path root = Some root"
    "wd_patch_sha256 d \<noteq> sha []" "changed_paths base cand = wd_allowed_paths d"
  shows "load_and_verify_candidate_context sha nfkc resolve_path root t f =
    (case validate_patch_paths nfkc (view_of t) (wd_allowed_paths d) of
       Inl e \<Rightarrow> Inl (CandidateContextViolation ''candidate allowed path policy failed'')
     | Inr ps \<Rightarrow>
         if ps \<noteq> wd_allowed_paths d
         then Inl (CandidateContextViolation ''candidate allowed paths must be unique and canonical'')
         else rbind (map_result (check_file sha t (\<lambda>p. if p \<in> set ps then Some (map_of cand p) else None)) ps) (\<lambda>_.
           Inr \<lparr>cc_candidate_root = root, cc_base_sha = wd_base_sha d, cc_patch_sha256 = wd_patch_sha256 d,
                cc_allowed_paths = wd_allowed_paths d\<rparr>))"
proof -
  let ?kvs = "context_fields d root base cand"
  note doc = context_document [OF assms(1)]
  have read: "read_context f = Inr (sort_key fst ?kvs)"
    by (rule read_context_prepared [OF assms(1-4) refl assms(5-7)])
  have fields: "field_of ''allowed_paths'' ?kvs = JArr (map JStr (wd_allowed_paths d))"
    "field_of ''base_file_sha256'' ?kvs = JObj (sort_key fst (map (\<lambda>p. (p, digest_json (map_of base p))) (wd_allowed_paths d)))"
    "field_of ''base_sha'' ?kvs = JStr (wd_base_sha d)"
    "field_of ''candidate_file_sha256'' ?kvs = JObj (sort_key fst (map (\<lambda>p. (p, digest_json (map_of cand p))) (wd_allowed_paths d)))"
    "field_of ''candidate_root'' ?kvs = JStr root" "field_of ''format'' ?kvs = JStr CONTEXT_FORMAT"
    "field_of ''patch_sha256'' ?kvs = JStr (wd_patch_sha256 d)"
    by (simp_all add: field_of_def context_fields_def)
  have root: "check_root resolve_path root (sort_key fst ?kvs) = Inr ()"
    using assms(8) by (simp add: check_root_def field_of_context fields string_value_def)
  obtain p0 where p0: "p0 \<in> set (wd_allowed_paths d)" using doc(8) by (cases "wd_allowed_paths d") auto
  then have "map_of base p0 \<noteq> map_of cand p0" using set_changed_paths [of p0 base cand] assms(10) by simp
  with p0 have changed: "\<not> list_all (\<lambda>p. (if p \<in> set (wd_allowed_paths d) then Some (map_of base p) else None) =
      (if p \<in> set (wd_allowed_paths d) then Some (map_of cand p) else None)) (wd_allowed_paths d)"
    by (auto simp: list_all_iff)
  show ?thesis
    using digest_manifest [OF doc(6) assms(2)] digest_manifest [OF doc(6) assms(3)] doc(2,3) assms(9) changed
    by (simp add: load_and_verify_candidate_context_def read root check_bindings_def field_of_context fields string_value_def
        text_array_def text_items_map EMPTY_SHA256_def split: sum.split)
qed

lemma manifest_sha256: "manifest_entries sha n t = Inr m \<Longrightarrow> (\<And>c. is_sha256 (sha c)) \<Longrightarrow> map_of m p = Some s \<Longrightarrow> is_sha256 s"
proof (induction t arbitrary: n m)
  case (Cons e t)
  obtain q node where e: "e = (q, node)" by force
  show ?case
  proof (cases node)
    case (RegFile content mode)
    then obtain rest where "manifest_entries sha (n + 1) t = Inr rest" "m = (join ''/'' q, sha content) # rest"
      using Cons.prems(1) by (auto simp: e result_simps split: if_splits)
    then show ?thesis using Cons.IH [of "n + 1" rest] Cons.prems(2,3) by (auto split: if_splits)
  qed (use Cons.prems Cons.IH e in simp_all)
qed simp

lemma candidate_file_digest_Inr: "candidate_file_digest sha t p = Inr v \<Longrightarrow> v = file_digest sha t (posix_parts p)"
  by (auto simp: candidate_file_digest_def file_digest_def split: option.splits node.splits)

lemma candidate_file_digest_sealed:
  assumes "seal_candidate_tree cand_tree = Inr t" "\<forall>m. map_of cand_tree (posix_parts p) \<noteq> Some (DirNode m)"
  shows "candidate_file_digest sha t p = Inr (file_digest sha t (posix_parts p))"
  using assms unfolding seal_candidate_tree_def
  by (induction cand_tree arbitrary: t)
    (auto simp: result_simps seal_node_def candidate_file_digest_def file_digest_def split: node.splits if_splits option.splits)

text \<open>An allowed path of a preparation is the path of a file.\<close>

lemma allowed_path_is_file_path:
  assumes "tree_manifest sha base_tree = Inr base" "tree_manifest sha cand_tree = Inr cand" "tree_ok base_tree" "tree_ok cand_tree"
    "p \<in> set (changed_paths base cand)"
  obtains path where "file_path path" "p = join ''/'' path" "posix_parts p = path"
proof -
  have "p \<in> fst ` set base \<union> fst ` set cand"
    using assms(5) by (auto simp: changed_paths_def)
  then obtain path where "file_path path" "p = join ''/'' path"
    using manifest_keys [of sha 0 base_tree base p] manifest_keys [of sha 0 cand_tree cand p] assms(1-4)
    by (auto simp: tree_manifest_def)
  then show ?thesis using posix_parts_join by (intro that) auto
qed

text \<open>The context file as preparation leaves it.\<close>

definition published_context :: "prepared_workspace \<Rightarrow> context_file" where
  "published_context ws = \<lparr>cf_inside_root = False, cf_owner_trusted = True, cf_mode = pw_context_mode ws, cf_bytes = pw_context ws\<rparr>"

text \<open>What loading a prepared context amounts to: the path policy on the tree that is found, then the digest of each file.\<close>

definition load_checked where
  "load_checked sha nfkc root d cand t =
      (case validate_patch_paths nfkc (view_of t) (wd_allowed_paths d) of
         Inl e \<Rightarrow> Inl (CandidateContextViolation ''candidate allowed path policy failed'')
       | Inr ps \<Rightarrow>
           if ps \<noteq> wd_allowed_paths d
           then Inl (CandidateContextViolation ''candidate allowed paths must be unique and canonical'')
           else rbind (map_result (check_file sha t (\<lambda>p. if p \<in> set ps then Some (map_of cand p) else None)) ps) (\<lambda>_.
             Inr \<lparr>cc_candidate_root = root, cc_base_sha = wd_base_sha d, cc_patch_sha256 = wd_patch_sha256 d,
                  cc_allowed_paths = wd_allowed_paths d\<rparr>))"

lemma prepared_context:
  assumes "prepare sha nfc nfkc git dir root d = Inr ws" "apply_keeps_trees git" "\<And>c. is_sha256 (sha c)" "context_ok nfc d root"
    "resolve_path root = Some root" "wd_patch_sha256 d \<noteq> sha []"
  obtains base_tree patch base cand_tree cand where
    "validate_patch_paths nfkc (view_of base_tree) (wd_allowed_paths d) = Inr (wd_allowed_paths d)"
    "tree_ok cand_tree" "tree_manifest sha cand_tree = Inr cand"
    "git_apply git patch base_tree = Some cand_tree" "seal_candidate_tree cand_tree = Inr (pw_tree ws)"
    "\<And>p. p \<in> set (wd_allowed_paths d) \<Longrightarrow> map_of cand p = file_digest sha (pw_tree ws) (posix_parts p)"
    "\<And>t. load_and_verify_candidate_context sha nfkc resolve_path root t (published_context ws) =
      load_checked sha nfkc root d cand t"
proof -
  from assms(1) obtain base_tree patch base cand_tree cand where
    *: "materialize nfkc git d = Inr base_tree"
    "validate_declared_patch_paths nfkc (view_of base_tree) patch (wd_allowed_paths d) = Inr (wd_allowed_paths d)"
    "tree_manifest sha base_tree = Inr base" "git_apply git patch base_tree = Some cand_tree"
    "tree_manifest sha cand_tree = Inr cand" "changed_paths base cand = wd_allowed_paths d"
    "canonical_json nfc (context_py d root base cand) = Inr (pw_context ws)"
    "seal_candidate_tree cand_tree = Inr (pw_tree ws)" "pw_context_mode ws = 256"
    by (rule prepare_Inr)
  have ok: "tree_ok base_tree" "tree_ok cand_tree"
    using materialize_ok [OF *(1)] assms(2) *(4) by (auto simp: apply_keeps_trees_def)
  have policy: "validate_patch_paths nfkc (view_of base_tree) (wd_allowed_paths d) = Inr (wd_allowed_paths d)"
    using *(2) by (auto simp: validate_declared_patch_paths_def result_simps split: if_splits)
  have sha: "map_of base p = Some s \<Longrightarrow> is_sha256 s" "map_of cand p = Some s \<Longrightarrow> is_sha256 s" for p s
    using manifest_sha256 *(3,5) assms(3) unfolding tree_manifest_def by blast+
  have digests: "map_of cand p = file_digest sha (pw_tree ws) (posix_parts p)" if "p \<in> set (wd_allowed_paths d)" for p
  proof -
    from that *(6) have "p \<in> set (changed_paths base cand)" by simp
    then obtain path where "file_path path" "p = join ''/'' path" "posix_parts p = path"
      by (rule allowed_path_is_file_path [OF *(3,5) ok])
    then show ?thesis using prepared_digests [OF *(5,8) ok(2)] by simp
  qed
  have load: "load_and_verify_candidate_context sha nfkc resolve_path root t (published_context ws) =
      load_checked sha nfkc root d cand t" for t
    unfolding load_checked_def by (rule load_prepared [OF assms(4) sha]) (use *(6,7,9) assms(5,6) in \<open>simp_all add: published_context_def\<close>)
  show thesis by (rule that [OF policy ok(2) *(5,4,8) digests load])
qed

lemma published_context_loads:
  assumes "prepare sha nfc nfkc git dir root d = Inr ws" "apply_keeps_trees git" "\<And>c. is_sha256 (sha c)" "context_ok nfc d root"
    and "resolve_path root = Some root" "wd_patch_sha256 d \<noteq> sha []"
    and "\<And>p m. p \<in> set (wd_allowed_paths d) \<Longrightarrow> (posix_parts p, DirNode m) \<notin> set (pw_tree ws)"
  shows "load_and_verify_candidate_context sha nfkc resolve_path root (pw_tree ws) (published_context ws) =
    Inr \<lparr>cc_candidate_root = root, cc_base_sha = wd_base_sha d, cc_patch_sha256 = wd_patch_sha256 d,
         cc_allowed_paths = wd_allowed_paths d\<rparr>"
proof -
  from assms(1-6) obtain base_tree patch base cand_tree cand where
    *: "validate_patch_paths nfkc (view_of base_tree) (wd_allowed_paths d) = Inr (wd_allowed_paths d)"
    "seal_candidate_tree cand_tree = Inr (pw_tree ws)"
    "\<And>p. p \<in> set (wd_allowed_paths d) \<Longrightarrow> map_of cand p = file_digest sha (pw_tree ws) (posix_parts p)"
    "\<And>t. load_and_verify_candidate_context sha nfkc resolve_path root t (published_context ws) =
      load_checked sha nfkc root d cand t"
    by (rule prepared_context) blast
  have "validate_patch_paths nfkc (view_of (pw_tree ws)) (wd_allowed_paths d) = Inr (wd_allowed_paths d)"
    using *(1) seal_digest(2) [OF *(2)] by (auto simp: validate_patch_paths_eq_Inr check_patch_path_eq_Inr view_of_def)
  moreover have "check_file sha (pw_tree ws) (\<lambda>p. if p \<in> set (wd_allowed_paths d) then Some (map_of cand p) else None) p = Inr ()"
    if p: "p \<in> set (wd_allowed_paths d)" for p
  proof -
    have "map_of (pw_tree ws) (posix_parts p) \<noteq> Some (DirNode m)" for m
      using assms(7) [OF p, of m] by (auto dest: map_of_SomeD)
    moreover have "map_of (pw_tree ws) (posix_parts p) \<noteq> Some (LinkNode b)" for b
      using seal_digest(2) [OF *(2), of "posix_parts p"] by (auto simp: is_link_def)
    moreover have "map_of (pw_tree ws) (posix_parts p) \<noteq> Some SpecialNode"
      using seal_digest(4) [OF *(2), of "posix_parts p" SpecialNode] by (auto dest: map_of_SomeD)
    ultimately have "candidate_file_digest sha (pw_tree ws) p = Inr (file_digest sha (pw_tree ws) (posix_parts p))"
      by (auto simp: candidate_file_digest_def file_digest_def split: option.split node.split)
    then show ?thesis using p *(3) [OF p] by (simp add: check_file_def)
  qed
  then have "map_result (check_file sha (pw_tree ws) (\<lambda>p. if p \<in> set (wd_allowed_paths d) then Some (map_of cand p) else None))
      (wd_allowed_paths d) = Inr (map (\<lambda>_. ()) (wd_allowed_paths d))"
    by (simp add: map_result_eq_Inr list_all2_map2 list.rel_refl_strong)
  ultimately show ?thesis by (simp add: *(4) load_checked_def)
qed

text \<open>The candidate context round trip: the context that preparation publishes is accepted for the sealed tree it was
  written for, and names the warrant's base, patch and paths; no allowed path may be a directory of the candidate tree.\<close>

theorem published_context_is_accepted:
  assumes "prepare sha nfc nfkc git dir root d = Inr ws" "apply_keeps_trees git" "\<And>c. is_sha256 (sha c)" "context_ok nfc d root"
    and "resolve_path root = Some root" "wd_patch_sha256 d \<noteq> sha []"
    and "\<And>p m. p \<in> set (wd_allowed_paths d) \<Longrightarrow> (posix_parts p, DirNode m) \<notin> set (pw_tree ws)"
  shows "load_and_verify_candidate_context sha nfkc resolve_path root (pw_tree ws) (published_context ws) =
    Inr \<lparr>cc_candidate_root = root, cc_base_sha = wd_base_sha d, cc_patch_sha256 = wd_patch_sha256 d,
         cc_allowed_paths = wd_allowed_paths d\<rparr>"
  using assms by (rule published_context_loads)

text \<open>A context that is accepted later still describes the published files: whatever has happened to the tree in between, acceptance
  means that every allowed path holds a file with the digest it had when the tree was sealed, or still holds none.\<close>

theorem accepted_context_means_unchanged_files:
  assumes "prepare sha nfc nfkc git dir root d = Inr ws" "apply_keeps_trees git" "\<And>c. is_sha256 (sha c)" "context_ok nfc d root"
    and "resolve_path root = Some root" "wd_patch_sha256 d \<noteq> sha []"
    and "load_and_verify_candidate_context sha nfkc resolve_path root t (published_context ws) = Inr ctx"
  shows "cc_allowed_paths ctx = wd_allowed_paths d \<and>
    list_all (\<lambda>p. file_digest sha t (posix_parts p) = file_digest sha (pw_tree ws) (posix_parts p)) (wd_allowed_paths d)"
proof -
  from assms(1-6) obtain cand where
    *: "\<And>p. p \<in> set (wd_allowed_paths d) \<Longrightarrow> map_of cand p = file_digest sha (pw_tree ws) (posix_parts p)"
    "\<And>t. load_and_verify_candidate_context sha nfkc resolve_path root t (published_context ws) =
      load_checked sha nfkc root d cand t"
    by (rule prepared_context) blast
  from assms(7) have ctx: "cc_allowed_paths ctx = wd_allowed_paths d"
    and files: "\<exists>us. map_result (check_file sha t (\<lambda>p. if p \<in> set (wd_allowed_paths d) then Some (map_of cand p) else None))
      (wd_allowed_paths d) = Inr us"
    unfolding *(2) load_checked_def by (auto simp: result_simps split: sum.splits if_splits)
  have "file_digest sha t (posix_parts p) = file_digest sha (pw_tree ws) (posix_parts p)" if p: "p \<in> set (wd_allowed_paths d)" for p
  proof -
    from files p have "check_file sha t (\<lambda>p. if p \<in> set (wd_allowed_paths d) then Some (map_of cand p) else None) p = Inr ()"
      by (auto simp: map_result_eq_Inr in_set_conv_nth list_all2_conv_all_nth)
    then have "candidate_file_digest sha t p = Inr (map_of cand p)"
      using p by (auto simp: check_file_def result_simps)
    then show ?thesis using candidate_file_digest_Inr [of sha t p] *(1) [OF p] by simp
  qed
  with ctx show ?thesis by (simp add: list_all_iff)
qed

section \<open>An example preparation\<close>

text \<open>A hash that tells the empty text, the old and the new file apart, and a repository with one file that the patch rewrites.\<close>

definition three_digests :: "string \<Rightarrow> string" where
  "three_digests c = replicate 64 (if c = [] then CHR ''1'' else if c = ''y'' then CHR ''2'' else CHR ''0'')"

definition sample_git :: git_commands where
  "sample_git =
     \<lparr>git_rev_parse = (\<lambda>_. Some (replicate 40 CHR ''0'' @ newline)),
      git_ls_tree = (\<lambda>_. Some ''m.py''),
      git_archive = (\<lambda>_. Some (512, [\<lparr>tm_name = ''m.py'', tm_kind = MReg, tm_size = 1, tm_mode = 420, tm_content = Some ''x''\<rparr>])),
      git_apply = (\<lambda>patch t. Some (map (\<lambda>(p, n). (p, if n = RegFile ''x'' 420 then RegFile ''y'' 420 else n)) t))\<rparr>"

definition sample_tree :: tree where
  "sample_tree = [([''m.py''], RegFile ''y'' 292)]"

lemma three_digests_sha256: "is_sha256 (three_digests c)"
  by (simp add: three_digests_def is_sha256_def is_hex_def is_digit_def list_all_iff)

lemma sample_git_keeps_trees: "apply_keeps_trees sample_git"
  by (auto simp: apply_keeps_trees_def sample_git_def tree_ok_def comp_def list_all_iff case_prod_beta)

lemma sample_context_ok: "context_ok id sample_warrant ''/c''"
  using sample_document_ok by (simp add: context_ok_def sample_warrant_def utf8_valid_ascii is_ascii_def)

lemma sample_materialize: "materialize id sample_git sample_warrant = Inr [([''m.py''], RegFile ''x'' 420)]"
  by (simp add: materialize_def sample_git_def MAX_ARCHIVE_BYTES_def MAX_ARCHIVE_FILES_def extract_regular_archive_def safe_tar_name_def
      posix_parts_def posix_root_def posix_tail_def create_file_def executable_mode_def)

lemma sample_commit: "check_commit three_digests sample_git sample_warrant = Inr ()"
proof -
  have "ascii_strip (replicate 40 CHR ''0'' @ newline) = replicate 40 CHR ''0''" unfolding newline_def by code_simp
  then show ?thesis
    by (simp add: check_commit_def sample_git_def sample_warrant_def run_git_def repository_manifest_sha256_def three_digests_def
        zero_digest_def result_simps is_ascii_def newline_def list_all_iff)
qed

lemma sample_policy:
  "validate_declared_patch_paths id (view_of [([''m.py''], n)]) (patch_text example_lines) [''m.py''] = Inr [''m.py'']" if "\<not> is_link (Some n)"
  using example_derived(1) that
  by (simp add: validate_declared_patch_paths_def validate_patch_paths_def check_patch_path_def view_of_def path_eval)

lemma sample_prepare:
  obtains bytes where "prepare three_digests id id sample_git True ''/c'' sample_warrant =
    Inr \<lparr>pw_tree = sample_tree, pw_context = bytes, pw_context_mode = 256\<rparr>"
proof -
  let ?base = "[(''m.py'', three_digests ''x'')]" and ?cand = "[(''m.py'', three_digests ''y'')]"
  have paths: "wd_allowed_paths sample_warrant = [''m.py'']" by (simp add: sample_warrant_def)
  have "changed_paths ?base ?cand = [''m.py'']" by (simp add: changed_paths_def three_digests_def)
  moreover have "\<exists>j. normalize id (context_py sample_warrant ''/c'' ?base ?cand) = Inr j"
    by (rule exI, rule context_normalize [OF sample_context_ok]) (auto simp: three_digests_sha256 split: if_splits)
  then obtain bytes where "canonical_json id (context_py sample_warrant ''/c'' ?base ?cand) = Inr bytes"
    by (auto simp: canonical_json_def)
  moreover have "tree_manifest three_digests [([''m.py''], RegFile c m)] = Inr [(''m.py'', three_digests c)]" for c m
    by (simp add: tree_manifest_def MAX_ARCHIVE_FILES_def)
  moreover have "seal_candidate_tree [([''m.py''], RegFile ''y'' 420)] = Inr sample_tree"
    by (simp add: seal_candidate_tree_def seal_node_def executable_mode_def sample_tree_def)
  moreover have "git_apply sample_git patch [([''m.py''], RegFile ''x'' 420)] = Some [([''m.py''], RegFile ''y'' 420)]" for patch
    by (simp add: sample_git_def)
  ultimately show thesis
    by (intro that) (simp add: prepare_def sample_commit sample_materialize sample_patch_bytes sample_policy paths)
qed

theorem prepared_tree_changes_exactly_the_allowed_paths_witness:
  "\<exists>ws. prepare three_digests id id sample_git True ''/c'' sample_warrant = Inr ws \<and>
     file_digest three_digests (pw_tree ws) [''m.py''] \<noteq> file_digest three_digests [([''m.py''], RegFile ''x'' 420)] [''m.py'']"
proof -
  obtain bytes where p: "prepare three_digests id id sample_git True ''/c'' sample_warrant =
      Inr \<lparr>pw_tree = sample_tree, pw_context = bytes, pw_context_mode = 256\<rparr>" by (rule sample_prepare)
  have "file_path [''m.py'']" "join ''/'' [''m.py''] \<in> set (wd_allowed_paths sample_warrant)"
    by (simp_all add: file_path_def sample_warrant_def)
  with prepared_tree_changes_exactly_the_allowed_paths [OF p sample_git_keeps_trees] show ?thesis
    by (auto simp: p sample_materialize)
qed

lemma sample_patch_digest: "wd_patch_sha256 sample_warrant \<noteq> three_digests []"
  by (simp add: sample_warrant_def three_digests_def zero_digest_def)

lemma sample_no_directory: "p \<in> set (wd_allowed_paths sample_warrant) \<Longrightarrow> (posix_parts p, DirNode m) \<notin> set sample_tree"
  by (simp add: sample_tree_def)

theorem published_context_is_accepted_witness:
  "\<exists>ws. load_and_verify_candidate_context three_digests id Some ''/c'' sample_tree (published_context ws) =
     Inr \<lparr>cc_candidate_root = ''/c'', cc_base_sha = replicate 40 CHR ''0'', cc_patch_sha256 = zero_digest [], cc_allowed_paths = [''m.py'']\<rparr>"
proof -
  obtain bytes where p: "prepare three_digests id id sample_git True ''/c'' sample_warrant =
      Inr \<lparr>pw_tree = sample_tree, pw_context = bytes, pw_context_mode = 256\<rparr>" (is "_ = Inr ?ws") by (rule sample_prepare)
  have "load_and_verify_candidate_context three_digests id Some ''/c'' sample_tree (published_context ?ws) =
      Inr \<lparr>cc_candidate_root = ''/c'', cc_base_sha = wd_base_sha sample_warrant, cc_patch_sha256 = wd_patch_sha256 sample_warrant,
           cc_allowed_paths = wd_allowed_paths sample_warrant\<rparr>"
    using published_context_is_accepted [OF p sample_git_keeps_trees three_digests_sha256 sample_context_ok, of Some]
      sample_patch_digest sample_no_directory by simp
  then show ?thesis by (intro exI [of _ ?ws]) (simp add: sample_warrant_def)
qed

theorem accepted_context_means_unchanged_files_witness:
  "\<exists>ws ctx. load_and_verify_candidate_context three_digests id Some ''/c'' sample_tree (published_context ws) = Inr ctx \<and>
     cc_allowed_paths ctx = [''m.py''] \<and>
     (\<forall>c. load_and_verify_candidate_context three_digests id Some ''/c'' [([''m.py''], RegFile ''z'' 292)] (published_context ws) \<noteq> Inr c)"
proof -
  obtain bytes where p: "prepare three_digests id id sample_git True ''/c'' sample_warrant =
      Inr \<lparr>pw_tree = sample_tree, pw_context = bytes, pw_context_mode = 256\<rparr>" (is "_ = Inr ?ws") by (rule sample_prepare)
  note unchanged = accepted_context_means_unchanged_files [OF p sample_git_keeps_trees three_digests_sha256 sample_context_ok _
    sample_patch_digest, of Some, simplified]
  obtain ctx where ctx: "load_and_verify_candidate_context three_digests id Some ''/c'' sample_tree (published_context ?ws) = Inr ctx"
    using published_context_loads [OF p sample_git_keeps_trees three_digests_sha256 sample_context_ok, of Some]
      sample_patch_digest sample_no_directory by simp
  have "load_and_verify_candidate_context three_digests id Some ''/c'' [([''m.py''], RegFile ''z'' 292)] (published_context ?ws) \<noteq> Inr c" for c
    using unchanged [of "[([''m.py''], RegFile ''z'' 292)]" c]
    by (auto simp: file_digest_def sample_tree_def sample_warrant_def three_digests_def posix_parts_def posix_root_def posix_tail_def)
  moreover have "cc_allowed_paths ctx = [''m.py'']" using unchanged [OF ctx] by (simp add: sample_warrant_def)
  ultimately show ?thesis using ctx by blast
qed

end
