(* ===== verification/CP_Regex.thy ===== *)
theory CP_Regex
  imports CP_Prelude
begin

text \<open>
  The part of Python's \<^verbatim>\<open>re\<close> that the sanitizer and the title policy use, on texts of code points: character classes,
  sequences, alternatives, counted repetitions of a class (greedy or lazy), the zero-width tests, named groups and
  back references. A match is the first result in the order in which the backtracking matcher tries them.
  Lemmas: a match consumes at least the width of its pattern, so the scans of \<^verbatim>\<open>finditer\<close> and \<^verbatim>\<open>subn\<close> end, and a
  substitution adds only the characters of its replacements.
\<close>

section \<open>Characters\<close>

type_synonym points = "nat list"

text \<open>The Unicode tables: NFKC, the word characters \<^verbatim>\<open>\w\<close>, and the representative of a character up to case, by which
  \<^verbatim>\<open>re.I\<close> compares.\<close>

record unicode =
  un_nfkc :: "points \<Rightarrow> points"
  un_word :: "nat \<Rightarrow> bool"
  un_fold :: "nat \<Rightarrow> nat"

definition points_of :: "string \<Rightarrow> points" where
  "points_of s = map code s"

text \<open>\<^verbatim>\<open>str.isspace\<close>, and the ASCII letters and digits.\<close>

definition is_space :: "nat \<Rightarrow> bool" where
  "is_space c \<longleftrightarrow> (9 \<le> c \<and> c \<le> 13) \<or> (28 \<le> c \<and> c \<le> 32) \<or> c \<in> {133, 160, 5760} \<or> (8192 \<le> c \<and> c \<le> 8202) \<or>
     c \<in> {8232, 8233, 8239, 8287, 12288}"

definition is_ascii_alnum :: "nat \<Rightarrow> bool" where
  "is_ascii_alnum c \<longleftrightarrow> (48 \<le> c \<and> c \<le> 57) \<or> (65 \<le> c \<and> c \<le> 90) \<or> (97 \<le> c \<and> c \<le> 122)"

datatype char_class =
    Exactly nat
  | Folded nat
  | Space
  | AlnumOr "nat list"
  | Among "nat list"
  | NotSpaceNor "nat list"
  | NotNewline

fun in_class :: "unicode \<Rightarrow> char_class \<Rightarrow> nat \<Rightarrow> bool" where
  "in_class u (Exactly c) x \<longleftrightarrow> x = c"
| "in_class u (Folded c) x \<longleftrightarrow> un_fold u x = un_fold u c"
| "in_class u Space x \<longleftrightarrow> is_space x"
| "in_class u (AlnumOr cs) x \<longleftrightarrow> is_ascii_alnum x \<or> x \<in> set cs"
| "in_class u (Among cs) x \<longleftrightarrow> x \<in> set cs"
| "in_class u (NotSpaceNor cs) x \<longleftrightarrow> \<not> is_space x \<and> x \<notin> set cs"
| "in_class u NotNewline x \<longleftrightarrow> x \<noteq> 10"

section \<open>Patterns and matches\<close>

datatype regex =
    Empty
  | OneOf char_class
  | Cat regex regex
  | Alt regex regex
  | Repeat char_class nat "nat option" bool
  | WordBoundary
  | AtStart
  | AtEnd
  | NotBehind char_class
  | NotAhead char_class
  | Group nat regex
  | BackRef nat

text \<open>Where a match has got to: the character before, the text ahead, the groups captured so far.\<close>

type_synonym spot = "nat option \<times> points \<times> (nat \<times> points) list"

definition advance :: "nat \<Rightarrow> spot \<Rightarrow> spot" where
  "advance j s = (case s of (p, xs, g) \<Rightarrow> (if j = 0 then p else Some (xs ! (j - 1)), drop j xs, g))"

definition word_before :: "unicode \<Rightarrow> nat option \<Rightarrow> bool" where
  "word_before u p = (case p of None \<Rightarrow> False | Some c \<Rightarrow> un_word u c)"

definition word_ahead :: "unicode \<Rightarrow> points \<Rightarrow> bool" where
  "word_ahead u xs = (case xs of [] \<Rightarrow> False | c # _ \<Rightarrow> un_word u c)"

definition repeat_counts :: "unicode \<Rightarrow> char_class \<Rightarrow> nat \<Rightarrow> nat option \<Rightarrow> points \<Rightarrow> nat list" where
  "repeat_counts u c least most xs =
     (let run = length (takeWhile (in_class u c) xs) in
      [least..<Suc (case most of None \<Rightarrow> run | Some m \<Rightarrow> min m run)])"

primrec results :: "unicode \<Rightarrow> regex \<Rightarrow> spot \<Rightarrow> spot list" where
  "results u Empty s = [s]"
| "results u (OneOf c) s =
     (case s of (p, xs, g) \<Rightarrow> (case xs of [] \<Rightarrow> [] | x # ys \<Rightarrow> if in_class u c x then [(Some x, ys, g)] else []))"
| "results u (Cat r r') s = concat (map (results u r') (results u r s))"
| "results u (Alt r r') s = results u r s @ results u r' s"
| "results u (Repeat c least most greedy) s =
     (let counts = repeat_counts u c least most (fst (snd s))
      in map (\<lambda>j. advance j s) (if greedy then rev counts else counts))"
| "results u WordBoundary s =
     (case s of (p, xs, g) \<Rightarrow> if word_before u p \<noteq> word_ahead u xs then [s] else [])"
| "results u AtStart s = (case s of (p, xs, g) \<Rightarrow> if p = None then [s] else [])"
| "results u AtEnd s = (case s of (p, xs, g) \<Rightarrow> if xs = [] \<or> xs = [10] then [s] else [])"
| "results u (NotBehind c) s =
     (case s of (p, xs, g) \<Rightarrow> (case p of None \<Rightarrow> [s] | Some x \<Rightarrow> if in_class u c x then [] else [s]))"
| "results u (NotAhead c) s =
     (case s of (p, xs, g) \<Rightarrow> (case xs of [] \<Rightarrow> [s] | x # ys \<Rightarrow> if in_class u c x then [] else [s]))"
| "results u (Group n r) s =
     map (\<lambda>(p', ys, g'). (p', ys, (n, take (length (fst (snd s)) - length ys) (fst (snd s))) # g')) (results u r s)"
| "results u (BackRef n) s =
     (case s of (p, xs, g) \<Rightarrow>
        (case map_of g n of
           None \<Rightarrow> []
         | Some w \<Rightarrow>
             if length w \<le> length xs \<and> map (un_fold u) (take (length w) xs) = map (un_fold u) w
             then [advance (length w) s] else []))"

primrec min_width :: "regex \<Rightarrow> nat" where
  "min_width Empty = 0"
| "min_width (OneOf c) = 1"
| "min_width (Cat r r') = min_width r + min_width r'"
| "min_width (Alt r r') = min (min_width r) (min_width r')"
| "min_width (Repeat c least most greedy) = least"
| "min_width WordBoundary = 0"
| "min_width AtStart = 0"
| "min_width AtEnd = 0"
| "min_width (NotBehind c) = 0"
| "min_width (NotAhead c) = 0"
| "min_width (Group n r) = min_width r"
| "min_width (BackRef n) = 0"

text \<open>What a match gives back, and where the scan goes on: the span, the groups, the last character and the rest.\<close>

record re_match =
  rm_start :: nat
  rm_end :: nat
  rm_groups :: "(nat \<times> points) list"
  rm_last :: "nat option"
  rm_rest :: points

fun search_from :: "unicode \<Rightarrow> regex \<Rightarrow> nat option \<Rightarrow> points \<Rightarrow> nat \<Rightarrow> re_match option" where
  "search_from u r p xs pos =
     (case results u r (p, xs, []) of
        (p', ys, g) # _ \<Rightarrow>
          Some \<lparr>rm_start = pos, rm_end = pos + (length xs - length ys), rm_groups = g, rm_last = p', rm_rest = ys\<rparr>
      | [] \<Rightarrow> (case xs of [] \<Rightarrow> None | x # xs' \<Rightarrow> search_from u r (Some x) xs' (Suc pos)))"

declare search_from.simps [simp del]

definition search :: "unicode \<Rightarrow> regex \<Rightarrow> points \<Rightarrow> re_match option" where
  "search u r xs = search_from u r None xs 0"

text \<open>\<^verbatim>\<open>finditer\<close> and \<^verbatim>\<open>subn\<close>, for patterns that do not match the empty text (the scan stops at an empty match).\<close>

function find_from :: "unicode \<Rightarrow> regex \<Rightarrow> nat option \<Rightarrow> points \<Rightarrow> nat \<Rightarrow> re_match list" where
  "find_from u r p xs pos =
     (case search_from u r p xs pos of
        None \<Rightarrow> []
      | Some m \<Rightarrow> if length (rm_rest m) < length xs then m # find_from u r (rm_last m) (rm_rest m) (rm_end m) else [])"
  by pat_completeness auto
termination
  by (relation "measure (\<lambda>(u, r, p, xs, pos). length xs)") auto

declare find_from.simps [simp del]

definition finditer :: "unicode \<Rightarrow> regex \<Rightarrow> points \<Rightarrow> re_match list" where
  "finditer u r xs = find_from u r None xs 0"

function sub_from :: "unicode \<Rightarrow> regex \<Rightarrow> (re_match \<Rightarrow> points) \<Rightarrow> nat option \<Rightarrow> points \<Rightarrow> points \<times> nat" where
  "sub_from u r f p xs =
     (case search_from u r p xs 0 of
        None \<Rightarrow> (xs, 0)
      | Some m \<Rightarrow>
          if length (rm_rest m) < length xs
          then (let (rest, n) = sub_from u r f (rm_last m) (rm_rest m) in (take (rm_start m) xs @ f m @ rest, Suc n))
          else (xs, 0))"
  by pat_completeness auto
termination
  by (relation "measure (\<lambda>(u, r, f, p, xs). length xs)") auto

declare sub_from.simps [simp del]

definition subn :: "unicode \<Rightarrow> regex \<Rightarrow> (re_match \<Rightarrow> points) \<Rightarrow> points \<Rightarrow> points \<times> nat" where
  "subn u r f xs = sub_from u r f None xs"

section \<open>Building patterns\<close>

definition cats :: "regex list \<Rightarrow> regex" where
  "cats rs = foldr Cat rs Empty"

definition alts :: "regex list \<Rightarrow> regex" where
  "alts rs = (case rev rs of [] \<Rightarrow> Empty | r # qs \<Rightarrow> foldl (\<lambda>acc q. Alt q acc) r qs)"

definition exact :: "string \<Rightarrow> regex" where
  "exact s = cats (map (\<lambda>c. OneOf (Exactly (code c))) s)"

definition nocase :: "string \<Rightarrow> regex" where
  "nocase s = cats (map (\<lambda>c. OneOf (if is_lower c \<or> is_upper c then Folded (code c) else Exactly (code c))) s)"

definition optional :: "regex \<Rightarrow> regex" where
  "optional r = Alt r Empty"

definition spaces :: "nat \<Rightarrow> regex" where
  "spaces least = Repeat Space least None True"

definition nocase_words :: "string list \<Rightarrow> regex" where
  "nocase_words ws = alts (map nocase ws)"

section \<open>Lemmas\<close>

text \<open>A result leaves a suffix of the text, at least the width of the pattern shorter, and captures pieces of the text.\<close>

definition within :: "nat set \<Rightarrow> spot \<Rightarrow> bool" where
  "within A s \<longleftrightarrow> (case s of (p, xs, g) \<Rightarrow> set xs \<subseteq> A \<and> (\<forall>(n, w) \<in> set g. set w \<subseteq> A))"

definition leaves :: "nat \<Rightarrow> spot \<Rightarrow> spot \<Rightarrow> bool" where
  "leaves n s s' \<longleftrightarrow> (\<exists>w. fst (snd s) = w @ fst (snd s') \<and> n \<le> length w)"

lemma leaves_trans: "leaves m s s' \<Longrightarrow> leaves n s' s'' \<Longrightarrow> leaves (m + n) s s''"
  unfolding leaves_def by (metis add_mono append.assoc length_append)

lemma leaves_mono: "leaves n s s' \<Longrightarrow> m \<le> n \<Longrightarrow> leaves m s s'"
  by (auto simp: leaves_def)

lemma leaves_advance: "n \<le> j \<Longrightarrow> j \<le> length (fst (snd s)) \<Longrightarrow> leaves n s (advance j s)"
  by (cases s) (auto simp: leaves_def advance_def intro!: exI [of _ "take j (fst (snd s))"])

lemma repeat_counts_bounds: "j \<in> set (repeat_counts u c least most xs) \<Longrightarrow> least \<le> j \<and> j \<le> length xs"
  using length_takeWhile_le [of "in_class u c" xs] by (auto simp: repeat_counts_def Let_def split: option.splits)

lemma results_leave: "s' \<in> set (results u r s) \<Longrightarrow> leaves (min_width r) s s'"
proof (induction r arbitrary: s s')
  case (OneOf c)
  then show ?case by (auto simp: leaves_def split: prod.splits list.splits if_splits)
next
  case (Cat r r')
  from Cat.prems obtain s1 where "s1 \<in> set (results u r s)" "s' \<in> set (results u r' s1)" by auto
  then show ?case using leaves_trans [OF Cat.IH(1) Cat.IH(2)] by simp
next
  case (Alt r r')
  then have "leaves (min_width r) s s' \<or> leaves (min_width r') s s'" by (simp del: split_paired_All) blast
  then show ?case by (auto intro: leaves_mono)
next
  case (Repeat c least most greedy)
  then show ?case by (auto simp: Let_def split: if_splits dest!: repeat_counts_bounds intro: leaves_advance)
next
  case (BackRef n)
  then show ?case by (auto split: prod.splits option.splits if_splits intro: leaves_advance)
next
  case (Group n r)
  from Group.prems obtain p' ys g' where "(p', ys, g') \<in> set (results u r s)" "fst (snd s') = ys" by auto
  then show ?case using Group.IH [of "(p', ys, g')" s] by (simp add: leaves_def)
next
  case (NotAhead c)
  then show ?case by (cases "fst (snd s)") (auto simp: leaves_def split: prod.splits if_splits)
qed (auto simp: leaves_def split: prod.splits option.splits if_splits)

lemma within_advance: "within A s \<Longrightarrow> within A (advance j s)"
  by (auto simp: within_def advance_def split: prod.splits dest: in_set_dropD)

lemma results_within: "s' \<in> set (results u r s) \<Longrightarrow> within A s \<Longrightarrow> within A s'"
proof (induction r arbitrary: s s')
  case (OneOf c)
  then show ?case by (auto simp: within_def split: prod.splits list.splits if_splits)
next
  case (Repeat c least most greedy)
  then show ?case by (auto simp: Let_def split: if_splits intro: within_advance)
next
  case (BackRef n)
  then show ?case by (auto split: prod.splits option.splits if_splits intro: within_advance)
next
  case (Group n r)
  then obtain p' ys g' where r: "(p', ys, g') \<in> set (results u r s)"
    and s': "s' = (p', ys, (n, take (length (fst (snd s)) - length ys) (fst (snd s))) # g')" by auto
  have "within A (p', ys, g')" by (rule Group.IH [OF r Group.prems(2)])
  moreover have "set (fst (snd s)) \<subseteq> A" using Group.prems(2) by (auto simp: within_def)
  ultimately show ?case by (auto simp: within_def s' dest: in_set_takeD)
next
  case (NotAhead c)
  then show ?case by (cases "fst (snd s)") (auto split: prod.splits if_splits)
qed (auto split: prod.splits option.splits if_splits)

lemma search_from_Some:
  assumes "search_from u r p xs pos = Some m"
  obtains pre mid where "xs = pre @ mid @ rm_rest m" "rm_start m = pos + length pre" "rm_end m = rm_start m + length mid"
    "min_width r \<le> length mid" "\<forall>(n, w) \<in> set (rm_groups m). set w \<subseteq> set xs"
  using assms
proof (induction u r p xs pos arbitrary: m thesis rule: search_from.induct)
  case (1 u r p xs pos)
  show ?case
  proof (cases "results u r (p, xs, [])")
    case Nil
    then obtain x xs' where xs: "xs = x # xs'" and s: "search_from u r (Some x) xs' (Suc pos) = Some m"
      using "1.prems"(2) by (subst (asm) search_from.simps) (auto split: list.splits)
    obtain pre mid where "xs' = pre @ mid @ rm_rest m" "rm_start m = Suc pos + length pre" "rm_end m = rm_start m + length mid"
      "min_width r \<le> length mid" "\<forall>(n, w) \<in> set (rm_groups m). set w \<subseteq> set xs'"
      using "1.IH" [OF Nil xs _ s] by blast
    then show ?thesis by (intro "1.prems"(1) [of "x # pre" mid]) (auto simp: xs)
  next
    case (Cons s ss)
    obtain p' ys g where s: "s = (p', ys, g)" by (cases s) auto
    then have r: "(p', ys, g) \<in> set (results u r (p, xs, []))" by (simp add: Cons)
    then obtain w where w: "xs = w @ ys" "min_width r \<le> length w" using results_leave [OF r] by (auto simp: leaves_def)
    moreover have "within (set xs) (p', ys, g)" using results_within [OF r] by (simp add: within_def)
    moreover have "m = \<lparr>rm_start = pos, rm_end = pos + (length xs - length ys), rm_groups = g, rm_last = p', rm_rest = ys\<rparr>"
      using "1.prems"(2) by (subst (asm) search_from.simps) (simp add: Cons s)
    ultimately show ?thesis by (intro "1.prems"(1) [of "[]" w]) (auto simp: within_def)
  qed
qed

text \<open>The scans make progress: with a pattern of positive width a match is never empty.\<close>

lemma search_progress:
  assumes "search_from u r p xs pos = Some m" "0 < min_width r"
  shows "length (rm_rest m) < length xs" "rm_start m < rm_end m"
  using search_from_Some [OF assms(1)] assms(2) by force+

lemma find_from_spans:
  "m \<in> set (find_from u r p xs pos) \<Longrightarrow> pos \<le> rm_start m \<and> rm_start m \<le> rm_end m \<and> rm_end m \<le> pos + length xs"
proof (induction u r p xs pos arbitrary: m rule: find_from.induct)
  case (1 u r p xs pos)
  from "1.prems" obtain m' where s: "search_from u r p xs pos = Some m'" "length (rm_rest m') < length xs"
    and m: "m = m' \<or> m \<in> set (find_from u r (rm_last m') (rm_rest m') (rm_end m'))"
    unfolding find_from.simps [of u r p xs pos] by (cases "search_from u r p xs pos") (auto split: if_splits)
  obtain pre mid where *: "xs = pre @ mid @ rm_rest m'" "rm_start m' = pos + length pre" "rm_end m' = rm_start m' + length mid"
    by (rule search_from_Some [OF s(1)])
  then have len: "length xs = length pre + length mid + length (rm_rest m')" by (metis length_append add.assoc)
  from m show ?case
  proof
    assume "m \<in> set (find_from u r (rm_last m') (rm_rest m') (rm_end m'))"
    from "1.IH" [OF s this] show ?thesis using *(2,3) len by simp
  qed (use *(2,3) len in simp)
qed

text \<open>A substitution keeps characters of the text and adds those of its replacements; without a match it changes nothing.\<close>

lemma sub_from_chars:
  assumes "\<And>m. \<forall>(n, w) \<in> set (rm_groups m). set w \<subseteq> A \<Longrightarrow> set (f m) \<subseteq> A" "set xs \<subseteq> A"
  shows "set (fst (sub_from u r f p xs)) \<subseteq> A"
  using assms
proof (induction u r f p xs rule: sub_from.induct)
  case (1 u r f p xs)
  show ?case
  proof (cases "search_from u r p xs 0")
    case (Some m)
    obtain pre mid where *: "xs = pre @ mid @ rm_rest m" "\<forall>(n, w) \<in> set (rm_groups m). set w \<subseteq> set xs"
      by (rule search_from_Some [OF Some])
    have "set (f m) \<subseteq> A" by (rule "1.prems"(1)) (use *(2) "1.prems"(2) in fast)
    moreover have "set (rm_rest m) \<subseteq> A" using *(1) "1.prems"(2) by (metis set_append Un_subset_iff)
    ultimately show ?thesis
      using "1.IH" [OF Some] "1.prems" by (subst sub_from.simps) (auto simp: Some Let_def split: prod.splits dest: in_set_takeD)
  qed (use "1.prems" in \<open>simp add: sub_from.simps\<close>)
qed

lemma sub_from_unchanged: "snd (sub_from u r f p xs) = 0 \<Longrightarrow> fst (sub_from u r f p xs) = xs"
  by (subst sub_from.simps, subst (asm) sub_from.simps) (auto simp: Let_def split: option.splits prod.splits if_splits)

lemmas subn_chars = sub_from_chars [where p = None, folded subn_def]
lemmas subn_unchanged = sub_from_unchanged [where p = None, folded subn_def]

end
