(* ===== verification/CP_Sanitizer.thy ===== *)
theory CP_Sanitizer
  imports CP_Regex CP_Evidence CP_Warrant "HOL-Library.Product_Lexorder"
begin

text \<open>
  The sanitizer of \<^verbatim>\<open>evidence/sanitizer.py\<close>, line by line: decoding with replacement, NFKC and removal of control
  characters, private-key blocks, instruction patterns (also across lines, with punctuation read as space, and inside
  base64 tokens), secret redaction, and the limits on lines and bytes. Python strings are lists of code points here,
  because the limits count characters; the bytes of the result are its UTF-8 encoding.
\<close>

section \<open>Constants\<close>

definition MAX_EVIDENCE_BYTES :: nat where
  "MAX_EVIDENCE_BYTES = 256 * 1024"

definition MAX_EVIDENCE_LINES :: nat where
  "MAX_EVIDENCE_LINES = 2000"

definition MAX_LINE_CHARACTERS :: nat where
  "MAX_LINE_CHARACTERS = 4096"

definition MAX_PROVENANCE_CHARACTERS :: nat where
  "MAX_PROVENANCE_CHARACTERS = 512"

definition PROVENANCE_TRUNCATION_MARKER :: points where
  "PROVENANCE_TRUNCATION_MARKER = points_of ''[LINE_TRUNCATED field=provenance]''"

definition role_words :: "string list" where
  "role_words = [''system'', ''developer'', ''assistant'', ''tool'']"

definition optional_word :: "string \<Rightarrow> regex" where
  "optional_word w = optional (cats [nocase w, spaces 1])"

definition start_or_space :: regex where
  "start_or_space = Alt AtStart (OneOf Space)"

definition INSTRUCTION_PATTERNS :: "regex list" where
  "INSTRUCTION_PATTERNS =
    [cats [start_or_space, exact ''['', nocase_words role_words, exact '']'', Alt (OneOf Space) AtEnd],
     cats [start_or_space, Repeat (Exactly 35) 1 (Some 6) True, spaces 0, nocase_words role_words, WordBoundary],
     cats [exact ''<|'', spaces 0, nocase_words role_words, spaces 0, exact ''|>''],
     cats [WordBoundary, nocase ''ignore'', spaces 1, optional_word ''all'', nocase_words [''previous'', ''prior'', ''above''],
           spaces 1, nocase ''instruction'', optional (nocase ''s''), WordBoundary],
     cats [WordBoundary, nocase_words [''reveal'', ''print'', ''return'', ''expose''], spaces 1, optional_word ''the'',
           nocase_words [''system'', ''developer''], spaces 1, nocase ''prompt'', WordBoundary],
     cats [WordBoundary, nocase_words [''execute'', ''run'', ''invoke'', ''call''], spaces 1, optional_word ''the'',
           nocase_words [''shell'', ''command'', ''tool'', ''function''], WordBoundary],
     cats [WordBoundary, nocase_words [''override'', ''disregard'', ''bypass''], spaces 1, optional_word ''the'',
           alts [nocase ''policy'', nocase ''guardrail'', cats [nocase ''instruction'', optional (nocase ''s'')]], WordBoundary],
     cats [WordBoundary, nocase ''you'', spaces 1, nocase ''are'', spaces 1, optional_word ''now'',
           alts [nocase ''chatgpt'', cats [nocase ''a'', optional (nocase ''n''), spaces 1, nocase ''assistant''],
                 cats [nocase ''the'', spaces 1, nocase ''system'']], WordBoundary],
     cats [WordBoundary, nocase ''you'', spaces 1, nocase ''must'', spaces 1,
           nocase_words [''approve'', ''clear'', ''execute'', ''ignore'', ''reveal'', ''return''], WordBoundary],
     cats [WordBoundary, nocase ''follow'', spaces 1, nocase_words [''these'', ''the''], spaces 1, nocase ''new'', spaces 1,
           nocase_words [''directions'', ''instructions''], WordBoundary],
     cats [WordBoundary, nocase ''do'', spaces 1, nocase ''not'', spaces 1, nocase ''follow'', spaces 1, optional_word ''the'',
           nocase ''developer'', spaces 1, nocase_words [''message'', ''instructions''], WordBoundary],
     cats [WordBoundary, nocase ''obey'', spaces 1, nocase_words [''this'', ''the''], spaces 1,
           nocase_words [''log'', ''message'', ''evidence''], WordBoundary],
     cats [WordBoundary, nocase_words [''call'', ''invoke'', ''run''], spaces 1, nocase ''execute_warrant'', WordBoundary]]"

definition XML_CONTROL :: regex where
  "XML_CONTROL =
     cats [exact ''<'', spaces 0, optional (exact ''/''), spaces 0,
       alts [cats [nocase ''tool'', optional (nocase ''_call'')], cats [nocase ''function'', optional (nocase ''_call'')],
             nocase ''system'', nocase ''assistant'', nocase ''developer'', nocase ''instruction'', nocase ''command''],
       WordBoundary]"

definition BASE64_TOKEN :: regex where
  "BASE64_TOKEN =
     cats [NotBehind (AlnumOr (points_of ''+/_-'')), Repeat (AlnumOr (points_of ''+/_-'')) 16 None True,
           Repeat (Exactly 61) 0 (Some 2) True, NotAhead (AlnumOr (points_of ''+/_=-''))]"

definition AUTHORIZATION :: regex where
  "AUTHORIZATION =
     cats [WordBoundary, nocase ''Authorization'', spaces 0, exact '':'', spaces 0, nocase_words [''Bearer'', ''Basic''],
           spaces 1, Repeat (NotSpaceNor (points_of '',;'')) 1 None True]"

definition OPENAI_KEY :: regex where
  "OPENAI_KEY = cats [WordBoundary, exact ''sk-'', Repeat (AlnumOr (points_of ''._-'')) 6 None True]"

definition dash_or_underscore :: regex where
  "dash_or_underscore = optional (OneOf (Among (points_of ''_-'')))"

definition SECRET_FIELD_NAMES :: regex where
  "SECRET_FIELD_NAMES =
     alts [cats [nocase ''api'', dash_or_underscore, nocase ''key''], cats [nocase ''access'', dash_or_underscore, nocase ''token''],
           nocase ''token'', nocase ''password'', nocase ''passwd'', nocase ''secret'', nocase ''credential'',
           cats [nocase ''private'', dash_or_underscore, nocase ''key''],
           cats [nocase ''signing'', dash_or_underscore, nocase ''key'']]"

definition any_quote :: regex where
  "any_quote = OneOf (Among [34, 39])"

text \<open>The groups of the named-secret patterns: 1 the prefix or the name, 2 the quote or the separator, 3 the value.\<close>

definition JSON_NAMED_SECRET :: regex where
  "JSON_NAMED_SECRET =
     cats [Group 1 (cats [any_quote, SECRET_FIELD_NAMES, any_quote, spaces 0, exact '':'', spaces 0]), Group 2 any_quote,
           Group 3 (Repeat NotNewline 0 None False), BackRef 2]"

definition NAMED_SECRET :: regex where
  "NAMED_SECRET =
     cats [WordBoundary, Group 1 SECRET_FIELD_NAMES, spaces 0, Group 2 (OneOf (Among (points_of '':=''))), spaces 0,
           Group 3 (Repeat (NotSpaceNor (points_of '',;'')) 1 None True)]"

definition PEM_PRIVATE_KEY_BEGIN :: regex where
  "PEM_PRIVATE_KEY_BEGIN =
     cats [nocase ''-----BEGIN '',
           Group 1 (cats [optional (cats [nocase_words [''ENCRYPTED'', ''RSA'', ''EC'', ''DSA'', ''OPENSSH''], exact '' '']),
                          nocase ''PRIVATE KEY'']),
           exact ''-----'']"

definition pem_private_key_end :: "points \<Rightarrow> regex" where
  "pem_private_key_end label =
     cats [nocase ''-----END '', cats (map (\<lambda>c. OneOf (if c = 32 then Exactly c else Folded c)) label), exact ''-----'']"

definition FORMAT_CONTROLS :: points where
  "FORMAT_CONTROLS =
     [0x061C, 0x180E, 0x200B, 0x200C, 0x200D, 0x200E, 0x200F, 0x202A, 0x202B, 0x202C, 0x202D, 0x202E, 0x2060,
      0x2066, 0x2067, 0x2068, 0x2069, 0xFEFF]"

section \<open>Texts and bytes\<close>

text \<open>How many bytes of a malformed sequence one replacement stands for.\<close>

definition malformed_length :: "string \<Rightarrow> nat" where
  "malformed_length s =
     (case s of [] \<Rightarrow> 0
      | a # r \<Rightarrow>
          if utf8_width a < 3 \<or> r = [] \<or> \<not> utf8_tail False a (take 1 r) then 1
          else Suc (length (takeWhile is_cont (take (utf8_width a - 2) r))))"

text \<open>\<^verbatim>\<open>decode("utf-8", errors=...)\<close>: each malformed sequence becomes \<open>bad\<close>.\<close>

function decode_utf8 :: "points \<Rightarrow> string \<Rightarrow> points" where
  "decode_utf8 bad s =
     (if s = [] then []
      else if utf8_unit False s = 0 then bad @ decode_utf8 bad (drop (max 1 (malformed_length s)) s)
      else code_point (take (utf8_unit False s) s) # decode_utf8 bad (drop (utf8_unit False s) s))"
  by pat_completeness auto
termination
  by (relation "measure (length \<circ> snd)") auto

declare decode_utf8.simps [simp del]

definition REPLACEMENT :: points where
  "REPLACEMENT = [0xFFFD]"

definition is_surrogate :: "nat \<Rightarrow> bool" where
  "is_surrogate c \<longleftrightarrow> is_high_surrogate c \<or> is_low_surrogate c"

definition encode_utf8 :: "points \<Rightarrow> string option" where
  "encode_utf8 t = (if list_ex is_surrogate t then None else Some (concat (map utf8_encode t)))"

text \<open>\<^verbatim>\<open>bytes.splitlines(keepends=True)\<close>.\<close>

fun raw_line :: "string \<Rightarrow> string \<times> string" where
  "raw_line [] = ([], [])"
| "raw_line (c # cs) =
     (if c = CHR 0x0A then ([c], cs)
      else if c = CHR 0x0D
      then (if cs \<noteq> [] \<and> hd cs = CHR 0x0A then ([c, hd cs], tl cs) else ([c], cs))
      else (let (l, r) = raw_line cs in (c # l, r)))"

lemma raw_line_append: "fst (raw_line s) @ snd (raw_line s) = s"
  by (induction s) (auto simp: Let_def case_prod_beta neq_Nil_conv)

lemma raw_line_nonempty: "s \<noteq> [] \<Longrightarrow> fst (raw_line s) \<noteq> []"
  by (cases s) (auto simp: Let_def case_prod_beta)

lemma raw_line_shorter: "s \<noteq> [] \<Longrightarrow> length (snd (raw_line s)) < length s"
  using raw_line_append [of s] raw_line_nonempty [of s]
  by (metis append_self_conv2 length_append less_add_same_cancel2 length_greater_0_conv)

function raw_lines :: "string \<Rightarrow> string list" where
  "raw_lines s = (if s = [] then [] else fst (raw_line s) # raw_lines (snd (raw_line s)))"
  by pat_completeness auto
termination
  by (relation "measure length") (auto simp: raw_line_shorter)

declare raw_lines.simps [simp del]

definition split_line_ending :: "points \<Rightarrow> points \<times> points" where
  "split_line_ending t =
     (if 2 \<le> length t \<and> drop (length t - 2) t = [13, 10] then (take (length t - 2) t, [10])
      else if t \<noteq> [] \<and> (last t = 10 \<or> last t = 13) then (butlast t, [10])
      else (t, []))"

definition is_control :: "nat \<Rightarrow> bool" where
  "is_control c \<longleftrightarrow> c \<in> set FORMAT_CONTROLS \<or> ((c < 32 \<or> (127 \<le> c \<and> c \<le> 159)) \<and> c \<noteq> 9)"

definition strip_format_controls :: "unicode \<Rightarrow> points \<Rightarrow> points \<times> bool" where
  "strip_format_controls u t =
     (let normalized = un_nfkc u t; stripped = filter (\<lambda>c. \<not> is_control c) normalized in (stripped, stripped \<noteq> normalized))"

section \<open>Instructions\<close>

definition decoded_token_contains_instruction :: "unicode \<Rightarrow> points \<Rightarrow> bool" where
  "decoded_token_contains_instruction u token =
     (let padded = token @ replicate ((4 - length token mod 4) mod 4) 61;
          alternative = list_ex (\<lambda>c. c = 45 \<or> c = 95) padded;
          bytes = map (\<lambda>c. char_of (if alternative \<and> c = 45 then 43 else if alternative \<and> c = 95 then 47 else c)) padded
      in case b64decode bytes of
           None \<Rightarrow> False
         | Some decoded \<Rightarrow>
             if decoded = [] \<or> length decoded > MAX_LINE_CHARACTERS * 4 then False
             else (let normalized = fst (strip_format_controls u (decode_utf8 [] decoded))
                   in search u XML_CONTROL normalized \<noteq> None \<or>
                      list_ex (\<lambda>r. search u r normalized \<noteq> None) INSTRUCTION_PATTERNS))"

definition span_of :: "re_match \<Rightarrow> nat \<times> nat" where
  "span_of m = (rm_start m, rm_end m)"

definition matched_text :: "points \<Rightarrow> re_match \<Rightarrow> points" where
  "matched_text t m = take (rm_end m - rm_start m) (drop (rm_start m) t)"

definition boundary_normalized :: "points \<Rightarrow> points" where
  "boundary_normalized t = map (\<lambda>c. if c = 95 \<or> c = 45 then 32 else c) t"

definition instruction_match_spans :: "unicode \<Rightarrow> points \<Rightarrow> (nat \<times> nat) list" where
  "instruction_match_spans u t =
     sort (remdups (
       map span_of (finditer u XML_CONTROL t) @
       concat (map (\<lambda>candidate. concat (map (\<lambda>r. map span_of (finditer u r candidate)) INSTRUCTION_PATTERNS))
                 [t, boundary_normalized t]) @
       map span_of (filter (\<lambda>m. decoded_token_contains_instruction u (matched_text t m)) (finditer u BASE64_TOKEN t))))"

definition contains_instruction :: "unicode \<Rightarrow> points \<Rightarrow> bool" where
  "contains_instruction u t = (instruction_match_spans u t \<noteq> [])"

text \<open>The normalised content of a raw line, and where the contents of the lines lie in the text that is scanned.\<close>

definition line_content :: "unicode \<Rightarrow> string \<Rightarrow> points" where
  "line_content u raw = fst (strip_format_controls u (fst (split_line_ending (decode_utf8 REPLACEMENT raw))))"

definition scan_text :: "points list \<Rightarrow> points" where
  "scan_text contents = concat (map (\<lambda>t. t @ [10]) contents)"

fun content_spans :: "nat \<Rightarrow> points list \<Rightarrow> (nat \<times> nat) list" where
  "content_spans cursor [] = []"
| "content_spans cursor (t # ts) = (cursor, cursor + length t) # content_spans (cursor + length t + 1) ts"

definition instruction_line_indexes :: "unicode \<Rightarrow> string list \<Rightarrow> nat list" where
  "instruction_line_indexes u lines =
     (let contents = map (line_content u) lines;
          spans = content_spans 0 contents;
          matches = instruction_match_spans u (scan_text contents)
      in filter (\<lambda>i. case spans ! i of (line_start, line_end) \<Rightarrow>
                       line_start < line_end \<and>
                       list_ex (\<lambda>(match_start, match_end). line_start < match_end \<and> match_start < line_end) matches)
           [0..<length lines])"

section \<open>Private keys and secrets\<close>

fun pem_lines :: "unicode \<Rightarrow> points option \<Rightarrow> nat \<Rightarrow> string list \<Rightarrow> nat list" where
  "pem_lines u active i [] = []"
| "pem_lines u active i (raw # raws) =
     (let normalized = fst (strip_format_controls u (decode_utf8 REPLACEMENT raw));
          label = (case active of
                     Some l \<Rightarrow> Some l
                   | None \<Rightarrow> (case search u PEM_PRIVATE_KEY_BEGIN normalized of
                               None \<Rightarrow> None
                             | Some m \<Rightarrow> map_of (rm_groups m) 1))
      in case label of
           None \<Rightarrow> pem_lines u None (Suc i) raws
         | Some l \<Rightarrow>
             i # pem_lines u (if search u (pem_private_key_end l) normalized \<noteq> None then None else Some l) (Suc i) raws)"

definition pem_private_key_line_indexes :: "unicode \<Rightarrow> string list \<Rightarrow> nat list" where
  "pem_private_key_line_indexes u lines = pem_lines u None 0 lines"

definition SECRET_MARKER :: points where
  "SECRET_MARKER = points_of ''[SECRET_REDACTED]''"

fun occurs_in :: "points \<Rightarrow> points \<Rightarrow> bool" where
  "occurs_in w [] \<longleftrightarrow> w = []"
| "occurs_in w (x # xs) \<longleftrightarrow> prefix w (x # xs) \<or> occurs_in w xs"

text \<open>\<^verbatim>\<open>str.replace\<close> of a non-empty text.\<close>

function replace_all :: "points \<Rightarrow> points \<Rightarrow> points \<Rightarrow> points" where
  "replace_all w new t =
     (case t of [] \<Rightarrow> []
      | x # xs \<Rightarrow>
          if w \<noteq> [] \<and> prefix w t then new @ replace_all w new (drop (length w) t) else x # replace_all w new xs)"
  by pat_completeness auto
termination
  by (relation "measure (\<lambda>(w, new, t). length t)") auto

declare replace_all.simps [simp del]

definition re_group :: "nat \<Rightarrow> re_match \<Rightarrow> points" where
  "re_group n m = (case map_of (rm_groups m) n of None \<Rightarrow> [] | Some w \<Rightarrow> w)"

fun replace_configured :: "points list \<Rightarrow> points \<times> bool \<Rightarrow> points \<times> bool" where
  "replace_configured [] (t, found) = (t, found)"
| "replace_configured (secret # secrets) (t, found) =
     (if occurs_in secret t then replace_configured secrets (replace_all secret SECRET_MARKER t, True)
      else replace_configured secrets (t, found))"

definition redact_secrets :: "unicode \<Rightarrow> points \<Rightarrow> points list \<Rightarrow> points \<times> bool" where
  "redact_secrets u value configured =
     (let (t1, n1) = subn u AUTHORIZATION (\<lambda>m. points_of ''Authorization: [SECRET_REDACTED]'') value;
          (t2, n2) = subn u OPENAI_KEY (\<lambda>m. SECRET_MARKER) t1;
          (t3, n3) = subn u JSON_NAMED_SECRET (\<lambda>m. re_group 1 m @ re_group 2 m @ SECRET_MARKER @ re_group 2 m) t2;
          (t4, n4) = subn u NAMED_SECRET (\<lambda>m. re_group 1 m @ re_group 2 m @ SECRET_MARKER) t3
      in replace_configured configured (t4, n1 > 0 \<or> n2 > 0 \<or> n3 > 0 \<or> n4 > 0))"

definition configured_secrets :: "points list \<Rightarrow> points list" where
  "configured_secrets secret_values =
     sort_key (\<lambda>v. - int (length v)) (sort (remdups (filter (\<lambda>v. v \<noteq> []) secret_values)))"

section \<open>Sanitizing\<close>

record pending_tag =
  pt_kind :: tag_kind
  pt_raw_byte_start :: nat
  pt_raw_byte_end :: nat

definition span_marker :: "string \<Rightarrow> nat \<Rightarrow> nat \<Rightarrow> points" where
  "span_marker name start end = points_of (''['' @ name @ '' raw_bytes='' @ show_nat start @ '':'' @ show_nat end @ '']'')"

definition truncate_line :: "nat \<Rightarrow> nat \<Rightarrow> points \<Rightarrow> points \<times> pending_tag list" where
  "truncate_line start end t =
     (if length t > MAX_LINE_CHARACTERS
      then (take MAX_LINE_CHARACTERS t @ span_marker ''LINE_TRUNCATED'' start end,
            [\<lparr>pt_kind = LINE_TRUNCATED, pt_raw_byte_start = start, pt_raw_byte_end = end\<rparr>])
      else (t, []))"

text \<open>One turn of the loop of \<^verbatim>\<open>sanitize_evidence\<close>: what is written for a line, and its tags.\<close>

definition sanitize_line ::
  "unicode \<Rightarrow> points list \<Rightarrow> bool \<Rightarrow> bool \<Rightarrow> nat \<Rightarrow> string \<Rightarrow> points \<times> pending_tag list" where
  "sanitize_line u configured is_pem is_instruction start raw =
     (let end = start + length raw;
          (content, ending) = split_line_ending (decode_utf8 REPLACEMENT raw);
          (normalized, controls_removed) = strip_format_controls u content;
          tag = (\<lambda>k. \<lparr>pt_kind = k, pt_raw_byte_start = start, pt_raw_byte_end = end\<rparr>);
          found = (if 0xFFFD \<in> set content then [tag INVALID_UTF8_REPLACED] else []) @
                  (if controls_removed then [tag CONTROL_SEQUENCE_REMOVED] else [])
      in if is_pem
         then ((case search u PEM_PRIVATE_KEY_BEGIN normalized of
                  None \<Rightarrow> []
                | Some m \<Rightarrow> take (rm_start m) normalized) @ SECRET_MARKER @ ending, found @ [tag SECRET_REDACTED])
         else if controls_removed \<or> is_instruction
         then (span_marker ''POTENTIAL_INSTRUCTION_REDACTED'' start end @ ending, found @ [tag POTENTIAL_INSTRUCTION_REDACTED])
         else (let (redacted, secret_found) = redact_secrets u normalized configured;
                   (line, cut) = truncate_line start end redacted
               in (line @ ending, found @ (if secret_found then [tag SECRET_REDACTED] else []) @ cut)))"

fun sanitize_lines ::
  "unicode \<Rightarrow> points list \<Rightarrow> nat list \<Rightarrow> nat list \<Rightarrow> nat \<Rightarrow> nat \<Rightarrow> string list \<Rightarrow> (points \<times> pending_tag list) list" where
  "sanitize_lines u configured pem instructions i offset [] = []"
| "sanitize_lines u configured pem instructions i offset (raw # raws) =
     sanitize_line u configured (i \<in> set pem) (i \<in> set instructions) offset raw #
     sanitize_lines u configured pem instructions (Suc i) (offset + length raw) raws"

definition PROVENANCE_INSTRUCTION_MARKER :: points where
  "PROVENANCE_INSTRUCTION_MARKER = points_of ''[POTENTIAL_INSTRUCTION_REDACTED field=provenance]''"

definition is_blank :: "points \<Rightarrow> bool" where
  "is_blank t = list_all is_space t"

definition sanitize_provenance :: "unicode \<Rightarrow> points list \<Rightarrow> points \<Rightarrow> points \<times> tag_kind list" where
  "sanitize_provenance u secret_values provenance =
     (let (normalized, controls_removed) = strip_format_controls u provenance;
          tags = (if controls_removed then [CONTROL_SEQUENCE_REMOVED] else [])
      in if controls_removed \<or> contains_instruction u normalized
         then (PROVENANCE_INSTRUCTION_MARKER, tags @ [POTENTIAL_INSTRUCTION_REDACTED])
         else (let (redacted, secret_found) = redact_secrets u normalized (configured_secrets secret_values);
                   tags1 = tags @ (if secret_found then [SECRET_REDACTED] else []);
                   long = length redacted > MAX_PROVENANCE_CHARACTERS;
                   cut = (if long
                          then take (MAX_PROVENANCE_CHARACTERS - length PROVENANCE_TRUNCATION_MARKER) redacted @
                               PROVENANCE_TRUNCATION_MARKER
                          else redacted);
                   tags2 = tags1 @ (if long then [LINE_TRUNCATED] else [])
               in if is_blank cut then (PROVENANCE_INSTRUCTION_MARKER, tags2 @ [POTENTIAL_INSTRUCTION_REDACTED])
                  else (cut, tags2)))"

datatype sanitize_error = ProvenanceBlank | ProvenanceNotEncodable | TextNotEncodable | EvidenceValidationError

definition kept_lines :: "string \<Rightarrow> string list" where
  "kept_lines raw = take (MAX_EVIDENCE_LINES - 1) (raw_lines (take MAX_EVIDENCE_BYTES raw))"

definition truncated_at :: "string \<Rightarrow> nat option" where
  "truncated_at raw =
     (let limited = take MAX_EVIDENCE_BYTES raw;
          by_bytes = (if length limited < length raw then Some (length limited) else None);
          boundary = sum_list (map length (kept_lines raw))
      in if length (raw_lines limited) > MAX_EVIDENCE_LINES - 1
         then Some (case by_bytes of None \<Rightarrow> boundary | Some n \<Rightarrow> min n boundary)
         else by_bytes)"

definition sanitized_parts :: "unicode \<Rightarrow> points list \<Rightarrow> string \<Rightarrow> (points \<times> pending_tag list) list" where
  "sanitized_parts u secret_values raw =
     sanitize_lines u (configured_secrets secret_values) (pem_private_key_line_indexes u (kept_lines raw))
       (instruction_line_indexes u (kept_lines raw)) 0 0 (kept_lines raw) @
     (case truncated_at raw of
        None \<Rightarrow> []
      | Some n \<Rightarrow>
          [(span_marker ''EVIDENCE_TRUNCATED'' n (length raw),
            [\<lparr>pt_kind = EVIDENCE_TRUNCATED, pt_raw_byte_start = n, pt_raw_byte_end = length raw\<rparr>])])"

definition bind_tag :: "string \<Rightarrow> string \<Rightarrow> pending_tag \<Rightarrow> sanitization_tag" where
  "bind_tag raw_sha256 sanitized_sha256 t =
     \<lparr>tag_kind_of = pt_kind t, tag_raw_byte_start = pt_raw_byte_start t, tag_raw_byte_end = pt_raw_byte_end t,
      tag_raw_sha256 = raw_sha256, tag_sanitized_sha256 = sanitized_sha256\<rparr>"

text \<open>The field constraints of \<^verbatim>\<open>SanitizedEvidence\<close> and \<^verbatim>\<open>SanitizationTag\<close>, the provenance counted in characters.\<close>

definition evidence_valid :: "points \<Rightarrow> sanitized_evidence \<Rightarrow> bool" where
  "evidence_valid provenance e \<longleftrightarrow>
     1 \<le> length provenance \<and> length provenance \<le> MAX_PROVENANCE_CHARACTERS \<and>
     is_sha256 (se_provenance_sha256 e) \<and> is_sha256 (se_raw_sha256 e) \<and> is_sha256 (se_sanitized_sha256 e) \<and>
     list_all (\<lambda>t. is_sha256 (tag_raw_sha256 t) \<and> is_sha256 (tag_sanitized_sha256 t)) (se_tags e)"

definition sanitize_evidence ::
  "unicode \<Rightarrow> (string \<Rightarrow> string) \<Rightarrow> points list \<Rightarrow> string \<Rightarrow> points \<Rightarrow> sanitize_error + sanitized_evidence" where
  "sanitize_evidence u sha secret_values raw provenance =
     (if is_blank provenance then Inl ProvenanceBlank
      else (case encode_utf8 provenance of
        None \<Rightarrow> Inl ProvenanceNotEncodable
      | Some provenance_bytes \<Rightarrow>
          (let (safe_provenance, provenance_tags) = sanitize_provenance u secret_values provenance;
               parts = sanitized_parts u secret_values raw;
               text = concat (map fst parts);
               pending = concat (map snd parts)
           in case (encode_utf8 text, encode_utf8 safe_provenance) of
                (Some text_bytes, Some safe_bytes) \<Rightarrow>
                  (let evidence =
                     \<lparr>se_provenance = safe_bytes, se_provenance_sha256 = sha provenance_bytes, se_provenance_tags = provenance_tags,
                      se_text = text_bytes, se_raw_sha256 = sha raw, se_sanitized_sha256 = sha text_bytes,
                      se_raw_size_bytes = length raw, se_sanitized_size_bytes = length text_bytes,
                      se_truncated = (truncated_at raw \<noteq> None), se_tags = map (bind_tag (sha raw) (sha text_bytes)) pending\<rparr>
                   in if evidence_valid safe_provenance evidence then Inr evidence else Inl EvidenceValidationError)
              | _ \<Rightarrow> Inl TextNotEncodable)))"

section \<open>What a sanitized text is made of\<close>

text \<open>The markers are printable ASCII; a sanitized line adds nothing else to the characters of its normalised content.\<close>

definition plain_points :: "nat set" where
  "plain_points = {32..126}"

lemma points_of_plain: "printable s \<Longrightarrow> set (points_of s) \<subseteq> plain_points"
  by (auto simp: points_of_def plain_points_def printable_def list_all_iff)

lemma show_nat_printable: "printable (show_nat n)"
  using show_nat_digits [of n] by (auto simp: printable_def list_all_iff is_digit_def)

lemma printable_append [simp]: "printable (s @ t) \<longleftrightarrow> printable s \<and> printable t"
  by (auto simp: printable_def)

lemma span_marker_plain: "printable name \<Longrightarrow> set (span_marker name a b) \<subseteq> plain_points"
  unfolding span_marker_def using show_nat_printable [of a] show_nat_printable [of b]
  by (intro points_of_plain) (simp add: printable_def)

lemma marker_plain:
  "set SECRET_MARKER \<subseteq> plain_points" "set (points_of ''Authorization: [SECRET_REDACTED]'') \<subseteq> plain_points"
  "set PROVENANCE_INSTRUCTION_MARKER \<subseteq> plain_points" "set PROVENANCE_TRUNCATION_MARKER \<subseteq> plain_points"
  unfolding SECRET_MARKER_def PROVENANCE_INSTRUCTION_MARKER_def PROVENANCE_TRUNCATION_MARKER_def
  by (rule points_of_plain, simp add: printable_def)+

lemma replace_all_eqs:
  "replace_all w new [] = []"
  "w \<noteq> [] \<Longrightarrow> replace_all w new (w @ t) = new @ replace_all w new t"
  "\<not> prefix w (x # xs) \<Longrightarrow> replace_all w new (x # xs) = x # replace_all w new xs"
proof -
  assume "w \<noteq> []"
  then obtain x xs where t: "w @ t = x # xs" by (cases "w @ t") auto
  have "prefix w (x # xs)" "drop (length w) (x # xs) = t" unfolding t [symmetric] by simp_all
  then show "replace_all w new (w @ t) = new @ replace_all w new t"
    unfolding t replace_all.simps [of w new "x # xs"] using \<open>w \<noteq> []\<close> by simp
qed (simp_all add: replace_all.simps)

text \<open>Induction along the replacement: a hit, or a character that is kept.\<close>

lemma replace_all_induct [case_names empty hit keep]:
  assumes "w \<noteq> []" "P []" "\<And>t. P t \<Longrightarrow> P (w @ t)" "\<And>x xs. \<not> prefix w (x # xs) \<Longrightarrow> P xs \<Longrightarrow> P (x # xs)"
  shows "P t"
proof (induction t rule: length_induct)
  case (1 t)
  show ?case
  proof (cases "prefix w t")
    case True
    then show ?thesis using 1 assms(1,3) by (auto elim!: prefixE)
  next
    case False
    then show ?thesis using 1 assms(2,4) by (cases t) auto
  qed
qed

lemma replace_all_chars: "w \<noteq> [] \<Longrightarrow> set (replace_all w new t) \<subseteq> set t \<union> set new"
  by (rule replace_all_induct [of w]) (auto simp: replace_all_eqs)

lemma replace_configured_chars:
  "[] \<notin> set secrets \<Longrightarrow> set (fst (replace_configured secrets (t, found))) \<subseteq> set t \<union> set SECRET_MARKER"
proof (induction secrets arbitrary: t found)
  case (Cons secret secrets)
  then show ?case using replace_all_chars [of secret SECRET_MARKER t] by (fastforce split: if_splits)
qed auto

lemma re_group_chars: "\<forall>(n, w) \<in> set (rm_groups m). set w \<subseteq> A \<Longrightarrow> set (re_group n m) \<subseteq> A"
  by (cases "map_of (rm_groups m) n") (auto simp: re_group_def dest: map_of_SomeD)

lemma redact_secrets_chars:
  assumes "plain_points \<subseteq> A" "set t \<subseteq> A" "[] \<notin> set configured"
  shows "set (fst (redact_secrets u t configured)) \<subseteq> A"
proof -
  have marker: "set SECRET_MARKER \<subseteq> A" "set (points_of ''Authorization: [SECRET_REDACTED]'') \<subseteq> A"
    using marker_plain assms(1) by blast+
  obtain t1 n1 where 1: "subn u AUTHORIZATION (\<lambda>m. points_of ''Authorization: [SECRET_REDACTED]'') t = (t1, n1)" by force
  obtain t2 n2 where 2: "subn u OPENAI_KEY (\<lambda>m. SECRET_MARKER) t1 = (t2, n2)" by force
  obtain t3 n3 where 3: "subn u JSON_NAMED_SECRET (\<lambda>m. re_group 1 m @ re_group 2 m @ SECRET_MARKER @ re_group 2 m) t2 = (t3, n3)" by force
  obtain t4 n4 where 4: "subn u NAMED_SECRET (\<lambda>m. re_group 1 m @ re_group 2 m @ SECRET_MARKER) t3 = (t4, n4)" by force
  have "set t1 \<subseteq> A" using subn_chars [of A "\<lambda>m. points_of ''Authorization: [SECRET_REDACTED]''" t u AUTHORIZATION] marker assms(2) 1 by auto
  then have "set t2 \<subseteq> A" using subn_chars [of A "\<lambda>m. SECRET_MARKER" t1 u OPENAI_KEY] marker 2 by auto
  then have "set t3 \<subseteq> A"
    using subn_chars [of A "\<lambda>m. re_group 1 m @ re_group 2 m @ SECRET_MARKER @ re_group 2 m" t2 u JSON_NAMED_SECRET] marker 3
      re_group_chars by (metis (no_types, lifting) Un_subset_iff fst_conv set_append)
  then have "set t4 \<subseteq> A"
    using subn_chars [of A "\<lambda>m. re_group 1 m @ re_group 2 m @ SECRET_MARKER" t3 u NAMED_SECRET] marker 4
      re_group_chars by (metis (no_types, lifting) Un_subset_iff fst_conv set_append)
  then have "set (fst (replace_configured configured (t4, found))) \<subseteq> A" for found
    using replace_configured_chars [OF assms(3), of t4 found] marker(1) by (meson Un_least order_trans)
  then show ?thesis by (simp only: redact_secrets_def Let_def 1 2 3 4 prod.case)
qed

lemma sanitize_line_chars:
  assumes "plain_points \<subseteq> A" "10 \<in> A" "set (line_content u raw) \<subseteq> A" "[] \<notin> set configured"
  shows "set (fst (sanitize_line u configured is_pem is_instruction start raw)) \<subseteq> A"
proof -
  obtain content ending where split: "split_line_ending (decode_utf8 REPLACEMENT raw) = (content, ending)" by force
  obtain normalized removed where strip: "strip_format_controls u content = (normalized, removed)" by force
  have "set ending \<subseteq> A" using split assms(2) by (auto simp: split_line_ending_def split: if_splits)
  moreover have n: "set normalized \<subseteq> A" using assms(3) by (simp add: line_content_def split strip)
  moreover have "set (span_marker ''POTENTIAL_INSTRUCTION_REDACTED'' a b) \<subseteq> A" "set (span_marker ''LINE_TRUNCATED'' a b) \<subseteq> A" for a b
    using span_marker_plain assms(1) by (force simp: printable_def)+
  moreover have "set SECRET_MARKER \<subseteq> A" using marker_plain assms(1) by blast
  moreover have "set (fst (redact_secrets u normalized configured)) \<subseteq> A" by (rule redact_secrets_chars [OF assms(1) n assms(4)])
  ultimately show ?thesis
    by (auto simp: sanitize_line_def Let_def split strip truncate_line_def split: prod.splits option.splits if_splits
        dest!: in_set_takeD) 
qed

lemma configured_nonempty: "[] \<notin> set (configured_secrets secret_values)"
  by (auto simp: configured_secrets_def)

lemma set_configured: "w \<in> set (configured_secrets secret_values) \<longleftrightarrow> w \<in> set secret_values \<and> w \<noteq> []"
  by (auto simp: configured_secrets_def)

lemma sanitize_lines_parts:
  "part \<in> set (sanitize_lines u configured pem instructions i offset lines) \<Longrightarrow>
   \<exists>j start raw. raw \<in> set lines \<and> part = sanitize_line u configured (j \<in> set pem) (j \<in> set instructions) start raw \<and>
     offset \<le> start \<and> start + length raw \<le> offset + sum_list (map length lines)"
proof (induction lines arbitrary: i offset)
  case (Cons raw raws)
  consider "part = sanitize_line u configured (i \<in> set pem) (i \<in> set instructions) offset raw"
    | "part \<in> set (sanitize_lines u configured pem instructions (Suc i) (offset + length raw) raws)"
    using Cons.prems by auto
  then show ?case
  proof cases
    case 1
    then show ?thesis by (intro exI [of _ i] exI [of _ offset] exI [of _ raw]) simp
  next
    case 2
    from Cons.IH [OF this] show ?thesis by fastforce
  qed
qed simp

lemma truncated_part_plain: "set (span_marker ''EVIDENCE_TRUNCATED'' a b) \<subseteq> plain_points"
  by (rule span_marker_plain) (simp add: printable_def)

lemma sanitized_parts_chars:
  assumes "plain_points \<subseteq> A" "10 \<in> A" "\<And>line. set (line_content u line) \<subseteq> A"
  shows "set (concat (map fst (sanitized_parts u secret_values raw))) \<subseteq> A"
proof -
  have "set (fst part) \<subseteq> A" if "part \<in> set (sanitized_parts u secret_values raw)" for part
    using that assms truncated_part_plain sanitize_line_chars [OF assms configured_nonempty]
    by (auto simp: sanitized_parts_def split: option.splits dest!: sanitize_lines_parts) blast+
  then show ?thesis by auto
qed

lemma sanitize_provenance_chars:
  assumes "plain_points \<subseteq> A" "set (fst (strip_format_controls u provenance)) \<subseteq> A"
  shows "set (fst (sanitize_provenance u secret_values provenance)) \<subseteq> A"
proof -
  obtain normalized removed where strip: "strip_format_controls u provenance = (normalized, removed)" by force
  obtain redacted found where red: "redact_secrets u normalized (configured_secrets secret_values) = (redacted, found)" by force
  have "set redacted \<subseteq> A"
    using redact_secrets_chars [OF assms(1) _ configured_nonempty, of normalized u secret_values] assms(2) by (simp add: strip red)
  moreover have "set PROVENANCE_INSTRUCTION_MARKER \<subseteq> A" "set PROVENANCE_TRUNCATION_MARKER \<subseteq> A" using marker_plain assms(1) by blast+
  ultimately show ?thesis by (auto simp: sanitize_provenance_def Let_def strip red dest!: in_set_takeD)
qed

lemma strip_no_control: "c \<in> set (fst (strip_format_controls u t)) \<Longrightarrow> \<not> is_control c"
  by (auto simp: strip_format_controls_def Let_def)

lemma plain_no_control: "c \<in> plain_points \<Longrightarrow> \<not> is_control c"
  by (auto simp: plain_points_def is_control_def FORMAT_CONTROLS_def)

text \<open>The outcome of a successful call.\<close>

lemma sanitize_evidence_Inr:
  assumes "sanitize_evidence u sha secret_values raw provenance = Inr e"
  shows "encode_utf8 (concat (map fst (sanitized_parts u secret_values raw))) = Some (se_text e)"
    "encode_utf8 (fst (sanitize_provenance u secret_values provenance)) = Some (se_provenance e)"
    "se_tags e = map (bind_tag (sha raw) (sha (se_text e))) (concat (map snd (sanitized_parts u secret_values raw)))"
    "se_truncated e \<longleftrightarrow> truncated_at raw \<noteq> None"
  using assms by (auto simp: sanitize_evidence_def Let_def case_prod_beta split: if_splits option.splits)

text \<open>No control character reaches a model: the sanitized text decodes to characters that are neither control nor format
  characters, tabs and line ends apart, and the sanitized provenance has no line end either.\<close>

theorem sanitized_text_has_no_controls:
  assumes "sanitize_evidence u sha secret_values raw provenance = Inr e"
  shows "\<exists>t p. encode_utf8 t = Some (se_text e) \<and> list_all (\<lambda>c. \<not> is_control c \<or> c = 10) t \<and>
    encode_utf8 p = Some (se_provenance e) \<and> list_all (\<lambda>c. \<not> is_control c) p"
proof -
  have "set (concat (map fst (sanitized_parts u secret_values raw))) \<subseteq> {c. \<not> is_control c \<or> c = 10}"
    using plain_no_control strip_no_control by (intro sanitized_parts_chars) (auto simp: line_content_def)
  moreover have "set (fst (sanitize_provenance u secret_values provenance)) \<subseteq> {c. \<not> is_control c}"
    using plain_no_control strip_no_control by (intro sanitize_provenance_chars) auto
  ultimately show ?thesis using sanitize_evidence_Inr(1,2) [OF assms] by (fastforce simp: list_all_iff)
qed

section \<open>Secrets\<close>

lemma occurs_in_append: "occurs_in v (a @ r) \<Longrightarrow> v \<noteq> [] \<Longrightarrow> set v \<inter> set a = {} \<Longrightarrow> occurs_in v r"
  by (induction a) (auto simp: prefix_Cons)

lemma occurs_in_appendI: "occurs_in v r \<Longrightarrow> occurs_in v (a @ r)"
  by (induction a) auto

text \<open>A text that shares no character with the replacement occurs after it only where it occurred before.\<close>

lemma prefix_replace:
  assumes "w \<noteq> []" "new \<noteq> []"
  shows "set v \<inter> set new = {} \<Longrightarrow> prefix v (replace_all w new t) \<Longrightarrow> prefix v t"
proof (induction t arbitrary: v rule: replace_all_induct [OF assms(1)])
  case (2 t)
  then show ?case using assms by (cases v; cases new) (auto simp: replace_all_eqs)
next
  case (3 x xs)
  then show ?case by (cases v) (auto simp: replace_all_eqs)
qed (simp add: replace_all_eqs)

lemma occurs_replace:
  assumes "w \<noteq> []" "new \<noteq> []" "v \<noteq> []" "set v \<inter> set new = {}"
  shows "occurs_in v (replace_all w new t) \<Longrightarrow> occurs_in v t \<and> v \<noteq> w"
proof (induction t rule: replace_all_induct [OF assms(1)])
  case (2 t)
  then show ?case using assms occurs_in_append [of v new "replace_all w new t"] by (auto simp: replace_all_eqs intro: occurs_in_appendI)
next
  case (3 x xs)
  have "prefix v (x # replace_all w new xs) \<Longrightarrow> prefix v (x # xs)"
    using prefix_replace [OF assms(1,2,4), of "x # xs"] 3(1) by (simp add: replace_all_eqs)
  with 3 show ?case by (auto simp: replace_all_eqs)
qed (use assms in \<open>simp add: replace_all_eqs\<close>)

lemma replace_configured_absent:
  assumes "[] \<notin> set secrets" "v \<noteq> []" "set v \<inter> set SECRET_MARKER = {}" "v \<in> set secrets \<or> \<not> occurs_in v t"
  shows "\<not> occurs_in v (fst (replace_configured secrets (t, found)))"
  using assms(1,4)
proof (induction secrets arbitrary: t found)
  case (Cons secret secrets)
  have "SECRET_MARKER \<noteq> []" by (simp add: SECRET_MARKER_def points_of_def)
  then have *: "v \<in> set secrets \<or> \<not> occurs_in v (replace_all secret SECRET_MARKER t)"
    using occurs_replace [of secret SECRET_MARKER v t] assms(2,3) Cons.prems by auto
  have "v \<in> set secrets \<or> \<not> occurs_in v t" if "\<not> occurs_in secret t" using that Cons.prems by auto
  then show ?case using Cons.IH [OF _ *] Cons.IH [of t] Cons.prems(1) by auto
qed simp

text \<open>C31. A configured secret is redacted: whatever the patterns before it replaced and whatever the other secrets are, a
  secret that shares no character with the marker does not occur in the redacted text.\<close>

theorem configured_secret_is_redacted:
  assumes "secret \<in> set secret_values" "secret \<noteq> []" "set secret \<inter> set SECRET_MARKER = {}"
  shows "\<not> occurs_in secret (fst (redact_secrets u t (configured_secrets secret_values)))"
proof -
  have "\<not> occurs_in secret (fst (replace_configured (configured_secrets secret_values) (t4, found)))" for t4 found
    using assms by (intro replace_configured_absent configured_nonempty) (simp_all add: set_configured)
  then show ?thesis by (simp add: redact_secrets_def Let_def split: prod.split)
qed

section \<open>Evidence without tags\<close>

lemma sub_keeps: "subn u r f t = (t', n) \<Longrightarrow> 0 < n \<or> t' = t"
  using subn_unchanged [of u r f t] by auto

lemma replace_configured_found: "snd (replace_configured secrets (t, True))"
  by (induction secrets arbitrary: t) auto

lemma replace_configured_keeps: "replace_configured secrets (t, found) = (t', False) \<Longrightarrow> t' = t \<and> \<not> found"
proof (induction secrets arbitrary: t found)
  case (Cons secret secrets)
  then show ?case using replace_configured_found [of secrets] by (auto split: if_splits)
qed simp

lemma redact_secrets_keeps: "redact_secrets u t configured = (t', False) \<Longrightarrow> t' = t"
  unfolding redact_secrets_def Let_def
  by (auto split: prod.splits dest!: replace_configured_keeps sub_keeps)

lemma sanitize_line_untagged:
  assumes "snd (sanitize_line u configured is_pem is_instruction start raw) = []"
  shows "fst (sanitize_line u configured is_pem is_instruction start raw) =
    (case split_line_ending (decode_utf8 REPLACEMENT raw) of (content, ending) \<Rightarrow> un_nfkc u content @ ending)"
proof -
  obtain content ending where split: "split_line_ending (decode_utf8 REPLACEMENT raw) = (content, ending)" by force
  obtain normalized removed where strip: "strip_format_controls u content = (normalized, removed)" by force
  obtain redacted found where red: "redact_secrets u normalized configured = (redacted, found)" by force
  have *: "\<not> is_pem" "\<not> removed" "\<not> is_instruction" "\<not> found" "length redacted \<le> MAX_LINE_CHARACTERS"
    using assms by (auto simp: sanitize_line_def Let_def split strip red truncate_line_def split: if_splits)
  then have "redacted = normalized" "normalized = un_nfkc u content"
    using redact_secrets_keeps [of u normalized configured redacted] red strip by (auto simp: strip_format_controls_def Let_def)
  then have "redact_secrets u (un_nfkc u content) configured = (un_nfkc u content, False)"
    "strip_format_controls u content = (un_nfkc u content, False)" "length (un_nfkc u content) \<le> MAX_LINE_CHARACTERS"
    using red strip * by auto
  then show ?thesis using * by (simp add: sanitize_line_def Let_def split truncate_line_def)
qed

text \<open>Evidence without tags is the evidence itself: if the result carries no tag, nothing was cut off, and the text is the
  decoded, NFKC-normalised text of every line with its line end written as a newline.\<close>

theorem untagged_evidence_is_unchanged:
  assumes "sanitize_evidence u sha secret_values raw provenance = Inr e" "se_tags e = []"
  shows "\<not> se_truncated e \<and>
    encode_utf8 (concat (map (\<lambda>line. case split_line_ending (decode_utf8 REPLACEMENT line) of (content, ending) \<Rightarrow>
      un_nfkc u content @ ending) (raw_lines raw))) = Some (se_text e)"
proof -
  have none: "snd part = []" if "part \<in> set (sanitized_parts u secret_values raw)" for part
    using sanitize_evidence_Inr(3) [OF assms(1)] assms(2) that by auto
  have t: "truncated_at raw = None"
  proof (rule ccontr)
    assume "truncated_at raw \<noteq> None"
    then obtain n where "truncated_at raw = Some n" by auto
    then have "(span_marker ''EVIDENCE_TRUNCATED'' n (length raw),
        [\<lparr>pt_kind = EVIDENCE_TRUNCATED, pt_raw_byte_start = n, pt_raw_byte_end = length raw\<rparr>]) \<in> set (sanitized_parts u secret_values raw)"
      by (simp add: sanitized_parts_def)
    from none [OF this] show False by simp
  qed
  then have len: "length raw \<le> MAX_EVIDENCE_BYTES" "length (raw_lines raw) \<le> MAX_EVIDENCE_LINES - 1"
    by (auto simp: truncated_at_def Let_def split: if_splits)
  then have kept: "kept_lines raw = raw_lines raw" by (simp add: kept_lines_def)
  have "map fst (sanitize_lines u configured pem instructions i offset lines) = map (\<lambda>line.
      case split_line_ending (decode_utf8 REPLACEMENT line) of (content, ending) \<Rightarrow> un_nfkc u content @ ending) lines"
    if "\<forall>part \<in> set (sanitize_lines u configured pem instructions i offset lines). snd part = []"
    for configured pem instructions i offset lines
    using that by (induction lines arbitrary: i offset) (auto simp: sanitize_line_untagged)
  from this [of "configured_secrets secret_values" "pem_private_key_line_indexes u (kept_lines raw)"
      "instruction_line_indexes u (kept_lines raw)" 0 0 "kept_lines raw"] none
  have "map fst (sanitized_parts u secret_values raw) = map (\<lambda>line.
      case split_line_ending (decode_utf8 REPLACEMENT line) of (content, ending) \<Rightarrow> un_nfkc u content @ ending) (raw_lines raw)"
    by (simp add: sanitized_parts_def t kept)
  then show ?thesis using sanitize_evidence_Inr(1,4) [OF assms(1)] t by simp
qed

section \<open>The result is always well formed\<close>

lemma code_point_not_surrogate:
  assumes "0 < utf8_unit False s"
  shows "\<not> is_surrogate (code_point (take (utf8_unit False s) s))"
proof -
  obtain a r where s: "s = a # r" using assms by (cases s) (auto simp: utf8_unit_def)
  have w: "utf8_unit False s = utf8_width a" "utf8_width a \<le> Suc (length r)" "utf8_tail False a (take (utf8_width a - 1) r)" "0 < utf8_width a"
    using assms by (auto simp: utf8_unit_def s split: if_splits)
  consider "code a < 128" | "194 \<le> code a" "code a < 224" | "224 \<le> code a" "code a < 240" | "240 \<le> code a" "code a < 245"
    using w(4) by (auto simp: utf8_width_def split: if_splits)
  then show ?thesis
  proof cases
    case 1
    then show ?thesis
      using w by (simp add: s utf8_width_def code_point_def is_surrogate_def is_high_surrogate_def is_low_surrogate_def)
  next
    case 2
    then have "utf8_width a = 2" by (simp add: utf8_width_def)
    with w obtain b r' where r: "r = b # r'" "is_cont b" by (cases r) (auto simp: utf8_tail_def)
    show ?thesis using 2 r w(1) \<open>utf8_width a = 2\<close>
      by (auto simp: s code_point_def is_surrogate_def is_high_surrogate_def is_low_surrogate_def is_cont_def)
  next
    case 3
    then have "utf8_width a = 3" by (simp add: utf8_width_def)
    with w obtain b c r' where r: "r = b # c # r'" "is_cont b" "is_cont c" "code a = 237 \<longrightarrow> code b \<le> 159"
      by (cases r; cases "tl r") (auto simp: utf8_tail_def)
    consider "code a \<le> 236" | "code a = 237" | "238 \<le> code a" by linarith
    then show ?thesis using 3 r w(1) \<open>utf8_width a = 3\<close>
      by cases (auto simp: s code_point_def is_surrogate_def is_high_surrogate_def is_low_surrogate_def is_cont_def)
  next
    case 4
    then have "utf8_width a = 4" by (simp add: utf8_width_def)
    with w obtain b c d r' where r: "r = b # c # d # r'" "is_cont b" "is_cont c" "is_cont d" "code a = 240 \<longrightarrow> 144 \<le> code b"
      by (cases r; cases "tl r"; cases "tl (tl r)") (auto simp: utf8_tail_def)
    show ?thesis using 4 r w(1) \<open>utf8_width a = 4\<close>
      by (auto simp: s code_point_def is_surrogate_def is_high_surrogate_def is_low_surrogate_def is_cont_def)
  qed
qed

lemma decode_no_surrogate: "\<not> list_ex is_surrogate bad \<Longrightarrow> \<not> list_ex is_surrogate (decode_utf8 bad s)"
proof (induction bad s rule: decode_utf8.induct)
  case (1 bad s)
  then show ?case using code_point_not_surrogate [of s] by (subst decode_utf8.simps) auto
qed

text \<open>What is asked of NFKC: it does not make surrogates.\<close>

definition nfkc_keeps_encodable :: "unicode \<Rightarrow> bool" where
  "nfkc_keeps_encodable u \<longleftrightarrow> (\<forall>t. \<not> list_ex is_surrogate t \<longrightarrow> \<not> list_ex is_surrogate (un_nfkc u t))"

lemma no_surrogates_subset: "\<not> list_ex is_surrogate t \<longleftrightarrow> set t \<subseteq> {c. \<not> is_surrogate c}"
  by (auto simp: list_ex_iff)

lemma plain_not_surrogate: "plain_points \<subseteq> {c. \<not> is_surrogate c}"
  by (auto simp: plain_points_def is_surrogate_def is_high_surrogate_def is_low_surrogate_def)

lemma strip_encodable:
  assumes "nfkc_keeps_encodable u" "\<not> list_ex is_surrogate t"
  shows "set (fst (strip_format_controls u t)) \<subseteq> {c. \<not> is_surrogate c}"
  using assms by (auto simp: nfkc_keeps_encodable_def strip_format_controls_def Let_def list_ex_iff)

lemma line_content_encodable:
  assumes "nfkc_keeps_encodable u"
  shows "set (line_content u raw) \<subseteq> {c. \<not> is_surrogate c}"
proof -
  have "\<not> list_ex is_surrogate (decode_utf8 REPLACEMENT raw)"
    by (rule decode_no_surrogate) (simp add: REPLACEMENT_def is_surrogate_def is_high_surrogate_def is_low_surrogate_def)
  then have "\<not> list_ex is_surrogate (fst (split_line_ending (decode_utf8 REPLACEMENT raw)))"
    by (auto simp: split_line_ending_def list_ex_iff dest: in_set_takeD in_set_butlastD)
  then show ?thesis unfolding line_content_def by (rule strip_encodable [OF assms])
qed

lemma sanitize_provenance_length:
  assumes "\<not> is_blank provenance"
  shows "1 \<le> length (fst (sanitize_provenance u secret_values provenance))"
    "length (fst (sanitize_provenance u secret_values provenance)) \<le> MAX_PROVENANCE_CHARACTERS"
proof -
  have "length PROVENANCE_TRUNCATION_MARKER = 33" "length PROVENANCE_INSTRUCTION_MARKER = 49"
    by (simp_all add: PROVENANCE_TRUNCATION_MARKER_def PROVENANCE_INSTRUCTION_MARKER_def points_of_def)
  then show "1 \<le> length (fst (sanitize_provenance u secret_values provenance))"
    "length (fst (sanitize_provenance u secret_values provenance)) \<le> MAX_PROVENANCE_CHARACTERS"
    by (auto simp: sanitize_provenance_def Let_def case_prod_beta is_blank_def MAX_PROVENANCE_CHARACTERS_def Suc_le_eq)
qed

lemma sum_kept_lines: "sum_list (map length (raw_lines s)) = length s"
proof (induction s rule: raw_lines.induct)
  case (1 s)
  then show ?case using arg_cong [OF raw_line_append [of s], of length] by (subst raw_lines.simps) auto
qed

lemma sum_take_le: "sum_list (take n (xs :: nat list)) \<le> sum_list xs"
  by (metis append_take_drop_id le_add1 sum_list_append)

lemma kept_lines_within: "sum_list (map length (kept_lines raw)) \<le> length raw"
proof -
  have "sum_list (map length (kept_lines raw)) \<le> length (take MAX_EVIDENCE_BYTES raw)"
    unfolding kept_lines_def take_map [symmetric]
    using sum_take_le [of _ "map length (raw_lines (take MAX_EVIDENCE_BYTES raw))"] by (simp add: sum_kept_lines del: length_take)
  then show ?thesis by simp
qed

lemma sanitize_line_tags:
  "t \<in> set (snd (sanitize_line u configured is_pem is_instruction start raw)) \<Longrightarrow>
   pt_raw_byte_start t = start \<and> pt_raw_byte_end t = start + length raw \<and> pt_kind t \<noteq> EVIDENCE_TRUNCATED"
  by (auto simp: sanitize_line_def Let_def truncate_line_def split: prod.splits if_splits)

text \<open>A tag lies within the raw bytes, and the tag of truncated evidence is there exactly when the evidence was truncated.\<close>

lemma sanitized_parts_tags:
  assumes "t \<in> set (concat (map snd (sanitized_parts u secret_values raw)))"
  shows "pt_raw_byte_start t \<le> pt_raw_byte_end t" "pt_raw_byte_end t \<le> length raw"
    "pt_kind t = EVIDENCE_TRUNCATED \<Longrightarrow> truncated_at raw \<noteq> None"
proof -
  have cut: "n \<le> length raw" if "truncated_at raw = Some n" for n
    using that kept_lines_within [of raw] by (auto simp: truncated_at_def Let_def split: if_splits option.splits)
  from assms consider
    n where "truncated_at raw = Some n" "t = \<lparr>pt_kind = EVIDENCE_TRUNCATED, pt_raw_byte_start = n, pt_raw_byte_end = length raw\<rparr>"
    | part where "part \<in> set (sanitize_lines u (configured_secrets secret_values) (pem_private_key_line_indexes u (kept_lines raw))
       (instruction_line_indexes u (kept_lines raw)) 0 0 (kept_lines raw))" "t \<in> set (snd part)"
    by (fastforce simp: sanitized_parts_def split: option.splits)
  then have "pt_raw_byte_start t \<le> pt_raw_byte_end t \<and> pt_raw_byte_end t \<le> length raw \<and>
      (pt_kind t = EVIDENCE_TRUNCATED \<longrightarrow> truncated_at raw \<noteq> None)"
  proof cases
    case 1
    then show ?thesis using cut by simp
  next
    case 2
    from sanitize_lines_parts [OF 2(1)] 2(2) show ?thesis
      using kept_lines_within [of raw] by (auto dest!: sanitize_line_tags)
  qed
  then show "pt_raw_byte_start t \<le> pt_raw_byte_end t" "pt_raw_byte_end t \<le> length raw"
    "pt_kind t = EVIDENCE_TRUNCATED \<Longrightarrow> truncated_at raw \<noteq> None" by auto
qed

lemma sanitize_evidence_total:
  assumes "\<not> is_blank provenance" "encode_utf8 provenance \<noteq> None" "nfkc_keeps_encodable u" "\<And>b. is_sha256 (sha b)"
  shows "\<exists>e. sanitize_evidence u sha secret_values raw provenance = Inr e \<and>
    se_raw_sha256 e = sha raw \<and> se_sanitized_sha256 e = sha (se_text e) \<and>
    se_raw_size_bytes e = length raw \<and> se_sanitized_size_bytes e = length (se_text e) \<and>
    list_all (\<lambda>t. tag_raw_sha256 t = sha raw \<and> tag_sanitized_sha256 t = sha (se_text e) \<and>
      tag_raw_byte_start t \<le> tag_raw_byte_end t \<and> tag_raw_byte_end t \<le> length raw) (se_tags e) \<and>
    (se_truncated e \<longleftrightarrow> EVIDENCE_TRUNCATED \<in> set (map tag_kind_of (se_tags e)))"
proof -
  let ?parts = "sanitized_parts u secret_values raw" and ?prov = "sanitize_provenance u secret_values provenance"
  obtain pb where pb: "encode_utf8 provenance = Some pb" "\<not> list_ex is_surrogate provenance"
    using assms(2) by (auto simp: encode_utf8_def split: if_splits)
  have "set (concat (map fst ?parts)) \<subseteq> {c. \<not> is_surrogate c}"
    by (rule sanitized_parts_chars [OF plain_not_surrogate _ line_content_encodable [OF assms(3)]])
      (simp add: is_surrogate_def is_high_surrogate_def is_low_surrogate_def)
  then obtain tb where tb: "encode_utf8 (concat (map fst ?parts)) = Some tb"
    by (auto simp: encode_utf8_def no_surrogates_subset simp del: set_concat)
  have "set (fst ?prov) \<subseteq> {c. \<not> is_surrogate c}"
    by (rule sanitize_provenance_chars [OF plain_not_surrogate strip_encodable [OF assms(3) pb(2)]])
  then obtain sb where sb: "encode_utf8 (fst ?prov) = Some sb" by (auto simp: encode_utf8_def no_surrogates_subset)
  have kind: "EVIDENCE_TRUNCATED \<in> pt_kind ` set (concat (map snd ?parts)) \<longleftrightarrow> truncated_at raw \<noteq> None"
  proof
    assume "EVIDENCE_TRUNCATED \<in> pt_kind ` set (concat (map snd ?parts))"
    then show "truncated_at raw \<noteq> None" using sanitized_parts_tags(3) by fastforce
  next
    assume "truncated_at raw \<noteq> None"
    then obtain n where "truncated_at raw = Some n" by auto
    then show "EVIDENCE_TRUNCATED \<in> pt_kind ` set (concat (map snd ?parts))" by (simp add: sanitized_parts_def image_Un)
  qed
  let ?e = "\<lparr>se_provenance = sb, se_provenance_sha256 = sha pb, se_provenance_tags = snd ?prov,
     se_text = tb, se_raw_sha256 = sha raw, se_sanitized_sha256 = sha tb, se_raw_size_bytes = length raw,
     se_sanitized_size_bytes = length tb, se_truncated = (truncated_at raw \<noteq> None),
     se_tags = map (bind_tag (sha raw) (sha tb)) (concat (map snd ?parts))\<rparr>"
  have "evidence_valid (fst ?prov) ?e"
    using sanitize_provenance_length [OF assms(1), of u secret_values] assms(4)
    by (simp add: evidence_valid_def bind_tag_def list_all_iff)
  then have "sanitize_evidence u sha secret_values raw provenance = Inr ?e"
    using assms(1) by (simp add: sanitize_evidence_def Let_def case_prod_beta pb(1) tb sb)
  moreover have "tag_kind_of ` bind_tag a b ` A = pt_kind ` A" for a b A by (auto simp: bind_tag_def image_image)
  ultimately show ?thesis
    using sanitized_parts_tags(1,2) [of _ u secret_values raw] kind
    by (intro exI [of _ ?e]) (auto simp: list_all_iff bind_tag_def)
qed

text \<open>C30. The sanitizer is total and its result is well formed: for every raw input and every provenance that is not blank and can be
  encoded it returns evidence that passes the field constraints, whose tags carry the two digests and lie within the raw bytes,
  and which says it is truncated exactly when it has the tag for that.\<close>

theorem sanitize_evidence_is_total:
  assumes "\<not> is_blank provenance" "encode_utf8 provenance \<noteq> None" "nfkc_keeps_encodable u" "\<And>b. is_sha256 (sha b)"
  shows "\<exists>e. sanitize_evidence u sha secret_values raw provenance = Inr e \<and>
    se_raw_sha256 e = sha raw \<and> se_sanitized_sha256 e = sha (se_text e) \<and>
    se_raw_size_bytes e = length raw \<and> se_sanitized_size_bytes e = length (se_text e) \<and>
    list_all (\<lambda>t. tag_raw_sha256 t = sha raw \<and> tag_sanitized_sha256 t = sha (se_text e) \<and>
      tag_raw_byte_start t \<le> tag_raw_byte_end t \<and> tag_raw_byte_end t \<le> length raw) (se_tags e) \<and>
    (se_truncated e \<longleftrightarrow> EVIDENCE_TRUNCATED \<in> set (map tag_kind_of (se_tags e)))"
  using assms by (rule sanitize_evidence_total)

section \<open>Examples\<close>

text \<open>The tables restricted to ASCII.\<close>

definition ascii_unicode :: unicode where
  "ascii_unicode =
     \<lparr>un_nfkc = id, un_word = (\<lambda>c. is_ascii_alnum c \<or> c = 95),
      un_fold = (\<lambda>c. if 65 \<le> c \<and> c \<le> 90 then c + 32 else c)\<rparr>"


lemmas regex_eval = search_def cats_def alts_def exact_def nocase_def optional_def spaces_def nocase_words_def
  optional_word_def points_of_def advance_def word_before_def word_ahead_def repeat_counts_def is_space_def is_ascii_alnum_def
  is_lower_def is_upper_def upt_rec

lemma ascii_keeps_encodable: "nfkc_keeps_encodable ascii_unicode"
  by (simp add: nfkc_keeps_encodable_def ascii_unicode_def)

lemma decode_ascii: "is_ascii s \<Longrightarrow> decode_utf8 bad s = points_of s"
proof (induction s)
  case Nil
  then show ?case by (simp add: decode_utf8.simps points_of_def)
next
  case (Cons c s)
  then have "utf8_unit False (c # s) = 1" by (simp add: is_ascii_def)
  then show ?case using Cons by (subst decode_utf8.simps) (simp add: code_point_def points_of_def is_ascii_def)
qed

lemma printable_line: "printable s \<Longrightarrow> raw_line s = (s, [])"
  by (induction s) (auto simp: printable_def)

lemma printable_evidence:
  assumes "printable s" "s \<noteq> []" "length s \<le> MAX_EVIDENCE_BYTES"
  shows "kept_lines s = [s]" "truncated_at s = None" "decode_utf8 REPLACEMENT s = points_of s"
    "split_line_ending (points_of s) = (points_of s, [])" "strip_format_controls ascii_unicode (points_of s) = (points_of s, False)"
proof -
  have raw: "raw_lines s = [s]" using assms(1,2) by (simp add: raw_lines.simps printable_line)
  then show "kept_lines s = [s]" "truncated_at s = None"
    using assms(3) by (simp_all add: kept_lines_def truncated_at_def MAX_EVIDENCE_LINES_def)
  show "decode_utf8 REPLACEMENT s = points_of s" using assms(1) by (intro decode_ascii) (auto simp: printable_def is_ascii_def list_all_iff)
  have plain: "set (points_of s) \<subseteq> plain_points" by (rule points_of_plain [OF assms(1)])
  then have last: "10 \<notin> set (points_of s)" "13 \<notin> set (points_of s)" by (auto simp: plain_points_def)
  have "drop n (points_of s) \<noteq> [13, 10]" for n using last(2) by (metis in_set_dropD list.set_intros(1))
  moreover have "points_of s \<noteq> [] \<Longrightarrow> last (points_of s) \<noteq> 10 \<and> last (points_of s) \<noteq> 13" using last last_in_set by metis
  ultimately show "split_line_ending (points_of s) = (points_of s, [])" by (auto simp: split_line_ending_def)
  show "strip_format_controls ascii_unicode (points_of s) = (points_of s, False)"
    using plain plain_no_control by (auto simp: strip_format_controls_def Let_def ascii_unicode_def filter_id_conv)
qed










text \<open>A harmless line: no pattern matches, so it is kept without a tag.\<close>

definition log_provenance :: points where
  "log_provenance = points_of ''log''"

lemma log_provenance_facts: "\<not> is_blank log_provenance" "encode_utf8 log_provenance \<noteq> None"
  by (simp_all add: log_provenance_def is_blank_def points_of_def is_space_def encode_utf8_def is_surrogate_def
      is_high_surrogate_def is_low_surrogate_def)

lemmas pattern_eval = INSTRUCTION_PATTERNS_def XML_CONTROL_def BASE64_TOKEN_def AUTHORIZATION_def OPENAI_KEY_def
  JSON_NAMED_SECRET_def NAMED_SECRET_def SECRET_FIELD_NAMES_def PEM_PRIVATE_KEY_BEGIN_def role_words_def start_or_space_def
  any_quote_def dash_or_underscore_def

lemma ok_no_instruction: "instruction_match_spans ascii_unicode [111, 107, 10] = []"
  by (simp add: instruction_match_spans_def pattern_eval finditer_def find_from.simps search_from.simps regex_eval ascii_unicode_def
      boundary_normalized_def)

lemma ok_no_secret: "redact_secrets ascii_unicode [111, 107] [] = ([111, 107], False)"
  by (simp add: redact_secrets_def subn_def sub_from.simps search_from.simps pattern_eval regex_eval ascii_unicode_def)

lemma ok_parts: "sanitized_parts ascii_unicode [] ''ok'' = [([111, 107], [])]"
proof -
  have "printable ''ok''" "''ok'' \<noteq> []" "length ''ok'' \<le> MAX_EVIDENCE_BYTES" by (simp_all add: printable_def MAX_EVIDENCE_BYTES_def)
  from printable_evidence [OF this]
  have facts: "kept_lines ''ok'' = [''ok'']" "truncated_at ''ok'' = None" "decode_utf8 REPLACEMENT ''ok'' = [111, 107]"
    "split_line_ending [111, 107] = ([111, 107], [])" "strip_format_controls ascii_unicode [111, 107] = ([111, 107], False)"
    by (simp_all add: points_of_def)
  have "pem_private_key_line_indexes ascii_unicode [''ok''] = []"
    by (simp add: pem_private_key_line_indexes_def facts)
      (simp add: pattern_eval search_from.simps regex_eval ascii_unicode_def)
  moreover have "instruction_line_indexes ascii_unicode [''ok''] = []"
    using ok_no_instruction by (simp add: instruction_line_indexes_def line_content_def facts scan_text_def Let_def)
  moreover have "configured_secrets [] = []" by (simp add: configured_secrets_def)
  ultimately show ?thesis
    by (simp add: sanitized_parts_def facts sanitize_line_def Let_def ok_no_secret truncate_line_def MAX_LINE_CHARACTERS_def)
qed



theorem sanitized_text_has_no_controls_witness:
  "\<exists>e. sanitize_evidence ascii_unicode zero_digest [] [CHR 0x1B, CHR ''x''] log_provenance = Inr e \<and>
     (\<exists>t. encode_utf8 t = Some (se_text e) \<and> 27 \<notin> set t)"
proof -
  obtain e where e: "sanitize_evidence ascii_unicode zero_digest [] [CHR 0x1B, CHR ''x''] log_provenance = Inr e"
    using sanitize_evidence_total [OF log_provenance_facts ascii_keeps_encodable] is_sha256_zero_digest by blast
  moreover have "is_control 27" by (simp add: is_control_def)
  ultimately show ?thesis using sanitized_text_has_no_controls [OF e] by (fastforce simp: list_all_iff)
qed

theorem configured_secret_is_redacted_witness:
  "\<not> occurs_in (points_of ''hunter2'')
     (fst (redact_secrets ascii_unicode (points_of ''login hunter2'') (configured_secrets [points_of ''hunter2''])))"
  by (rule configured_secret_is_redacted) (simp_all add: points_of_def SECRET_MARKER_def)

theorem untagged_evidence_is_unchanged_witness:
  "\<exists>e. sanitize_evidence ascii_unicode zero_digest [] ''ok'' log_provenance = Inr e \<and> \<not> se_truncated e"
proof -
  obtain e where e: "sanitize_evidence ascii_unicode zero_digest [] ''ok'' log_provenance = Inr e"
    using sanitize_evidence_total [OF log_provenance_facts ascii_keeps_encodable] is_sha256_zero_digest by blast
  moreover have "se_tags e = []" using sanitize_evidence_Inr(3) [OF e] by (simp add: ok_parts)
  ultimately show ?thesis using untagged_evidence_is_unchanged [OF e] by blast
qed

theorem sanitize_evidence_is_total_witness:
  "\<exists>e. sanitize_evidence ascii_unicode zero_digest [points_of ''hunter2''] ''login hunter2'' log_provenance = Inr e \<and>
     se_raw_size_bytes e = 13"
proof -
  from sanitize_evidence_is_total [OF log_provenance_facts ascii_keeps_encodable, of zero_digest "[points_of ''hunter2'']" "''login hunter2''"]
  show ?thesis by auto
qed

end
