(* ===== verification/CP_Access.thy ===== *)
theory CP_Access
  imports CP_Approval CP_Fingerprint "HOL-Library.Product_Lexorder"
begin

text \<open>
  Identities and budgets of the control plane: \<^verbatim>\<open>runtime/auth.py\<close> (configured bearer credentials, judge
  tokens with their audit trail), \<^verbatim>\<open>runtime/live_trials.py\<close> (trial credentials, rate windows and the shared
  budget) and the authorization guards of \<^verbatim>\<open>api/dependencies.py\<close>. A transaction that raises leaves the
  tables unchanged, and row and advisory locks make it one step. Clocks, random tokens and generated
  identifiers are arguments; the column widths of the tables are not modelled.
  The results: the budget row is the balance of the reservations and stays within its cap as long as no
  settlement exceeds its reservation; a credential makes at most twice its quota of reservations in any
  window; a revoked judge token never becomes active again and the audit trail accounts for every token.
\<close>

section \<open>Amounts\<close>

text \<open>\<^verbatim>\<open>Decimal(str(value))\<close>: a coefficient with a power of ten, or an infinity or NaN; \<open>None\<close> where the text is no
  number (\<^verbatim>\<open>InvalidOperation\<close>).\<close>

datatype decimal = Decimal int int | NotFinite

text \<open>Rounding to the 28 digits of the default context, half to even; exponents are unbounded here.\<close>

fun digits :: "nat \<Rightarrow> nat" where
  "digits n = (if n < 10 then 1 else Suc (digits (n div 10)))"

declare digits.simps [simp del]

definition half_even :: "nat \<Rightarrow> nat \<Rightarrow> nat" where
  "half_even n k =
     (let q = n div 10 ^ k; r = n mod 10 ^ k
      in if 2 * r < 10 ^ k \<or> (2 * r = 10 ^ k \<and> even q) then q else q + 1)"

definition in_context :: "int \<Rightarrow> int \<Rightarrow> int \<times> int" where
  "in_context c e =
     (let n = nat \<bar>c\<bar>; k = digits n - 28 in (sgn c * int (half_even n k), e + int k))"

text \<open>\<^verbatim>\<open>to_integral_value(rounding=ROUND_CEILING)\<close>.\<close>

definition round_ceiling :: "int \<Rightarrow> int \<Rightarrow> int" where
  "round_ceiling c e = (if 0 \<le> e then c * 10 ^ nat e else - ((- c) div 10 ^ nat (- e)))"

definition to_micro :: "int \<Rightarrow> int \<Rightarrow> int" where
  "to_micro c e = (let (c', e') = in_context (c * 1000000) e in round_ceiling c' e')"

datatype trial_error =
    TrialValueError string
  | LiveTrialDenied string
  | LiveTrialRateLimited
  | LiveTrialBudgetExceeded
  | TrialRuntimeError string
  | TrialLookupError string
  | TrialIntegrityError
  | TrialOverflowError

definition microusd :: "decimal option \<Rightarrow> trial_error + int" where
  "microusd x =
     (case x of
        None \<Rightarrow> Inl (TrialValueError ''live-trial USD amount is invalid'')
      | Some NotFinite \<Rightarrow> Inl (TrialValueError ''live-trial USD amount must be positive'')
      | Some (Decimal c e) \<Rightarrow>
          if c \<le> 0 then Inl (TrialValueError ''live-trial USD amount must be positive'')
          else Inr (to_micro c e))"

definition nonnegative_microusd :: "decimal option \<Rightarrow> trial_error + int" where
  "nonnegative_microusd x =
     (case x of
        None \<Rightarrow> Inl (TrialValueError ''live-trial USD amount is invalid'')
      | Some NotFinite \<Rightarrow> Inl (TrialValueError ''live-trial USD amount must be non-negative'')
      | Some (Decimal c e) \<Rightarrow>
          if c < 0 then Inl (TrialValueError ''live-trial USD amount must be non-negative'')
          else Inr (to_micro c e))"

section \<open>Tables\<close>

datatype role = READ_ONLY | OPERATOR | APPROVER | LIVE_TRIAL

record api_principal_row =
  pr_subject :: string
  pr_bearer_sha256 :: string
  pr_role :: role
  pr_csrf_sha256 :: "string option"
  pr_step_up_sha256 :: "string option"
  pr_expires_at :: datetime
  pr_step_up_expires_at :: "datetime option"
  pr_revoked :: bool
  pr_created_at :: datetime
  pr_updated_at :: datetime

record trial_credential_row =
  tc_subject :: string
  tc_created_by :: string
  tc_rate_window_started_at :: datetime
  tc_rate_count :: int
  tc_revoked_at :: "datetime option"
  tc_revoked_by :: "string option"
  tc_created_at :: datetime
  tc_updated_at :: datetime

record trial_budget_row =
  tb_cap_microusd :: int
  tb_spent_microusd :: int
  tb_reserved_microusd :: int
  tb_updated_at :: datetime

datatype reservation_status = RESERVED | SETTLED

record reservation_row =
  rv_id :: string
  rv_subject :: string
  rv_incident_id :: "string option"
  rv_operation :: string
  rv_reserved_microusd :: int
  rv_actual_microusd :: "int option"
  rv_status :: reservation_status
  rv_created_at :: datetime
  rv_settled_at :: "datetime option"

text \<open>The two columns of an incident that trials look at.\<close>

record trial_incident =
  tx_live_trial :: bool
  tx_owner_subject :: "string option"

record access_db =
  principals :: "api_principal_row list"
  grants :: "(string \<times> string) list"
  trial_incidents :: "string \<rightharpoonup> trial_incident"
  trial_credentials :: "string \<rightharpoonup> trial_credential_row"
  trial_budget :: "trial_budget_row option"
  reservations :: "reservation_row list"

definition empty_access_db :: access_db where
  "empty_access_db =
     \<lparr>principals = [], grants = [], trial_incidents = Map.empty, trial_credentials = Map.empty,
      trial_budget = None, reservations = []\<rparr>"

section \<open>Live trials\<close>

record live_trial_repository =
  lt_cap :: int
  lt_requests_per_window :: int
  lt_window_seconds :: nat

definition LiveTrialRepository :: "decimal option \<Rightarrow> int \<Rightarrow> int \<Rightarrow> trial_error + live_trial_repository" where
  "LiveTrialRepository global_cap_usd requests_per_window window_seconds =
     (if requests_per_window < 1 \<or> window_seconds < 1
      then Inl (TrialValueError ''live-trial rate limits must be positive'')
      else rbind (microusd global_cap_usd) (\<lambda>cap.
             Inr \<lparr>lt_cap = cap, lt_requests_per_window = requests_per_window, lt_window_seconds = nat window_seconds\<rparr>))"

definition trial_now :: "datetime \<Rightarrow> trial_error + datetime" where
  "trial_now clock =
     (if is_aware clock then Inr (astimezone_utc clock)
      else Inl (TrialValueError ''live-trial clock must be timezone-aware''))"

definition budget_locked ::
  "live_trial_repository \<Rightarrow> datetime \<Rightarrow> access_db \<Rightarrow> trial_error + (access_db \<times> trial_budget_row)" where
  "budget_locked repo now db =
     (case trial_budget db of
        None \<Rightarrow>
          (let budget = \<lparr>tb_cap_microusd = lt_cap repo, tb_spent_microusd = 0, tb_reserved_microusd = 0, tb_updated_at = now\<rparr>
           in Inr (db\<lparr>trial_budget := Some budget\<rparr>, budget))
      | Some budget \<Rightarrow>
          if tb_cap_microusd budget \<noteq> lt_cap repo
          then Inl (TrialRuntimeError ''configured global live-trial budget changed'')
          else Inr (db, budget))"

definition principal_of :: "access_db \<Rightarrow> string \<Rightarrow> api_principal_row option" where
  "principal_of db subject = find (\<lambda>p. pr_subject p = subject) (principals db)"

definition update_principal :: "string \<Rightarrow> (api_principal_row \<Rightarrow> api_principal_row) \<Rightarrow> access_db \<Rightarrow> access_db" where
  "update_principal subject f db =
     db\<lparr>principals := map (\<lambda>p. if pr_subject p = subject then f p else p) (principals db)\<rparr>"

definition insert_principal :: "api_principal_row \<Rightarrow> access_db \<Rightarrow> trial_error + access_db" where
  "insert_principal row db =
     (if \<exists>p \<in> set (principals db). pr_subject p = pr_subject row \<or> pr_bearer_sha256 p = pr_bearer_sha256 row
      then Inl TrialIntegrityError
      else Inr (db\<lparr>principals := principals db @ [row]\<rparr>))"

definition issue ::
  "(string \<Rightarrow> string) \<Rightarrow> live_trial_repository \<Rightarrow> datetime \<Rightarrow> string \<Rightarrow> string \<Rightarrow> string \<Rightarrow> datetime \<Rightarrow> access_db
   \<Rightarrow> trial_error + (access_db \<times> (string \<times> string \<times> datetime))" where
  "issue sha repo clock token uuid actor expires_at db =
     rbind (trial_now clock) (\<lambda>now.
       if \<not> is_aware expires_at
       then Inl (TrialValueError ''live-trial credential expiry must be timezone-aware'')
       else let expiry = astimezone_utc expires_at; subject = ''live-trial-'' @ uuid
            in if instant expiry \<le> instant now
               then Inl (TrialValueError ''live-trial credential must expire in the future'')
               else rbind (budget_locked repo now db) (\<lambda>(db1, _).
                    rbind (insert_principal
                      \<lparr>pr_subject = subject, pr_bearer_sha256 = sha token, pr_role = LIVE_TRIAL, pr_csrf_sha256 = None,
                       pr_step_up_sha256 = None, pr_expires_at = expiry, pr_step_up_expires_at = None,
                       pr_revoked = False, pr_created_at = now, pr_updated_at = now\<rparr> db1) (\<lambda>db2.
                    if subject \<in> dom (trial_credentials db2) then Inl TrialIntegrityError
                    else Inr (db2\<lparr>trial_credentials := (trial_credentials db2)(subject \<mapsto>
                           \<lparr>tc_subject = subject, tc_created_by = actor, tc_rate_window_started_at = now,
                            tc_rate_count = 0, tc_revoked_at = None, tc_revoked_by = None, tc_created_at = now,
                            tc_updated_at = now\<rparr>)\<rparr>, token, subject, expiry))))"

definition revoke_trial ::
  "datetime \<Rightarrow> string \<Rightarrow> string \<Rightarrow> access_db \<Rightarrow> trial_error + access_db" where
  "revoke_trial clock subject actor db =
     rbind (trial_now clock) (\<lambda>now.
       case (trial_credentials db subject, principal_of db subject) of
         (Some credential, Some holder) \<Rightarrow>
           if pr_role holder \<noteq> LIVE_TRIAL then Inl (TrialLookupError subject)
           else Inr (update_principal subject (\<lambda>p. p\<lparr>pr_revoked := True, pr_updated_at := now\<rparr>)
                  (db\<lparr>trial_credentials :=
                     (if tc_revoked_at credential = None
                      then (trial_credentials db)(subject \<mapsto>
                             credential\<lparr>tc_revoked_at := Some now, tc_revoked_by := Some actor,
                                        tc_updated_at := now\<rparr>)
                      else trial_credentials db)\<rparr>))
       | _ \<Rightarrow> Inl (TrialLookupError subject))"

definition trial_reservation_id :: "string \<Rightarrow> string" where
  "trial_reservation_id uuid = ''trial-reservation-'' @ uuid"

text \<open>\<^verbatim>\<open>datetime.max\<close>.\<close>

definition MAX_INSTANT :: nat where
  "MAX_INSTANT = 315537897599999999"

text \<open>A window that has passed starts again at \<open>now\<close>; the sum of a time and the window can leave the calendar.\<close>

definition rate_window ::
  "live_trial_repository \<Rightarrow> datetime \<Rightarrow> trial_credential_row \<Rightarrow> trial_error + trial_credential_row" where
  "rate_window repo now credential =
     (let window_end = instant (tc_rate_window_started_at credential) + lt_window_seconds repo * 1000000
      in if MAX_INSTANT < window_end then Inl TrialOverflowError
         else if window_end \<le> instant now
         then Inr (credential\<lparr>tc_rate_window_started_at := now, tc_rate_count := 0\<rparr>)
         else Inr credential)"

definition reserve ::
  "live_trial_repository \<Rightarrow> datetime \<Rightarrow> string \<Rightarrow> string \<Rightarrow> decimal option \<Rightarrow> string \<Rightarrow> access_db
   \<Rightarrow> trial_error + (access_db \<times> string)" where
  "reserve repo clock uuid subject amount_usd operation db =
     rbind (microusd amount_usd) (\<lambda>amount.
       if operation \<noteq> ''initial-run'' \<and> operation \<noteq> ''revision''
       then Inl (TrialValueError ''unsupported live-trial budget operation'')
       else rbind (trial_now clock) (\<lambda>now.
         case (trial_credentials db subject, principal_of db subject) of
           (Some stored, Some holder) \<Rightarrow>
             if pr_revoked holder \<or> pr_role holder \<noteq> LIVE_TRIAL \<or> instant (pr_expires_at holder) \<le> instant now
             then Inl (LiveTrialDenied ''live-trial credential is unavailable'')
             else rbind (rate_window repo now stored) (\<lambda>credential.
               if lt_requests_per_window repo \<le> tc_rate_count credential then Inl LiveTrialRateLimited
               else rbind (budget_locked repo now db) (\<lambda>(db1, budget).
                 if tb_spent_microusd budget + tb_reserved_microusd budget + amount > tb_cap_microusd budget
                 then Inl LiveTrialBudgetExceeded
                 else let reservation_id = trial_reservation_id uuid
                      in if reservation_id \<in> rv_id ` set (reservations db1) then Inl TrialIntegrityError
                         else Inr (db1\<lparr>trial_credentials := (trial_credentials db1)(subject \<mapsto>
                                         credential\<lparr>tc_rate_count := tc_rate_count credential + 1, tc_updated_at := now\<rparr>),
                                       trial_budget := Some (budget\<lparr>
                                         tb_reserved_microusd := tb_reserved_microusd budget + amount, tb_updated_at := now\<rparr>),
                                       reservations := reservations db1 @
                                         [\<lparr>rv_id = reservation_id, rv_subject = subject, rv_incident_id = None,
                                           rv_operation = operation, rv_reserved_microusd = amount,
                                           rv_actual_microusd = None, rv_status = RESERVED, rv_created_at = now,
                                           rv_settled_at = None\<rparr>]\<rparr>, reservation_id)))
         | _ \<Rightarrow> Inl (LiveTrialDenied ''live-trial credential is unavailable'')))"

definition reservation_by_id :: "string \<Rightarrow> access_db \<Rightarrow> reservation_row option" where
  "reservation_by_id reservation_id db = find (\<lambda>r. rv_id r = reservation_id) (reservations db)"

definition update_reservation :: "string \<Rightarrow> (reservation_row \<Rightarrow> reservation_row) \<Rightarrow> access_db \<Rightarrow> access_db" where
  "update_reservation reservation_id f db =
     db\<lparr>reservations := map (\<lambda>r. if rv_id r = reservation_id then f r else r) (reservations db)\<rparr>"

definition owns :: "string \<Rightarrow> string \<Rightarrow> access_db \<Rightarrow> bool" where
  "owns subject incident_id db \<longleftrightarrow>
     (case trial_incidents db incident_id of
        None \<Rightarrow> False
      | Some incident \<Rightarrow>
          tx_live_trial incident \<and> tx_owner_subject incident = Some subject \<and> (subject, incident_id) \<in> set (grants db))"

definition bind_incident :: "string \<Rightarrow> string \<Rightarrow> string \<Rightarrow> access_db \<Rightarrow> trial_error + access_db" where
  "bind_incident reservation_id subject incident_id db =
     (case reservation_by_id reservation_id db of
        None \<Rightarrow> Inl (LiveTrialDenied ''live-trial reservation ownership mismatch'')
      | Some reservation \<Rightarrow>
          if rv_status reservation \<noteq> RESERVED \<or> rv_subject reservation \<noteq> subject \<or>
             rv_incident_id reservation \<noteq> None \<or> \<not> owns subject incident_id db
          then Inl (LiveTrialDenied ''live-trial reservation ownership mismatch'')
          else Inr (update_reservation reservation_id (rv_incident_id_update (\<lambda>_. Some incident_id)) db))"

definition settle ::
  "live_trial_repository \<Rightarrow> datetime \<Rightarrow> string \<Rightarrow> decimal option \<Rightarrow> access_db \<Rightarrow> trial_error + access_db" where
  "settle repo clock reservation_id actual_usd db =
     rbind (nonnegative_microusd actual_usd) (\<lambda>actual.
     rbind (trial_now clock) (\<lambda>now.
       case reservation_by_id reservation_id db of
         None \<Rightarrow> Inl (TrialLookupError reservation_id)
       | Some reservation \<Rightarrow>
           if rv_status reservation \<noteq> RESERVED
           then Inl (LiveTrialDenied ''live-trial reservation already settled'')
           else rbind (budget_locked repo now db) (\<lambda>(db1, budget).
             if tb_reserved_microusd budget < rv_reserved_microusd reservation
             then Inl (TrialRuntimeError ''global live-trial reserved budget is inconsistent'')
             else Inr (update_reservation reservation_id
                    (\<lambda>r. r\<lparr>rv_actual_microusd := Some actual, rv_status := SETTLED, rv_settled_at := Some now\<rparr>)
                    (db1\<lparr>trial_budget := Some (budget\<lparr>
                       tb_reserved_microusd := tb_reserved_microusd budget - rv_reserved_microusd reservation,
                       tb_spent_microusd := tb_spent_microusd budget + actual, tb_updated_at := now\<rparr>)\<rparr>)))))"

definition global_budget ::
  "live_trial_repository \<Rightarrow> datetime \<Rightarrow> access_db \<Rightarrow> trial_error + (access_db \<times> (int \<times> int \<times> int))" where
  "global_budget repo clock db =
     rbind (trial_now clock) (\<lambda>now.
     rbind (budget_locked repo now db) (\<lambda>(db1, budget).
       Inr (db1, tb_cap_microusd budget, tb_spent_microusd budget, tb_reserved_microusd budget)))"

section \<open>Judge tokens\<close>

record judge_token_row =
  jt_token_sha256 :: string
  jt_jti :: string
  jt_expires_at :: datetime
  jt_revoked :: bool
  jt_created_at :: datetime
  jt_revoked_at :: "datetime option"

datatype audit_action = ISSUED | REVOKED

record judge_audit_row =
  ja_id :: string
  ja_token_id :: string
  ja_action :: audit_action
  ja_actor :: string
  ja_created_at :: datetime

record judge_db =
  judge_tokens :: "judge_token_row list"
  judge_audit :: "judge_audit_row list"

datatype judge_error = JudgeValueError string | JudgeIntegrityError

text \<open>2026-08-13 07:00 UTC.\<close>

definition MIN_JUDGE_TOKEN_EXPIRY :: nat where
  "MIN_JUDGE_TOKEN_EXPIRY = 63922201200000000"

definition validate_judge_token_expiry :: "datetime \<Rightarrow> judge_error + datetime" where
  "validate_judge_token_expiry t =
     (if \<not> is_aware t
      then Inl (JudgeValueError ''judge token expiry must be timezone-aware and at or after 2026-08-13T07:00:00Z'')
      else if instant t < MIN_JUDGE_TOKEN_EXPIRY
      then Inl (JudgeValueError ''judge token expiry must be at or after 2026-08-13T07:00:00Z'')
      else Inr (astimezone_utc t))"

definition validate_actor :: "string \<Rightarrow> judge_error + string" where
  "validate_actor actor =
     (let normalized = strip actor
      in if normalized = [] \<or> 128 < char_count normalized
         then Inl (JudgeValueError ''judge token audit actor is required and bounded'')
         else Inr normalized)"

definition add_audit ::
  "string \<Rightarrow> string \<Rightarrow> audit_action \<Rightarrow> string \<Rightarrow> datetime \<Rightarrow> judge_db \<Rightarrow> judge_error + judge_db" where
  "add_audit uuid token_id action actor now db =
     (let row = \<lparr>ja_id = ''judge_audit_'' @ uuid, ja_token_id = token_id, ja_action = action, ja_actor = actor,
                 ja_created_at = now\<rparr>
      in if ja_id row \<in> ja_id ` set (judge_audit db) then Inl JudgeIntegrityError
         else Inr (db\<lparr>judge_audit := judge_audit db @ [row]\<rparr>))"

definition register ::
  "(string \<Rightarrow> string) \<Rightarrow> datetime \<Rightarrow> string \<Rightarrow> string \<Rightarrow> string \<Rightarrow> datetime \<Rightarrow> string \<Rightarrow> judge_db \<Rightarrow> judge_error + judge_db" where
  "register sha now uuid token jti expires_at actor db =
     rbind (validate_judge_token_expiry expires_at) (\<lambda>normalized.
       if strip token = [] \<or> strip jti = [] then Inl (JudgeValueError ''judge token and JTI are required'')
       else rbind (validate_actor actor) (\<lambda>audit_actor.
         let token_sha256 = sha token
         in case find (\<lambda>r. jt_token_sha256 r = token_sha256 \<or> jt_jti r = jti) (judge_tokens db) of
              None \<Rightarrow>
                add_audit uuid jti ISSUED audit_actor now
                  (db\<lparr>judge_tokens := judge_tokens db @
                        [\<lparr>jt_token_sha256 = token_sha256, jt_jti = jti, jt_expires_at = normalized, jt_revoked = False,
                          jt_created_at = now, jt_revoked_at = None\<rparr>]\<rparr>)
            | Some existing \<Rightarrow>
                if jt_token_sha256 existing \<noteq> token_sha256 \<or> jt_jti existing \<noteq> jti
                then Inl (JudgeValueError ''judge token digest or JTI is already bound'')
                else if jt_revoked existing then Inl (JudgeValueError ''revoked judge tokens cannot be re-registered'')
                else if instant (jt_expires_at existing) \<noteq> instant normalized
                then Inl (JudgeValueError ''registered judge token expiry cannot change'')
                else Inr db))"

text \<open>Revocation of the row with a JTI: the audit row first, then the two columns.\<close>

definition revoke_row :: "datetime \<Rightarrow> string \<Rightarrow> string \<Rightarrow> judge_token_row \<Rightarrow> judge_db \<Rightarrow> judge_error + judge_db" where
  "revoke_row now uuid actor row db =
     (if jt_revoked row then Inr db
      else rbind (add_audit uuid (jt_jti row) REVOKED actor now db) (\<lambda>db1.
             Inr (db1\<lparr>judge_tokens := map (\<lambda>r. if jt_jti r = jt_jti row
                        then r\<lparr>jt_revoked := True, jt_revoked_at := Some now\<rparr> else r) (judge_tokens db1)\<rparr>)))"

definition revoke_token ::
  "(string \<Rightarrow> string) \<Rightarrow> datetime \<Rightarrow> string \<Rightarrow> string \<Rightarrow> string \<Rightarrow> judge_db \<Rightarrow> judge_error + judge_db" where
  "revoke_token sha now uuid token actor db =
     rbind (validate_actor actor) (\<lambda>audit_actor.
       case find (\<lambda>r. jt_token_sha256 r = sha token) (judge_tokens db) of
         None \<Rightarrow> Inr db
       | Some row \<Rightarrow> revoke_row now uuid audit_actor row db)"

definition revoke_by_token_id ::
  "datetime \<Rightarrow> string \<Rightarrow> string \<Rightarrow> string \<Rightarrow> judge_db \<Rightarrow> judge_error + (judge_db \<times> judge_token_row option)" where
  "revoke_by_token_id now uuid token_id actor db =
     (if strip token_id = [] then Inl (JudgeValueError ''judge token ID is required'')
      else rbind (validate_actor actor) (\<lambda>audit_actor.
        case find (\<lambda>r. jt_jti r = token_id) (judge_tokens db) of
          None \<Rightarrow> Inr (db, None)
        | Some row \<Rightarrow>
            rbind (revoke_row now uuid audit_actor row db) (\<lambda>db1.
              Inr (db1, find (\<lambda>r. jt_jti r = token_id) (judge_tokens db1)))))"

definition list_tokens :: "judge_db \<Rightarrow> judge_token_row list" where
  "list_tokens db = sort_key (\<lambda>r. (instant (jt_created_at r), jt_jti r)) (judge_tokens db)"

definition audit_events :: "judge_db \<Rightarrow> judge_audit_row list" where
  "audit_events db = sort_key (\<lambda>r. (instant (ja_created_at r), ja_id r)) (judge_audit db)"

definition token_active :: "(string \<Rightarrow> string) \<Rightarrow> datetime \<Rightarrow> string \<Rightarrow> judge_db \<Rightarrow> bool" where
  "token_active sha clock token db \<longleftrightarrow>
     (case find (\<lambda>r. jt_token_sha256 r = sha token) (judge_tokens db) of
        None \<Rightarrow> False
      | Some row \<Rightarrow> \<not> jt_revoked row \<and> instant clock < instant (jt_expires_at row))"

definition active_count :: "datetime \<Rightarrow> judge_db \<Rightarrow> nat" where
  "active_count clock db =
     length (filter (\<lambda>r. \<not> jt_revoked r \<and> instant clock < instant (jt_expires_at r)) (judge_tokens db))"

section \<open>Bearer authentication\<close>

record api_credential =
  ac_token :: string
  ac_subject :: string
  ac_role :: role
  ac_expires_at :: datetime
  ac_csrf_token :: "string option"
  ac_step_up_token :: "string option"
  ac_step_up_expires_at :: "datetime option"

definition present :: "string option \<Rightarrow> bool" where
  "present x \<longleftrightarrow> x \<noteq> None \<and> x \<noteq> Some []"

definition api_credential_check :: "api_credential \<Rightarrow> string + unit" where
  "api_credential_check c =
     (if char_count (ac_token c) < 32 \<or> ac_subject c = []
      then Inl ''API bearer credentials require strong token material and a subject''
      else if \<not> is_aware (ac_expires_at c) then Inl ''API credential expiry must be timezone-aware''
      else if ac_role c = APPROVER \<and>
              (\<not> present (ac_csrf_token c) \<or> \<not> present (ac_step_up_token c) \<or> ac_step_up_expires_at c = None)
      then Inl ''approver credentials require CSRF and step-up controls''
      else Inr ())"

definition DatabaseTokenAuthenticator ::
  "(string \<Rightarrow> string) \<Rightarrow> api_credential list \<Rightarrow> string + (string \<times> api_credential) list" where
  "DatabaseTokenAuthenticator sha credentials =
     (let table = map (\<lambda>c. (sha (ac_token c), c)) credentials
      in if distinct (map fst table) then Inr table else Inl ''API bearer credentials must be unique'')"

text \<open>One credential: the columns it sets, with \<open>revoked\<close> and \<open>created_at\<close> of an existing row untouched.\<close>

definition provision_one ::
  "(string \<Rightarrow> string) \<Rightarrow> datetime \<Rightarrow> string \<times> api_credential \<Rightarrow> access_db \<Rightarrow> trial_error + access_db" where
  "provision_one sha now entry db =
     (let (bearer, c) = entry;
          digest_of = (\<lambda>x. if present x then map_option sha x else None);
          assign = (\<lambda>p. p\<lparr>pr_bearer_sha256 := bearer, pr_role := ac_role c, pr_csrf_sha256 := digest_of (ac_csrf_token c),
                     pr_step_up_sha256 := digest_of (ac_step_up_token c), pr_expires_at := ac_expires_at c,
                     pr_step_up_expires_at := ac_step_up_expires_at c, pr_updated_at := now\<rparr>)
      in case principal_of db (ac_subject c) of
           None \<Rightarrow>
             insert_principal (assign \<lparr>pr_subject = ac_subject c, pr_bearer_sha256 = bearer, pr_role = ac_role c,
               pr_csrf_sha256 = None, pr_step_up_sha256 = None, pr_expires_at = ac_expires_at c,
               pr_step_up_expires_at = None, pr_revoked = False, pr_created_at = now, pr_updated_at = now\<rparr>) db
         | Some _ \<Rightarrow>
             if \<exists>p \<in> set (principals db). pr_subject p \<noteq> ac_subject c \<and> pr_bearer_sha256 p = bearer
             then Inl TrialIntegrityError
             else Inr (update_principal (ac_subject c) assign db))"

fun provision ::
  "(string \<Rightarrow> string) \<Rightarrow> datetime \<Rightarrow> (string \<times> api_credential) list \<Rightarrow> access_db \<Rightarrow> trial_error + access_db" where
  "provision sha now [] db = Inr db"
| "provision sha now (entry # entries) db = rbind (provision_one sha now entry db) (provision sha now entries)"

record authenticated =
  au_subject :: string
  au_role :: role
  au_incident_ids :: "string set"
  au_expires_at :: datetime
  au_csrf_token :: "string option"
  au_step_up_token :: "string option"
  au_step_up_expires_at :: "datetime option"

definition Principal :: "authenticated \<Rightarrow> string + authenticated" where
  "Principal p =
     (if au_subject p = [] then Inl ''principal subject and role are required''
      else if ''*'' \<in> au_incident_ids p then Inl ''wildcard incident authorization is forbidden''
      else if \<not> is_aware (au_expires_at p) then Inl ''principal expiry must be timezone-aware''
      else Inr p)"

definition can_access :: "authenticated \<Rightarrow> string \<Rightarrow> bool" where
  "can_access p incident_id \<longleftrightarrow> incident_id \<in> au_incident_ids p"

definition is_active :: "authenticated \<Rightarrow> datetime \<Rightarrow> bool" where
  "is_active p now \<longleftrightarrow> instant now < instant (au_expires_at p)"

text \<open>\<^verbatim>\<open>_aware\<close> of \<^verbatim>\<open>runtime/auth.py\<close>: a naive time is read as UTC.\<close>

definition aware :: "datetime \<Rightarrow> datetime" where
  "aware t = (if is_aware t then t else Aware (instant t) 0)"

definition authenticate ::
  "(string \<Rightarrow> string) \<Rightarrow> datetime \<Rightarrow> (string \<times> api_credential) list \<Rightarrow> string \<Rightarrow> access_db
   \<Rightarrow> string + authenticated option" where
  "authenticate sha now credentials bearer_token db =
     (let bearer = sha bearer_token; credential = map_of credentials bearer
      in case find (\<lambda>p. pr_bearer_sha256 p = bearer) (principals db) of
           None \<Rightarrow> Inr None
         | Some record \<Rightarrow>
             if pr_revoked record \<or> (credential = None \<and> pr_role record \<noteq> LIVE_TRIAL) \<or>
                instant (pr_expires_at record) \<le> instant now
             then Inr None
             else rbind (Principal
               \<lparr>au_subject = pr_subject record, au_role = pr_role record,
                au_incident_ids = set (map snd (filter (\<lambda>g. fst g = pr_subject record) (grants db))),
                au_expires_at = aware (pr_expires_at record), au_csrf_token = Option.bind credential ac_csrf_token,
                au_step_up_token = Option.bind credential ac_step_up_token,
                au_step_up_expires_at = map_option aware (pr_step_up_expires_at record)\<rparr>) (\<lambda>p. Inr (Some p)))"

definition revalidate :: "datetime \<Rightarrow> authenticated \<Rightarrow> access_db \<Rightarrow> bool" where
  "revalidate now p db \<longleftrightarrow>
     is_active p now \<and>
     (case principal_of db (au_subject p) of
        None \<Rightarrow> False
      | Some record \<Rightarrow> \<not> pr_revoked record \<and> pr_role record = au_role p \<and> instant now < instant (pr_expires_at record))"

section \<open>Authorization guards\<close>

datatype guard_error = HTTPException nat string | GuardTypeError

definition require_incident_access :: "authenticated \<Rightarrow> string \<Rightarrow> guard_error + unit" where
  "require_incident_access p incident_id = require (can_access p incident_id) (HTTPException 404 ''incident not found'')"

definition require_operator :: "authenticated \<Rightarrow> guard_error + unit" where
  "require_operator p = require (au_role p \<in> {OPERATOR, APPROVER}) (HTTPException 403 ''operator role required'')"

definition require_approver :: "authenticated \<Rightarrow> guard_error + unit" where
  "require_approver p = require (au_role p = APPROVER) (HTTPException 403 ''approver role required'')"

definition same_secret :: "string option \<Rightarrow> string option \<Rightarrow> guard_error + bool" where
  "same_secret held given =
     (case (held, given) of
        (Some a, Some b) \<Rightarrow> map_error (\<lambda>_. GuardTypeError) (compare_digest a b)
      | _ \<Rightarrow> Inr False)"

definition require_approval_controls ::
  "string set \<Rightarrow> datetime \<Rightarrow> authenticated \<Rightarrow> string option \<Rightarrow> string option \<Rightarrow> string option \<Rightarrow> guard_error + unit" where
  "require_approval_controls allowed_origins now p origin csrf_token step_up_token =
     rbind (require_approver p) (\<lambda>_.
     rbind (require (\<exists>x. origin = Some x \<and> x \<in> allowed_origins) (HTTPException 403 ''origin rejected'')) (\<lambda>_.
     rbind (same_secret (au_csrf_token p) csrf_token) (\<lambda>csrf_ok.
     rbind (require csrf_ok (HTTPException 403 ''CSRF validation failed'')) (\<lambda>_.
       if au_step_up_token p = None \<or> step_up_token = None \<or>
          (case au_step_up_expires_at p of None \<Rightarrow> True | Some t \<Rightarrow> instant t \<le> instant now)
       then Inl (HTTPException 403 ''step-up required'')
       else rbind (same_secret (au_step_up_token p) step_up_token) (\<lambda>step_up_ok.
              require step_up_ok (HTTPException 403 ''step-up required''))))))"

section \<open>Runs of the trial tables\<close>

text \<open>What the transaction of one operation does to the tables. \<open>clock\<close> is the reading the operation took before
  its transaction began; transactions of delayed operations commit with old readings, so a run does not
  order the readings. Principals, grants and incidents are also written by other components, which
  \<open>other\<close> allows without restriction.\<close>

inductive trial_step :: "live_trial_repository \<Rightarrow> datetime \<Rightarrow> access_db \<Rightarrow> access_db \<Rightarrow> bool" for repo clock where
  issue: "issue sha repo clock token uuid actor expires_at db = Inr (db', out) \<Longrightarrow> trial_step repo clock db db'"
| revoke: "revoke_trial clock subject actor db = Inr db' \<Longrightarrow> trial_step repo clock db db'"
| reserve: "reserve repo clock uuid subject amount operation db = Inr (db', i) \<Longrightarrow> trial_step repo clock db db'"
| bind: "bind_incident reservation_id subject incident_id db = Inr db' \<Longrightarrow> trial_step repo clock db db'"
| settle: "settle repo clock reservation_id actual db = Inr db' \<Longrightarrow> trial_step repo clock db db'"
| view: "global_budget repo clock db = Inr (db', out) \<Longrightarrow> trial_step repo clock db db'"
| other: "trial_step repo clock db (db\<lparr>principals := p, grants := g, trial_incidents := x\<rparr>)"

inductive trial_reachable :: "live_trial_repository \<Rightarrow> access_db \<Rightarrow> bool" for repo where
  start: "LiveTrialRepository global_cap_usd requests window_seconds = Inr repo \<Longrightarrow> trial_reachable repo empty_access_db"
| step: "trial_reachable repo db \<Longrightarrow> trial_step repo clock db db' \<Longrightarrow> trial_reachable repo db'"

text \<open>Runs whose transactions commit in the order of their clock readings, with the last reading.\<close>

inductive trial_history :: "live_trial_repository \<Rightarrow> nat \<Rightarrow> access_db \<Rightarrow> bool" for repo where
  start: "trial_history repo t empty_access_db"
| step: "trial_history repo t db \<Longrightarrow> trial_step repo clock db db' \<Longrightarrow> t \<le> instant clock \<Longrightarrow>
     trial_history repo (instant clock) db'"

section \<open>The budget\<close>

definition open_total :: "reservation_row list \<Rightarrow> int" where
  "open_total rs = sum_list (map rv_reserved_microusd (filter (\<lambda>r. rv_status r = RESERVED) rs))"

definition settled_amount :: "reservation_row \<Rightarrow> int" where
  "settled_amount r = (case rv_actual_microusd r of None \<Rightarrow> 0 | Some a \<Rightarrow> a)"

definition spent_total :: "reservation_row list \<Rightarrow> int" where
  "spent_total rs = sum_list (map settled_amount rs)"

text \<open>By how much settlements went over what had been reserved for them.\<close>

definition overruns :: "reservation_row list \<Rightarrow> int" where
  "overruns rs = sum_list (map (\<lambda>r. max 0 (settled_amount r - rv_reserved_microusd r)) rs)"

definition budget_ok :: "live_trial_repository \<Rightarrow> access_db \<Rightarrow> bool" where
  "budget_ok repo db \<longleftrightarrow>
     distinct (map rv_id (reservations db)) \<and>
     (\<forall>r \<in> set (reservations db). 0 \<le> rv_reserved_microusd r \<and> 0 \<le> settled_amount r \<and>
        (rv_status r = RESERVED \<longleftrightarrow> rv_actual_microusd r = None)) \<and>
     (case trial_budget db of
        None \<Rightarrow> reservations db = []
      | Some b \<Rightarrow> tb_cap_microusd b = lt_cap repo \<and> tb_reserved_microusd b = open_total (reservations db) \<and>
          tb_spent_microusd b = spent_total (reservations db) \<and>
          tb_spent_microusd b + tb_reserved_microusd b \<le> tb_cap_microusd b + overruns (reservations db))"

lemma round_ceiling_nonneg: "0 \<le> c \<Longrightarrow> 0 \<le> round_ceiling c e"
  by (simp add: round_ceiling_def neg_imp_zdiv_nonneg_iff div_nonpos_pos_le0)

lemma to_micro_nonneg: "0 \<le> c \<Longrightarrow> 0 \<le> to_micro c e"
  by (simp add: to_micro_def in_context_def Let_def round_ceiling_nonneg sgn_if)

lemma microusd_nonneg: "microusd x = Inr a \<Longrightarrow> 0 \<le> a"
  by (auto simp: microusd_def to_micro_nonneg split: option.splits decimal.splits if_splits)

lemma nonnegative_microusd_nonneg: "nonnegative_microusd x = Inr a \<Longrightarrow> 0 \<le> a"
  by (auto simp: nonnegative_microusd_def to_micro_nonneg split: option.splits decimal.splits if_splits)

lemma totals_append [simp]:
  "open_total (xs @ ys) = open_total xs + open_total ys"
  "spent_total (xs @ ys) = spent_total xs + spent_total ys"
  "overruns (xs @ ys) = overruns xs + overruns ys"
  by (simp_all add: open_total_def spent_total_def overruns_def)

lemma overruns_nonneg: "0 \<le> overruns rs"
  by (induction rs) (auto simp: overruns_def)

lemma find_split:
  assumes "find (\<lambda>r. rv_id r = i) rs = Some r" "distinct (map rv_id rs)"
  obtains us vs where "rs = us @ r # vs" "rv_id r = i" "i \<notin> rv_id ` set us" "i \<notin> rv_id ` set vs"
proof -
  obtain k where k: "k < length rs" "rv_id (rs ! k) = i" "r = rs ! k" "\<forall>j<k. rv_id (rs ! j) \<noteq> i"
    using assms(1) by (auto simp: find_Some_iff)
  then have rs: "rs = take k rs @ r # drop (Suc k) rs" by (simp add: id_take_nth_drop)
  from assms(2) have "distinct (map rv_id (take k rs @ r # drop (Suc k) rs))" using rs by simp
  then show thesis using that [OF rs] k by auto
qed

lemma update_unaffected:
  "i \<notin> rv_id ` set rs \<Longrightarrow> map (\<lambda>r. if rv_id r = i then f r else r) rs = rs"
  by (rule map_idI) auto

lemma budget_locked_ok:
  assumes "budget_locked repo now db = Inr (db1, b)" "budget_ok repo db" "0 \<le> lt_cap repo"
  shows "db1 = db\<lparr>trial_budget := Some b\<rparr>" "budget_ok repo db1"
  using assms by (auto simp: budget_locked_def budget_ok_def Let_def open_total_def spent_total_def overruns_def
      split: option.splits if_splits)

lemma budget_ok_frame:
  assumes "budget_ok repo db" "trial_budget db' = trial_budget db"
    "map rv_id (reservations db') = map rv_id (reservations db)"
    "list_all2 (\<lambda>r' r. rv_reserved_microusd r' = rv_reserved_microusd r \<and>
       rv_actual_microusd r' = rv_actual_microusd r \<and> rv_status r' = rv_status r) (reservations db') (reservations db)"
  shows "budget_ok repo db'"
proof -
  have totals: "open_total xs = open_total ys \<and> spent_total xs = spent_total ys \<and> overruns xs = overruns ys \<and>
      (xs = [] \<longleftrightarrow> ys = []) \<and>
      ((\<forall>r \<in> set xs. 0 \<le> rv_reserved_microusd r \<and> 0 \<le> settled_amount r \<and>
          (rv_status r = RESERVED \<longleftrightarrow> rv_actual_microusd r = None)) \<longleftrightarrow>
       (\<forall>r \<in> set ys. 0 \<le> rv_reserved_microusd r \<and> 0 \<le> settled_amount r \<and>
          (rv_status r = RESERVED \<longleftrightarrow> rv_actual_microusd r = None)))"
    if "list_all2 (\<lambda>r' r. rv_reserved_microusd r' = rv_reserved_microusd r \<and>
       rv_actual_microusd r' = rv_actual_microusd r \<and> rv_status r' = rv_status r) xs ys" for xs ys
    using that by (induction rule: list_all2_induct)
      (auto simp: open_total_def spent_total_def overruns_def settled_amount_def)
  from totals [OF assms(4)] assms(1-3) show ?thesis
    by (simp add: budget_ok_def split: option.splits)
qed

definition new_reservation :: "string \<Rightarrow> string \<Rightarrow> string \<Rightarrow> int \<Rightarrow> datetime \<Rightarrow> reservation_row" where
  "new_reservation reservation_id subject operation amount now =
     \<lparr>rv_id = reservation_id, rv_subject = subject, rv_incident_id = None, rv_operation = operation,
      rv_reserved_microusd = amount, rv_actual_microusd = None, rv_status = RESERVED, rv_created_at = now, rv_settled_at = None\<rparr>"

lemma reserve_ok:
  assumes "reserve repo clock uuid subject amount operation db = Inr (db', i)"
  obtains a now stored credential db1 b where "microusd amount = Inr a" "trial_now clock = Inr now"
    "trial_credentials db subject = Some stored" "rate_window repo now stored = Inr credential"
    "tc_rate_count credential < lt_requests_per_window repo" "budget_locked repo now db = Inr (db1, b)"
    "tb_spent_microusd b + tb_reserved_microusd b + a \<le> tb_cap_microusd b" "i \<notin> rv_id ` set (reservations db1)"
    "db' = db1\<lparr>trial_credentials := (trial_credentials db1)(subject \<mapsto>
               credential\<lparr>tc_rate_count := tc_rate_count credential + 1, tc_updated_at := now\<rparr>),
             trial_budget := Some (b\<lparr>tb_reserved_microusd := tb_reserved_microusd b + a, tb_updated_at := now\<rparr>),
             reservations := reservations db1 @ [new_reservation i subject operation a now]\<rparr>"
proof (cases "trial_credentials db subject")
  case None
  then show thesis using assms by (auto simp: reserve_def result_simps split: if_splits)
next
  case (Some stored)
  show thesis
  proof (cases "principal_of db subject")
    case None
    then show thesis using assms Some by (auto simp: reserve_def result_simps split: if_splits)
  next
    case (Some holder)
    with \<open>trial_credentials db subject = Some stored\<close> assms show thesis
      by (clarsimp simp: reserve_def result_simps Let_def new_reservation_def [symmetric] not_le
          split: if_splits prod.splits) (rule that; simp)
  qed
qed

lemma budget_ok_reserve:
  assumes "reserve repo clock uuid subject amount operation db = Inr (db', i)" "budget_ok repo db" "0 \<le> lt_cap repo"
  shows "budget_ok repo db'"
proof -
  obtain a now stored credential db1 b where a: "microusd amount = Inr a" and b: "budget_locked repo now db = Inr (db1, b)"
    and room: "tb_spent_microusd b + tb_reserved_microusd b + a \<le> tb_cap_microusd b" "i \<notin> rv_id ` set (reservations db1)"
    and db': "trial_budget db' = Some (b\<lparr>tb_reserved_microusd := tb_reserved_microusd b + a, tb_updated_at := now\<rparr>)"
      "reservations db' = reservations db1 @ [new_reservation i subject operation a now]"
    by (rule reserve_ok [OF assms(1)]) simp
  note l = budget_locked_ok [OF b assms(2,3)]
  show ?thesis
    using l(2) room db' microusd_nonneg [OF a] overruns_nonneg [of "reservations db"]
    by (auto simp: l(1) budget_ok_def open_total_def spent_total_def overruns_def settled_amount_def new_reservation_def)
qed

lemma budget_ok_settle:
  assumes "settle repo clock i actual db = Inr db'" "budget_ok repo db" "0 \<le> lt_cap repo"
  shows "budget_ok repo db'"
proof -
  from assms(1) obtain a now r db1 b where
    a: "nonnegative_microusd actual = Inr a" and r: "reservation_by_id i db = Some r" "rv_status r = RESERVED"
    and b: "budget_locked repo now db = Inr (db1, b)" and enough: "rv_reserved_microusd r \<le> tb_reserved_microusd b"
    and db': "db' = update_reservation i
        (\<lambda>r. r\<lparr>rv_actual_microusd := Some a, rv_status := SETTLED, rv_settled_at := Some now\<rparr>)
        (db1\<lparr>trial_budget := Some (b\<lparr>tb_reserved_microusd := tb_reserved_microusd b - rv_reserved_microusd r,
           tb_spent_microusd := tb_spent_microusd b + a, tb_updated_at := now\<rparr>)\<rparr>)"
    by (auto simp: settle_def result_simps split: option.splits if_splits prod.splits)
  note l = budget_locked_ok [OF b assms(2,3)]
  have d: "distinct (map rv_id (reservations db))" using assms(2) by (simp add: budget_ok_def)
  obtain us vs where rs: "reservations db = us @ r # vs" "rv_id r = i" "i \<notin> rv_id ` set us" "i \<notin> rv_id ` set vs"
    using find_split [OF r(1) [unfolded reservation_by_id_def] d] by blast
  have none: "rv_actual_microusd r = None" using assms(2) r(2) rs(1) by (auto simp: budget_ok_def)
  show ?thesis
    using l(2) r(2) none nonnegative_microusd_nonneg [OF a] rs
    by (auto simp: l(1) db' update_reservation_def budget_ok_def update_unaffected settled_amount_def
        open_total_def spent_total_def overruns_def)
qed

lemma issue_ok:
  assumes "issue sha repo clock token uuid actor expires_at db = Inr (db', out)"
  obtains now db1 b row where "trial_now clock = Inr now" "budget_locked repo now db = Inr (db1, b)"
    "trial_credentials db1 (''live-trial-'' @ uuid) = None"
    "trial_credentials db' = (trial_credentials db1)(''live-trial-'' @ uuid \<mapsto> row)"
    "tc_rate_window_started_at row = now" "tc_rate_count row = 0" "tc_created_at row = now"
    "trial_budget db' = trial_budget db1" "reservations db' = reservations db1"
proof -
  from assms obtain now db1 b holder db2 where w: "trial_now clock = Inr now" "budget_locked repo now db = Inr (db1, b)"
    and i: "insert_principal holder db1 = Inr db2" and free: "''live-trial-'' @ uuid \<notin> dom (trial_credentials db2)"
    and db': "db' = db2\<lparr>trial_credentials := (trial_credentials db2)(''live-trial-'' @ uuid \<mapsto>
        \<lparr>tc_subject = ''live-trial-'' @ uuid, tc_created_by = actor, tc_rate_window_started_at = now,
         tc_rate_count = 0, tc_revoked_at = None, tc_revoked_by = None, tc_created_at = now, tc_updated_at = now\<rparr>)\<rparr>"
    by (clarsimp simp: issue_def result_simps Let_def simp del: append.simps append_Cons split: if_splits prod.splits) blast
  from i have db2: "trial_credentials db2 = trial_credentials db1" "trial_budget db2 = trial_budget db1"
      "reservations db2 = reservations db1"
    by (auto simp: insert_principal_def split: if_splits)
  from free have "trial_credentials db1 (''live-trial-'' @ uuid) = None" by (simp add: db2 domIff)
  then show thesis by (rule that [OF w]) (simp add: db' db2)+
qed

lemma revoke_trial_ok:
  assumes "revoke_trial clock subject actor db = Inr db'"
  obtains credential now where "trial_credentials db subject = Some credential"
    "trial_credentials db' = (trial_credentials db)(subject \<mapsto> credential) \<or>
     trial_credentials db' = (trial_credentials db)(subject \<mapsto>
       credential\<lparr>tc_revoked_at := Some now, tc_revoked_by := Some actor, tc_updated_at := now\<rparr>)"
    "trial_budget db' = trial_budget db" "reservations db' = reservations db"
proof (cases "trial_credentials db subject")
  case None
  then show thesis using assms by (auto simp: revoke_trial_def result_simps)
next
  case (Some credential)
  show thesis
  proof (cases "principal_of db subject")
    case None
    then show thesis using assms Some by (auto simp: revoke_trial_def result_simps)
  next
    case (Some holder)
    with \<open>trial_credentials db subject = Some credential\<close> assms show thesis
      by (auto simp: revoke_trial_def update_principal_def result_simps map_upd_triv split: if_splits intro: that)
  qed
qed

lemma budget_ok_step:
  assumes "trial_step repo clock db db'" "budget_ok repo db" "0 \<le> lt_cap repo"
  shows "budget_ok repo db'"
  using assms(1)
proof cases
  case (issue sha token uuid actor expires_at out)
  obtain now db1 b where b: "budget_locked repo now db = Inr (db1, b)"
    and f: "trial_budget db' = trial_budget db1" "reservations db' = reservations db1"
    using issue_ok [OF issue] by metis
  show ?thesis
    by (rule budget_ok_frame [OF budget_locked_ok(2) [OF b assms(2,3)]]) (simp_all add: f list_all2_refl)
next
  case (revoke subject actor)
  have "trial_budget db' = trial_budget db" "reservations db' = reservations db"
    using revoke_trial_ok [OF revoke] by metis+
  then show ?thesis by (intro budget_ok_frame [OF assms(2)]) (simp_all add: list_all2_refl)
next
  case (reserve uuid subject amount operation i)
  then show ?thesis using budget_ok_reserve assms(2,3) by blast
next
  case (bind reservation_id subject incident_id)
  then show ?thesis
    by (intro budget_ok_frame [OF assms(2)])
      (auto simp: bind_incident_def update_reservation_def list_all2_map1 list_all2_refl split: option.splits if_splits)
next
  case (settle reservation_id actual)
  then show ?thesis using budget_ok_settle assms(2,3) by blast
next
  case (view out)
  then obtain now b where b: "budget_locked repo now db = Inr (db', b)"
    by (auto simp: global_budget_def result_simps split: prod.splits)
  then show ?thesis using budget_locked_ok(2) assms(2,3) by blast
next
  case (other p g x)
  then show ?thesis by (intro budget_ok_frame [OF assms(2)]) (simp_all add: list_all2_refl)
qed

lemma budget_ok_reachable: "trial_reachable repo db \<Longrightarrow> 0 \<le> lt_cap repo \<Longrightarrow> budget_ok repo db"
  by (induction rule: trial_reachable.induct) (auto simp: budget_ok_step, simp add: budget_ok_def empty_access_db_def)

lemma repository_ok:
  assumes "LiveTrialRepository cap n w = Inr repo"
  shows "0 \<le> lt_cap repo" "1 \<le> lt_requests_per_window repo" "1 \<le> lt_window_seconds repo"
  using assms microusd_nonneg by (auto simp: LiveTrialRepository_def result_simps split: if_splits)

section \<open>The rate limit\<close>

text \<open>The times of a subject's reservations, and how many lie in an interval.\<close>

definition reservation_times :: "string \<Rightarrow> access_db \<Rightarrow> nat list" where
  "reservation_times subject db =
     map (\<lambda>r. instant (rv_created_at r)) (filter (\<lambda>r. rv_subject r = subject) (reservations db))"

definition count_between :: "nat \<Rightarrow> nat \<Rightarrow> nat list \<Rightarrow> nat" where
  "count_between lo hi ts = length (filter (\<lambda>u. lo \<le> u \<and> u < hi) ts)"

definition window :: "live_trial_repository \<Rightarrow> nat" where
  "window repo = lt_window_seconds repo * 1000000"

text \<open>Times \<open>ts\<close> against a window of length \<open>W\<close> that started at \<open>ws\<close> and holds \<open>k\<close> of them, at clock reading \<open>t\<close>.\<close>

definition window_ok :: "nat \<Rightarrow> int \<Rightarrow> nat \<Rightarrow> nat list \<Rightarrow> nat \<Rightarrow> int \<Rightarrow> bool" where
  "window_ok W n t ts ws k \<longleftrightarrow>
     ws \<le> t \<and> (\<forall>u \<in> set ts. u \<le> t \<and> u < ws + W) \<and>
     k = int (length (filter (\<lambda>u. ws \<le> u) ts)) \<and> k \<le> n \<and>
     int (length (filter (\<lambda>u. ws < u + W \<and> u < ws) ts)) \<le> n \<and>
     (\<forall>x. int (count_between x (x + W) ts) \<le> 2 * n)"

definition rate_ok :: "live_trial_repository \<Rightarrow> nat \<Rightarrow> access_db \<Rightarrow> bool" where
  "rate_ok repo t db \<longleftrightarrow>
     (\<forall>r \<in> set (reservations db). rv_subject r \<in> dom (trial_credentials db)) \<and>
     (\<forall>s c. trial_credentials db s = Some c \<longrightarrow>
        window_ok (window repo) (lt_requests_per_window repo) t (reservation_times s db)
          (instant (tc_rate_window_started_at c)) (tc_rate_count c))"

lemma filter_cover:
  "(\<And>u. u \<in> set ts \<Longrightarrow> P u \<Longrightarrow> Q u \<or> R u) \<Longrightarrow> length (filter P ts) \<le> length (filter Q ts) + length (filter R ts)"
  by (induction ts) force+

lemma window_ok_later: "window_ok W n t ts ws k \<Longrightarrow> t \<le> t' \<Longrightarrow> window_ok W n t' ts ws k"
  by (auto simp: window_ok_def)

lemma window_ok_restart:
  assumes "window_ok W n t ts ws k" "ws + W \<le> now" "t \<le> now" "0 < W"
  shows "window_ok W n now ts now 0"
proof -
  have "length (filter (\<lambda>u. now < u + W \<and> u < now) ts) \<le> length (filter (\<lambda>u. ws \<le> u) ts) + length (filter (\<lambda>u. False) ts)"
    using assms by (intro filter_cover) auto
  moreover have "filter (\<lambda>u. now \<le> u) ts = []" using assms by (auto simp: window_ok_def filter_empty_conv)
  ultimately show ?thesis using assms unfolding window_ok_def by fastforce
qed

lemma window_ok_reserve:
  assumes "window_ok W n now ts ws k" "now < ws + W" "k < n"
  shows "window_ok W n now (ts @ [now]) ws (k + 1)"
proof -
  have "int (count_between x (x + W) (ts @ [now])) \<le> 2 * n" for x
  proof (cases "x \<le> now \<and> now < x + W")
    case False
    then show ?thesis using assms(1) by (auto simp: window_ok_def count_between_def)
  next
    case True
    have "length (filter (\<lambda>u. x \<le> u \<and> u < x + W) ts) \<le>
        length (filter (\<lambda>u. ws \<le> u) ts) + length (filter (\<lambda>u. ws < u + W \<and> u < ws) ts)"
      using True assms(1) by (intro filter_cover) (auto simp: window_ok_def)
    then show ?thesis using True assms by (auto simp: window_ok_def count_between_def)
  qed
  then show ?thesis using assms by (auto simp: window_ok_def)
qed

lemma budget_locked_frame:
  assumes "budget_locked repo now db = Inr (db1, b)"
  shows "trial_credentials db1 = trial_credentials db" "reservations db1 = reservations db"
  using assms by (auto simp: budget_locked_def Let_def split: option.splits if_splits)

lemma rate_ok_frame:
  assumes "rate_ok repo t db" "t \<le> t'"
    and "\<And>s. reservation_times s db' = reservation_times s db"
    and "rv_subject ` set (reservations db') = rv_subject ` set (reservations db)"
    and "\<And>s c. trial_credentials db' s = Some c \<Longrightarrow> \<exists>c0. trial_credentials db s = Some c0 \<and>
       tc_rate_window_started_at c = tc_rate_window_started_at c0 \<and> tc_rate_count c = tc_rate_count c0"
    and "dom (trial_credentials db) \<subseteq> dom (trial_credentials db')"
  shows "rate_ok repo t' db'"
  unfolding rate_ok_def
proof (intro conjI ballI allI impI)
  fix r assume "r \<in> set (reservations db')"
  then obtain r0 where "r0 \<in> set (reservations db)" "rv_subject r0 = rv_subject r" using assms(4) by force
  then show "rv_subject r \<in> dom (trial_credentials db')" using assms(1,6) unfolding rate_ok_def by (metis subset_iff)
next
  fix s c assume "trial_credentials db' s = Some c"
  then obtain c0 where "trial_credentials db s = Some c0"
      "tc_rate_window_started_at c = tc_rate_window_started_at c0" "tc_rate_count c = tc_rate_count c0"
    using assms(5) by blast
  with assms(1,2,3) show "window_ok (window repo) (lt_requests_per_window repo) t' (reservation_times s db')
      (instant (tc_rate_window_started_at c)) (tc_rate_count c)"
    by (metis rate_ok_def window_ok_later)
qed

lemma rate_ok_issue:
  assumes "issue sha repo clock token uuid actor expires_at db = Inr (db', out)" "rate_ok repo t db"
    "t \<le> instant clock" "1 \<le> lt_requests_per_window repo"
  shows "rate_ok repo (instant clock) db'"
proof -
  define s where "s = ''live-trial-'' @ uuid"
  obtain now db1 b row where w: "trial_now clock = Inr now" "budget_locked repo now db = Inr (db1, b)"
    "trial_credentials db1 s = None" "trial_credentials db' = (trial_credentials db1)(s \<mapsto> row)"
    "tc_rate_window_started_at row = now" "tc_rate_count row = 0" "reservations db' = reservations db1"
    by (rule issue_ok [OF assms(1)]) (simp add: s_def)
  note f = budget_locked_frame [OF w(2)]
  have now: "instant now = instant clock"
    using w(1) by (auto simp: trial_now_def astimezone_utc_def instant_def split: if_splits)
  have "\<forall>r \<in> set (reservations db). rv_subject r \<noteq> s"
    using assms(2) w(3) f(1) unfolding rate_ok_def by (metis domIff)
  then have "reservation_times s db' = []"
    by (auto simp: reservation_times_def w(7) f(2) filter_empty_conv)
  then have new: "window_ok (window repo) (lt_requests_per_window repo) (instant clock) (reservation_times s db')
      (instant (tc_rate_window_started_at row)) (tc_rate_count row)"
    using assms(4) by (simp add: window_ok_def w(5,6) now count_between_def)
  have times: "reservation_times x db' = reservation_times x db" for x
    by (simp add: reservation_times_def w(7) f(2))
  show ?thesis
    using assms(2,3) new
    by (auto simp: rate_ok_def w(4,7) f times dest: window_ok_later [OF _ assms(3)])
qed

lemma rate_ok_reserve:
  assumes "reserve repo clock uuid subject amount operation db = Inr (db', i)" "rate_ok repo t db"
    "t \<le> instant clock" "1 \<le> lt_window_seconds repo"
  shows "rate_ok repo (instant clock) db'"
proof -
  obtain a now stored credential db1 b where w: "trial_now clock = Inr now"
    "trial_credentials db subject = Some stored" "rate_window repo now stored = Inr credential"
    "tc_rate_count credential < lt_requests_per_window repo" "budget_locked repo now db = Inr (db1, b)"
    "trial_credentials db' = (trial_credentials db1)(subject \<mapsto>
       credential\<lparr>tc_rate_count := tc_rate_count credential + 1, tc_updated_at := now\<rparr>)"
    "reservations db' = reservations db1 @ [new_reservation i subject operation a now]"
    by (rule reserve_ok [OF assms(1)]) simp
  note f = budget_locked_frame [OF w(5)]
  have now: "instant now = instant clock"
    using w(1) by (auto simp: trial_now_def astimezone_utc_def instant_def split: if_splits)
  have W: "0 < window repo" using assms(4) by (simp add: window_def)
  have old: "window_ok (window repo) (lt_requests_per_window repo) t (reservation_times subject db)
      (instant (tc_rate_window_started_at stored)) (tc_rate_count stored)"
    using assms(2) w(2) by (simp add: rate_ok_def)
  have current: "window_ok (window repo) (lt_requests_per_window repo) (instant clock) (reservation_times subject db)
      (instant (tc_rate_window_started_at credential)) (tc_rate_count credential) \<and>
      instant clock < instant (tc_rate_window_started_at credential) + window repo"
    using w(3) window_ok_restart [OF old _ assms(3) W] window_ok_later [OF old assms(3)] W
    by (auto simp: rate_window_def window_def now Let_def split: if_splits)
  have times: "reservation_times x db' = reservation_times x db @ (if x = subject then [instant clock] else [])" for x
    by (simp add: reservation_times_def w(7) f(2) new_reservation_def now)
  show ?thesis
    using assms(2) window_ok_reserve [OF conjunct1 [OF current] conjunct2 [OF current] w(4)] w(2)
    by (auto simp: rate_ok_def w(6,7) f times new_reservation_def dest: window_ok_later [OF _ assms(3)])
qed

lemma update_reservation_times:
  assumes "\<And>r. rv_subject (g r) = rv_subject r" "\<And>r. rv_created_at (g r) = rv_created_at r"
  shows "reservation_times s (update_reservation i g db) = reservation_times s db"
    "rv_subject ` set (reservations (update_reservation i g db)) = rv_subject ` set (reservations db)"
proof -
  show "reservation_times s (update_reservation i g db) = reservation_times s db"
    by (simp add: reservation_times_def update_reservation_def filter_map comp_def assms if_distrib
        cong: if_cong)
  have "map rv_subject (reservations (update_reservation i g db)) = map rv_subject (reservations db)"
    by (simp add: update_reservation_def assms)
  then show "rv_subject ` set (reservations (update_reservation i g db)) = rv_subject ` set (reservations db)"
    by (metis list.set_map)
qed

lemma settle_ok:
  assumes "settle repo clock i actual db = Inr db'"
  obtains now a b b' db1 where "budget_locked repo now db = Inr (db1, b)"
    "db' = update_reservation i
        (\<lambda>r. r\<lparr>rv_actual_microusd := Some a, rv_status := SETTLED, rv_settled_at := Some now\<rparr>) (db1\<lparr>trial_budget := b'\<rparr>)"
  using assms by (auto simp: settle_def result_simps split: option.splits if_splits prod.splits)

lemma rate_ok_step:
  assumes "trial_step repo clock db db'" "rate_ok repo t db" "t \<le> instant clock"
    "1 \<le> lt_window_seconds repo" "1 \<le> lt_requests_per_window repo"
  shows "rate_ok repo (instant clock) db'"
  using assms(1)
proof cases
  case (issue sha token uuid actor expires_at out)
  then show ?thesis using rate_ok_issue assms(2,3,5) by blast
next
  case (revoke subject actor)
  show ?thesis
    by (rule revoke_trial_ok [OF revoke], rule rate_ok_frame [OF assms(2,3)])
      (auto simp: reservation_times_def split: if_splits)
next
  case (reserve uuid subject amount operation i)
  then show ?thesis using rate_ok_reserve assms(2-4) by blast
next
  case (bind i subject incident_id)
  then have db': "db' = update_reservation i (rv_incident_id_update (\<lambda>_. Some incident_id)) db"
    by (auto simp: bind_incident_def split: option.splits if_splits)
  show ?thesis
    by (rule rate_ok_frame [OF assms(2,3)])
      (simp_all add: db' update_reservation_times, auto simp: update_reservation_def)
next
  case (settle i actual)
  obtain now a b b' db1 where b: "budget_locked repo now db = Inr (db1, b)"
    and db': "db' = update_reservation i
        (\<lambda>r. r\<lparr>rv_actual_microusd := Some a, rv_status := SETTLED, rv_settled_at := Some now\<rparr>) (db1\<lparr>trial_budget := b'\<rparr>)"
    by (rule settle_ok [OF settle])
  have "reservation_times s (db1\<lparr>trial_budget := b'\<rparr>) = reservation_times s db" for s
    by (simp add: reservation_times_def budget_locked_frame [OF b])
  then show ?thesis
    by (intro rate_ok_frame [OF assms(2,3)])
      (simp_all add: db' update_reservation_times budget_locked_frame [OF b],
       auto simp: update_reservation_def budget_locked_frame [OF b])
next
  case (view out)
  then obtain now b where b: "budget_locked repo now db = Inr (db', b)"
    by (auto simp: global_budget_def result_simps split: prod.splits)
  show ?thesis
    by (rule rate_ok_frame [OF assms(2,3)]) (auto simp: reservation_times_def budget_locked_frame [OF b])
next
  case (other p g x)
  then show ?thesis by (intro rate_ok_frame [OF assms(2,3)]) (auto simp: reservation_times_def)
qed

lemma rate_ok_history:
  "trial_history repo t db \<Longrightarrow> 1 \<le> lt_window_seconds repo \<Longrightarrow> 1 \<le> lt_requests_per_window repo \<Longrightarrow> rate_ok repo t db"
  by (induction rule: trial_history.induct) (auto simp: rate_ok_step, simp add: rate_ok_def empty_access_db_def)

text \<open>What holds whatever the order of the readings: a window only starts a full length after the one before it,
  so the windows since the credential was issued bound all of its reservations.\<close>

definition uses_ok :: "live_trial_repository \<Rightarrow> string \<Rightarrow> trial_credential_row \<Rightarrow> access_db \<Rightarrow> bool" where
  "uses_ok repo subject c db \<longleftrightarrow>
     instant (tc_created_at c) \<le> instant (tc_rate_window_started_at c) \<and>
     0 \<le> tc_rate_count c \<and> tc_rate_count c \<le> lt_requests_per_window repo \<and>
     int (length (reservation_times subject db)) \<le>
       lt_requests_per_window repo *
         int ((instant (tc_rate_window_started_at c) - instant (tc_created_at c)) div window repo) + tc_rate_count c"

definition use_ok :: "live_trial_repository \<Rightarrow> access_db \<Rightarrow> bool" where
  "use_ok repo db \<longleftrightarrow>
     (\<forall>r \<in> set (reservations db). rv_subject r \<in> dom (trial_credentials db)) \<and>
     (\<forall>s c. trial_credentials db s = Some c \<longrightarrow> uses_ok repo s c db)"

lemma use_ok_frame:
  assumes "use_ok repo db"
    and "\<And>s. reservation_times s db' = reservation_times s db"
    and "rv_subject ` set (reservations db') = rv_subject ` set (reservations db)"
    and "\<And>s c. trial_credentials db' s = Some c \<Longrightarrow> \<exists>c0. trial_credentials db s = Some c0 \<and>
       tc_rate_window_started_at c = tc_rate_window_started_at c0 \<and> tc_rate_count c = tc_rate_count c0 \<and>
       tc_created_at c = tc_created_at c0"
    and "dom (trial_credentials db) \<subseteq> dom (trial_credentials db')"
  shows "use_ok repo db'"
  unfolding use_ok_def
proof (intro conjI ballI allI impI)
  fix r assume "r \<in> set (reservations db')"
  then obtain r0 where "r0 \<in> set (reservations db)" "rv_subject r0 = rv_subject r" using assms(3) by force
  then show "rv_subject r \<in> dom (trial_credentials db')" using assms(1,5) unfolding use_ok_def by (metis subset_iff)
next
  fix s c assume "trial_credentials db' s = Some c"
  then obtain c0 where c0: "trial_credentials db s = Some c0"
      "tc_rate_window_started_at c = tc_rate_window_started_at c0" "tc_rate_count c = tc_rate_count c0"
      "tc_created_at c = tc_created_at c0"
    using assms(4) by blast
  then have "uses_ok repo s c0 db" using assms(1) by (simp add: use_ok_def)
  then show "uses_ok repo s c db'" by (simp add: uses_ok_def c0 assms(2))
qed

lemma use_ok_issue:
  assumes "issue sha repo clock token uuid actor expires_at db = Inr (db', out)" "use_ok repo db"
    "1 \<le> lt_requests_per_window repo"
  shows "use_ok repo db'"
proof -
  define s where "s = ''live-trial-'' @ uuid"
  obtain now db1 b row where w: "budget_locked repo now db = Inr (db1, b)"
    "trial_credentials db1 s = None" "trial_credentials db' = (trial_credentials db1)(s \<mapsto> row)"
    "tc_rate_window_started_at row = now" "tc_rate_count row = 0" "tc_created_at row = now"
    "reservations db' = reservations db1"
    by (rule issue_ok [OF assms(1)]) (simp add: s_def)
  note f = budget_locked_frame [OF w(1)]
  have "\<forall>r \<in> set (reservations db). rv_subject r \<noteq> s"
    using assms(2) w(2) f(1) unfolding use_ok_def by (metis domIff)
  then have new: "reservation_times s db' = []"
    by (auto simp: reservation_times_def w(7) f(2) filter_empty_conv)
  have times: "reservation_times x db' = reservation_times x db" for x
    by (simp add: reservation_times_def w(7) f(2))
  have "uses_ok repo s row db'" using assms(3) by (simp add: uses_ok_def new w(4,5,6))
  then show ?thesis using assms(2) by (auto simp: use_ok_def uses_ok_def w(3,7) f times)
qed

lemma uses_ok_restart:
  assumes "uses_ok repo s stored db" "rate_window repo now stored = Inr credential" "0 < window repo"
    "1 \<le> lt_requests_per_window repo"
  shows "uses_ok repo s credential db"
proof (cases "credential = stored")
  case False
  let ?n = "lt_requests_per_window repo" and ?W = "window repo"
    and ?ws = "instant (tc_rate_window_started_at stored)" and ?cr = "instant (tc_created_at stored)"
  have c: "credential = stored\<lparr>tc_rate_window_started_at := now, tc_rate_count := 0\<rparr>" "?ws + ?W \<le> instant now"
    using assms(2) False by (auto simp: rate_window_def window_def Let_def split: if_splits)
  have cr: "?cr \<le> ?ws" using assms(1) by (simp add: uses_ok_def)
  have "(?ws - ?cr + ?W) div ?W \<le> (instant now - ?cr) div ?W" by (rule div_le_mono) (use c(2) cr in simp)
  then have "(?ws - ?cr) div ?W + 1 \<le> (instant now - ?cr) div ?W"
    using assms(3) by (subst (asm) div_add_self2) simp_all
  then have "int ((?ws - ?cr) div ?W) + 1 \<le> int ((instant now - ?cr) div ?W)" by linarith
  then have "?n * (int ((?ws - ?cr) div ?W) + 1) \<le> ?n * int ((instant now - ?cr) div ?W)"
    using assms(4) by (intro mult_left_mono) simp_all
  moreover have "int (length (reservation_times s db)) \<le> ?n * (int ((?ws - ?cr) div ?W) + 1)"
    using assms(1) by (simp add: uses_ok_def distrib_left)
  ultimately have "int (length (reservation_times s db)) \<le> ?n * int ((instant now - ?cr) div ?W)" by (rule order_trans [rotated])
  then show ?thesis using cr c(2) assms(4) by (simp add: uses_ok_def c(1))
qed (use assms(1) in simp)

lemma use_ok_reserve:
  assumes "reserve repo clock uuid subject amount operation db = Inr (db', i)" "use_ok repo db"
    "1 \<le> lt_window_seconds repo" "1 \<le> lt_requests_per_window repo"
  shows "use_ok repo db'"
proof -
  obtain a now stored credential db1 b where w:
    "trial_credentials db subject = Some stored" "rate_window repo now stored = Inr credential"
    "tc_rate_count credential < lt_requests_per_window repo" "budget_locked repo now db = Inr (db1, b)"
    "trial_credentials db' = (trial_credentials db1)(subject \<mapsto>
       credential\<lparr>tc_rate_count := tc_rate_count credential + 1, tc_updated_at := now\<rparr>)"
    "reservations db' = reservations db1 @ [new_reservation i subject operation a now]"
    by (rule reserve_ok [OF assms(1)]) simp
  note f = budget_locked_frame [OF w(4)]
  have times: "reservation_times x db' = reservation_times x db @ (if x = subject then [instant now] else [])" for x
    by (simp add: reservation_times_def w(6) f(2) new_reservation_def)
  have "uses_ok repo subject stored db" using assms(2) w(1) by (simp add: use_ok_def)
  then have "uses_ok repo subject credential db"
    by (rule uses_ok_restart [OF _ w(2) _ assms(4)]) (use assms(3) in \<open>simp add: window_def\<close>)
  then have "uses_ok repo subject (credential\<lparr>tc_rate_count := tc_rate_count credential + 1, tc_updated_at := now\<rparr>) db'"
    using w(3) by (simp add: uses_ok_def times)
  then show ?thesis
    using assms(2) w(1) by (auto simp: use_ok_def uses_ok_def w(5,6) f times new_reservation_def)
qed

lemma use_ok_step:
  assumes "trial_step repo clock db db'" "use_ok repo db" "1 \<le> lt_window_seconds repo" "1 \<le> lt_requests_per_window repo"
  shows "use_ok repo db'"
  using assms(1)
proof cases
  case (issue sha token uuid actor expires_at out)
  then show ?thesis using use_ok_issue assms(2,4) by blast
next
  case (revoke subject actor)
  show ?thesis
    by (rule revoke_trial_ok [OF revoke], rule use_ok_frame [OF assms(2)])
      (auto simp: reservation_times_def split: if_splits)
next
  case (reserve uuid subject amount operation i)
  then show ?thesis using use_ok_reserve assms(2-4) by blast
next
  case (bind i subject incident_id)
  then have db': "db' = update_reservation i (rv_incident_id_update (\<lambda>_. Some incident_id)) db"
    by (auto simp: bind_incident_def split: option.splits if_splits)
  show ?thesis
    by (rule use_ok_frame [OF assms(2)])
      (simp_all add: db' update_reservation_times, auto simp: update_reservation_def)
next
  case (settle i actual)
  obtain now a b b' db1 where b: "budget_locked repo now db = Inr (db1, b)"
    and db': "db' = update_reservation i
        (\<lambda>r. r\<lparr>rv_actual_microusd := Some a, rv_status := SETTLED, rv_settled_at := Some now\<rparr>) (db1\<lparr>trial_budget := b'\<rparr>)"
    by (rule settle_ok [OF settle])
  have "reservation_times s (db1\<lparr>trial_budget := b'\<rparr>) = reservation_times s db" for s
    by (simp add: reservation_times_def budget_locked_frame [OF b])
  then show ?thesis
    by (intro use_ok_frame [OF assms(2)])
      (simp_all add: db' update_reservation_times budget_locked_frame [OF b],
       auto simp: update_reservation_def budget_locked_frame [OF b])
next
  case (view out)
  then obtain now b where b: "budget_locked repo now db = Inr (db', b)"
    by (auto simp: global_budget_def result_simps split: prod.splits)
  show ?thesis
    by (rule use_ok_frame [OF assms(2)]) (auto simp: reservation_times_def budget_locked_frame [OF b])
next
  case (other p g x)
  then show ?thesis by (intro use_ok_frame [OF assms(2)]) (auto simp: reservation_times_def)
qed

lemma use_ok_reachable:
  "trial_reachable repo db \<Longrightarrow> 1 \<le> lt_window_seconds repo \<Longrightarrow> 1 \<le> lt_requests_per_window repo \<Longrightarrow> use_ok repo db"
  by (induction rule: trial_reachable.induct) (auto simp: use_ok_step, simp add: use_ok_def empty_access_db_def)

section \<open>The judge token registry\<close>

inductive judge_step :: "(string \<Rightarrow> string) \<Rightarrow> judge_db \<Rightarrow> judge_db \<Rightarrow> bool" for sha where
  register: "register sha now uuid token jti expires_at actor db = Inr db' \<Longrightarrow> judge_step sha db db'"
| revoke: "revoke_token sha now uuid token actor db = Inr db' \<Longrightarrow> judge_step sha db db'"
| revoke_id: "revoke_by_token_id now uuid token_id actor db = Inr (db', out) \<Longrightarrow> judge_step sha db db'"

definition empty_judge_db :: judge_db where
  "empty_judge_db = \<lparr>judge_tokens = [], judge_audit = []\<rparr>"

definition audits :: "judge_db \<Rightarrow> string \<Rightarrow> audit_action \<Rightarrow> nat" where
  "audits db jti action = length (filter (\<lambda>a. ja_token_id a = jti \<and> ja_action a = action) (judge_audit db))"

definition judge_ok :: "judge_db \<Rightarrow> bool" where
  "judge_ok db \<longleftrightarrow>
     distinct (map jt_jti (judge_tokens db)) \<and> distinct (map jt_token_sha256 (judge_tokens db)) \<and>
     (\<forall>r \<in> set (judge_tokens db). audits db (jt_jti r) ISSUED = 1 \<and>
        audits db (jt_jti r) REVOKED = (if jt_revoked r then 1 else 0) \<and> (jt_revoked r \<longleftrightarrow> jt_revoked_at r \<noteq> None)) \<and>
     (\<forall>a \<in> set (judge_audit db). ja_token_id a \<in> jt_jti ` set (judge_tokens db))"

lemma add_audit_ok:
  assumes "add_audit uuid jti action actor now db = Inr db'"
  shows "judge_tokens db' = judge_tokens db"
    "audits db' j b = audits db j b + (if j = jti \<and> b = action then 1 else 0)"
    "ja_token_id ` set (judge_audit db') = insert jti (ja_token_id ` set (judge_audit db))"
  using assms by (auto simp: add_audit_def audits_def Let_def split: if_splits)

lemma find_Some_set: "find P xs = Some x \<Longrightarrow> x \<in> set xs \<and> P x"
  by (metis find_Some_iff nth_mem)

lemma judge_ok_register:
  assumes "register sha now uuid token jti expires_at actor db = Inr db'" "judge_ok db"
  shows "judge_ok db'"
proof (cases "find (\<lambda>r. jt_token_sha256 r = sha token \<or> jt_jti r = jti) (judge_tokens db)")
  case (Some existing)
  then show ?thesis using assms by (auto simp: register_def result_simps Let_def split: if_splits)
next
  case None
  then have fresh: "\<forall>r \<in> set (judge_tokens db). jt_token_sha256 r \<noteq> sha token \<and> jt_jti r \<noteq> jti"
    by (auto simp: find_None_iff)
  obtain expiry who where a: "add_audit uuid jti ISSUED who now
      (db\<lparr>judge_tokens := judge_tokens db @ [\<lparr>jt_token_sha256 = sha token, jt_jti = jti, jt_expires_at = expiry,
         jt_revoked = False, jt_created_at = now, jt_revoked_at = None\<rparr>]\<rparr>) = Inr db'"
    using assms(1) None by (auto simp: register_def result_simps Let_def split: if_splits)
  have none: "audits db jti b = 0" for b
    using assms(2) fresh by (force simp: judge_ok_def audits_def filter_empty_conv)
  have aud: "audits db' j b = audits db j b + (if j = jti \<and> b = ISSUED then 1 else 0)" for j b
    using add_audit_ok(2) [OF a] by (simp add: audits_def)
  have rows: "\<forall>r \<in> set (judge_tokens db'). audits db' (jt_jti r) ISSUED = 1 \<and>
      audits db' (jt_jti r) REVOKED = (if jt_revoked r then 1 else 0) \<and> (jt_revoked r \<longleftrightarrow> jt_revoked_at r \<noteq> None)"
    using assms(2) fresh none add_audit_ok(1) [OF a] by (auto simp: judge_ok_def aud)
  have "ja_token_id ` set (judge_audit db') \<subseteq> jt_jti ` set (judge_tokens db')"
    using assms(2) add_audit_ok(1,3) [OF a] by (auto simp: judge_ok_def)
  then show ?thesis
    using assms(2) fresh rows add_audit_ok(1) [OF a] by (auto simp: judge_ok_def)
qed

lemma judge_ok_revoke_row:
  assumes "revoke_row now uuid actor row db = Inr db'" "judge_ok db" "row \<in> set (judge_tokens db)"
  shows "judge_ok db'"
proof (cases "jt_revoked row")
  case True
  then show ?thesis using assms by (simp add: revoke_row_def)
next
  case False
  define g :: "judge_token_row \<Rightarrow> judge_token_row" where "g = (\<lambda>r. if jt_jti r = jt_jti row then r\<lparr>jt_revoked := True, jt_revoked_at := Some now\<rparr> else r)"
  from assms(1) False obtain db1 where a: "add_audit uuid (jt_jti row) REVOKED actor now db = Inr db1"
    and db': "db' = db1\<lparr>judge_tokens := map g (judge_tokens db1)\<rparr>"
    by (auto simp: revoke_row_def result_simps g_def)
  note ok = add_audit_ok [OF a]
  have aud: "audits db' j b = audits db j b + (if j = jt_jti row \<and> b = REVOKED then 1 else 0)" for j b
    using ok(2) [of j b] by (simp add: db' audits_def)
  have unrevoked: "audits db (jt_jti row) REVOKED = 0" using assms(2,3) False by (auto simp: judge_ok_def)
  have same: "jt_jti (g r) = jt_jti r" "jt_token_sha256 (g r) = jt_token_sha256 r" for r by (simp_all add: g_def)
  have row: "r = row" if "r \<in> set (judge_tokens db)" "jt_jti r = jt_jti row" for r
    using that assms(2,3) by (metis judge_ok_def distinct_map inj_onD)
  have keys: "map jt_jti (judge_tokens db') = map jt_jti (judge_tokens db)"
      "map jt_token_sha256 (judge_tokens db') = map jt_token_sha256 (judge_tokens db)"
    by (simp_all add: db' ok(1) same)
  have rows: "\<forall>r \<in> set (judge_tokens db'). audits db' (jt_jti r) ISSUED = 1 \<and>
      audits db' (jt_jti r) REVOKED = (if jt_revoked r then 1 else 0) \<and> (jt_revoked r \<longleftrightarrow> jt_revoked_at r \<noteq> None)"
  proof
    fix r assume "r \<in> set (judge_tokens db')"
    then obtain r0 where "r0 \<in> set (judge_tokens db)" "r = g r0" by (auto simp: db' ok(1))
    then show "audits db' (jt_jti r) ISSUED = 1 \<and> audits db' (jt_jti r) REVOKED = (if jt_revoked r then 1 else 0) \<and>
        (jt_revoked r \<longleftrightarrow> jt_revoked_at r \<noteq> None)"
      using assms(2) False row unrevoked unfolding judge_ok_def aud by (auto simp: g_def)
  qed
  have "ja_token_id ` set (judge_audit db') \<subseteq> jt_jti ` set (judge_tokens db')"
    using assms(2,3) ok(3) keys(1) unfolding judge_ok_def db'
    by (auto simp del: map_map) (metis imageI list.set_map)+
  then show ?thesis using assms(2) keys rows by (auto simp: judge_ok_def)
qed

lemma judge_step_cases:
  assumes "judge_step sha db db'"
  obtains "\<exists>now uuid token jti expires_at actor. register sha now uuid token jti expires_at actor db = Inr db'"
    | "db' = db"
    | now uuid actor row where "row \<in> set (judge_tokens db)" "revoke_row now uuid actor row db = Inr db'"
  using assms
proof cases
  case (register now uuid token jti expires_at actor)
  then show thesis using that(1) by blast
next
  case (revoke now uuid token actor)
  show thesis
  proof (cases "find (\<lambda>r. jt_token_sha256 r = sha token) (judge_tokens db)")
    case None
    then show thesis using revoke that(2) by (auto simp: revoke_token_def result_simps)
  next
    case (Some row)
    then show thesis using revoke that(3) find_Some_set [OF Some] by (auto simp: revoke_token_def result_simps)
  qed
next
  case (revoke_id now uuid token_id actor out)
  show thesis
  proof (cases "find (\<lambda>r. jt_jti r = token_id) (judge_tokens db)")
    case None
    then show thesis using revoke_id that(2) by (auto simp: revoke_by_token_id_def result_simps split: if_splits)
  next
    case (Some row)
    then show thesis using revoke_id that(3) find_Some_set [OF Some]
      by (auto simp: revoke_by_token_id_def result_simps split: if_splits)
  qed
qed

lemma judge_ok_step: "judge_step sha db db' \<Longrightarrow> judge_ok db \<Longrightarrow> judge_ok db'"
  by (erule judge_step_cases) (auto intro: judge_ok_register judge_ok_revoke_row)

lemma judge_ok_run: "(judge_step sha)\<^sup>*\<^sup>* db db' \<Longrightarrow> judge_ok db \<Longrightarrow> judge_ok db'"
  by (induction rule: rtranclp_induct) (auto intro: judge_ok_step)

lemma judge_ok_empty: "judge_ok empty_judge_db"
  by (simp add: judge_ok_def empty_judge_db_def)

lemma find_revoked:
  "find (\<lambda>r. jt_token_sha256 r = h) (map (\<lambda>r. if jt_jti r = j then r\<lparr>jt_revoked := True, jt_revoked_at := t\<rparr> else r) xs) =
     map_option (\<lambda>r. if jt_jti r = j then r\<lparr>jt_revoked := True, jt_revoked_at := t\<rparr> else r)
       (find (\<lambda>r. jt_token_sha256 r = h) xs)"
  by (induction xs) auto

text \<open>What a step keeps of a digest's row: it stays, and stays revoked once it is.\<close>

lemma judge_step_keeps:
  assumes "judge_step sha db db'" "find (\<lambda>r. jt_token_sha256 r = h) (judge_tokens db) = Some row" "jt_revoked row"
  shows "\<exists>row'. find (\<lambda>r. jt_token_sha256 r = h) (judge_tokens db') = Some row' \<and> jt_revoked row'"
proof -
  have append: "find P (xs @ ys) = (case find P xs of None \<Rightarrow> find P ys | Some x \<Rightarrow> Some x)" for P and xs ys :: "'b list"
    by (induction xs) auto
  from assms(1) show ?thesis
  proof (cases rule: judge_step_cases)
    case 1
    then obtain now uuid token jti expires_at actor where
      r: "register sha now uuid token jti expires_at actor db = Inr db'" by blast
    have "judge_tokens db' = judge_tokens db \<or> (\<exists>x. judge_tokens db' = judge_tokens db @ [x])"
    proof (cases "find (\<lambda>r. jt_token_sha256 r = sha token \<or> jt_jti r = jti) (judge_tokens db)")
      case (Some existing)
      then show ?thesis using r by (auto simp: register_def result_simps Let_def split: if_splits)
    next
      case None
      then show ?thesis using r
        by (auto simp: register_def result_simps Let_def split: if_splits dest!: add_audit_ok(1))
    qed
    then show ?thesis using assms(2,3) by (auto simp: append)
  next
    case 2
    then show ?thesis using assms(2,3) by blast
  next
    case (3 now uuid actor row')
    then show ?thesis using assms(2,3)
      by (auto simp: revoke_row_def result_simps find_revoked split: if_splits dest!: add_audit_ok(1))
  qed
qed

lemma judge_run_keeps:
  assumes "(judge_step sha)\<^sup>*\<^sup>* db db'" "find (\<lambda>r. jt_token_sha256 r = h) (judge_tokens db) = Some row" "jt_revoked row"
  shows "\<exists>row'. find (\<lambda>r. jt_token_sha256 r = h) (judge_tokens db') = Some row' \<and> jt_revoked row'"
  using assms by (induction rule: rtranclp_induct) (auto dest: judge_step_keeps)

section \<open>Properties\<close>

text \<open>C33. The trial budget is the balance of the reservations: after any operations of the repository the budget
  row carries the configured cap, its reserved amount is the sum of the open reservations, its spent amount
  the sum of the settlements, and together they exceed the cap by no more than the settlements exceeded what
  was reserved for them.\<close>

theorem trial_budget_is_the_balance:
  assumes "LiveTrialRepository global_cap_usd requests window_seconds = Inr repo"
    and "trial_reachable repo db" "trial_budget db = Some b"
  shows "tb_cap_microusd b = lt_cap repo \<and>
    tb_reserved_microusd b = open_total (reservations db) \<and> tb_spent_microusd b = spent_total (reservations db) \<and>
    tb_spent_microusd b + tb_reserved_microusd b \<le> lt_cap repo + overruns (reservations db)"
  using budget_ok_reachable [OF assms(2) repository_ok(1) [OF assms(1)]] assms(3) by (simp add: budget_ok_def)

text \<open>A run: a cap of one dollar, a credential, a reservation of one dollar that is settled at two.\<close>

definition demo_repo :: live_trial_repository where
  "demo_repo = \<lparr>lt_cap = 1000000, lt_requests_per_window = 1, lt_window_seconds = 60\<rparr>"

definition demo_issue :: "trial_error + (access_db \<times> (string \<times> string \<times> datetime))" where
  "demo_issue = issue (\<lambda>s. s) demo_repo (Aware 10 0) ''t'' ''u'' ''op'' (Aware 200000000 0) empty_access_db"

definition demo_reserve :: "trial_error + (access_db \<times> string)" where
  "demo_reserve = rbind demo_issue (\<lambda>x. reserve demo_repo (Aware 20 0) ''r'' ''live-trial-u'' (Some (Decimal 1 0)) ''initial-run'' (fst x))"

definition demo_settle :: "trial_error + access_db" where
  "demo_settle = rbind demo_reserve (\<lambda>x. settle demo_repo (Aware 30 0) ''trial-reservation-r'' (Some (Decimal 2 0)) (fst x))"

definition demo_final :: access_db where
  "demo_final = (case demo_settle of Inl _ \<Rightarrow> empty_access_db | Inr db \<Rightarrow> db)"

lemma digits_rec: "n < 10 \<Longrightarrow> digits n = 1" "10 \<le> n \<Longrightarrow> digits n = Suc (digits (n div 10))"
  by (simp_all add: digits.simps [of n])

lemma demo_amounts: "microusd (Some (Decimal 1 0)) = Inr 1000000" "nonnegative_microusd (Some (Decimal 2 0)) = Inr 2000000"
  by (simp_all add: microusd_def nonnegative_microusd_def to_micro_def in_context_def digits_rec half_even_def round_ceiling_def)

lemmas trial_eval = demo_issue_def demo_reserve_def demo_settle_def demo_repo_def issue_def reserve_def settle_def
  trial_now_def is_aware_def astimezone_utc_def instant_def budget_locked_def insert_principal_def
  empty_access_db_def rate_window_def principal_of_def reservation_by_id_def update_reservation_def trial_reservation_id_def
  MAX_INSTANT_def rbind_def Let_def demo_amounts

lemma demo_repo_built: "LiveTrialRepository (Some (Decimal 1 0)) 1 60 = Inr demo_repo"
  by (simp add: LiveTrialRepository_def trial_eval)

lemma demo_runs: "is_ok demo_settle" "is_ok demo_reserve" "is_ok demo_issue"
  by (simp_all add: is_ok_def trial_eval)

lemma is_okE: "is_ok m \<Longrightarrow> (\<And>x. m = Inr x \<Longrightarrow> thesis) \<Longrightarrow> thesis"
  by (auto simp: is_ok_def split: sum.splits)

lemma demo_reserved:
  obtains db out where "demo_reserve = Inr (db, out)" "trial_reachable demo_repo db"
proof -
  obtain db1 out1 where 1: "demo_issue = Inr (db1, out1)" using demo_runs(3) by (auto elim: is_okE)
  obtain db2 out2 where 2: "demo_reserve = Inr (db2, out2)" using demo_runs(2) by (auto elim: is_okE)
  have "trial_reachable demo_repo db1"
    by (rule trial_reachable.step [OF trial_reachable.start [OF demo_repo_built] trial_step.issue])
      (rule 1 [unfolded demo_issue_def])
  moreover have "reserve demo_repo (Aware 20 0) ''r'' ''live-trial-u'' (Some (Decimal 1 0)) ''initial-run'' db1 = Inr (db2, out2)"
    using 2 by (simp add: demo_reserve_def rbind_def 1)
  ultimately have "trial_reachable demo_repo db2" by (rule trial_reachable.step [OF _ trial_step.reserve])
  with 2 show thesis by (rule that)
qed

lemma demo_reachable: "trial_reachable demo_repo demo_final"
proof -
  obtain db2 out2 where 2: "demo_reserve = Inr (db2, out2)" "trial_reachable demo_repo db2" by (rule demo_reserved)
  obtain db3 where 3: "demo_settle = Inr db3" using demo_runs(1) by (auto elim: is_okE)
  have "settle demo_repo (Aware 30 0) ''trial-reservation-r'' (Some (Decimal 2 0)) db2 = Inr db3"
    using 3 by (simp add: demo_settle_def rbind_def 2)
  from trial_reachable.step [OF 2(2) trial_step.settle [OF this]] show ?thesis by (simp add: demo_final_def 3)
qed

lemma demo_budget: "map_option (\<lambda>b. (tb_spent_microusd b, tb_cap_microusd b)) (trial_budget demo_final) = Some (2000000, 1000000)"
  by (simp add: demo_final_def trial_eval)

theorem trial_budget_is_the_balance_witness:
  "\<exists>b. trial_budget demo_final = Some b \<and> tb_spent_microusd b = spent_total (reservations demo_final)"
proof -
  obtain b where b: "trial_budget demo_final = Some b" using demo_budget by auto
  show ?thesis using trial_budget_is_the_balance [OF demo_repo_built demo_reachable b] b by blast
qed



text \<open>C35. The rate limit bounds what a credential can do over its life, in whatever order the clock readings of
  its requests reach their transactions: the stored counter never exceeds the quota, and the
  reservations made so far are at most the quota for every whole window length between the issue of
  the credential and the start of its current window, plus the counter.\<close>

theorem rate_limit_bounds_credential_use:
  assumes "LiveTrialRepository global_cap_usd requests window_seconds = Inr repo"
    and "trial_reachable repo db" "trial_credentials db subject = Some c"
  shows "instant (tc_created_at c) \<le> instant (tc_rate_window_started_at c) \<and>
    tc_rate_count c \<le> lt_requests_per_window repo \<and>
    int (length (reservation_times subject db)) \<le>
      lt_requests_per_window repo *
        int ((instant (tc_rate_window_started_at c) - instant (tc_created_at c)) div window repo) + tc_rate_count c"
  using use_ok_reachable [OF assms(2) repository_ok(3,2) [OF assms(1)]] assms(3)
  by (auto simp: use_ok_def uses_ok_def)

theorem rate_limit_bounds_credential_use_witness:
  "\<exists>db c. reservation_times ''live-trial-u'' db = [20] \<and> trial_credentials db ''live-trial-u'' = Some c \<and>
     instant (tc_rate_window_started_at c) = 10 \<and> tc_rate_count c \<le> 1"
proof -
  obtain db out where d: "demo_reserve = Inr (db, out)" "trial_reachable demo_repo db" by (rule demo_reserved)
  have "(case demo_reserve of Inr (db, _) \<Rightarrow> (\<exists>c. trial_credentials db ''live-trial-u'' = Some c \<and>
      instant (tc_rate_window_started_at c) = 10) \<and> reservation_times ''live-trial-u'' db = [20] | Inl _ \<Rightarrow> False)"
    by (simp add: trial_eval reservation_times_def)
  then have "(\<exists>c. trial_credentials db ''live-trial-u'' = Some c \<and> instant (tc_rate_window_started_at c) = 10) \<and>
      reservation_times ''live-trial-u'' db = [20]"
    by (simp only: d(1) sum.case prod.case)
  then obtain c where c: "trial_credentials db ''live-trial-u'' = Some c" "instant (tc_rate_window_started_at c) = 10"
    "reservation_times ''live-trial-u'' db = [20]"
    by blast
  with rate_limit_bounds_credential_use [OF demo_repo_built d(2) c(1)] show ?thesis
    by (auto simp: demo_repo_def)
qed

text \<open>When the transactions do commit in the order of their readings, the bound is local: no credential makes
  more than twice its quota of reservations within any span of the window's length, and the counter is
  the number of reservations since the current window began. Delayed requests escape this bound:
  their reservations carry readings from before the window they are counted in.\<close>

theorem rate_limit_bounds_every_window:
  assumes "LiveTrialRepository global_cap_usd requests window_seconds = Inr repo"
    and "trial_history repo t db" "trial_credentials db subject = Some c"
  shows "int (count_between x (x + window repo) (reservation_times subject db)) \<le> 2 * lt_requests_per_window repo \<and>
    tc_rate_count c = int (length (filter (\<lambda>u. instant (tc_rate_window_started_at c) \<le> u) (reservation_times subject db))) \<and>
    tc_rate_count c \<le> lt_requests_per_window repo"
proof -
  have "window_ok (window repo) (lt_requests_per_window repo) t (reservation_times subject db)
      (instant (tc_rate_window_started_at c)) (tc_rate_count c)"
    using rate_ok_history [OF assms(2) repository_ok(3) [OF assms(1)] repository_ok(2) [OF assms(1)]] assms(3)
    by (simp add: rate_ok_def)
  then show ?thesis by (simp add: window_ok_def)
qed

lemma demo_history:
  "\<exists>db c. trial_history demo_repo 20 db \<and> trial_credentials db ''live-trial-u'' = Some c \<and> reservation_times ''live-trial-u'' db = [20]"
proof -
  obtain db1 out1 where 1: "demo_issue = Inr (db1, out1)" using demo_runs(3) by (auto elim: is_okE)
  obtain db2 out2 where 2: "demo_reserve = Inr (db2, out2)" using demo_runs(2) by (auto elim: is_okE)
  have "trial_history demo_repo (instant (Aware 10 0)) db1"
    by (rule trial_history.step [OF trial_history.start [of _ 0] trial_step.issue]) (rule 1 [unfolded demo_issue_def], simp)
  moreover have "reserve demo_repo (Aware 20 0) ''r'' ''live-trial-u'' (Some (Decimal 1 0)) ''initial-run'' db1 = Inr (db2, out2)"
    using 2 by (simp add: demo_reserve_def rbind_def 1)
  ultimately have "trial_history demo_repo (instant (Aware 20 0)) db2"
    by (rule trial_history.step [OF _ trial_step.reserve]) (simp add: instant_def)
  moreover have "(case demo_reserve of Inr (db, _) \<Rightarrow> trial_credentials db ''live-trial-u'' \<noteq> None \<and>
      reservation_times ''live-trial-u'' db = [20] | Inl _ \<Rightarrow> False)"
    by (simp add: trial_eval reservation_times_def)
  ultimately show ?thesis by (auto simp: instant_def 2)
qed

theorem rate_limit_bounds_every_window_witness:
  "\<exists>db. reservation_times ''live-trial-u'' db = [20] \<and>
     int (count_between 15 (15 + window demo_repo) (reservation_times ''live-trial-u'' db)) \<le> 2 * lt_requests_per_window demo_repo"
proof -
  obtain db c where h: "trial_history demo_repo 20 db" "trial_credentials db ''live-trial-u'' = Some c"
    "reservation_times ''live-trial-u'' db = [20]" using demo_history by blast
  show ?thesis using rate_limit_bounds_every_window [OF demo_repo_built h(1,2), of 15] h(3) by blast
qed

text \<open>C36. A revoked judge token never becomes active again: once the token of a registered row has been revoked, no
  sequence of registrations and revocations makes it active at any time.\<close>

theorem revoked_judge_token_stays_inactive:
  assumes "find (\<lambda>r. jt_token_sha256 r = sha token) (judge_tokens db) = Some row"
    and "revoke_token sha now uuid token actor db = Inr db1"
    and "(judge_step sha)\<^sup>*\<^sup>* db1 db2"
  shows "\<not> token_active sha clock token db2"
proof -
  obtain who where r: "revoke_row now uuid who row db = Inr db1"
    using assms(1,2) by (auto simp: revoke_token_def result_simps)
  have "\<exists>row'. find (\<lambda>r. jt_token_sha256 r = sha token) (judge_tokens db1) = Some row' \<and> jt_revoked row'"
  proof (cases "jt_revoked row")
    case True
    then show ?thesis using r assms(1) by (simp add: revoke_row_def)
  next
    case False
    show ?thesis using False r assms(1)
      by (auto simp: revoke_row_def result_simps find_revoked dest!: add_audit_ok(1))
  qed
  then obtain row' where "find (\<lambda>r. jt_token_sha256 r = sha token) (judge_tokens db1) = Some row'" "jt_revoked row'" by blast
  from judge_run_keeps [OF assms(3) this] show ?thesis by (auto simp: token_active_def)
qed

definition demo_judge :: judge_db where
  "demo_judge = (case register (\<lambda>s. s) (Naive 0) ''1'' ''tok'' ''jti'' (Aware MIN_JUDGE_TOKEN_EXPIRY 0) ''op'' empty_judge_db of
     Inl _ \<Rightarrow> empty_judge_db | Inr db \<Rightarrow> db)"

lemma demo_texts: "strip ''tok'' = ''tok''" "strip ''jti'' = ''jti''" "validate_actor ''op'' = Inr ''op''"
  by code_simp+

lemma demo_judge_eval:
  "register (\<lambda>s. s) (Naive 0) ''1'' ''tok'' ''jti'' (Aware MIN_JUDGE_TOKEN_EXPIRY 0) ''op'' empty_judge_db = Inr demo_judge"
  "demo_judge =
     \<lparr>judge_tokens = [\<lparr>jt_token_sha256 = ''tok'', jt_jti = ''jti'', jt_expires_at = Aware MIN_JUDGE_TOKEN_EXPIRY 0,
        jt_revoked = False, jt_created_at = Naive 0, jt_revoked_at = None\<rparr>],
      judge_audit = [\<lparr>ja_id = ''judge_audit_1'', ja_token_id = ''jti'', ja_action = ISSUED, ja_actor = ''op'',
        ja_created_at = Naive 0\<rparr>]\<rparr>"
  by (simp_all add: demo_judge_def register_def validate_judge_token_expiry_def is_aware_def instant_def astimezone_utc_def
      rbind_def Let_def demo_texts add_audit_def empty_judge_db_def)

theorem revoked_judge_token_stays_inactive_witness:
  "token_active (\<lambda>s. s) (Naive 1) ''tok'' demo_judge \<and>
   (\<exists>db1. revoke_token (\<lambda>s. s) (Naive 1) ''2'' ''tok'' ''op'' demo_judge = Inr db1 \<and>
          \<not> token_active (\<lambda>s. s) (Naive 1) ''tok'' db1)"
proof -
  have act: "token_active (\<lambda>s. s) (Naive 1) ''tok'' demo_judge"
    by (simp add: token_active_def demo_judge_eval(2) instant_def MIN_JUDGE_TOKEN_EXPIRY_def)
  then obtain row where row: "find (\<lambda>r. jt_token_sha256 r = (\<lambda>s. s) ''tok'') (judge_tokens demo_judge) = Some row"
    by (auto simp: token_active_def split: option.splits)
  have "is_ok (revoke_token (\<lambda>s. s) (Naive 1) ''2'' ''tok'' ''op'' demo_judge)"
    by (simp add: is_ok_def revoke_token_def demo_texts rbind_def demo_judge_eval(2) revoke_row_def add_audit_def Let_def)
  then obtain db1 where db1: "revoke_token (\<lambda>s. s) (Naive 1) ''2'' ''tok'' ''op'' demo_judge = Inr db1"
    by (auto elim: is_okE)
  show ?thesis using act db1 revoked_judge_token_stays_inactive [OF row db1 rtranclp.rtrancl_refl] by blast
qed

text \<open>The audit trail accounts for every judge token: in every database the registry can build, a token row has
  exactly one issue entry, exactly one revocation entry if it is revoked and none otherwise, digests and
  identifiers are unique, and no entry is about an unknown token.\<close>

theorem judge_audit_accounts_for_every_token:
  assumes "(judge_step sha)\<^sup>*\<^sup>* empty_judge_db db"
  shows "distinct (map jt_jti (judge_tokens db)) \<and> distinct (map jt_token_sha256 (judge_tokens db)) \<and>
    (\<forall>r \<in> set (judge_tokens db). audits db (jt_jti r) ISSUED = 1 \<and>
       audits db (jt_jti r) REVOKED = (if jt_revoked r then 1 else 0)) \<and>
    ja_token_id ` set (judge_audit db) \<subseteq> jt_jti ` set (judge_tokens db)"
  using judge_ok_run [OF assms judge_ok_empty] by (auto simp: judge_ok_def)

theorem judge_audit_accounts_for_every_token_witness:
  "audits demo_judge ''jti'' ISSUED = 1 \<and> map jt_jti (judge_tokens demo_judge) = [''jti'']"
proof -
  have "judge_step (\<lambda>s. s) empty_judge_db demo_judge" by (rule judge_step.register) (rule demo_judge_eval(1))
  then have "(judge_step (\<lambda>s. s))\<^sup>*\<^sup>* empty_judge_db demo_judge" by blast
  from judge_audit_accounts_for_every_token [OF this]
  have a: "\<forall>r \<in> set (judge_tokens demo_judge). audits demo_judge (jt_jti r) ISSUED = 1" by blast
  have j: "map jt_jti (judge_tokens demo_judge) = [''jti'']" by (simp add: demo_judge_eval(2))
  then obtain r where "judge_tokens demo_judge = [r]" "jt_jti r = ''jti''" by (cases "judge_tokens demo_judge") auto
  with a j show ?thesis by auto
qed

text \<open>C40. Approval needs the configured secrets: whoever passes the approval controls after authenticating presented a
  bearer token whose digest is that of a configured credential, from an allowed origin, together with that
  credential's CSRF and step-up tokens, and the stored identity is an unrevoked, unexpired approver. A
  live-trial token never does.\<close>

theorem approval_needs_the_configured_secrets:
  assumes "authenticate sha now credentials bearer db = Inr (Some p)"
    and "require_approval_controls allowed_origins now p origin csrf step_up = Inr ()"
  shows "\<exists>c record. (sha bearer, c) \<in> set credentials \<and> record \<in> set (principals db) \<and>
     pr_bearer_sha256 record = sha bearer \<and> pr_role record = APPROVER \<and> \<not> pr_revoked record \<and>
     instant now < instant (pr_expires_at record) \<and> origin \<in> Some ` allowed_origins \<and>
     csrf \<noteq> None \<and> csrf = ac_csrf_token c \<and> step_up \<noteq> None \<and> step_up = ac_step_up_token c"
proof -
  from assms(1) obtain rec where f: "find (\<lambda>q. pr_bearer_sha256 q = sha bearer) (principals db) = Some rec"
    and ok: "\<not> pr_revoked rec" "instant now < instant (pr_expires_at rec)"
      "map_of credentials (sha bearer) = None \<longrightarrow> pr_role rec = LIVE_TRIAL"
    and p: "au_role p = pr_role rec" "au_csrf_token p = Option.bind (map_of credentials (sha bearer)) ac_csrf_token"
      "au_step_up_token p = Option.bind (map_of credentials (sha bearer)) ac_step_up_token"
    by (auto simp: authenticate_def Principal_def Let_def result_simps not_le split: option.splits if_splits)
  from assms(2) have g: "au_role p = APPROVER" "origin \<in> Some ` allowed_origins" "csrf \<noteq> None" "au_csrf_token p = csrf"
      "step_up \<noteq> None" "au_step_up_token p = step_up"
    by (auto simp: require_approval_controls_def require_approver_def require_def same_secret_def compare_digest_def
        result_simps map_error_def split: if_splits option.splits)
  then obtain c where c: "map_of credentials (sha bearer) = Some c" using ok(3) p(1) by auto
  show ?thesis
    by (rule exI [of _ c], rule exI [of _ rec]) (use c f ok p g find_Some_set [OF f] map_of_SomeD [OF c] in auto)
qed

definition demo_credential :: api_credential where
  "demo_credential = \<lparr>ac_token = replicate 32 CHR ''k'', ac_subject = ''judge'', ac_role = APPROVER, ac_expires_at = Aware 100 0,
     ac_csrf_token = Some ''c'', ac_step_up_token = Some ''s'', ac_step_up_expires_at = Some (Aware 100 0)\<rparr>"

definition demo_access :: access_db where
  "demo_access = (case provision (\<lambda>s. s) (Aware 1 0) [(replicate 32 CHR ''k'', demo_credential)] empty_access_db of
     Inl _ \<Rightarrow> empty_access_db | Inr db \<Rightarrow> db)"

theorem approval_needs_the_configured_secrets_witness:
  "\<exists>p. authenticate (\<lambda>s. s) (Aware 2 0) [(replicate 32 CHR ''k'', demo_credential)] (replicate 32 CHR ''k'') demo_access = Inr (Some p) \<and>
     require_approval_controls {''o''} (Aware 2 0) p (Some ''o'') (Some ''c'') (Some ''s'') = Inr () \<and>
     Some ''c'' = ac_csrf_token demo_credential"
proof -
  have auth: "authenticate (\<lambda>s. s) (Aware 2 0) [(replicate 32 CHR ''k'', demo_credential)] (replicate 32 CHR ''k'') demo_access =
      Inr (Some \<lparr>au_subject = ''judge'', au_role = APPROVER, au_incident_ids = {}, au_expires_at = Aware 100 0,
        au_csrf_token = Some ''c'', au_step_up_token = Some ''s'', au_step_up_expires_at = Some (Aware 100 0)\<rparr>)"
    by code_simp
  have ctl: "require_approval_controls {''o''} (Aware 2 0) \<lparr>au_subject = ''judge'', au_role = APPROVER, au_incident_ids = {},
        au_expires_at = Aware 100 0, au_csrf_token = Some ''c'', au_step_up_token = Some ''s'',
        au_step_up_expires_at = Some (Aware 100 0)\<rparr> (Some ''o'') (Some ''c'') (Some ''s'') = Inr ()"
    by (simp add: require_approval_controls_def require_approver_def require_def same_secret_def compare_digest_def
        is_ascii_def rbind_def map_error_def instant_def)
  from approval_needs_the_configured_secrets [OF auth ctl] auth ctl show ?thesis by auto
qed

end
