(* ===== verification/CP_Tables.thy ===== *)
theory CP_Tables
  imports CP_Store CP_Timeline CP_Fingerprint CP_Evidence CP_Access
begin

text \<open>
  The tables of the control plane (\<^verbatim>\<open>db/models.py\<close>) as the runtime store uses them together, generic access to
  their rows, and \<^verbatim>\<open>_append_locked\<close> of \<^verbatim>\<open>runtime/database.py\<close>, which repeats the statements of the timeline
  repository inside a larger transaction. Every event of the runtime is published, so the flag of an event row
  is left out; column widths are not modelled.
\<close>

section \<open>Rows\<close>

text \<open>The columns of an incident beside those the timeline uses.\<close>

record incident_columns =
  ic_scenario :: string
  ic_live_trial :: bool
  ic_owner_subject :: "string option"
  ic_base_sha :: "string option"
  ic_repository_manifest_sha256 :: "string option"
  ic_catalog_sha256 :: "string option"
  ic_pending_warrant_id :: "string option"

record evidence_row =
  er_id :: string
  er_incident_id :: string
  er_kind :: string
  er_provenance :: string
  er_sanitized_text :: string
  er_raw_sha256 :: string
  er_sanitized_sha256 :: string
  er_envelope_json :: string
  er_tags :: "payload list"
  er_published :: bool
  er_created_at :: datetime

record agent_run_row =
  run_id :: string
  run_incident_id :: string
  run_seat :: seat
  run_model :: string
  run_effort :: effort
  run_phase :: string
  run_escalation_count :: nat
  run_output_json :: string
  run_output_sha256 :: string
  run_semantic_sha256 :: string
  run_schema_status :: string
  run_failure_reason :: "string option"
  run_created_at :: datetime

record candidate_row =
  cand_id :: string
  cand_incident_id :: string
  cand_agent_run_id :: string
  cand_patch_sha256 :: string
  cand_normalized_diff :: string
  cand_allowed_paths :: "string list"
  cand_test_intentions :: "test_intention list"
  cand_predecessor_id :: "string option"
  cand_created_at :: datetime

record verdict_row =
  vr_id :: string
  vr_incident_id :: string
  vr_agent_run_id :: "string option"
  vr_verdict :: verdict
  vr_output_json :: string
  vr_verdict_sha256 :: string
  vr_source :: string
  vr_created_at :: datetime

datatype control_status = PENDING_APPROVAL | CW_APPROVED | CW_REJECTED | CW_EXPIRED

record control_warrant_row =
  cw_id :: string
  cw_incident_id :: string
  cw_canonical_document :: string
  cw_warrant_sha256 :: string
  cw_authority_json :: string
  cw_status :: control_status
  cw_approval_id :: "string option"
  cw_expires_at :: datetime
  cw_created_at :: datetime
  cw_updated_at :: datetime

record test_run_row =
  tr_id :: string
  tr_incident_id :: string
  tr_plan_id :: string
  tr_plan_sha256 :: string
  tr_result :: payload
  tr_created_at :: datetime

datatype work_kind = APPROVED_EXECUTION_WORK | TEST_REPAIR_WORK

datatype work_status = WORK_PENDING | WORK_RUNNING | WORK_COMPLETED

record work_row =
  wk_id :: string
  wk_incident_id :: string
  wk_warrant_id :: string
  wk_kind :: work_kind
  wk_status :: work_status
  wk_owner_id :: "string option"
  wk_attempt_count :: nat
  wk_created_at :: datetime
  wk_updated_at :: datetime
  wk_completed_at :: "datetime option"

record published_row =
  pb_revision :: nat
  pb_published :: bool
  pb_state :: incident_state
  pb_projection :: pyval
  pb_manifest_sha256 :: string
  pb_updated_at :: datetime

record runtime_db =
  control :: control_db
  columns :: "string \<rightharpoonup> incident_columns"
  access :: access_db
  evidence_rows :: "evidence_row list"
  agent_runs :: "agent_run_row list"
  candidates :: "candidate_row list"
  verdicts :: "verdict_row list"
  control_warrants :: "control_warrant_row list"
  broker_db :: warrant_db
  test_runs :: "test_run_row list"
  runtime_work :: "work_row list"
  published_cases :: "string \<rightharpoonup> published_row"

section \<open>Errors\<close>

datatype runtime_error =
    RtLookupError string
  | RtValueError string
  | RtRuntimeError string
  | RtPermissionError string
  | RtTypeError
  | RtIntegrityError
  | RtCanonicalization canonicalization_error
  | RtFingerprint fingerprint_error
  | RtSchemaError
  | RtPathError path_error
  | RtRepository repository_error
  | WarrantDecisionConflict string string

section \<open>Access to rows\<close>

definition row_by :: "('r \<Rightarrow> string) \<Rightarrow> string \<Rightarrow> 'r list \<Rightarrow> 'r option" where
  "row_by key i rows = find (\<lambda>r. key r = i) rows"

definition add_row :: "('r \<Rightarrow> string) \<Rightarrow> 'r \<Rightarrow> 'r list \<Rightarrow> runtime_error + 'r list" where
  "add_row key row rows = (if key row \<in> key ` set rows then Inl RtIntegrityError else Inr (rows @ [row]))"

definition put_row :: "('r \<Rightarrow> string) \<Rightarrow> 'r \<Rightarrow> 'r list \<Rightarrow> 'r list" where
  "put_row key row rows = map (\<lambda>r. if key r = key row then row else r) rows"

text \<open>\<^verbatim>\<open>ORDER BY created_at DESC, id DESC LIMIT 1\<close>.\<close>

fun latest_by :: "('r \<Rightarrow> datetime) \<Rightarrow> ('r \<Rightarrow> string) \<Rightarrow> 'r list \<Rightarrow> 'r option" where
  "latest_by time key [] = None"
| "latest_by time key (r # rs) =
     (case latest_by time key rs of
        None \<Rightarrow> Some r
      | Some q \<Rightarrow> Some (if (instant (time r), key r) < (instant (time q), key q) then q else r))"

lemma row_by_None: "row_by key i rows = None \<longleftrightarrow> i \<notin> key ` set rows"
  unfolding row_by_def find_None_iff by blast

lemma row_by_append: "row_by key i (xs @ ys) = (case row_by key i xs of None \<Rightarrow> row_by key i ys | Some r \<Rightarrow> Some r)"
  by (induction xs) (simp_all add: row_by_def)

lemma add_row_ok:
  assumes "add_row key row rows = Inr rows'"
  shows "rows' = rows @ [row]" "row_by key (key row) rows = None"
    "row_by key i rows' = (if i = key row then Some row else row_by key i rows)"
proof -
  from assms show *: "rows' = rows @ [row]" "row_by key (key row) rows = None"
    by (simp_all add: add_row_def row_by_None split: if_splits)
  then show "row_by key i rows' = (if i = key row then Some row else row_by key i rows)"
    by (cases "row_by key i rows") (auto simp: row_by_append, auto simp: row_by_def)
qed

lemma row_by_put: "row_by key i (put_row key row rows) =
    (if i = key row \<and> row_by key i rows \<noteq> None then Some row else row_by key i rows)"
  by (induction rows) (auto simp: put_row_def row_by_def)

lemma row_by_key: "row_by key i rows = Some r \<Longrightarrow> key r = i \<and> r \<in> set rows"
  unfolding row_by_def by (metis (mono_tags, lifting) find_Some_iff nth_mem)

section \<open>Timeline rows inside a transaction\<close>

record runtime_env =
  rt_sha :: "string \<Rightarrow> string"
  rt_text :: text_ops

definition rt_nfc :: "'z runtime_env_scheme \<Rightarrow> string \<Rightarrow> string" where
  "rt_nfc env = op_nfc (rt_text env)"

definition incident_of :: "runtime_db \<Rightarrow> string \<Rightarrow> incident_row option" where
  "incident_of db incident_id = incidents (control db) incident_id"

definition locked_incident :: "runtime_db \<Rightarrow> string \<Rightarrow> runtime_error + incident_row" where
  "locked_incident db incident_id =
     (case incident_of db incident_id of None \<Rightarrow> Inl (RtLookupError incident_id) | Some row \<Rightarrow> Inr row)"

definition append_locked ::
  "'z runtime_env_scheme \<Rightarrow> string \<Rightarrow> string \<Rightarrow> string \<Rightarrow> payload \<Rightarrow> datetime \<Rightarrow> string \<Rightarrow> runtime_db \<Rightarrow> runtime_error + runtime_db" where
  "append_locked env incident_id ty actor payload now uuid db =
     rbind (map_error RtRepository
       (append_event (rt_sha env) (rt_nfc env) (control db) incident_id ty actor payload now uuid)) (\<lambda>(c, _).
     Inr (db\<lparr>control := c\<rparr>))"

definition set_state :: "string \<Rightarrow> incident_state \<Rightarrow> runtime_db \<Rightarrow> runtime_db" where
  "set_state incident_id state db =
     db\<lparr>control := (control db)\<lparr>incidents := (incidents (control db))(incident_id :=
          map_option (\<lambda>row. row\<lparr>inc_state := state\<rparr>) (incidents (control db) incident_id))\<rparr>\<rparr>"

definition set_pending_warrant :: "string \<Rightarrow> string option \<Rightarrow> runtime_db \<Rightarrow> runtime_db" where
  "set_pending_warrant incident_id w db =
     db\<lparr>columns := (columns db)(incident_id :=
          map_option (\<lambda>c. c\<lparr>ic_pending_warrant_id := w\<rparr>) (columns db incident_id))\<rparr>"

definition canonical :: "'z runtime_env_scheme \<Rightarrow> pyval \<Rightarrow> runtime_error + string" where
  "canonical env v = map_error RtCanonicalization (canonical_json (rt_nfc env) v)"

definition digest :: "'z runtime_env_scheme \<Rightarrow> pyval \<Rightarrow> runtime_error + string" where
  "digest env v = map_error RtCanonicalization (sha256_hex (rt_sha env) (rt_nfc env) v)"

text \<open>\<^verbatim>\<open>hmac.compare_digest\<close> of two texts.\<close>

definition same_digest :: "string \<Rightarrow> string \<Rightarrow> runtime_error + bool" where
  "same_digest a b = map_error (\<lambda>_. RtTypeError) (compare_digest a b)"

end
