(* ===== verification/CP_Publication.thy ===== *)
theory CP_Publication
  imports CP_Tables CP_Sanitizer
begin

text \<open>
  What leaves the control plane: the title policy of \<^verbatim>\<open>public_titles.py\<close>, the field-name policies of
  \<^verbatim>\<open>publication_policy.py\<close> and of the evidence redaction in \<^verbatim>\<open>runtime/database.py\<close>, the event details of
  \<^verbatim>\<open>runtime/projection.py\<close>, and \<^verbatim>\<open>_publish_locked\<close>: the decision whether a case is public, its frozen state and
  its revision. The document that \<^verbatim>\<open>_publish_locked\<close> assembles from the tables is an argument of it.
  The results: a live trial is never published, a published case shows VERIFIED and stays published, and
  the redacted evidence carries no private field.
\<close>

section \<open>Titles\<close>

record publication_env = runtime_env +
  pe_unicode :: unicode
  pe_decimal_digits :: points
  pe_refloat :: "string \<Rightarrow> string option"
  pe_project :: "runtime_db \<Rightarrow> string \<Rightarrow> incident_state \<Rightarrow> runtime_error + pyval"

definition space_points :: points where
  "space_points = [9..<14] @ [28..<33] @ [133, 160, 5760] @ [8192..<8203] @ [8232, 8233, 8239, 8287, 12288]"

text \<open>The three patterns of \<^verbatim>\<open>_INTERNAL_RUN_PATTERNS\<close>, the digits \<^verbatim>\<open>\d\<close> being a Unicode table.\<close>

definition INTERNAL_RUN_PATTERNS :: "points \<Rightarrow> regex list" where
  "INTERNAL_RUN_PATTERNS decimal_digits =
     [cats [WordBoundary, nocase ''fresh'', Repeat (Among (45 # space_points)) 1 None True, nocase ''output'', WordBoundary],
      cats [WordBoundary, nocase ''release'', spaces 1, nocase ''evaluation'', WordBoundary],
      cats [WordBoundary, optional (cats [nocase ''qa'', spaces 1]), nocase_words [''run'', ''evaluation''], spaces 0,
            optional (Alt (exact ''#'') (cats [nocase ''no'', Repeat (Exactly 46) 0 (Some 1) True, spaces 0])),
            Repeat (Among decimal_digits) 1 None True, WordBoundary]]"

definition sanitize_text :: "'z publication_env_scheme \<Rightarrow> string \<Rightarrow> string \<Rightarrow> runtime_error + sanitized_evidence" where
  "sanitize_text env text provenance =
     map_error (\<lambda>_. RtValueError ''sanitize_evidence'')
       (sanitize_evidence (pe_unicode env) (rt_sha env) [] text (points_of provenance))"

definition public_title_issues :: "'z publication_env_scheme \<Rightarrow> string \<Rightarrow> runtime_error + string list" where
  "public_title_issues env title =
     (if strip title = [] then Inr [''SANITIZER_REJECTED'']
      else rbind (sanitize_text env title ''incident title'') (\<lambda>s.
        Inr ((if list_ex (\<lambda>p. search (pe_unicode env) p (decode_utf8 REPLACEMENT title) \<noteq> None)
                   (INTERNAL_RUN_PATTERNS (pe_decimal_digits env))
              then [''INTERNAL_RUN_VOCABULARY''] else []) @
             (if se_text s \<noteq> title \<or> se_tags s \<noteq> [] \<or> se_provenance_tags s \<noteq> [] \<or> se_truncated s
              then [''SANITIZER_REJECTED''] else []))))"

definition require_publishable_title :: "'z publication_env_scheme \<Rightarrow> string \<Rightarrow> runtime_error + string" where
  "require_publishable_title env title =
     rbind (public_title_issues env title) (\<lambda>issues.
       if issues \<noteq> [] then Inl (RtValueError ''public incident title policy rejected the recorded title'')
       else Inr title)"

text \<open>\<^verbatim>\<open>str.lower\<close> and \<^verbatim>\<open>capitalize\<close> of ASCII text; scenario names are ASCII.\<close>

definition upper_char :: "char \<Rightarrow> char" where
  "upper_char c = (if is_lower c then char_of (code c - 32) else c)"

definition ascii_lower :: "string \<Rightarrow> string" where
  "ascii_lower s = map lower_char s"

text \<open>\<^verbatim>\<open>re.sub(r"[^A-Za-z0-9]+", x, s)\<close> for a one-character replacement.\<close>

fun sub_separators :: "char \<Rightarrow> bool \<Rightarrow> string \<Rightarrow> string" where
  "sub_separators x in_run [] = []"
| "sub_separators x in_run (c # cs) =
     (if is_alnum c then c # sub_separators x False cs
      else if in_run then sub_separators x True cs
      else x # sub_separators x True cs)"

definition trim_char :: "char \<Rightarrow> string \<Rightarrow> string" where
  "trim_char x s = rev (dropWhile (\<lambda>c. c = x) (rev (dropWhile (\<lambda>c. c = x) s)))"

definition scenario_title :: "string \<Rightarrow> string" where
  "scenario_title scenario =
     (if ascii_lower scenario \<in> {''webhook-race'', ''webhook-worker''} then ''Duplicate order-paid delivery''
      else let words = ascii_lower (trim_char (CHR '' '') (sub_separators (CHR '' '') False scenario))
           in case words of [] \<Rightarrow> ''Recorded incident'' | c # cs \<Rightarrow> take 240 (upper_char c # cs @ '' incident''))"

definition public_display_title :: "'z publication_env_scheme \<Rightarrow> string \<Rightarrow> string \<Rightarrow> runtime_error + string" where
  "public_display_title env title scenario =
     rbind (public_title_issues env title) (\<lambda>issues. Inr (if issues = [] then title else scenario_title scenario))"

section \<open>Field names\<close>

text \<open>\<^verbatim>\<open>re.sub(r"([a-z0-9])([A-Z])", r"\1_\2", s)\<close>.\<close>

fun snake_case :: "string \<Rightarrow> string" where
  "snake_case (a # b # cs) =
     (if (is_lower a \<or> is_digit a) \<and> is_upper b then a # CHR ''_'' # snake_case (b # cs) else a # snake_case (b # cs))"
| "snake_case cs = cs"

definition normalize_public_key :: "string \<Rightarrow> string" where
  "normalize_public_key key =
     ascii_lower (trim_char (CHR ''_'') (sub_separators (CHR ''_'') False (snake_case key)))"

definition FORBIDDEN_PUBLIC_KEYS :: "string list" where
  "FORBIDDEN_PUBLIC_KEYS =
     [''access_token'', ''analysis'', ''api_key'', ''approval_mac_key'', ''approval_json'', ''approval_mac'', ''approval_nonce'',
      ''authority_json'', ''authorization'', ''canonical_document'', ''candidate_context'', ''credential'', ''document_json'',
      ''envelope_json'', ''nonce'', ''normalized_diff'', ''mutation_capability'', ''output_json'', ''passwd'', ''password'',
      ''patch_b64'', ''private_key'', ''raw'', ''raw_artifact_path'', ''raw_bytes'', ''raw_path'', ''raw_sha256'', ''receipt'',
      ''result_json'', ''secret'', ''secret_value'', ''server_mac'', ''shell_capability'', ''signing_key'', ''token'',
      ''test_run_capability'']"

definition FORBIDDEN_PUBLIC_KEY_PARTS :: "string list" where
  "FORBIDDEN_PUBLIC_KEY_PARTS =
     [''authorization'', ''credential'', ''nonce'', ''passwd'', ''password'', ''secret'', ''token'']"

definition key_parts :: "string \<Rightarrow> string set" where
  "key_parts normalized = set (split_on (CHR ''_'') normalized)"

definition is_forbidden_public_key :: "string \<Rightarrow> bool" where
  "is_forbidden_public_key key \<longleftrightarrow>
     (let normalized = normalize_public_key key; parts = key_parts normalized
      in normalized \<noteq> ''nonce_sha256'' \<and>
         (normalized \<in> set FORBIDDEN_PUBLIC_KEYS \<or> parts \<inter> set FORBIDDEN_PUBLIC_KEY_PARTS \<noteq> {} \<or>
          {''private'', ''key''} \<subseteq> parts \<or> {''signing'', ''key''} \<subseteq> parts \<or> prefix ''raw_'' normalized \<or>
          prefix ''nonce_'' normalized \<or> suffix ''_nonce'' normalized))"

definition PRIVATE_EVIDENCE_KEYS :: "string list" where
  "PRIVATE_EVIDENCE_KEYS =
     [''access_token'', ''api_key'', ''approval_mac'', ''approval_nonce'', ''approval_json'', ''authorization'', ''authority_json'',
      ''canonical_document'', ''document_json'', ''envelope_json'', ''nonce'', ''nonce_sha256'', ''patch_b64'',
      ''raw_artifact_path'', ''raw_bytes'', ''raw_path'', ''result_json'', ''secret'', ''server_mac'', ''token'']"

definition is_private_evidence_key :: "string \<Rightarrow> bool" where
  "is_private_evidence_key key \<longleftrightarrow>
     (let normalized = normalize_public_key key; parts = key_parts normalized
      in normalized \<in> set PRIVATE_EVIDENCE_KEYS \<or> ''nonce'' \<in> parts \<or> ''secret'' \<in> parts \<or>
         ''authorization'' \<in> parts \<or> ''token'' \<in> parts \<or> prefix ''raw_'' normalized)"

text \<open>Objects here are what \<^verbatim>\<open>json.loads\<close> returns: every key once.\<close>

fun without_private_evidence_fields :: "json \<Rightarrow> json" where
  "without_private_evidence_fields (JObj kvs) =
     JObj (map (\<lambda>(k, v). (k, without_private_evidence_fields v)) (filter (\<lambda>(k, v). \<not> is_private_evidence_key k) kvs))"
| "without_private_evidence_fields (JArr vs) = JArr (map without_private_evidence_fields vs)"
| "without_private_evidence_fields v = v"

fun contains_text :: "string \<Rightarrow> string \<Rightarrow> bool" where
  "contains_text needle s = (prefix needle s \<or> (case s of [] \<Rightarrow> False | c # cs \<Rightarrow> contains_text needle cs))"

text \<open>The Python value of a parsed document: a float literal is read and printed again by the argument
  \<open>pe_refloat\<close>, which has no text for the literals that are not finite.\<close>

fun loaded_py :: "(string \<Rightarrow> string option) \<Rightarrow> json \<Rightarrow> pyval" where
  "loaded_py refloat JNull = PyNone"
| "loaded_py refloat (JBool b) = PyBool b"
| "loaded_py refloat (JInt i) = PyInt i"
| "loaded_py refloat (JFloat s) = PyFloat (case refloat s of None \<Rightarrow> NonFinite s | Some r \<Rightarrow> Finite r)"
| "loaded_py refloat (JStr s) = PyStr s"
| "loaded_py refloat (JObj kvs) = PyMap (map (\<lambda>(k, v). (PyStr k, loaded_py refloat v)) kvs)"
| "loaded_py refloat (JArr vs) = PyList (map (loaded_py refloat) vs)"

text \<open>The text and the added tags of \<^verbatim>\<open>_published_evidence\<close>, from the parse of the stored text (\<open>None\<close> when it is
  not JSON). A document that is the number \<open>NaN\<close> differs from itself.\<close>

definition published_evidence_text ::
  "'z publication_env_scheme \<Rightarrow> json option \<Rightarrow> string \<Rightarrow> runtime_error + (string \<times> string list)" where
  "published_evidence_text env structured text =
     (case structured of
        None \<Rightarrow>
          if list_ex (\<lambda>key. contains_text key (normalize_public_key text)) PRIVATE_EVIDENCE_KEYS
          then Inr (''[PRIVATE_AUTHORITY_MATERIAL_REDACTED]'', [''PRIVATE_AUTHORITY_MATERIAL_REDACTED''])
          else Inr (text, [])
      | Some v \<Rightarrow>
          let redacted = without_private_evidence_fields v
          in if redacted \<noteq> v \<or> v = JFloat ''NaN''
             then rbind (canonical env (loaded_py (pe_refloat env) redacted))
                    (\<lambda>t. Inr (t, [''PRIVATE_AUTHORITY_MATERIAL_REDACTED'']))
             else Inr (text, []))"

definition published_evidence :: "'z publication_env_scheme \<Rightarrow> string \<Rightarrow> runtime_error + (string \<times> string list)" where
  "published_evidence env text =
     published_evidence_text env (case loads_plain text of Inl _ \<Rightarrow> None | Inr v \<Rightarrow> Some v) text"

section \<open>Event details\<close>

definition PUBLIC_EVENT_FIELDS :: "(string \<times> string list) list" where
  "PUBLIC_EVENT_FIELDS =
     [(''INCIDENT_OPENED'', [''scenario'', ''evidence_profile'']),
      (''REPRODUCTION_STARTED'', [''scenario'', ''evidence_profile'']),
      (''EVIDENCE_CAPTURED'', [''evidence_id'', ''outcome'', ''sanitized_sha256'']),
      (''REPRODUCTION_PASSED'', [''evidence_id'']),
      (''REPRODUCTION_INCONCLUSIVE'', [''evidence_id'']),
      (''ANALYSIS_STARTED'', []), (''RETRY_STARTED'', []),
      (''PATCH_REQUESTED'', [''phase'']),
      (''SEAT_STARTED'', [''seat'', ''phase'']),
      (''AGENT_OUTPUT_RECORDED'', [''seat'', ''phase'', ''effort'', ''output_sha256'', ''semantic_sha256'']),
      (''PATCH_PROPOSED'', [''candidate_id'', ''patch_sha256'']),
      (''VERDICT'', [''verdict'', ''remand_target'', ''reason'', ''failure_code'']),
      (''REASONING_ESCALATED'', [''seat'', ''effort'', ''escalation_count'', ''reason'']),
      (''FAILED_RETRY_DUPLICATE'', [''seat'', ''reason'']),
      (''WARRANT_APPROVED'', [''approval_id'', ''warrant_sha256'', ''approver_identity'']),
      (''WARRANT_REJECTED'', [''warrant_id'', ''warrant_sha256'']),
      (''EXECUTION_STARTED'', [''claim_id'', ''warrant_id'']),
      (''TEST_FAILED'', [''test_run_id'', ''warrant_id'', ''evidence_id'']),
      (''VERIFIED'', [''receipt_id'', ''warrant_id'', ''evidence_id'']),
      (''EXECUTION_FAILED'', [''warrant_id'', ''error_code'']),
      (''BAILIFF_COMPLETED'', [''warrant_id'', ''status'']),
      (''REPAIR_CYCLE_FAILED'', [''warrant_id'', ''error_code'']),
      (''BACKGROUND_TASK_FAILED'', [''operation'', ''failure_outcome'']),
      (''BACKGROUND_TASK_ERROR_REPORTED'', [''operation'', ''failure_outcome'']),
      (''MODEL_METRICS_RECORDED'',
        [''seat'', ''model'', ''effort'', ''source'', ''response_id'', ''request_id'', ''latency_ms'', ''input_tokens'',
         ''cached_input_tokens'', ''output_tokens'', ''total_tokens'', ''uncached'', ''cost_usd'', ''cost_status'',
         ''schema_valid'', ''failure_reason'', ''pricing_source'', ''pricing_version''])]"

definition public_fields :: "string \<Rightarrow> string list" where
  "public_fields ty = (case map_of PUBLIC_EVENT_FIELDS ty of None \<Rightarrow> [] | Some ks \<Rightarrow> sort ks)"

fun is_number :: "pyval \<Rightarrow> bool" where
  "is_number (PyBool _) \<longleftrightarrow> True"
| "is_number (PyInt _) \<longleftrightarrow> True"
| "is_number (PyFloat _) \<longleftrightarrow> True"
| "is_number _ \<longleftrightarrow> False"

fun event_details ::
  "'z publication_env_scheme \<Rightarrow> string \<Rightarrow> payload \<Rightarrow> string list \<Rightarrow> runtime_error + payload" where
  "event_details env ty payload [] = Inr []"
| "event_details env ty payload (key # keys) =
     (case map_of payload key of
        None \<Rightarrow> event_details env ty payload keys
      | Some item \<Rightarrow>
          (case str_value item of
             Some text \<Rightarrow>
               rbind (sanitize_text env text (''structured specialist output: timeline '' @ ty @ ''.'' @ key)) (\<lambda>s.
               rbind (event_details env ty payload keys) (\<lambda>rest. Inr ((key, PyStr (se_text s)) # rest)))
           | None \<Rightarrow>
               if is_number item
               then rbind (event_details env ty payload keys) (\<lambda>rest. Inr ((key, item) # rest))
               else event_details env ty payload keys))"

definition published_event_details ::
  "'z publication_env_scheme \<Rightarrow> string \<Rightarrow> payload \<Rightarrow> runtime_error + payload" where
  "published_event_details env ty payload = event_details env ty payload (public_fields ty)"

section \<open>Publication\<close>

definition publish_locked ::
  "'z publication_env_scheme \<Rightarrow> string \<Rightarrow> datetime \<Rightarrow> runtime_db \<Rightarrow> runtime_error + runtime_db" where
  "publish_locked env incident_id now db =
     (case (incident_of db incident_id, columns db incident_id) of
        (Some inc, Some cols) \<Rightarrow>
          (let current = published_cases db incident_id;
               published_snapshot = (case current of None \<Rightarrow> False | Some c \<Rightarrow> pb_published c);
               publishable = published_snapshot \<or> (\<not> ic_live_trial cols \<and> inc_state inc = VERIFIED)
           in rbind (if publishable \<and> \<not> published_snapshot
                     then rbind (require_publishable_title env (inc_title inc)) (\<lambda>_. Inr ()) else Inr ()) (\<lambda>_.
              rbind (case current of
                       None \<Rightarrow> Inr (inc_state inc)
                     | Some c \<Rightarrow>
                         if \<not> published_snapshot then Inr (inc_state inc)
                         else if pb_state c \<noteq> VERIFIED
                         then Inl (RtRuntimeError ''published operator snapshot is not VERIFIED'')
                         else Inr (pb_state c)) (\<lambda>projection_state.
              rbind (pe_project env db incident_id projection_state) (\<lambda>projection.
              rbind (digest env projection) (\<lambda>manifest.
                Inr (db\<lparr>published_cases := (published_cases db)(incident_id \<mapsto>
                  \<lparr>pb_revision = (case current of None \<Rightarrow> 1 | Some c \<Rightarrow> pb_revision c + 1), pb_published = publishable,
                   pb_state = projection_state, pb_projection = projection, pb_manifest_sha256 = manifest,
                   pb_updated_at = now\<rparr>)\<rparr>)))))
           )
      | _ \<Rightarrow> Inl (RtLookupError incident_id))"

section \<open>What publication keeps\<close>

text \<open>A public case shows a verified incident that is no live trial, and cases belong to incidents.\<close>

definition publication_ok :: "runtime_db \<Rightarrow> bool" where
  "publication_ok db \<longleftrightarrow>
     (\<forall>i row. published_cases db i = Some row \<longrightarrow> incident_of db i \<noteq> None \<and>
        (pb_published row \<longrightarrow> pb_state row = VERIFIED \<and> (\<exists>c. columns db i = Some c \<and> \<not> ic_live_trial c)))"

text \<open>A public case stays public, and its revision never falls.\<close>

definition stays_published :: "runtime_db \<Rightarrow> runtime_db \<Rightarrow> bool" where
  "stays_published db db' \<longleftrightarrow>
     (\<forall>i row. published_cases db i = Some row \<longrightarrow> (\<exists>row'. published_cases db' i = Some row' \<and>
        (pb_published row \<longrightarrow> pb_published row') \<and> pb_revision row \<le> pb_revision row'))"

lemma publish_locked_ok:
  assumes "publish_locked env i now db = Inr db'"
  obtains inc cols row where "incident_of db i = Some inc" "columns db i = Some cols"
    "db' = db\<lparr>published_cases := (published_cases db)(i \<mapsto> row)\<rparr>"
    "pb_revision row = (case published_cases db i of None \<Rightarrow> 1 | Some c \<Rightarrow> pb_revision c + 1)"
    "pb_published row \<longleftrightarrow> (\<exists>c. published_cases db i = Some c \<and> pb_published c) \<or> (\<not> ic_live_trial cols \<and> inc_state inc = VERIFIED)"
    "pb_published row \<Longrightarrow> pb_state row = VERIFIED"
proof -
  from assms obtain inc cols where ic: "incident_of db i = Some inc" "columns db i = Some cols"
    by (auto simp: publish_locked_def split: option.splits)
  from assms ic show thesis
    by (cases "published_cases db i")
      (auto simp: publish_locked_def Let_def result_simps split: if_splits intro!: that [OF ic])
qed

lemma publish_keeps_publication:
  assumes "publish_locked env i now db = Inr db'"
  shows "publication_ok db \<Longrightarrow> publication_ok db'" "stays_published db db'"
proof -
  obtain inc cols row where p: "incident_of db i = Some inc" "columns db i = Some cols"
    "db' = db\<lparr>published_cases := (published_cases db)(i \<mapsto> row)\<rparr>"
    "pb_revision row = (case published_cases db i of None \<Rightarrow> 1 | Some c \<Rightarrow> pb_revision c + 1)"
    "pb_published row \<longleftrightarrow> (\<exists>c. published_cases db i = Some c \<and> pb_published c) \<or> (\<not> ic_live_trial cols \<and> inc_state inc = VERIFIED)"
    "pb_published row \<Longrightarrow> pb_state row = VERIFIED"
    using publish_locked_ok [OF assms] by blast
  show "publication_ok db'" if ok: "publication_ok db"
  proof -
    have "\<not> ic_live_trial cols" if pub: "pb_published row"
    proof (cases "\<not> ic_live_trial cols \<and> inc_state inc = VERIFIED")
      case False
      then obtain c where "published_cases db i = Some c" "pb_published c" using pub p(5) by blast
      then show ?thesis using ok p(2) unfolding publication_ok_def by force
    qed simp
    then show ?thesis using ok p(1,2,6) by (auto simp: p(3) publication_ok_def incident_of_def)
  qed
  show "stays_published db db'"
    using p by (auto simp: stays_published_def)
qed

lemma publish_frame:
  assumes "publish_locked env i now db = Inr db'"
  shows "control db' = control db" "columns db' = columns db" "control_warrants db' = control_warrants db"
    "broker_db db' = broker_db db" "runtime_work db' = runtime_work db" "test_runs db' = test_runs db"
proof -
  obtain row where "db' = db\<lparr>published_cases := (published_cases db)(i \<mapsto> row)\<rparr>"
    using publish_locked_ok [OF assms] by blast
  then show "control db' = control db" "columns db' = columns db" "control_warrants db' = control_warrants db"
    "broker_db db' = broker_db db" "runtime_work db' = runtime_work db" "test_runs db' = test_runs db"
    by simp_all
qed

section \<open>Private fields\<close>

fun json_keys :: "json \<Rightarrow> string set" where
  "json_keys (JObj kvs) = fst ` set kvs \<union> (\<Union>(k, v) \<in> set kvs. json_keys v)"
| "json_keys (JArr vs) = (\<Union>v \<in> set vs. json_keys v)"
| "json_keys _ = {}"

lemma redacted_keys: "k \<in> json_keys (without_private_evidence_fields v) \<Longrightarrow> \<not> is_private_evidence_key k \<and> k \<in> json_keys v"
proof (induction v arbitrary: k)
  case (JObj kvs)
  then consider v where "(k, v) \<in> set kvs" "\<not> is_private_evidence_key k"
    | a v where "(a, v) \<in> set kvs" "k \<in> json_keys (without_private_evidence_fields v)"
    by (auto simp: case_prod_beta)
  then show ?case
  proof cases
    case 1
    then show ?thesis by force
  next
    case 2
    have "\<not> is_private_evidence_key k \<and> k \<in> json_keys v" using JObj.IH [of "(a, v)" v] 2 by simp
    then show ?thesis using 2(1) by force
  qed
next
  case (JArr vs)
  then show ?case by auto
qed auto

lemma unredacted_keys: "without_private_evidence_fields v = v \<Longrightarrow> k \<in> json_keys v \<Longrightarrow> \<not> is_private_evidence_key k"
  using redacted_keys [of k v] by simp

text \<open>Canonicalisation puts every key into normal form and adds none.\<close>

fun py_keys :: "pyval \<Rightarrow> string set" where
  "py_keys (PyMap items) = (\<Union>(k, v) \<in> set items. set_option (key_string k) \<union> py_keys v)"
| "py_keys (PyList vs) = (\<Union>v \<in> set vs. py_keys v)"
| "py_keys (PySet vs) = (\<Union>v \<in> set vs. py_keys v)"
| "py_keys (PyRootModel v) = py_keys v"
| "py_keys (PyBaseModel v) = py_keys v"
| "py_keys (PyEnum v) = py_keys v"
| "py_keys _ = {}"

lemma normalize_keys:
  "normalize nfc v = Inr j \<Longrightarrow> json_keys j \<subseteq> nfc ` py_keys v"
  "normalize_list nfc vs = Inr js \<Longrightarrow> (\<Union>j \<in> set js. json_keys j) \<subseteq> nfc ` (\<Union>v \<in> set vs. py_keys v)"
  "normalize_items nfc acc items = Inr kvs \<Longrightarrow>
     json_keys (JObj kvs) \<subseteq> json_keys (JObj acc) \<union> nfc ` py_keys (PyMap items)"
proof (induction nfc v and nfc vs and nfc acc items arbitrary: j and js and kvs
    rule: normalize_normalize_list_normalize_items.induct)
  case (11 nfc items)
  then obtain kvs where kvs: "normalize_items nfc [] items = Inr kvs" "j = JObj (sort_key fst kvs)"
    by (auto simp: result_simps)
  have "json_keys j = json_keys (JObj kvs)" by (simp add: kvs(2))
  then show ?case using "11.IH" [OF kvs(1)] by simp
next
  case (12 nfc vs)
  then obtain js where js: "normalize_list nfc vs = Inr js" "j = JArr (sort_key dumps js)" by (auto simp: result_simps)
  show ?case using "12.IH" [OF js(1)] by (simp add: js(2))
next
  case (13 nfc vs)
  then obtain js where js: "normalize_list nfc vs = Inr js" "j = JArr js" by (auto simp: result_simps)
  show ?case using "13.IH" [OF js(1)] by (simp add: js(2))
next
  case (16 nfc v vs)
  then obtain a as where a: "normalize nfc v = Inr a" "normalize_list nfc vs = Inr as" "js = a # as"
    by (auto simp: result_simps)
  show ?case using "16.IH"(1) [OF a(1)] "16.IH"(2) [OF a(1,2)] by (simp add: a(3) image_Un le_supI1 le_supI2)
next
  case (18 nfc acc raw_key raw_value items)
  then obtain k a where k: "key_string raw_key = Some k" "nfc k \<notin> set (map fst acc)"
    and a: "normalize nfc raw_value = Inr a" "normalize_items nfc (acc @ [(nfc k, a)]) items = Inr kvs"
    by (auto simp: result_simps split: option.splits if_splits)
  have "json_keys a \<subseteq> nfc ` py_keys raw_value" using "18.IH"(1) [OF k a(1)] .
  moreover have "json_keys (JObj kvs) \<subseteq> json_keys (JObj (acc @ [(nfc k, a)])) \<union> nfc ` py_keys (PyMap items)"
    using "18.IH"(2) [OF k a(1) a(2)] .
  moreover have "json_keys (JObj (acc @ [(nfc k, a)])) = json_keys (JObj acc) \<union> {nfc k} \<union> json_keys a" by auto
  moreover have "py_keys (PyMap ((raw_key, raw_value) # items)) = {k} \<union> py_keys raw_value \<union> py_keys (PyMap items)"
    by (simp add: k(1))
  ultimately show ?case by (simp only: image_Un image_insert image_empty) blast
qed (auto simp: result_simps split: datetime.splits pyfloat.splits option.splits if_splits)

lemma py_keys_of_json: "py_keys (loaded_py refloat v) = json_keys v"
  by (induction v) (force simp: case_prod_beta)+

section \<open>Properties\<close>

text \<open>C37. Published evidence carries no private field. When the stored text is a JSON document in which no object
  repeats a key and whose keys are in NFC, then the published text is either the stored text, and the
  document it is read as has no private key at any depth, or the canonical text of a document that has none and no
  key the stored one lacks.\<close>

theorem published_evidence_has_no_private_field:
  assumes "published_evidence env text = Inr (published, tags)" "loads_text text = Inr v"
    and "\<forall>k \<in> json_keys v. rt_nfc env k = k"
  shows "\<exists>w. (\<forall>k \<in> json_keys w. \<not> is_private_evidence_key k) \<and>
     (published = text \<and> loads_plain text = Inr w \<and> tags = [] \<or>
      published = dumps w \<and> json_keys w \<subseteq> json_keys v \<and> tags = [''PRIVATE_AUTHORITY_MATERIAL_REDACTED''])"
proof -
  let ?r = "without_private_evidence_fields v"
  note plain = loads_text_plain [OF assms(2)]
  have p: "published_evidence_text env (Some v) text = Inr (published, tags)"
    using assms(1) plain by (simp add: published_evidence_def)
  show ?thesis
  proof (cases "?r = v \<and> v \<noteq> JFloat ''NaN''")
    case True
    then show ?thesis using p plain unredacted_keys [of v] by (auto simp: published_evidence_text_def)
  next
    case False
    obtain w where w: "normalize (rt_nfc env) (loaded_py (pe_refloat env) ?r) = Inr w" "published = dumps w"
        "tags = [''PRIVATE_AUTHORITY_MATERIAL_REDACTED'']"
      using p False
      by (auto simp: published_evidence_text_def canonical_def canonical_json_def Let_def result_simps)
    have "json_keys w \<subseteq> rt_nfc env ` json_keys ?r"
      using normalize_keys(1) [OF w(1)] by (simp add: py_keys_of_json)
    also have "\<dots> = json_keys ?r" using assms(3) redacted_keys by (force simp: image_iff)
    finally show ?thesis using w redacted_keys by blast
  qed
qed

text \<open>The condition on repeated keys is needed: the reader keeps the last value of a repeated key only, so a private
  field in an earlier value is not seen and the text is published as it stands.\<close>

definition repeated_key_text :: string where
  "repeated_key_text =
     ''{'' @ quote ''a'' @ '':{'' @ quote ''token'' @ '':'' @ quote ''x'' @ ''},'' @ quote ''a'' @ '':1}''"

theorem repeated_key_hides_a_private_field:
  "published_evidence env repeated_key_text = Inr (repeated_key_text, [])"
proof -
  have "loads_plain repeated_key_text = Inr (JObj [(''a'', JInt 1)])" by code_simp
  moreover have "without_private_evidence_fields (JObj [(''a'', JInt 1)]) = JObj [(''a'', JInt 1)]" by code_simp
  ultimately show ?thesis by (simp add: published_evidence_def published_evidence_text_def)
qed

text \<open>Identity tables: the laws of the arguments hold for ASCII text.\<close>

definition plain_env :: publication_env where
  "plain_env =
     \<lparr>rt_sha = zero_digest, rt_text = \<lparr>op_nfc = id, op_nfkc = id, op_casefold = id, op_repr = (\<lambda>_. [])\<rparr>,
      pe_unicode = ascii_unicode, pe_decimal_digits = [48..<58], pe_refloat = (\<lambda>_. None),
      pe_project = (\<lambda>_ _ _. Inr PyNone)\<rparr>"

definition sample_document :: json where
  "sample_document = JObj [(''status'', JInt 1), (''details'', JArr [JObj [(''ApprovalNonce'', JStr ''n''), (''ok'', JBool True)]])]"

definition sample_text :: string where
  "sample_text = ''{ '' @ quote ''status'' @ '': 1, '' @ quote ''details'' @ '': [{'' @ quote ''ApprovalNonce'' @ '':'' @
     quote ''n'' @ '','' @ quote ''ok'' @ '':true}]}''"

theorem published_evidence_has_no_private_field_witness:
  "\<exists>w. (\<forall>k \<in> json_keys w. \<not> is_private_evidence_key k) \<and>
     published_evidence plain_env sample_text = Inr (dumps w, [''PRIVATE_AUTHORITY_MATERIAL_REDACTED''])"
proof -
  have loaded: "loads_text sample_text = Inr sample_document" by code_simp
  obtain t tags where r: "published_evidence plain_env sample_text = Inr (t, tags)" "tags \<noteq> []"
  proof -
    have "(case published_evidence_text plain_env (Some sample_document) sample_text of Inr (t, tags) \<Rightarrow> tags \<noteq> [] | _ \<Rightarrow> False)"
      by code_simp
    then show thesis
      using loads_text_plain [OF loaded] by (auto simp: published_evidence_def split: sum.splits intro: that)
  qed
  have "\<forall>k \<in> json_keys sample_document. rt_nfc plain_env k = k" by (simp add: plain_env_def rt_nfc_def)
  from published_evidence_has_no_private_field [OF r(1) loaded this] r show ?thesis by auto
qed

text \<open>C39. Normalisation can bring a private name back: the redaction looks at the keys before the canonical encoder puts
  them into normal form. Where NFC turns a key into \<open>TOKEN\<close>, as it does for the Kelvin sign in place of the K, a
  document with that key and one redacted field is published with the private field \<open>TOKEN\<close>.\<close>

definition kelvin_token :: string where
  "kelvin_token = ''TO'' @ [CHR 0xE2, CHR 0x84, CHR 0xAA] @ ''EN''"

theorem normalisation_reintroduces_a_private_field:
  assumes "rt_nfc env kelvin_token = ''TOKEN''" "rt_nfc env ''x'' = ''x''"
  shows "published_evidence_text env (Some (JObj [(kelvin_token, JStr ''x''), (''nonce'', JNull)])) text =
     Inr (dumps (JObj [(''TOKEN'', JStr ''x'')]), [''PRIVATE_AUTHORITY_MATERIAL_REDACTED'']) \<and>
     is_private_evidence_key ''TOKEN'' \<and> \<not> is_private_evidence_key kelvin_token"
proof -
  have k: "is_private_evidence_key ''TOKEN''" "\<not> is_private_evidence_key kelvin_token" "is_private_evidence_key ''nonce''"
    by code_simp+
  show ?thesis
    using k by (simp add: published_evidence_text_def canonical_def canonical_json_def Let_def rbind_def map_error_def assms
        del: dumps.simps)
qed

definition kelvin_env :: publication_env where
  "kelvin_env = plain_env\<lparr>rt_text := (rt_text plain_env)\<lparr>op_nfc := (\<lambda>s. if s = kelvin_token then ''TOKEN'' else s)\<rparr>\<rparr>"

theorem normalisation_reintroduces_a_private_field_witness:
  "published_evidence_text kelvin_env (Some (JObj [(kelvin_token, JStr ''x''), (''nonce'', JNull)])) ''t'' =
     Inr (dumps (JObj [(''TOKEN'', JStr ''x'')]), [''PRIVATE_AUTHORITY_MATERIAL_REDACTED''])"
proof -
  have "rt_nfc kelvin_env kelvin_token = ''TOKEN''" by (simp add: kelvin_env_def rt_nfc_def)
  moreover have "rt_nfc kelvin_env ''x'' = ''x''" by (simp add: kelvin_env_def rt_nfc_def kelvin_token_def plain_env_def)
  ultimately show ?thesis using normalisation_reintroduces_a_private_field [of kelvin_env "''t''"] by blast
qed

end
