(* ===== verification/CP_Runtime.thy ===== *)
theory CP_Runtime
  imports CP_Publication CP_Escalation
begin

text \<open>
  The transactions of \<^verbatim>\<open>RuntimeStore\<close> (\<^verbatim>\<open>runtime/database.py\<close>): incidents and seat outputs, the durable work queue
  that delivers approved executions and repairs, and the projection of a finished broker result into typed incident
  state. A transaction is one step that raises or returns the new tables. The clock, generated identifiers, the
  model classes of the third-party package and the rounding of a duration to milliseconds are arguments.
\<close>

section \<open>Environment\<close>

record runtime_models = publication_env +
  rm_result :: "string \<Rightarrow> broker_result option"
  rm_receipt :: "pyval \<Rightarrow> process_receipt option"
  rm_iso :: "datetime \<Rightarrow> string"
  rm_round_ms :: "int \<Rightarrow> int"

definition effort_text :: "effort \<Rightarrow> string" where
  "effort_text e = (case e of NONE \<Rightarrow> ''none'' | LOW \<Rightarrow> ''low'' | MEDIUM \<Rightarrow> ''medium'' | HIGH \<Rightarrow> ''high'' | XHIGH \<Rightarrow> ''xhigh'')"

text \<open>\<^verbatim>\<open>model_dump(mode="json")\<close>: enumeration members become their values and times become text.\<close>

fun json_mode :: "(datetime \<Rightarrow> string) \<Rightarrow> pyval \<Rightarrow> pyval" where
  "json_mode fmt (PyEnum v) = json_mode fmt v"
| "json_mode fmt (PyDatetime t) = PyStr (fmt t)"
| "json_mode fmt (PyBaseModel v) = json_mode fmt v"
| "json_mode fmt (PyMap kvs) = PyMap (map (\<lambda>(k, v). (k, json_mode fmt v)) kvs)"
| "json_mode fmt (PyList vs) = PyList (map (json_mode fmt) vs)"
| "json_mode fmt v = v"

section \<open>Runtime work\<close>

definition execution_work_id :: "string \<Rightarrow> string" where
  "execution_work_id warrant_id = ''execute:'' @ warrant_id"

definition repair_work_id :: "string \<Rightarrow> string" where
  "repair_work_id warrant_id = ''repair:'' @ warrant_id"

fun work_id_of :: "work_kind \<Rightarrow> string \<Rightarrow> string" where
  "work_id_of APPROVED_EXECUTION_WORK w = execution_work_id w"
| "work_id_of TEST_REPAIR_WORK w = repair_work_id w"

definition work_by :: "runtime_db \<Rightarrow> string \<Rightarrow> work_row option" where
  "work_by db work_id = row_by wk_id work_id (runtime_work db)"

definition put_work :: "work_row \<Rightarrow> runtime_db \<Rightarrow> runtime_db" where
  "put_work work db = db\<lparr>runtime_work := put_row wk_id work (runtime_work db)\<rparr>"

text \<open>The second uniqueness constraint of the table is that of kind and warrant.\<close>

definition enqueue_runtime_work_locked ::
  "string \<Rightarrow> string \<Rightarrow> work_kind \<Rightarrow> datetime \<Rightarrow> runtime_db \<Rightarrow> runtime_error + runtime_db" where
  "enqueue_runtime_work_locked incident_id warrant_id kind now db =
     (case work_by db (work_id_of kind warrant_id) of
        Some existing \<Rightarrow>
          if wk_incident_id existing \<noteq> incident_id \<or> wk_warrant_id existing \<noteq> warrant_id \<or> wk_kind existing \<noteq> kind
          then Inl (RtValueError ''runtime work binding changed'')
          else Inr db
      | None \<Rightarrow>
          if \<exists>w \<in> set (runtime_work db). wk_kind w = kind \<and> wk_warrant_id w = warrant_id then Inl RtIntegrityError
          else Inr (db\<lparr>runtime_work := runtime_work db @
                 [\<lparr>wk_id = work_id_of kind warrant_id, wk_incident_id = incident_id, wk_warrant_id = warrant_id, wk_kind = kind,
                   wk_status = WORK_PENDING, wk_owner_id = None, wk_attempt_count = 0, wk_created_at = now,
                   wk_updated_at = now, wk_completed_at = None\<rparr>]\<rparr>))"

definition closed_states :: "incident_state set" where
  "closed_states = {HUMAN_ESCALATION, BLOCKED, VERIFIED}"

definition complete :: "datetime \<Rightarrow> work_row \<Rightarrow> work_row" where
  "complete now work = work\<lparr>wk_status := WORK_COMPLETED, wk_owner_id := None, wk_updated_at := now, wk_completed_at := Some now\<rparr>"

text \<open>One row of \<^verbatim>\<open>requeue_interrupted_runtime_work\<close>.\<close>

definition requeue_row :: "runtime_db \<Rightarrow> datetime \<Rightarrow> work_row \<Rightarrow> runtime_error + work_row" where
  "requeue_row db now work =
     (if wk_status work \<noteq> WORK_RUNNING then Inr work
      else rbind (locked_incident db (wk_incident_id work)) (\<lambda>inc.
        Inr (if inc_state inc \<in> closed_states then complete now work
             else work\<lparr>wk_status := WORK_PENDING, wk_owner_id := None, wk_updated_at := now\<rparr>)))"

definition requeue_interrupted_runtime_work :: "datetime \<Rightarrow> runtime_db \<Rightarrow> runtime_error + runtime_db" where
  "requeue_interrupted_runtime_work now db =
     rbind (map_result (requeue_row db now) (runtime_work db)) (\<lambda>rows. Inr (db\<lparr>runtime_work := rows\<rparr>))"

definition pending_runtime_work :: "runtime_db \<Rightarrow> work_row list" where
  "pending_runtime_work db =
     sort_key (\<lambda>w. (instant (wk_created_at w), wk_id w)) (filter (\<lambda>w. wk_status w = WORK_PENDING) (runtime_work db))"

definition claim_runtime_work ::
  "string \<Rightarrow> string \<Rightarrow> datetime \<Rightarrow> runtime_db \<Rightarrow> runtime_error + (runtime_db \<times> work_row option)" where
  "claim_runtime_work work_id owner_id now db =
     (case work_by db work_id of
        None \<Rightarrow> Inr (db, None)
      | Some work \<Rightarrow>
          if wk_status work \<noteq> WORK_PENDING then Inr (db, None)
          else rbind (locked_incident db (wk_incident_id work)) (\<lambda>inc.
            if wk_kind work = APPROVED_EXECUTION_WORK \<and> inc_state inc \<noteq> APPROVED
            then if inc_state inc \<in> closed_states then Inr (put_work (complete now work) db, None)
                 else Inl (RtValueError ''approved execution work disagrees with incident state'')
            else let claimed = work\<lparr>wk_status := WORK_RUNNING, wk_owner_id := Some owner_id,
                                    wk_attempt_count := wk_attempt_count work + 1, wk_updated_at := now\<rparr>
                 in Inr (put_work claimed db, Some claimed)))"

definition active_states :: "incident_state set" where
  "active_states = {OPEN, REPRODUCING, EVIDENCE_READY, ANALYZING, PATCHING, REVIEWING, APPROVED, EXECUTING, TEST_FAILED}"

definition fail_runtime_work ::
  "'z publication_env_scheme \<Rightarrow> string \<Rightarrow> string \<Rightarrow> string \<Rightarrow> datetime \<Rightarrow> string \<Rightarrow> runtime_db \<Rightarrow> runtime_error + runtime_db" where
  "fail_runtime_work env work_id operation failure_outcome now uuid db =
     (case work_by db work_id of
        None \<Rightarrow> Inl (RtLookupError work_id)
      | Some work \<Rightarrow>
          rbind (locked_incident db (wk_incident_id work)) (\<lambda>inc.
            if wk_status work = WORK_COMPLETED
            then if inc_state inc \<notin> closed_states then Inl (RtValueError ''completed failed work is not fail closed'')
                 else Inr db
            else rbind (append_locked env (wk_incident_id work)
                   (if inc_state inc \<in> active_states then ''BACKGROUND_TASK_FAILED'' else ''BACKGROUND_TASK_ERROR_REPORTED'')
                   ''control-service'' [(''operation'', PyStr operation), (''failure_outcome'', PyStr failure_outcome)] now uuid db) (\<lambda>db1.
                 publish_locked env (wk_incident_id work) now (put_work (complete now work) db1))))"

text \<open>\<^verbatim>\<open>ORDER BY created_at DESC, id DESC LIMIT 1\<close> over the incident's control warrants.\<close>

definition repair_has_durable_outcome_locked :: "runtime_db \<Rightarrow> incident_row \<Rightarrow> string \<Rightarrow> bool" where
  "repair_has_durable_outcome_locked db inc warrant_id \<longleftrightarrow>
     inc_state inc \<in> {HUMAN_ESCALATION, BLOCKED} \<or>
     (case latest_by cw_created_at cw_id (filter (\<lambda>c. cw_incident_id c = inc_id inc) (control_warrants db)) of
        None \<Rightarrow> False
      | Some latest \<Rightarrow> cw_id latest \<noteq> warrant_id)"

definition complete_repair_work :: "string \<Rightarrow> string \<Rightarrow> datetime \<Rightarrow> runtime_db \<Rightarrow> runtime_error + runtime_db" where
  "complete_repair_work incident_id warrant_id now db =
     (case (incident_of db incident_id, work_by db (repair_work_id warrant_id)) of
        (Some inc, Some work) \<Rightarrow>
          if \<not> repair_has_durable_outcome_locked db inc warrant_id
          then Inl (RtValueError ''repair work has no durable terminal authority outcome'')
          else Inr (put_work (complete now work) db)
      | _ \<Rightarrow> Inl (RtLookupError (repair_work_id warrant_id)))"

section \<open>Incidents and evidence\<close>

text \<open>Principals that see a new incident: its creator, every approver and every reader.\<close>

definition grant_incident :: "string \<Rightarrow> string \<Rightarrow> access_db \<Rightarrow> access_db" where
  "grant_incident incident_id actor a =
     a\<lparr>grants := grants a @ filter (\<lambda>g. g \<notin> set (grants a))
         (map (\<lambda>p. (pr_subject p, incident_id))
            (filter (\<lambda>p. pr_subject p = actor \<or> pr_role p = APPROVER \<or> pr_role p = READ_ONLY) (principals a)))\<rparr>"

definition require_operator_evidence_profile :: "string \<Rightarrow> string \<Rightarrow> runtime_error + string" where
  "require_operator_evidence_profile scenario profile =
     (if profile \<notin> {''standard'', ''instruction-like-log''} then Inl (RtValueError ''unsupported evidence profile'')
      else if profile = ''instruction-like-log'' \<and> scenario \<noteq> ''webhook-race''
      then Inl (RtValueError ''instruction-like-log evidence is supported only for webhook-race'')
      else Inr profile)"

definition open_incident ::
  "'z publication_env_scheme \<Rightarrow> string \<Rightarrow> string \<Rightarrow> string \<Rightarrow> incident_state \<Rightarrow> string \<Rightarrow> string \<Rightarrow> string \<Rightarrow> string \<Rightarrow> bool \<Rightarrow>
   string \<Rightarrow> datetime \<Rightarrow> string \<Rightarrow> runtime_db \<Rightarrow> runtime_error + runtime_db" where
  "open_incident env incident_id title scenario state base_sha manifest catalog actor live_trial evidence_profile now uuid db =
     rbind (require_operator_evidence_profile scenario evidence_profile) (\<lambda>profile.
     rbind (map_error RtRepository (create_incident (control db) incident_id title state now)) (\<lambda>c.
     let db1 = db\<lparr>control := c,
                  columns := (columns db)(incident_id \<mapsto>
                    \<lparr>ic_scenario = scenario, ic_live_trial = live_trial, ic_owner_subject = Some actor,
                     ic_base_sha = Some base_sha, ic_repository_manifest_sha256 = Some manifest,
                     ic_catalog_sha256 = Some catalog, ic_pending_warrant_id = None\<rparr>),
                  access := (grant_incident incident_id actor (access db))\<lparr>trial_incidents :=
                    (trial_incidents (access db))(incident_id \<mapsto> \<lparr>tx_live_trial = live_trial, tx_owner_subject = Some actor\<rparr>)\<rparr>\<rparr>
     in rbind (append_locked env incident_id ''INCIDENT_OPENED'' actor
                 ([(''scenario'', PyStr scenario)] @
                  (if profile \<noteq> ''standard'' then [(''evidence_profile'', PyStr profile)] else [])) now uuid db1)
          (publish_locked env incident_id now)))"

definition append_published_event ::
  "'z publication_env_scheme \<Rightarrow> string \<Rightarrow> string \<Rightarrow> string \<Rightarrow> payload \<Rightarrow> datetime \<Rightarrow> string \<Rightarrow> runtime_db \<Rightarrow> runtime_error + runtime_db" where
  "append_published_event env incident_id ty actor payload now uuid db =
     rbind (locked_incident db incident_id) (\<lambda>_.
     rbind (append_locked env incident_id ty actor payload now uuid db)
       (publish_locked env incident_id now))"

fun kind_text :: "evidence_kind \<Rightarrow> string" where
  "kind_text EK_LOG = ''log''"
| "kind_text EK_TRACE = ''trace''"
| "kind_text EK_ISSUE = ''issue''"
| "kind_text EK_SOURCE = ''source''"
| "kind_text EK_COMMENT = ''comment''"
| "kind_text EK_DIFF = ''diff''"
| "kind_text EK_TEST_OUTPUT = ''test_output''"
| "kind_text EK_TIMELINE = ''timeline''"
| "kind_text EK_MCP_RESULT = ''mcp_result''"

fun tag_text :: "tag_kind \<Rightarrow> string" where
  "tag_text POTENTIAL_INSTRUCTION_REDACTED = ''POTENTIAL_INSTRUCTION_REDACTED''"
| "tag_text SECRET_REDACTED = ''SECRET_REDACTED''"
| "tag_text CONTROL_SEQUENCE_REMOVED = ''CONTROL_SEQUENCE_REMOVED''"
| "tag_text INVALID_UTF8_REPLACED = ''INVALID_UTF8_REPLACED''"
| "tag_text LINE_TRUNCATED = ''LINE_TRUNCATED''"
| "tag_text EVIDENCE_TRUNCATED = ''EVIDENCE_TRUNCATED''"

definition tag_payload :: "sanitization_tag \<Rightarrow> payload" where
  "tag_payload t =
     [(''kind'', PyStr (tag_text (tag_kind_of t))), (''raw_byte_start'', PyInt (int (tag_raw_byte_start t))),
      (''raw_byte_end'', PyInt (int (tag_raw_byte_end t))), (''raw_sha256'', PyStr (tag_raw_sha256 t)),
      (''sanitized_sha256'', PyStr (tag_sanitized_sha256 t))]"

definition envelope_py :: "evidence_envelope \<Rightarrow> pyval" where
  "envelope_py e = PyBaseModel (py_fields
     [(''classification'', PyStr ''UNTRUSTED_EVIDENCE''), (''evidence_id'', PyStr (ee_evidence_id e)),
      (''incident_id'', PyStr (ee_incident_id e)), (''kind'', PyEnum (PyStr (kind_text (ee_kind e)))),
      (''provenance'', PyStr (ee_provenance e)), (''provenance_sha256'', PyStr (ee_provenance_sha256 e)),
      (''provenance_tags'', strs (map tag_text (ee_provenance_tags e))), (''text'', PyStr (ee_text e)),
      (''raw_sha256'', PyStr (ee_raw_sha256 e)), (''sanitized_sha256'', PyStr (ee_sanitized_sha256 e)),
      (''raw_size_bytes'', PyInt (int (ee_raw_size_bytes e))),
      (''sanitized_size_bytes'', PyInt (int (ee_sanitized_size_bytes e))), (''truncated'', PyBool (ee_truncated e)),
      (''tags'', PyList (map (\<lambda>t. py_fields (tag_payload t)) (ee_tags e)))])"

definition from_sanitized ::
  "string option \<Rightarrow> string \<Rightarrow> evidence_kind \<Rightarrow> sanitized_evidence \<Rightarrow> evidence_envelope" where
  "from_sanitized evidence_id incident_id kind e =
     \<lparr>ee_evidence_id = (if present evidence_id then the evidence_id else ''ev_'' @ take 32 (se_sanitized_sha256 e)),
      ee_incident_id = incident_id, ee_kind = kind, ee_provenance = se_provenance e,
      ee_provenance_sha256 = se_provenance_sha256 e, ee_provenance_tags = se_provenance_tags e, ee_text = se_text e,
      ee_raw_sha256 = se_raw_sha256 e, ee_sanitized_sha256 = se_sanitized_sha256 e,
      ee_raw_size_bytes = se_raw_size_bytes e, ee_sanitized_size_bytes = se_sanitized_size_bytes e,
      ee_truncated = se_truncated e, ee_tags = se_tags e\<rparr>"

definition evidence_row_of ::
  "'z runtime_env_scheme \<Rightarrow> string \<Rightarrow> evidence_envelope \<Rightarrow> bool \<Rightarrow> datetime \<Rightarrow> runtime_error + evidence_row" where
  "evidence_row_of env evidence_id e published now =
     rbind (canonical env (envelope_py e)) (\<lambda>encoded.
       Inr \<lparr>er_id = evidence_id, er_incident_id = ee_incident_id e, er_kind = kind_text (ee_kind e),
            er_provenance = ee_provenance e, er_sanitized_text = ee_text e, er_raw_sha256 = ee_raw_sha256 e,
            er_sanitized_sha256 = ee_sanitized_sha256 e, er_envelope_json = encoded, er_tags = map tag_payload (ee_tags e),
            er_published = published, er_created_at = now\<rparr>)"

definition record_evidence ::
  "'z publication_env_scheme \<Rightarrow> string \<Rightarrow> evidence_envelope \<Rightarrow> bool \<Rightarrow> datetime \<Rightarrow> runtime_db \<Rightarrow> runtime_error + runtime_db" where
  "record_evidence env evidence_id envelope published now db =
     rbind (evidence_row_of env evidence_id envelope published now) (\<lambda>row.
     rbind (add_row er_id row (evidence_rows db)) (\<lambda>rows.
       if incident_of db (ee_incident_id envelope) = None then Inl RtIntegrityError
       else if published then publish_locked env (ee_incident_id envelope) now (db\<lparr>evidence_rows := rows\<rparr>)
       else Inr (db\<lparr>evidence_rows := rows\<rparr>)))"

definition prepare_seat ::
  "'z publication_env_scheme \<Rightarrow> string \<Rightarrow> seat \<Rightarrow> string \<Rightarrow> datetime \<times> datetime \<times> datetime \<Rightarrow> string \<Rightarrow> string \<Rightarrow> runtime_db
   \<Rightarrow> runtime_error + runtime_db" where
  "prepare_seat env incident_id s phase clocks uuid1 uuid2 db =
     (case clocks of (now1, now2, now3) \<Rightarrow>
     rbind (locked_incident db incident_id) (\<lambda>inc.
     rbind (if s = COUNSEL \<and> inc_state inc = ANALYZING
            then append_locked env incident_id ''PATCH_REQUESTED'' ''orchestrator'' [(''phase'', PyStr phase)] now1 uuid1 db
            else Inr db) (\<lambda>db1.
     rbind (append_locked env incident_id ''SEAT_STARTED'' (seat_value s)
              [(''seat'', PyStr (seat_value s)), (''phase'', PyStr phase)] now2 uuid2 db1)
       (publish_locked env incident_id now3))))"

section \<open>Seat outputs\<close>

definition output_run ::
  "'z runtime_env_scheme \<Rightarrow> string \<Rightarrow> string \<Rightarrow> seat \<Rightarrow> string \<Rightarrow> effort \<Rightarrow> nat \<Rightarrow> seat_output \<Rightarrow> datetime \<Rightarrow> runtime_error + agent_run_row" where
  "output_run env uuid incident_id s phase eff escalation_count out now =
     rbind (canonical env (output_py out)) (\<lambda>encoded.
     rbind (map_error RtFingerprint (semantic_fingerprint (rt_sha env) (rt_text env) s (output_py out))) (\<lambda>semantic.
       Inr \<lparr>run_id = ''run_'' @ uuid, run_incident_id = incident_id, run_seat = s, run_model = spec_model (spec_by_seat s),
            run_effort = eff, run_phase = phase, run_escalation_count = escalation_count, run_output_json = encoded,
            run_output_sha256 = rt_sha env encoded, run_semantic_sha256 = semantic, run_schema_status = ''VALID'',
            run_failure_reason = None, run_created_at = now\<rparr>))"

definition candidates_of :: "runtime_db \<Rightarrow> string \<Rightarrow> candidate_row list" where
  "candidates_of db incident_id = filter (\<lambda>c. cand_incident_id c = incident_id) (candidates db)"

definition new_candidate ::
  "'z runtime_env_scheme \<Rightarrow> string \<Rightarrow> runtime_db \<Rightarrow> string \<Rightarrow> string \<Rightarrow> counsel_output \<Rightarrow> string list \<Rightarrow> datetime \<Rightarrow> candidate_row" where
  "new_candidate env uuid db incident_id agent_run counsel paths now =
     \<lparr>cand_id = ''candidate_'' @ uuid, cand_incident_id = incident_id, cand_agent_run_id = agent_run,
      cand_patch_sha256 = rt_sha env (co_normalized_diff counsel), cand_normalized_diff = co_normalized_diff counsel,
      cand_allowed_paths = paths, cand_test_intentions = co_test_intentions counsel,
      cand_predecessor_id = map_option cand_id (latest_by cand_created_at cand_id (candidates_of db incident_id)),
      cand_created_at = now\<rparr>"

definition record_seat_output ::
  "'z publication_env_scheme \<Rightarrow> string \<Rightarrow> seat \<Rightarrow> effort \<Rightarrow> string \<Rightarrow> seat_output \<Rightarrow> nat \<Rightarrow> datetime \<Rightarrow>
   string \<times> string \<times> string \<times> string \<Rightarrow> runtime_db \<Rightarrow> runtime_error + runtime_db" where
  "record_seat_output env incident_id s eff phase out escalation_count now uuids db =
     (case uuids of (uuid1, uuid2, uuid3, uuid4) \<Rightarrow>
     rbind (output_run env uuid1 incident_id s phase eff escalation_count out now) (\<lambda>run.
     rbind (locked_incident db incident_id) (\<lambda>_.
     rbind (add_row run_id run (agent_runs db)) (\<lambda>runs.
     rbind (case out of
              CounselOutput counsel \<Rightarrow>
                rbind (map_error RtPathError (derive_patch_paths (op_nfkc (rt_text env)) (co_normalized_diff counsel))) (\<lambda>paths.
                let candidate = new_candidate env uuid2 db incident_id (run_id run) counsel paths now
                in rbind (add_row cand_id candidate (candidates db)) (\<lambda>cs. Inr (cs, Some candidate)))
            | _ \<Rightarrow> Inr (candidates db, None)) (\<lambda>(cs, candidate).
     rbind (append_locked env incident_id ''AGENT_OUTPUT_RECORDED'' (seat_value s)
              [(''seat'', PyStr (seat_value s)), (''phase'', PyStr phase), (''effort'', PyStr (effort_text eff)),
               (''output_sha256'', PyStr (run_output_sha256 run)), (''semantic_sha256'', PyStr (run_semantic_sha256 run))]
              now uuid3 (db\<lparr>agent_runs := runs, candidates := cs\<rparr>)) (\<lambda>db1.
     rbind (case (candidate, incident_of db1 incident_id) of
              (Some c, Some inc) \<Rightarrow>
                if inc_state inc = PATCHING
                then append_locked env incident_id ''PATCH_PROPOSED'' (seat_value COUNSEL)
                       [(''candidate_id'', PyStr (cand_id c)), (''patch_sha256'', PyStr (cand_patch_sha256 c))] now uuid4 db1
                else Inr db1
            | _ \<Rightarrow> Inr db1)
       (publish_locked env incident_id now)))))))"

definition record_test_run ::
  "'z publication_env_scheme \<Rightarrow> test_run_row \<Rightarrow> string \<Rightarrow> payload \<Rightarrow> string \<Rightarrow> runtime_db \<Rightarrow> runtime_error + runtime_db" where
  "record_test_run env row ty event_fields uuid db =
     rbind (locked_incident db (tr_incident_id row)) (\<lambda>_.
     rbind (add_row tr_id row (test_runs db)) (\<lambda>rows.
     rbind (append_locked env (tr_incident_id row) ty ''deterministic-runner'' event_fields (tr_created_at row) uuid
              (db\<lparr>test_runs := rows\<rparr>))
       (publish_locked env (tr_incident_id row) (tr_created_at row))))"

section \<open>Broker results\<close>

definition receipt_json :: "'z runtime_models_scheme \<Rightarrow> process_receipt \<Rightarrow> pyval" where
  "receipt_json env r = json_mode (rm_iso env) (py_fields (receipt_fields r))"

definition broker_receipt_result ::
  "'z runtime_models_scheme \<Rightarrow> string \<Rightarrow> string \<Rightarrow> process_receipt \<Rightarrow> runtime_error + payload" where
  "broker_receipt_result env warrant_id evidence_id r =
     (case rm_receipt env (receipt_json env r) of
        None \<Rightarrow> Inl RtSchemaError
      | Some receipt \<Rightarrow>
          rbind (digest env (receipt_json env receipt)) (\<lambda>h.
          Inr [(''warrant_id'', PyStr warrant_id), (''state'', PyStr (if passed receipt then ''passed'' else ''failed'')),
               (''passed'', PyBool (passed receipt)),
               (''duration_ms'', PyInt (max 0 (rm_round_ms env
                  (int (instant (finished_at receipt)) - int (instant (started_at receipt)))))),
               (''detail'', PyStr (verification_code receipt)), (''evidence_id'', PyStr evidence_id),
               (''receipt_sha256'', PyStr h), (''receipt'', receipt_json env receipt)]))"

definition test_rows_of :: "runtime_db \<Rightarrow> string \<Rightarrow> string \<Rightarrow> test_run_row list" where
  "test_rows_of db incident_id warrant_id =
     filter (\<lambda>r. tr_incident_id r = incident_id \<and> text_field (tr_result r) ''warrant_id'' = Some warrant_id) (test_runs db)"

definition outcome_events :: "runtime_db \<Rightarrow> string \<Rightarrow> string \<Rightarrow> string \<Rightarrow> event_row list" where
  "outcome_events db incident_id ty warrant_id =
     filter (\<lambda>e. ev_type e = ty \<and> text_field (ev_payload e) ''warrant_id'' = Some warrant_id) (events_of (control db) incident_id)"

definition by_plan :: "test_run_row list \<Rightarrow> process_receipt \<Rightarrow> test_run_row option" where
  "by_plan rows r = find (\<lambda>x. tr_plan_id x = receipt_plan_id r \<and> tr_plan_sha256 x = receipt_plan_sha256 r) (rev rows)"

text \<open>Dictionaries are equal up to the order of their items.\<close>

fun receipts_match ::
  "'z runtime_models_scheme \<Rightarrow> string \<Rightarrow> string \<Rightarrow> test_run_row list \<Rightarrow> process_receipt list \<Rightarrow> runtime_error + bool" where
  "receipts_match env warrant_id evidence_id rows [] = Inr True"
| "receipts_match env warrant_id evidence_id rows (r # rs) =
     (case by_plan rows r of
        None \<Rightarrow> Inr False
      | Some row \<Rightarrow>
          rbind (broker_receipt_result env warrant_id evidence_id r) (\<lambda>expected.
            if set (tr_result row) = set expected then receipts_match env warrant_id evidence_id rows rs else Inr False))"

definition projected_broker_result_locked ::
  "'z runtime_models_scheme \<Rightarrow> runtime_db \<Rightarrow> string \<Rightarrow> incident_row \<Rightarrow> warrant_row \<Rightarrow> broker_result
   \<Rightarrow> runtime_error + broker_result option" where
  "projected_broker_result_locked env db incident_id inc row result =
     (let rows = test_rows_of db incident_id (wr_id row);
          executed = (br_status result = BS_EXECUTED);
          evidence_ids = remdups (List.map_filter (\<lambda>r. text_field (tr_result r) ''evidence_id'') rows);
          ty = (if executed then ''VERIFIED'' else ''TEST_FAILED'');
          evs = outcome_events db incident_id ty (wr_id row);
          contradictory = Inl (RtValueError ''persisted broker projection is contradictory'')
      in if rows = [] then Inr None
         else if inc_state inc = (if executed then VERIFIED else TEST_FAILED) \<and>
                 length rows = length (br_receipts result) \<and>
                 length (remdups (map (\<lambda>r. (tr_plan_id r, tr_plan_sha256 r)) rows)) = length rows \<and>
                 length evidence_ids = 1 \<and> length evs = 1 \<and>
                 (case work_by db (execution_work_id (wr_id row)) of None \<Rightarrow> False | Some w \<Rightarrow> wk_status w = WORK_COMPLETED) \<and>
                 (executed \<or> (case work_by db (repair_work_id (wr_id row)) of None \<Rightarrow> False | Some w \<Rightarrow> wk_kind w = TEST_REPAIR_WORK))
         then let evidence_id = hd evidence_ids; e = hd evs;
                  outcome_row = text_field (ev_payload e) (if executed then ''receipt_id'' else ''test_run_id'')
              in if text_field (ev_payload e) ''evidence_id'' = Some evidence_id \<and>
                    outcome_row \<in> Some ` tr_id ` set rows
                 then rbind (receipts_match env (wr_id row) evidence_id rows (br_receipts result)) (\<lambda>ok.
                        if ok then Inr (Some result) else contradictory)
                 else contradictory
         else contradictory)"

text \<open>\<^verbatim>\<open>isoformat()\<close> of a time in UTC: microseconds are left out when they are zero.\<close>

definition isoformat :: "datetime \<Rightarrow> string" where
  "isoformat t =
     (let s = iso_utc (instant t)
      in (if instant t mod 1000000 = 0 then take 19 s else s) @ ''+00:00'')"

fun add_test_rows ::
  "'z runtime_models_scheme \<Rightarrow> string \<Rightarrow> string \<Rightarrow> string \<Rightarrow> datetime \<Rightarrow> (string \<times> process_receipt) list \<Rightarrow> test_run_row list
   \<Rightarrow> runtime_error + test_run_row list" where
  "add_test_rows env incident_id warrant_id evidence_id now [] rows = Inr rows"
| "add_test_rows env incident_id warrant_id evidence_id now ((i, r) # rs) rows =
     rbind (broker_receipt_result env warrant_id evidence_id r) (\<lambda>result.
     rbind (add_row tr_id \<lparr>tr_id = i, tr_incident_id = incident_id, tr_plan_id = receipt_plan_id r,
              tr_plan_sha256 = receipt_plan_sha256 r, tr_result = result, tr_created_at = now\<rparr> rows)
       (add_test_rows env incident_id warrant_id evidence_id now rs))"

text \<open>What makes a stored result projectable: the checks of \<^verbatim>\<open>project_broker_result\<close> before the first write.\<close>

definition projectable_result ::
  "'z runtime_models_scheme \<Rightarrow> string \<Rightarrow> warrant_row \<Rightarrow> runtime_error + (broker_result \<times> datetime)" where
  "projectable_result env warrant_id row =
     (case (wr_state row, wr_result_json row, wr_claimed_at row, wr_finished_at row) of
        (WS_CONSUMED, Some bytes, Some claimed_at, Some _) \<Rightarrow>
          (case rm_result env bytes of
             None \<Rightarrow> Inl RtSchemaError
           | Some result \<Rightarrow>
               rbind (canonical env (result_py result)) (\<lambda>c.
               if c \<noteq> bytes \<or> br_warrant_id result \<noteq> warrant_id
               then Inl (RtValueError ''broker result canonical binding is invalid'')
               else rbind (case br_nonce_sha256 result of None \<Rightarrow> Inr False | Some n \<Rightarrow> same_digest n (wr_nonce_sha256 row)) (\<lambda>ok.
                 if \<not> ok then Inl (RtValueError ''broker result nonce binding is invalid'')
                 else if br_receipts result = [] then Inl (RtValueError ''broker result has no trusted test receipt'')
                 else if (br_status result = BS_EXECUTED) \<noteq> list_all passed (br_receipts result)
                 then Inl (RtValueError ''broker status disagrees with trusted receipts'')
                 else if br_status result \<notin> {BS_EXECUTED, BS_TEST_FAILED}
                 then Inl (RtValueError ''broker result is not a projectable execution outcome'')
                 else Inr (result, claimed_at))))
      | _ \<Rightarrow> Inl (RtValueError ''broker result is not durably complete''))"

text \<open>The writes of a first projection. Identifiers are drawn from \<open>uuid\<close>: two events, then one row per receipt.\<close>

definition write_broker_result ::
  "'z runtime_models_scheme \<Rightarrow> string \<Rightarrow> string \<Rightarrow> string \<Rightarrow> broker_result \<Rightarrow> datetime \<Rightarrow> datetime \<Rightarrow> (nat \<Rightarrow> string) \<Rightarrow> runtime_db
   \<Rightarrow> runtime_error + runtime_db" where
  "write_broker_result env incident_id warrant_id evidence_id result claimed_at now uuid db =
     (let material = warrant_id @ '':'' @ isoformat claimed_at;
          ids = map (\<lambda>i. ''test_'' @ uuid (i + 2)) [0..<length (br_receipts result)];
          success = list_all passed (br_receipts result)
      in rbind (require (is_ascii material) (RtValueError ''UnicodeEncodeError'')) (\<lambda>_.
         rbind (append_locked env incident_id ''EXECUTION_STARTED'' ''broker''
                  [(''claim_id'', PyStr (''claim_'' @ take 32 (rt_sha env material))), (''warrant_id'', PyStr warrant_id)]
                  now (uuid 0) db) (\<lambda>db1.
         rbind (add_test_rows env incident_id warrant_id evidence_id now (zip ids (br_receipts result)) (test_runs db1)) (\<lambda>rows.
         rbind (append_locked env incident_id (if success then ''VERIFIED'' else ''TEST_FAILED'') ''broker''
                  [(if success then ''receipt_id'' else ''test_run_id'', PyStr (last ids)), (''warrant_id'', PyStr warrant_id),
                   (''evidence_id'', PyStr evidence_id)] now (uuid 1) (db1\<lparr>test_runs := rows\<rparr>)) (\<lambda>db2.
         case work_by db2 (execution_work_id warrant_id) of
           None \<Rightarrow> Inl (RtValueError ''broker result has no matching durable execution work'')
         | Some work \<Rightarrow>
             if wk_incident_id work \<noteq> incident_id \<or> wk_warrant_id work \<noteq> warrant_id \<or> wk_kind work \<noteq> APPROVED_EXECUTION_WORK
             then Inl (RtValueError ''broker result has no matching durable execution work'')
             else rbind (if success then Inr (put_work (complete now work) db2)
                         else enqueue_runtime_work_locked incident_id warrant_id TEST_REPAIR_WORK now
                                (put_work (complete now work) db2))
                    (publish_locked env incident_id now))))))"

definition project_broker_result ::
  "'z runtime_models_scheme \<Rightarrow> string \<Rightarrow> string \<Rightarrow> string \<Rightarrow> datetime \<Rightarrow> (nat \<Rightarrow> string) \<Rightarrow> runtime_db
   \<Rightarrow> runtime_error + (runtime_db \<times> broker_result)" where
  "project_broker_result env incident_id warrant_id evidence_id now uuid db =
     (case (incident_of db incident_id, warrants (broker_db db) warrant_id) of
        (Some inc, Some row) \<Rightarrow>
          if wr_incident_id row \<noteq> incident_id then Inl (RtLookupError warrant_id)
          else rbind (projectable_result env warrant_id row) (\<lambda>(result, claimed_at).
               rbind (projected_broker_result_locked env db incident_id inc row result) (\<lambda>projected.
                 case projected of
                   Some r \<Rightarrow> Inr (db, r)
                 | None \<Rightarrow>
                     rbind (write_broker_result env incident_id warrant_id evidence_id result claimed_at now uuid db) (\<lambda>db'.
                       Inr (db', result))))
      | _ \<Rightarrow> Inl (RtLookupError warrant_id))"

definition record_execution_failure ::
  "'z publication_env_scheme \<Rightarrow> string \<Rightarrow> string \<Rightarrow> string \<Rightarrow> datetime \<Rightarrow> string \<Rightarrow> runtime_db \<Rightarrow> runtime_error + runtime_db" where
  "record_execution_failure env incident_id warrant_id error_code now uuid db =
     (case (incident_of db incident_id, work_by db (execution_work_id warrant_id)) of
        (Some _, Some work) \<Rightarrow>
          rbind (append_locked env incident_id ''EXECUTION_FAILED'' ''broker''
                   [(''warrant_id'', PyStr warrant_id), (''error_code'', PyStr error_code)] now uuid db) (\<lambda>db1.
            publish_locked env incident_id now (put_work (complete now work) db1))
      | _ \<Rightarrow> Inl (RtLookupError warrant_id))"

text \<open>The restart scan; \<open>ids\<close> are the keys of the incident table in the order of the query.\<close>

definition interrupted :: "runtime_db \<Rightarrow> string \<Rightarrow> bool" where
  "interrupted db incident_id \<longleftrightarrow>
     (case incident_of db incident_id of
        None \<Rightarrow> False
      | Some inc \<Rightarrow> inc_state inc \<in> {OPEN, REPRODUCING, EVIDENCE_READY, ANALYZING, PATCHING, REVIEWING}) \<and>
     \<not> list_ex (\<lambda>w. wk_incident_id w = incident_id \<and> wk_status w \<in> {WORK_PENDING, WORK_RUNNING}) (runtime_work db)"

fun fail_incidents ::
  "'z publication_env_scheme \<Rightarrow> datetime \<Rightarrow> (string \<times> string) list \<Rightarrow> runtime_db \<Rightarrow> runtime_error + runtime_db" where
  "fail_incidents env now [] db = Inr db"
| "fail_incidents env now ((i, uuid) # rest) db =
     rbind (append_locked env i ''BACKGROUND_TASK_FAILED'' ''control-service''
              [(''operation'', PyStr ''startup-reconciliation''), (''failure_outcome'', PyStr ''PROCESS_RESTART'')] now uuid db) (\<lambda>db1.
     rbind (publish_locked env i now db1) (fail_incidents env now rest))"

definition fail_closed_interrupted_incidents ::
  "'z publication_env_scheme \<Rightarrow> datetime \<Rightarrow> (string \<times> string) list \<Rightarrow> runtime_db \<Rightarrow> runtime_error + (runtime_db \<times> nat)" where
  "fail_closed_interrupted_incidents env now ids db =
     (let hit = filter (\<lambda>(i, _). interrupted db i) ids
      in rbind (fail_incidents env now hit db) (\<lambda>db'. Inr (db', length hit)))"

end
