(* ===== verification/CP_Authority.thy ===== *)
theory CP_Authority
  imports CP_Runtime
begin

text \<open>
  The orchestration authority of \<^verbatim>\<open>runtime/authority.py\<close> with the scenarios of \<^verbatim>\<open>runtime/scenarios.py\<close>: verdicts and
  escalations in the timeline, the warrant that a CLEAR verdict opens, and the human decisions on it. A transaction is
  one step; random identifiers and the nonce are arguments, as are the model classes of the third-party package.
  What these transactions keep together is proved in \<open>CP_System\<close>.
\<close>

section \<open>Scenarios\<close>

record scenario_definition =
  sd_scenario_id :: string
  sd_default_title :: string
  sd_affected_plan_id :: string
  sd_candidate_plan_id :: string
  sd_reproduction_profile :: string
  sd_source_paths :: "string list"

definition SOURCE_PATHS :: "string list" where
  "SOURCE_PATHS = [''victim/src/victim/app.py'', ''victim/src/victim/db.py'', ''victim/src/victim/webhooks.py'', ''victim/src/victim/worker.py'']"

definition OPERATOR_SCENARIOS :: "(string \<times> scenario_definition) list" where
  "OPERATOR_SCENARIOS =
     [(''webhook-race'',
        \<lparr>sd_scenario_id = ''webhook-race'', sd_default_title = ''Duplicate order-paid delivery'',
         sd_affected_plan_id = ''victim.duplicate-race.affected'', sd_candidate_plan_id = ''victim.duplicate-race.candidate'',
         sd_reproduction_profile = ''duplicate-race'', sd_source_paths = SOURCE_PATHS\<rparr>),
      (''webhook-payload-equivalence'',
        \<lparr>sd_scenario_id = ''webhook-payload-equivalence'', sd_default_title = ''Equivalent webhook retry rejected'',
         sd_affected_plan_id = ''victim.payload-equivalence.affected'', sd_candidate_plan_id = ''victim.payload-equivalence.candidate'',
         sd_reproduction_profile = ''payload-equivalence'', sd_source_paths = SOURCE_PATHS\<rparr>)]"

definition require_operator_scenario :: "string \<Rightarrow> runtime_error + scenario_definition" where
  "require_operator_scenario scenario =
     (case map_of OPERATOR_SCENARIOS scenario of
        None \<Rightarrow> Inl (RtValueError ''unsupported incident scenario'')
      | Some d \<Rightarrow> Inr d)"

definition require_live_trial_scenario :: "string \<Rightarrow> runtime_error + scenario_definition" where
  "require_live_trial_scenario scenario =
     (if scenario \<noteq> ''webhook-race''
      then Inl (RtValueError ''live trials support only the bundled webhook-race scenario'')
      else require_operator_scenario scenario)"

section \<open>Policy\<close>

record authority_policy =
  py_repository_root :: string
  py_repository :: repository_view
  py_repository_id :: string
  py_approver_identity :: string
  py_approval_mac_key_id :: string
  py_mac_keys :: mac_keys
  py_hmac :: "string \<Rightarrow> string \<Rightarrow> string"
  py_runner_digest :: string
  py_environment_digest :: string
  py_warrant_ttl :: int

text \<open>\<^verbatim>\<open>__post_init__\<close>; the time to live is in microseconds.\<close>

definition policy_check :: "authority_policy \<Rightarrow> runtime_error + unit" where
  "policy_check p =
     (if py_repository_id p = [] \<or> py_approver_identity p = [] \<or> py_approval_mac_key_id p = []
      then Inl (RtValueError ''authority identity fields are required'')
      else if char_count (py_runner_digest p) \<noteq> 64 \<or> char_count (py_environment_digest p) \<noteq> 64
      then Inl (RtValueError ''runner and environment digests must be SHA-256 values'')
      else if py_warrant_ttl p \<le> 0 then Inl (RtValueError ''warrant TTL must be positive'')
      else Inr ())"

record authority_env = runtime_models +
  ae_policy :: authority_policy
  ae_warrant_json :: "string \<Rightarrow> warrant_document option"
  ae_authority_json :: "string \<Rightarrow> authority_snapshot option"

section \<open>Reviews\<close>

definition begin_review ::
  "'z publication_env_scheme \<Rightarrow> string \<Rightarrow> datetime \<Rightarrow> string \<Rightarrow> runtime_db \<Rightarrow> runtime_error + runtime_db" where
  "begin_review env incident_id now uuid db =
     rbind (locked_incident db incident_id) (\<lambda>inc.
       if inc_state inc = EVIDENCE_READY
       then append_published_event env incident_id ''ANALYSIS_STARTED'' ''orchestrator'' [] now uuid db
       else if inc_state inc = TEST_FAILED
       then append_published_event env incident_id ''RETRY_STARTED'' ''orchestrator'' [] now uuid db
       else if inc_state inc \<notin> {ANALYZING, PATCHING}
       then Inl (RtValueError (''incident cannot begin review from '' @ state_value (inc_state inc)))
       else Inr db)"

definition add_verdict ::
  "'z runtime_env_scheme \<Rightarrow> string \<Rightarrow> string \<Rightarrow> string option \<Rightarrow> verdict \<Rightarrow> string \<Rightarrow> datetime \<Rightarrow> runtime_db \<Rightarrow> runtime_error + runtime_db" where
  "add_verdict env verdict_id incident_id agent_run v encoded now db =
     rbind (add_row vr_id \<lparr>vr_id = verdict_id, vr_incident_id = incident_id, vr_agent_run_id = agent_run, vr_verdict = v,
              vr_output_json = encoded, vr_verdict_sha256 = rt_sha env encoded, vr_source = seat_value MAGISTRATE,
              vr_created_at = now\<rparr> (verdicts db)) (\<lambda>rows. Inr (db\<lparr>verdicts := rows\<rparr>))"

definition abstain_payload :: "string \<Rightarrow> string option \<Rightarrow> payload" where
  "abstain_payload reason failure_code =
     [(''verdict'', PyStr (verdict_value ABSTAIN)), (''reason'', PyStr reason)] @
     (case failure_code of None \<Rightarrow> [] | Some c \<Rightarrow> [(''failure_code'', PyStr c)])"

definition fail_closed_abstain ::
  "'z publication_env_scheme \<Rightarrow> string \<Rightarrow> string \<Rightarrow> string option \<Rightarrow> datetime \<Rightarrow> string \<Rightarrow> string \<Rightarrow> runtime_db \<Rightarrow> runtime_error + runtime_db" where
  "fail_closed_abstain env incident_id reason failure_code now uuid1 uuid2 db =
     rbind (canonical env (py_fields (abstain_payload reason failure_code))) (\<lambda>encoded.
     rbind (locked_incident db incident_id) (\<lambda>_.
     rbind (add_verdict env (''verdict_'' @ uuid1) incident_id None ABSTAIN encoded now db) (\<lambda>db1.
     rbind (append_locked env incident_id ''VERDICT'' (seat_value MAGISTRATE) (abstain_payload reason failure_code) now uuid2 db1)
       (publish_locked env incident_id now))))"

text \<open>\<^verbatim>\<open>output.model_dump(mode="json")\<close> of a Magistrate output, as event payload.\<close>

definition required_change_json :: "required_change \<Rightarrow> pyval" where
  "required_change_json c =
     py_fields [(''code'', PyStr (rc_code c)),
       (''target'', (case rc_target c of None \<Rightarrow> PyNone | Some s \<Rightarrow> PyStr (seat_value s))), (''action'', PyStr (rc_action c))]"

definition verdict_payload :: "magistrate_output \<Rightarrow> payload" where
  "verdict_payload a =
     [(''verdict'', PyStr (verdict_value (mo_verdict a))), (''finding_codes'', strs (mo_finding_codes a)),
      (''required_changes'', PyList (map required_change_json (mo_required_changes a))),
      (''remand_target'', (case mo_remand_target a of None \<Rightarrow> PyNone | Some s \<Rightarrow> PyStr (seat_value s))),
      (''evidence_ids'', strs (mo_evidence_ids a)), (''analysis'', PyStr (mo_analysis a))]"

definition record_verdict ::
  "'z publication_env_scheme \<Rightarrow> string \<Rightarrow> magistrate_output \<Rightarrow> datetime \<Rightarrow> string \<Rightarrow> string \<Rightarrow> runtime_db \<Rightarrow> runtime_error + runtime_db" where
  "record_verdict env incident_id out now uuid1 uuid2 db =
     rbind (canonical env (output_py (MagistrateOutput out))) (\<lambda>encoded.
     rbind (locked_incident db incident_id) (\<lambda>_.
     rbind (add_verdict env (''verdict_'' @ uuid1) incident_id None (mo_verdict out) encoded now db) (\<lambda>db1.
     rbind (append_locked env incident_id ''VERDICT'' ''Magistrate'' (verdict_payload out) now uuid2 db1)
       (publish_locked env incident_id now))))"

definition record_escalation ::
  "'z publication_env_scheme \<Rightarrow> string \<Rightarrow> seat \<Rightarrow> effort \<Rightarrow> int \<Rightarrow> string \<Rightarrow> string \<Rightarrow> datetime \<Rightarrow> string \<Rightarrow> runtime_db
   \<Rightarrow> runtime_error + runtime_db" where
  "record_escalation env incident_id s eff escalation_count reason message now uuid db =
     append_published_event env incident_id ''REASONING_ESCALATED'' (seat_value s)
       [(''seat'', PyStr (seat_value s)), (''effort'', PyStr (effort_text eff)), (''escalation_count'', PyInt escalation_count),
        (''reason'', PyStr reason), (''message'', PyStr message)] now uuid db"

definition reject_duplicate_retry ::
  "'z publication_env_scheme \<Rightarrow> string \<Rightarrow> seat \<Rightarrow> effort \<Rightarrow> string \<Rightarrow> seat_output \<Rightarrow> string \<Rightarrow> datetime \<Rightarrow>
   string \<times> string \<times> string \<times> string \<Rightarrow> runtime_db \<Rightarrow> runtime_error + runtime_db" where
  "reject_duplicate_retry env incident_id s eff phase out reason now uuids db =
     (case uuids of (uuid1, uuid2, uuid3, uuid4) \<Rightarrow>
     let abstain = abstain_payload ''escalation_exhausted'' (Some ''FAILED_RETRY_DUPLICATE'') in
     case index_of eff (effort_ladder (spec_by_seat s)) of
       None \<Rightarrow> Inl (RtValueError ''rejected retry effort is outside the seat policy'')
     | Some n \<Rightarrow>
         if n = 0 \<or> max_escalations (spec_by_seat s) < n
         then Inl (RtValueError ''rejected retry did not consume a valid escalation step'')
         else rbind (output_run env uuid1 incident_id s phase eff n out now) (\<lambda>run.
              rbind (canonical env (py_fields abstain)) (\<lambda>encoded.
              rbind (locked_incident db incident_id) (\<lambda>_.
              rbind (add_row run_id (run\<lparr>run_schema_status := ''REJECTED_DUPLICATE'',
                       run_failure_reason := Some ''FAILED_RETRY_DUPLICATE''\<rparr>) (agent_runs db)) (\<lambda>runs.
              rbind (append_locked env incident_id ''FAILED_RETRY_DUPLICATE'' (seat_value s)
                       [(''seat'', PyStr (seat_value s)), (''effort'', PyStr (effort_text eff)),
                        (''escalation_count'', PyInt (int n)), (''phase'', PyStr phase), (''reason'', PyStr reason),
                        (''output_sha256'', PyStr (run_output_sha256 run)), (''semantic_sha256'', PyStr (run_semantic_sha256 run))]
                       now uuid2 (db\<lparr>agent_runs := runs\<rparr>)) (\<lambda>db1.
              rbind (add_verdict env (''verdict_'' @ uuid3) incident_id None ABSTAIN encoded now db1) (\<lambda>db2.
              rbind (append_locked env incident_id ''VERDICT'' (seat_value MAGISTRATE) abstain now uuid4 db2)
                (publish_locked env incident_id now))))))))"

section \<open>Opening a warrant\<close>

definition latest_run :: "runtime_db \<Rightarrow> string \<Rightarrow> seat \<Rightarrow> string \<Rightarrow> agent_run_row option" where
  "latest_run db incident_id s output_sha256 =
     latest_by run_created_at run_id (filter (\<lambda>r. run_incident_id r = incident_id \<and> run_seat r = s \<and>
       run_output_sha256 r = output_sha256 \<and> run_schema_status r = ''VALID'') (agent_runs db))"

text \<open>The run of an output: the latest valid one with its digest, or a new one.\<close>

definition persisted_run ::
  "'z runtime_env_scheme \<Rightarrow> string \<Rightarrow> string \<Rightarrow> seat \<Rightarrow> string \<Rightarrow> seat_output \<Rightarrow> datetime \<Rightarrow> runtime_db
   \<Rightarrow> runtime_error + (runtime_db \<times> agent_run_row)" where
  "persisted_run env uuid incident_id s phase out now db =
     rbind (canonical env (output_py out)) (\<lambda>encoded.
       case latest_run db incident_id s (rt_sha env encoded) of
         Some run \<Rightarrow> Inr (db, run)
       | None \<Rightarrow>
           rbind (output_run env uuid incident_id s phase (initial_effort (spec_by_seat s)) 0 out now) (\<lambda>run.
           rbind (add_row run_id run (agent_runs db)) (\<lambda>rows. Inr (db\<lparr>agent_runs := rows\<rparr>, run))))"

text \<open>The candidate of a run and patch: the latest one, or a new one. The query orders by time only; equal times are
  ordered by identifier here. The paths of a found one must not have changed.\<close>

definition persisted_candidate ::
  "'z runtime_env_scheme \<Rightarrow> string \<Rightarrow> string \<Rightarrow> string \<Rightarrow> counsel_output \<Rightarrow> string list \<Rightarrow> datetime \<Rightarrow> runtime_db
   \<Rightarrow> runtime_error + (runtime_db \<times> candidate_row)" where
  "persisted_candidate env uuid incident_id agent_run counsel paths now db =
     (case latest_by cand_created_at cand_id (filter (\<lambda>c. cand_agent_run_id c = agent_run \<and>
             cand_patch_sha256 c = rt_sha env (co_normalized_diff counsel)) (candidates_of db incident_id)) of
        Some candidate \<Rightarrow>
          if cand_allowed_paths candidate \<noteq> paths then Inl (RtValueError ''persisted patch candidate paths changed'')
          else Inr (db, candidate)
      | None \<Rightarrow>
          let candidate = new_candidate env uuid db incident_id agent_run counsel paths now
          in rbind (add_row cand_id candidate (candidates db)) (\<lambda>rows. Inr (db\<lparr>candidates := rows\<rparr>, candidate)))"

definition evidence_manifest :: "'z runtime_env_scheme \<Rightarrow> runtime_db \<Rightarrow> string \<Rightarrow> runtime_error + string" where
  "evidence_manifest env db incident_id =
     digest env (PyList (map (\<lambda>r. PyList [PyStr (er_id r), PyStr (er_sanitized_sha256 r)])
       (sort_key er_id (filter (\<lambda>r. er_incident_id r = incident_id \<and> er_published r) (evidence_rows db)))))"

definition resolve_plans :: "'z runtime_env_scheme \<Rightarrow> string list \<Rightarrow> runtime_error + bound_execution_plan list" where
  "resolve_plans env plan_ids =
     map_result (\<lambda>i. map_error (\<lambda>_. RtValueError ''unknown execution plan'')
       (rbind (resolve i None) (\<lambda>p. Inr (from_execution_plan (rt_sha env) p)))) plan_ids"

text \<open>The fresh names of one call: warrant, verdict, nonce, the two runs, the candidate and the event.\<close>

record opening_names =
  on_warrant :: string
  on_verdict :: string
  on_nonce :: string
  on_counsel_run :: string
  on_candidate :: string
  on_magistrate_run :: string
  on_event :: string

text \<open>What the transaction reads before its first write.\<close>

record opening_inputs =
  oi_counsel :: counsel_output
  oi_paths :: "string list"
  oi_columns :: incident_columns
  oi_plans :: "bound_execution_plan list"
  oi_test_plan_sha256 :: string
  oi_evidence_manifest :: string
  oi_reviewed_head :: string

definition read_inputs ::
  "'z authority_env_scheme \<Rightarrow> string \<Rightarrow> magistrate_output \<Rightarrow> seat_output option \<Rightarrow> runtime_db \<Rightarrow> runtime_error + opening_inputs" where
  "read_inputs env incident_id out counsel_output db =
     (let nfkc = op_nfkc (rt_text env)
      in if mo_verdict out \<noteq> CLEAR then Inl (RtValueError ''only a CLEAR verdict can open human approval'')
         else (case counsel_output of
           Some (CounselOutput counsel) \<Rightarrow>
             rbind (map_error RtPathError (derive_patch_paths nfkc (co_normalized_diff counsel))) (\<lambda>paths.
             rbind (map_error RtPathError (validate_patch_paths nfkc (py_repository (ae_policy env)) paths)) (\<lambda>_.
             rbind (locked_incident db incident_id) (\<lambda>inc.
             case (columns db incident_id) of
               None \<Rightarrow> Inl (RtLookupError incident_id)
             | Some cols \<Rightarrow>
             if inc_state inc \<noteq> REVIEWING then Inl (RtValueError ''approval can open only from REVIEWING'')
             else if \<not> present (ic_base_sha cols) \<or> \<not> present (ic_repository_manifest_sha256 cols)
             then Inl (RtValueError ''incident repository bindings are incomplete'')
             else rbind (require_operator_scenario (ic_scenario cols)) (\<lambda>definition'.
             let plan_ids = map ti_catalog_id (co_test_intentions counsel) in
             if plan_ids \<noteq> [sd_candidate_plan_id definition']
             then Inl (RtValueError ''approval plan does not match incident scenario'')
             else rbind (resolve_plans env plan_ids) (\<lambda>plans.
             rbind (digest env (PyList (map bound_plan_py plans))) (\<lambda>test_plan_sha256.
             rbind (evidence_manifest env db incident_id) (\<lambda>manifest.
             case event_chain_head inc of
               None \<Rightarrow> Inl (RtValueError ''incident timeline has no review head'')
             | Some reviewed_head \<Rightarrow>
                 Inr \<lparr>oi_counsel = counsel, oi_paths = paths, oi_columns = cols, oi_plans = plans,
                      oi_test_plan_sha256 = test_plan_sha256, oi_evidence_manifest = manifest,
                      oi_reviewed_head = reviewed_head\<rparr>)))))))
         | _ \<Rightarrow> Inl (RtValueError ''CLEAR requires a structured Counsel patch'')))"

text \<open>A live trial is approved by its owner.\<close>

definition warrant_approver :: "authority_policy \<Rightarrow> incident_columns \<Rightarrow> runtime_error + string" where
  "warrant_approver p cols =
     (if \<not> ic_live_trial cols then Inr (py_approver_identity p)
      else if \<not> present (ic_owner_subject cols) then Inl (RtValueError ''live-trial incident has no credential owner'')
      else Inr (the (ic_owner_subject cols)))"

definition authority_digest ::
  "'z runtime_env_scheme \<Rightarrow> opening_names \<Rightarrow> string \<Rightarrow> opening_inputs \<Rightarrow> string \<Rightarrow> string \<Rightarrow> runtime_error + string" where
  "authority_digest env names incident_id x verdict_sha256 candidate_id =
     digest env (py_fields
       [(''warrant_id'', PyStr (''war_'' @ on_warrant names)), (''incident_id'', PyStr incident_id),
        (''verdict_id'', PyStr (''verdict_'' @ on_verdict names)), (''verdict_sha256'', PyStr verdict_sha256),
        (''candidate_id'', PyStr candidate_id), (''evidence_manifest'', PyStr (oi_evidence_manifest x)),
        (''timeline_head'', PyStr (oi_reviewed_head x)),
        (''patch_sha256'', PyStr (rt_sha env (co_normalized_diff (oi_counsel x)))), (''allowed_paths'', strs (oi_paths x)),
        (''test_plan_sha256'', PyStr (oi_test_plan_sha256 x))])"

definition open_document ::
  "'z authority_env_scheme \<Rightarrow> opening_names \<Rightarrow> string \<Rightarrow> opening_inputs \<Rightarrow> string \<Rightarrow> string \<Rightarrow> string \<Rightarrow> string \<Rightarrow> datetime
   \<Rightarrow> warrant_document" where
  "open_document env names incident_id x verdict_sha256 candidate_id authority_sha256 approver now =
     (let p = ae_policy env; patch = co_normalized_diff (oi_counsel x) in
      \<lparr>wd_format = WARRANT_FORMAT, wd_warrant_id = ''war_'' @ on_warrant names, wd_incident_id = incident_id,
       wd_repository_id = py_repository_id p, wd_verdict_id = ''verdict_'' @ on_verdict names, wd_verdict_sha256 = verdict_sha256,
       wd_candidate_id = candidate_id, wd_authority_snapshot_sha256 = authority_sha256,
       wd_reviewed_evidence_manifest_sha256 = oi_evidence_manifest x, wd_reviewed_timeline_head = oi_reviewed_head x,
       wd_base_sha = the (ic_base_sha (oi_columns x)),
       wd_repository_manifest_sha256 = the (ic_repository_manifest_sha256 (oi_columns x)),
       wd_patch_b64 = b64encode patch, wd_patch_sha256 = rt_sha env patch, wd_allowed_paths = oi_paths x,
       wd_execution_plans = oi_plans x, wd_test_plan_sha256 = oi_test_plan_sha256 x,
       wd_runner_digest = py_runner_digest p, wd_environment_digest = py_environment_digest p,
       wd_approver_identity = approver, wd_issued_at = now,
       wd_expires_at = Aware (nat (int (instant now) + py_warrant_ttl p)) 0,
       wd_approval_mac_key_id = py_approval_mac_key_id p, wd_nonce = ''nonce_'' @ on_nonce names\<rparr>)"

text \<open>The writes that end the transaction: the verdict, the control warrant, the event and the published case.\<close>

definition store_warrant ::
  "'z authority_env_scheme \<Rightarrow> opening_names \<Rightarrow> magistrate_output \<Rightarrow> warrant_document \<Rightarrow> string \<Rightarrow> string \<Rightarrow> datetime \<Rightarrow> runtime_db
   \<Rightarrow> runtime_error + (runtime_db \<times> string)" where
  "store_warrant env names out document verdict_bytes agent_run now db =
     (let incident_id = wd_incident_id document; warrant_id = wd_warrant_id document in
      rbind (require (document_ok document) RtSchemaError) (\<lambda>_.
      rbind (add_verdict env (wd_verdict_id document) incident_id (Some agent_run) CLEAR verdict_bytes now db) (\<lambda>db1.
      rbind (map_error RtCanonicalization (canonical_warrant_bytes (rt_nfc env) document)) (\<lambda>bytes.
      rbind (map_error RtCanonicalization (canonical_authority_bytes (rt_nfc env)
               (from_warrant document (py_repository_root (ae_policy env))))) (\<lambda>authority_json.
      rbind (add_row cw_id
               \<lparr>cw_id = warrant_id, cw_incident_id = incident_id, cw_canonical_document = bytes, cw_warrant_sha256 = rt_sha env bytes,
                cw_authority_json = authority_json, cw_status = PENDING_APPROVAL, cw_approval_id = None,
                cw_expires_at = wd_expires_at document, cw_created_at = now, cw_updated_at = now\<rparr>
               (control_warrants db1)) (\<lambda>rows.
      rbind (append_locked env incident_id ''VERDICT'' (seat_value MAGISTRATE) (verdict_payload out) now (on_event names)
               (set_pending_warrant incident_id (Some warrant_id) (db1\<lparr>control_warrants := rows\<rparr>))) (\<lambda>db2.
      rbind (publish_locked env incident_id now db2) (\<lambda>db3. Inr (db3, warrant_id)))))))))"

definition open_approval ::
  "'z authority_env_scheme \<Rightarrow> opening_names \<Rightarrow> string \<Rightarrow> magistrate_output \<Rightarrow> seat_output option \<Rightarrow> datetime \<Rightarrow> runtime_db
   \<Rightarrow> runtime_error + (runtime_db \<times> string)" where
  "open_approval env names incident_id out counsel_output now db =
     rbind (read_inputs env incident_id out counsel_output db) (\<lambda>x.
     rbind (persisted_run env (on_counsel_run names) incident_id COUNSEL ''patch-proposal'' (CounselOutput (oi_counsel x)) now db)
       (\<lambda>(db1, counsel_run).
     rbind (persisted_candidate env (on_candidate names) incident_id (run_id counsel_run) (oi_counsel x) (oi_paths x) now db1)
       (\<lambda>(db2, candidate).
     rbind (persisted_run env (on_magistrate_run names) incident_id MAGISTRATE ''verdict-review'' (MagistrateOutput out) now db2)
       (\<lambda>(db3, magistrate_run).
     rbind (canonical env (output_py (MagistrateOutput out))) (\<lambda>verdict_bytes.
     rbind (authority_digest env names incident_id x (rt_sha env verdict_bytes) (cand_id candidate)) (\<lambda>authority_sha256.
     rbind (warrant_approver (ae_policy env) (oi_columns x)) (\<lambda>approver.
       store_warrant env names out
         (open_document env names incident_id x (rt_sha env verdict_bytes) (cand_id candidate) authority_sha256 approver now)
         verdict_bytes (run_id magistrate_run) now db3)))))))"

section \<open>Decisions\<close>

definition control_by :: "runtime_db \<Rightarrow> string \<Rightarrow> control_warrant_row option" where
  "control_by db warrant_id = row_by cw_id warrant_id (control_warrants db)"

definition put_control :: "control_warrant_row \<Rightarrow> runtime_db \<Rightarrow> runtime_db" where
  "put_control c db = db\<lparr>control_warrants := put_row cw_id c (control_warrants db)\<rparr>"

text \<open>The guard that every decision starts with.\<close>

definition pending_control :: "string \<Rightarrow> string \<Rightarrow> runtime_db \<Rightarrow> runtime_error + control_warrant_row" where
  "pending_control warrant_id warrant_sha256 db =
     (case control_by db warrant_id of
        None \<Rightarrow> Inl (RtLookupError warrant_id)
      | Some c \<Rightarrow>
          if cw_status c \<noteq> PENDING_APPROVAL
          then Inl (WarrantDecisionConflict ''WARRANT_NOT_PENDING'' ''warrant is not pending approval'')
          else rbind (same_digest (cw_warrant_sha256 c) warrant_sha256) (\<lambda>same.
            if \<not> same then Inl (WarrantDecisionConflict ''WARRANT_HASH_CHANGED'' ''canonical warrant hash changed'')
            else Inr c))"

definition expire_warrant_if_needed ::
  "'z publication_env_scheme \<Rightarrow> string \<Rightarrow> string \<Rightarrow> string \<Rightarrow> datetime \<Rightarrow> string \<Rightarrow> runtime_db
   \<Rightarrow> runtime_error + (runtime_db \<times> bool)" where
  "expire_warrant_if_needed env warrant_id warrant_sha256 actor now uuid db =
     rbind (pending_control warrant_id warrant_sha256 db) (\<lambda>c.
       if instant now \<le> instant (cw_expires_at c) then Inr (db, False)
       else rbind (locked_incident db (cw_incident_id c)) (\<lambda>_.
            rbind (append_locked env (cw_incident_id c) ''WARRANT_EXPIRED'' actor
                     [(''warrant_id'', PyStr warrant_id), (''warrant_sha256'', PyStr warrant_sha256)] now uuid
                     (set_pending_warrant (cw_incident_id c) None
                        (put_control (c\<lparr>cw_status := CW_EXPIRED, cw_updated_at := now\<rparr>) db))) (\<lambda>db1.
            rbind (publish_locked env (cw_incident_id c) now db1) (\<lambda>db2. Inr (db2, True)))))"

definition reject_warrant ::
  "'z publication_env_scheme \<Rightarrow> string \<Rightarrow> string \<Rightarrow> string \<Rightarrow> string option \<Rightarrow> datetime \<Rightarrow> string \<Rightarrow> control_warrant_row \<Rightarrow> runtime_db
   \<Rightarrow> runtime_error + runtime_db" where
  "reject_warrant env warrant_id warrant_sha256 actor reason now uuid c db =
     rbind (append_locked env (cw_incident_id c) ''WARRANT_REJECTED'' actor
              ([(''warrant_id'', PyStr warrant_id), (''warrant_sha256'', PyStr warrant_sha256)] @
               (case reason of None \<Rightarrow> [] | Some r \<Rightarrow> [(''reason'', PyStr r)])) now uuid
              (set_state (cw_incident_id c) BLOCKED
                 (set_pending_warrant (cw_incident_id c) None
                    (put_control (c\<lparr>cw_status := CW_REJECTED, cw_updated_at := now\<rparr>) db))))
       (publish_locked env (cw_incident_id c) now)"

text \<open>\<^verbatim>\<open>warrant_id.replace("war_", "apr_", 1)\<close>.\<close>

fun replace_first :: "string \<Rightarrow> string \<Rightarrow> string \<Rightarrow> string" where
  "replace_first old new s =
     (if prefix old s then new @ drop (length old) s
      else case s of [] \<Rightarrow> [] | c # cs \<Rightarrow> c # replace_first old new cs)"

declare replace_first.simps [simp del]

definition approval_id_of :: "string \<Rightarrow> string" where
  "approval_id_of warrant_id = replace_first ''war_'' ''apr_'' warrant_id"

fun approval_failure :: "approval_error \<Rightarrow> runtime_error" where
  "approval_failure CompareDigestTypeError = RtTypeError"
| "approval_failure (ApprovalCanonicalization e) = RtCanonicalization e"
| "approval_failure _ = RtValueError ''approval''"

text \<open>The broker rows of an approval: the current authority of the incident and the approved warrant.\<close>

definition grant_authority ::
  "'z runtime_env_scheme \<Rightarrow> string \<Rightarrow> control_warrant_row \<Rightarrow> warrant_document \<Rightarrow> string \<Rightarrow> datetime \<Rightarrow> warrant_db \<Rightarrow> warrant_db" where
  "grant_authority env warrant_id c document approval_json now bdb =
     (put_authority (cw_incident_id c) now (cw_authority_json c) bdb)\<lparr>warrants := (warrants bdb)(warrant_id \<mapsto>
       \<lparr>wr_id = warrant_id, wr_incident_id = cw_incident_id c, wr_nonce_sha256 = rt_sha env (wd_nonce document),
        wr_document_json = cw_canonical_document c, wr_approval_json = approval_json, wr_state = WS_APPROVED,
        wr_expires_at = wd_expires_at document, wr_claimed_at = None, wr_nonce_consumed_at = None,
        wr_finished_at = None, wr_result_json = None, wr_created_at = now, wr_updated_at = now\<rparr>)\<rparr>"

definition approve_warrant ::
  "'z authority_env_scheme \<Rightarrow> string \<Rightarrow> string \<Rightarrow> string \<Rightarrow> datetime \<Rightarrow> string \<Rightarrow> control_warrant_row \<Rightarrow> warrant_document \<Rightarrow> runtime_db
   \<Rightarrow> runtime_error + runtime_db" where
  "approve_warrant env warrant_id warrant_sha256 actor now uuid c document db =
     (let incident_id = cw_incident_id c; p = ae_policy env
      in if instant (cw_expires_at c) < instant now
         then Inl (RtRuntimeError ''warrant expiry changed during locked approval'')
         else rbind (map_error approval_failure
                (approve (rt_sha env) (rt_nfc env) (py_hmac p) (py_mac_keys p) document now (Some actor))) (\<lambda>approval.
              if ae_authority_json env (cw_authority_json c) = None then Inl RtSchemaError
              else rbind (map_error RtCanonicalization (canonical_approval_bytes (rt_nfc env) approval)) (\<lambda>approval_json.
              if warrant_id \<in> dom (warrants (broker_db db)) \<or>
                 (\<exists>row \<in> ran (warrants (broker_db db)). wr_nonce_sha256 row = rt_sha env (wd_nonce document))
              then Inl RtIntegrityError
              else rbind (append_locked env incident_id ''WARRANT_APPROVED'' actor
                          [(''approval_id'', PyStr (approval_id_of warrant_id)), (''warrant_sha256'', PyStr warrant_sha256),
                           (''approver_identity'', PyStr actor)] now uuid
                     (set_pending_warrant incident_id None
                        (put_control (c\<lparr>cw_status := CW_APPROVED, cw_approval_id := Some (approval_id_of warrant_id), cw_updated_at := now\<rparr>)
                           (db\<lparr>broker_db := grant_authority env warrant_id c document approval_json now (broker_db db)\<rparr>)))) (\<lambda>db1.
                   rbind (enqueue_runtime_work_locked incident_id warrant_id APPROVED_EXECUTION_WORK now db1)
                     (publish_locked env incident_id now)))))"

text \<open>The second transaction of \<^verbatim>\<open>decide_warrant\<close>.\<close>

definition decide_locked ::
  "'z authority_env_scheme \<Rightarrow> string \<Rightarrow> bool \<Rightarrow> string \<Rightarrow> string \<Rightarrow> string option \<Rightarrow> datetime \<Rightarrow> string \<Rightarrow> runtime_db
   \<Rightarrow> runtime_error + runtime_db" where
  "decide_locked env warrant_id approve' warrant_sha256 actor reason now uuid db =
     rbind (pending_control warrant_id warrant_sha256 db) (\<lambda>c.
       case ae_warrant_json env (cw_canonical_document c) of
         None \<Rightarrow> Inl RtSchemaError
       | Some document \<Rightarrow>
           rbind (locked_incident db (cw_incident_id c)) (\<lambda>_.
             if approve' then approve_warrant env warrant_id warrant_sha256 actor now uuid c document db
             else reject_warrant env warrant_id warrant_sha256 actor reason now uuid c db))"

text \<open>\<^verbatim>\<open>decide_warrant\<close>: an approval first expires an old warrant in a transaction of its own, whose effect stays
  although the call then raises.\<close>

definition decide_warrant ::
  "'z authority_env_scheme \<Rightarrow> string \<Rightarrow> bool \<Rightarrow> string \<Rightarrow> string \<Rightarrow> string option \<Rightarrow> datetime \<Rightarrow> string \<Rightarrow> runtime_db
   \<Rightarrow> (runtime_error + unit) \<times> runtime_db" where
  "decide_warrant env warrant_id approve' warrant_sha256 actor reason now uuid db =
     (let locked = (case decide_locked env warrant_id approve' warrant_sha256 actor reason now uuid db of
                      Inl e \<Rightarrow> (Inl e, db) | Inr db' \<Rightarrow> (Inr (), db'))
      in if \<not> approve' then locked
         else case expire_warrant_if_needed env warrant_id warrant_sha256 actor now uuid db of
                Inl e \<Rightarrow> (Inl e, db)
              | Inr (db1, True) \<Rightarrow> (Inl (WarrantDecisionConflict ''WARRANT_EXPIRED'' ''warrant is expired''), db1)
              | Inr (_, False) \<Rightarrow> locked)"

definition request_revision ::
  "'z publication_env_scheme \<Rightarrow> string \<Rightarrow> string \<Rightarrow> evidence_envelope \<Rightarrow> string \<Rightarrow> datetime \<Rightarrow> string \<Rightarrow> runtime_db
   \<Rightarrow> runtime_error + (runtime_db \<times> string)" where
  "request_revision env warrant_id warrant_sha256 guidance actor now uuid db =
     rbind (pending_control warrant_id warrant_sha256 db) (\<lambda>c.
       if instant (cw_expires_at c) < instant now
       then Inl (WarrantDecisionConflict ''WARRANT_EXPIRED'' ''warrant is expired'')
       else case (incident_of db (cw_incident_id c), columns db (cw_incident_id c)) of
              (Some _, Some cols) \<Rightarrow>
                if \<not> ic_live_trial cols \<or> ic_owner_subject cols \<noteq> Some actor \<or> ee_incident_id guidance \<noteq> cw_incident_id c
                then Inl (RtPermissionError ''revision is not authorized for this live trial'')
                else rbind (evidence_row_of env (ee_evidence_id guidance) guidance True now) (\<lambda>row.
                     rbind (add_row er_id row (evidence_rows db)) (\<lambda>rows.
                     rbind (append_locked env (cw_incident_id c) ''REVISION_REQUESTED'' actor
                              [(''warrant_id'', PyStr warrant_id), (''warrant_sha256'', PyStr warrant_sha256),
                               (''evidence_id'', PyStr (ee_evidence_id guidance))] now uuid
                              (set_pending_warrant (cw_incident_id c) None
                                 (put_control (c\<lparr>cw_status := CW_REJECTED, cw_updated_at := now\<rparr>)
                                    (db\<lparr>evidence_rows := rows\<rparr>)))) (\<lambda>db1.
                     rbind (publish_locked env (cw_incident_id c) now db1) (\<lambda>db2. Inr (db2, cw_incident_id c)))))
            | _ \<Rightarrow> Inl (RtPermissionError ''revision is not authorized for this live trial''))"

definition approved_warrant :: "runtime_db \<Rightarrow> string \<Rightarrow> string \<Rightarrow> string option" where
  "approved_warrant db incident_id warrant_id =
     (case control_by db warrant_id of
        None \<Rightarrow> None
      | Some c \<Rightarrow> if cw_incident_id c = incident_id \<and> cw_status c = CW_APPROVED then cw_approval_id c else None)"

end
