(* ===== verification/CP_System.thy ===== *)
theory CP_System
  imports CP_Authority
begin

text \<open>
  The transactions of the runtime store, of the authority and of the broker on one database, in any order. What every
  transaction keeps is a preorder on databases, \<open>evolves\<close>: warrant documents do not change, a decision is final,
  broker rows exist for approved warrants with execution work only, work that was claimed is not offered again until
  the process restarts, and public cases are verified incidents that are no live trials.
\<close>

section \<open>Preorders kept by steps\<close>

locale step_preorder =
  fixes step :: "'s \<Rightarrow> 's \<Rightarrow> bool" and rel :: "'s \<Rightarrow> 's \<Rightarrow> bool"
  assumes rel_refl: "rel s s"
    and rel_trans: "rel s t \<Longrightarrow> rel t u \<Longrightarrow> rel s u"
    and rel_step: "step s t \<Longrightarrow> rel s t"
begin

lemma rel_runs: "step\<^sup>*\<^sup>* s t \<Longrightarrow> rel s t"
  by (induction rule: rtranclp_induct) (blast intro: rel_refl rel_trans rel_step)+

end

section \<open>What a transaction leaves alone\<close>

text \<open>A transaction that only writes events, evidence, seat outputs, verdicts, test runs and the published case.\<close>

definition quiet :: "runtime_db \<Rightarrow> runtime_db \<Rightarrow> bool" where
  "quiet db db' \<longleftrightarrow>
     control_warrants db' = control_warrants db \<and> broker_db db' = broker_db db \<and> columns db' = columns db \<and>
     runtime_work db' = runtime_work db \<and> dom (incidents (control db')) = dom (incidents (control db)) \<and>
     (publication_ok db \<longrightarrow> publication_ok db') \<and> stays_published db db'"

lemma stays_published_refl: "stays_published db db"
  unfolding stays_published_def by blast

lemma stays_published_trans: "stays_published a b \<Longrightarrow> stays_published b c \<Longrightarrow> stays_published a c"
  unfolding stays_published_def by (meson order_trans)

lemma publication_by_parts:
  assumes "publication_ok db" "published_cases db' = published_cases db"
    "dom (incidents (control db)) \<subseteq> dom (incidents (control db'))"
    "\<And>i c. i \<in> dom (incidents (control db)) \<Longrightarrow> columns db i = Some c \<Longrightarrow>
       \<exists>c'. columns db' i = Some c' \<and> ic_live_trial c' = ic_live_trial c"
  shows "publication_ok db'"
  unfolding publication_ok_def
proof (intro allI impI)
  fix i row
  assume "published_cases db' i = Some row"
  then have r: "published_cases db i = Some row" by (simp add: assms(2))
  then have d: "i \<in> dom (incidents (control db))" using assms(1) unfolding publication_ok_def incident_of_def by blast
  then have "incident_of db' i \<noteq> None" using assms(3) unfolding incident_of_def by blast
  moreover have "\<exists>c. columns db' i = Some c \<and> \<not> ic_live_trial c" if "pb_published row"
    using assms(1) assms(4) [OF d] r that unfolding publication_ok_def by metis
  moreover have "pb_state row = VERIFIED" if "pb_published row"
    using assms(1) r that unfolding publication_ok_def by blast
  ultimately show "incident_of db' i \<noteq> None \<and>
      (pb_published row \<longrightarrow> pb_state row = VERIFIED \<and> (\<exists>c. columns db' i = Some c \<and> \<not> ic_live_trial c))" by blast
qed

lemma quiet_refl [simp]: "quiet db db"
  by (simp add: quiet_def stays_published_refl)

lemma quiet_trans: "quiet a b \<Longrightarrow> quiet b c \<Longrightarrow> quiet a c"
  unfolding quiet_def using stays_published_trans by metis

text \<open>Writes to the tables that do not matter here.\<close>

lemma quiet_rows [simp]:
  "quiet (db\<lparr>agent_runs := r\<rparr>) db' = quiet db db'" "quiet (db\<lparr>verdicts := v\<rparr>) db' = quiet db db'"
  "quiet (db\<lparr>candidates := c\<rparr>) db' = quiet db db'" "quiet (db\<lparr>evidence_rows := e\<rparr>) db' = quiet db db'"
  "quiet (db\<lparr>test_runs := t\<rparr>) db' = quiet db db'"
  "quiet db (db'\<lparr>agent_runs := r\<rparr>) = quiet db db'" "quiet db (db'\<lparr>verdicts := v\<rparr>) = quiet db db'"
  "quiet db (db'\<lparr>candidates := c\<rparr>) = quiet db db'" "quiet db (db'\<lparr>evidence_rows := e\<rparr>) = quiet db db'"
  "quiet db (db'\<lparr>test_runs := t\<rparr>) = quiet db db'"
  by (simp_all add: quiet_def publication_ok_def stays_published_def incident_of_def)

lemma append_event_keys:
  "append_event sha nfc db i ty actor p now uuid = Inr (db', e) \<Longrightarrow> dom (incidents db') = dom (incidents db)"
  by (auto simp: append_event_def insert_event_def result_simps Let_def split: option.splits if_splits)

lemma append_quiet:
  assumes "append_locked env i ty actor p now uuid db = Inr db'"
  shows "quiet db db'"
proof -
  obtain c where c: "db' = db\<lparr>control := c\<rparr>" "dom (incidents c) = dom (incidents (control db))"
    using assms append_event_keys by (auto simp: append_locked_def result_simps)
  have "publication_ok db'" if "publication_ok db"
    by (rule publication_by_parts [OF that]) (simp_all add: c)
  then show ?thesis by (simp add: c quiet_def stays_published_def)
qed

lemma publish_quiet: "publish_locked env i now db = Inr db' \<Longrightarrow> quiet db db'"
  by (simp add: quiet_def publish_frame publish_keeps_publication)

lemmas quiet_dests = append_quiet publish_quiet


text \<open>The transactions of the store and the authority that are quiet.\<close>

lemma quiet_transactions:
  "append_published_event env i ty actor p now uuid db = Inr db' \<Longrightarrow> quiet db db'"
  "record_evidence env e envelope published now db = Inr db' \<Longrightarrow> quiet db db'"
  "prepare_seat env i s phase clocks uuid1 uuid2 db = Inr db' \<Longrightarrow> quiet db db'"
  "record_test_run env row ty fs uuid db = Inr db' \<Longrightarrow> quiet db db'"
  "fail_closed_abstain env i reason fc now uuid1 uuid2 db = Inr db' \<Longrightarrow> quiet db db'"
  "record_verdict env i out now uuid1 uuid2 db = Inr db' \<Longrightarrow> quiet db db'"
proof -
  note rules = result_simps locked_incident_def add_verdict_def
  show "append_published_event env i ty actor p now uuid db = Inr db' \<Longrightarrow> quiet db db'"
    by (auto simp: append_published_event_def rules dest!: quiet_dests intro: quiet_trans)
  show "record_evidence env e envelope published now db = Inr db' \<Longrightarrow> quiet db db'"
    by (auto simp: record_evidence_def rules split: if_splits dest!: quiet_dests intro: quiet_trans)
  show "prepare_seat env i s phase clocks uuid1 uuid2 db = Inr db' \<Longrightarrow> quiet db db'"
    by (auto simp: prepare_seat_def rules split: if_splits prod.splits dest!: quiet_dests intro: quiet_trans)
  show "record_test_run env row ty fs uuid db = Inr db' \<Longrightarrow> quiet db db'"
    by (auto simp: record_test_run_def rules dest!: quiet_dests intro: quiet_trans)
  show "fail_closed_abstain env i reason fc now uuid1 uuid2 db = Inr db' \<Longrightarrow> quiet db db'"
    by (auto simp: fail_closed_abstain_def rules dest!: quiet_dests intro: quiet_trans)
  show "record_verdict env i out now uuid1 uuid2 db = Inr db' \<Longrightarrow> quiet db db'"
    by (auto simp: record_verdict_def rules dest!: quiet_dests intro: quiet_trans)
qed

lemma quiet_reviews:
  "begin_review env i now uuid db = Inr db' \<Longrightarrow> quiet db db'"
  "record_escalation env i s eff n reason message now uuid db = Inr db' \<Longrightarrow> quiet db db'"
  "reject_duplicate_retry env i s eff phase out reason now uuids db = Inr db' \<Longrightarrow> quiet db db'"
  by (auto simp: begin_review_def record_escalation_def reject_duplicate_retry_def add_verdict_def Let_def result_simps
      split: if_splits option.splits prod.splits dest!: quiet_dests dest: quiet_transactions(1) intro: quiet_trans quiet_trans [OF quiet_trans])

lemma quiet_proposal:
  "(case candidate of
      None \<Rightarrow> Inr db1
    | Some c \<Rightarrow> (case incident_of db1 i of
        None \<Rightarrow> Inr db1
      | Some inc \<Rightarrow> if inc_state inc = PATCHING then append_locked env i ty actor (p c) now uuid db1 else Inr db1)) = Inr db2
   \<Longrightarrow> quiet db1 db2"
  by (auto split: option.splits if_splits dest: append_quiet)

lemma quiet_seat_output: "record_seat_output env i s eff phase out n now uuids db = Inr db' \<Longrightarrow> quiet db db'"
  by (auto simp: record_seat_output_def result_simps case_prod_beta dest!: quiet_proposal quiet_dests
      intro: quiet_trans [OF quiet_trans])

section \<open>What every transaction keeps\<close>

definition bound_part :: "control_warrant_row \<Rightarrow> string \<times> string \<times> string \<times> string \<times> datetime" where
  "bound_part c = (cw_incident_id c, cw_canonical_document c, cw_warrant_sha256 c, cw_authority_json c, cw_expires_at c)"

definition controls_kept :: "runtime_db \<Rightarrow> runtime_db \<Rightarrow> bool" where
  "controls_kept db db' \<longleftrightarrow>
     (\<forall>w c. control_by db w = Some c \<longrightarrow>
        (\<exists>c'. control_by db' w = Some c' \<and> bound_part c' = bound_part c \<and> (cw_status c \<noteq> PENDING_APPROVAL \<longrightarrow> c' = c)))"

definition works_kept :: "runtime_db \<Rightarrow> runtime_db \<Rightarrow> bool" where
  "works_kept db db' \<longleftrightarrow>
     (\<forall>i w. work_by db i = Some w \<longrightarrow>
        (\<exists>w'. work_by db' i = Some w' \<and> wk_incident_id w' = wk_incident_id w \<and> wk_warrant_id w' = wk_warrant_id w \<and>
           wk_kind w' = wk_kind w \<and> (wk_status w = WORK_COMPLETED \<longrightarrow> wk_status w' = WORK_COMPLETED)))"

definition rows_kept :: "runtime_db \<Rightarrow> runtime_db \<Rightarrow> bool" where
  "rows_kept db db' \<longleftrightarrow>
     dom (incidents (control db)) \<subseteq> dom (incidents (control db')) \<and>
     (\<forall>i c. i \<in> dom (incidents (control db)) \<and> columns db i = Some c \<longrightarrow>
        (\<exists>c'. columns db' i = Some c' \<and> ic_live_trial c' = ic_live_trial c))"

text \<open>A broker row stands for an approved warrant of the same incident and bytes, with its execution in the queue.\<close>

definition authority_ok :: "runtime_db \<Rightarrow> bool" where
  "authority_ok db \<longleftrightarrow>
     (\<forall>w row. warrants (broker_db db) w = Some row \<longrightarrow>
        (\<exists>c work. control_by db w = Some c \<and> cw_status c = CW_APPROVED \<and> cw_incident_id c = wr_incident_id row \<and>
           cw_canonical_document c = wr_document_json row \<and> work_by db (execution_work_id w) = Some work \<and>
           wk_kind work = APPROVED_EXECUTION_WORK \<and> wk_warrant_id work = w \<and> wk_incident_id work = wr_incident_id row))"

definition brokers_kept :: "runtime_db \<Rightarrow> runtime_db \<Rightarrow> bool" where
  "brokers_kept db db' \<longleftrightarrow>
     (\<forall>w row'. warrants (broker_db db') w = Some row' \<longrightarrow>
        (\<exists>row. warrants (broker_db db) w = Some row \<and> wr_incident_id row = wr_incident_id row' \<and>
           wr_document_json row = wr_document_json row'))"

definition evolves :: "runtime_db \<Rightarrow> runtime_db \<Rightarrow> bool" where
  "evolves db db' \<longleftrightarrow>
     controls_kept db db' \<and> works_kept db db' \<and> rows_kept db db' \<and> stays_published db db' \<and>
     (publication_ok db \<longrightarrow> publication_ok db') \<and> (authority_ok db \<longrightarrow> authority_ok db')"

lemmas kept_defs = controls_kept_def works_kept_def rows_kept_def

lemma controls_kept_refl: "controls_kept db db"
  by (simp add: controls_kept_def)

lemma works_kept_refl: "works_kept db db"
  by (simp add: works_kept_def)

lemma controls_kept_trans: "controls_kept a b \<Longrightarrow> controls_kept b c \<Longrightarrow> controls_kept a c"
  unfolding controls_kept_def by metis

lemma works_kept_trans: "works_kept a b \<Longrightarrow> works_kept b c \<Longrightarrow> works_kept a c"
  unfolding works_kept_def by metis

lemma rows_kept_trans: "rows_kept a b \<Longrightarrow> rows_kept b c \<Longrightarrow> rows_kept a c"
  unfolding rows_kept_def by (metis subsetD subset_trans)

lemma evolves_refl: "evolves db db"
  by (simp add: evolves_def kept_defs stays_published_refl)

lemma evolves_trans: "evolves a b \<Longrightarrow> evolves b c \<Longrightarrow> evolves a c"
  unfolding evolves_def using controls_kept_trans works_kept_trans rows_kept_trans stays_published_trans by meson

lemma authority_by_parts:
  assumes "authority_ok db" "controls_kept db db'" "works_kept db db'" "brokers_kept db db'"
  shows "authority_ok db'"
  unfolding authority_ok_def
proof (intro allI impI)
  fix w row'
  assume "warrants (broker_db db') w = Some row'"
  then obtain row where row: "warrants (broker_db db) w = Some row" "wr_incident_id row = wr_incident_id row'"
      "wr_document_json row = wr_document_json row'"
    using assms(4) unfolding brokers_kept_def by blast
  then obtain c work where c: "control_by db w = Some c" "cw_status c = CW_APPROVED" "cw_incident_id c = wr_incident_id row"
      "cw_canonical_document c = wr_document_json row" "work_by db (execution_work_id w) = Some work"
      "wk_kind work = APPROVED_EXECUTION_WORK" "wk_warrant_id work = w" "wk_incident_id work = wr_incident_id row"
    using assms(1) unfolding authority_ok_def by blast
  have "control_by db' w = Some c" using c(1,2) assms(2) unfolding controls_kept_def by (metis control_status.distinct(1))
  moreover obtain work' where "work_by db' (execution_work_id w) = Some work'" "wk_kind work' = wk_kind work"
      "wk_warrant_id work' = wk_warrant_id work" "wk_incident_id work' = wk_incident_id work"
    using c(5) assms(3) unfolding works_kept_def by blast
  ultimately show "\<exists>c work. control_by db' w = Some c \<and> cw_status c = CW_APPROVED \<and> cw_incident_id c = wr_incident_id row' \<and>
      cw_canonical_document c = wr_document_json row' \<and> work_by db' (execution_work_id w) = Some work \<and>
      wk_kind work = APPROVED_EXECUTION_WORK \<and> wk_warrant_id work = w \<and> wk_incident_id work = wr_incident_id row'"
    using c row by auto
qed

lemma evolves_by_parts:
  assumes "controls_kept db db'" "works_kept db db'" "rows_kept db db'" "published_cases db' = published_cases db" "brokers_kept db db'"
  shows "evolves db db'"
  using assms authority_by_parts publication_by_parts [of db db']
  by (auto simp: evolves_def rows_kept_def stays_published_def)

lemma quiet_evolves: "quiet db db' \<Longrightarrow> evolves db db'"
proof -
  assume q: "quiet db db'"
  then have "controls_kept db db'" "works_kept db db'" "brokers_kept db db'" "rows_kept db db'"
    by (simp_all add: quiet_def controls_kept_def control_by_def works_kept_def work_by_def brokers_kept_def rows_kept_def)
  then show ?thesis using q authority_by_parts unfolding evolves_def quiet_def by blast
qed

section \<open>Work\<close>

text \<open>Work that is not pending stays so: a claim is not offered twice.\<close>

definition held :: "runtime_db \<Rightarrow> runtime_db \<Rightarrow> bool" where
  "held db db' \<longleftrightarrow>
     (\<forall>i w. work_by db i = Some w \<and> wk_status w \<noteq> WORK_PENDING \<longrightarrow>
        (\<exists>w'. work_by db' i = Some w' \<and> wk_status w' \<noteq> WORK_PENDING))"

definition progress :: "runtime_db \<Rightarrow> runtime_db \<Rightarrow> bool" where
  "progress db db' \<longleftrightarrow> evolves db db' \<and> held db db'"

lemma progress_refl: "progress db db"
  by (simp add: progress_def evolves_refl held_def)

lemma progress_trans: "progress a b \<Longrightarrow> progress b c \<Longrightarrow> progress a c"
  unfolding progress_def held_def using evolves_trans by metis

lemma quiet_progress: "quiet db db' \<Longrightarrow> progress db db'"
  using quiet_evolves by (auto simp: progress_def held_def work_by_def quiet_def)

lemma progress_quiet: "progress a b \<Longrightarrow> quiet b c \<Longrightarrow> quiet c d \<Longrightarrow> progress a d"
  using quiet_progress progress_trans by blast

text \<open>A step that leaves the queue alone holds what was held.\<close>

lemma same_work_held: "runtime_work db' = runtime_work db \<Longrightarrow> held db db' \<and> works_kept db db'"
  by (simp add: held_def works_kept_def work_by_def)

lemma only_work_evolves:
  assumes "works_kept db (db\<lparr>runtime_work := ws\<rparr>)"
  shows "evolves db (db\<lparr>runtime_work := ws\<rparr>)"
  using assms by (intro evolves_by_parts) (simp_all add: kept_defs control_by_def brokers_kept_def)

lemma put_work_kept:
  assumes "work_by db i = Some w" "wk_id w' = wk_id w" "wk_incident_id w' = wk_incident_id w" "wk_warrant_id w' = wk_warrant_id w"
    "wk_kind w' = wk_kind w" "wk_status w = WORK_COMPLETED \<longrightarrow> wk_status w' = WORK_COMPLETED"
  shows "evolves db (put_work w' db)" "wk_status w' \<noteq> WORK_PENDING \<Longrightarrow> progress db (put_work w' db)"
proof -
  have key: "wk_id w = i" using assms(1) row_by_key unfolding work_by_def by fastforce
  then have at: "work_by (put_work w' db) j = (if j = i then Some w' else work_by db j)" for j
    using assms(1,2) by (auto simp: work_by_def put_work_def row_by_put)
  have "works_kept db (put_work w' db)"
    using assms by (auto simp: works_kept_def at)
  then show adv: "evolves db (put_work w' db)"
    unfolding put_work_def by (rule only_work_evolves)
  show "progress db (put_work w' db)" if "wk_status w' \<noteq> WORK_PENDING"
    using adv that by (auto simp: progress_def held_def at)
qed

lemma complete_simps [simp]:
  "wk_id (complete now w) = wk_id w" "wk_incident_id (complete now w) = wk_incident_id w"
  "wk_warrant_id (complete now w) = wk_warrant_id w" "wk_kind (complete now w) = wk_kind w"
  "wk_status (complete now w) = WORK_COMPLETED"
  by (simp_all add: complete_def)

lemma complete_progress: "work_by db i = Some w \<Longrightarrow> progress db (put_work (complete now w) db)"
  by (rule put_work_kept(2)) simp_all

lemma enqueue_progress:
  assumes "enqueue_runtime_work_locked i w k now db = Inr db'"
  shows "progress db db'"
    "\<exists>work. work_by db' (work_id_of k w) = Some work \<and> wk_kind work = k \<and> wk_warrant_id work = w \<and> wk_incident_id work = i"
    "control_warrants db' = control_warrants db \<and> broker_db db' = broker_db db"
proof -
  have at: "work_by (db\<lparr>runtime_work := runtime_work db @ [x]\<rparr>) j =
      (if work_by db j = None \<and> j = wk_id x then Some x else work_by db j)" for x j
    by (cases "row_by wk_id j (runtime_work db)") (auto simp: work_by_def row_by_append, auto simp: row_by_def)
  have new: "progress db (db\<lparr>runtime_work := runtime_work db @ [x]\<rparr>)" for x
    using only_work_evolves [of db "runtime_work db @ [x]"] by (auto simp: progress_def works_kept_def held_def at)
  show "progress db db'"
    using assms new by (auto simp: enqueue_runtime_work_locked_def progress_refl split: option.splits if_splits)
  show "\<exists>work. work_by db' (work_id_of k w) = Some work \<and> wk_kind work = k \<and> wk_warrant_id work = w \<and> wk_incident_id work = i"
    using assms by (auto simp: enqueue_runtime_work_locked_def at split: option.splits if_splits)
  show "control_warrants db' = control_warrants db \<and> broker_db db' = broker_db db"
    using assms by (auto simp: enqueue_runtime_work_locked_def split: option.splits if_splits)
qed

lemma claim_progress: "claim_runtime_work i owner now db = Inr (db', r) \<Longrightarrow> progress db db'"
  by (auto simp: claim_runtime_work_def result_simps Let_def progress_refl complete_progress
      intro: put_work_kept(2) split: option.splits if_splits)

lemma repair_progress: "complete_repair_work i w now db = Inr db' \<Longrightarrow> progress db db'"
  by (auto simp: complete_repair_work_def complete_progress split: option.splits if_splits)

lemma quiet_work: "quiet db db' \<Longrightarrow> work_by db' = work_by db"
  by (simp add: quiet_def work_by_def fun_eq_iff)

lemma fail_work_progress: "fail_runtime_work env i operation outcome now uuid db = Inr db' \<Longrightarrow> progress db db'"
proof -
  assume f: "fail_runtime_work env i operation outcome now uuid db = Inr db'"
  then obtain work where w: "work_by db i = Some work" by (auto simp: fail_runtime_work_def split: option.splits)
  show ?thesis
  proof (cases "db' = db")
    case False
    then obtain db1 where q: "quiet db db1" "quiet (put_work (complete now work) db1) db'"
      using f w by (auto simp: fail_runtime_work_def result_simps split: if_splits dest!: quiet_dests)
    then show ?thesis
      using w complete_progress [of db1 i work now] quiet_work [OF q(1)] quiet_progress progress_trans by metis
  qed (simp add: progress_refl)
qed

lemma execution_failure_progress: "record_execution_failure env i w err now uuid db = Inr db' \<Longrightarrow> progress db db'"
proof -
  assume "record_execution_failure env i w err now uuid db = Inr db'"
  then obtain work db1 where w: "work_by db (execution_work_id w) = Some work"
    and q: "quiet db db1" "quiet (put_work (complete now work) db1) db'"
    by (auto simp: record_execution_failure_def result_simps split: option.splits dest!: quiet_dests)
  then show ?thesis
    using w complete_progress [of db1 "execution_work_id w" work now] quiet_work [OF q(1)] quiet_progress progress_trans by metis
qed

lemma result_progress: "project_broker_result env i w e now uuid db = Inr (db', r) \<Longrightarrow> progress db db'"
proof -
  assume p: "project_broker_result env i w e now uuid db = Inr (db', r)"
  show ?thesis
  proof (cases "db' = db")
    case False
    then obtain result claimed where wr: "write_broker_result env i w e result claimed now uuid db = Inr db'"
      using p by (auto simp: project_broker_result_def result_simps split: option.splits if_splits)
    then obtain db1 rows db2 ty p where q: "quiet db db1" "append_locked env i ty ''broker'' p now (uuid 1) (db1\<lparr>test_runs := rows\<rparr>) = Inr db2"
      and c: "(case work_by db2 (execution_work_id w) of
           None \<Rightarrow> Inl (RtValueError ''broker result has no matching durable execution work'')
         | Some work \<Rightarrow>
             if wk_incident_id work \<noteq> i \<or> wk_warrant_id work \<noteq> w \<or> wk_kind work \<noteq> APPROVED_EXECUTION_WORK
             then Inl (RtValueError ''broker result has no matching durable execution work'')
             else rbind (if list_all passed (br_receipts result) then Inr (put_work (complete now work) db2)
                         else enqueue_runtime_work_locked i w TEST_REPAIR_WORK now (put_work (complete now work) db2))
                    (publish_locked env i now)) = Inr db'"
      unfolding write_broker_result_def Let_def result_simps by (blast dest: append_quiet)
    then have q: "quiet db db2" using append_quiet [OF q(2)] quiet_trans by simp
    obtain work db3 where w: "work_by db2 (execution_work_id w) = Some work"
      and n: "db3 = put_work (complete now work) db2 \<or>
          enqueue_runtime_work_locked i w TEST_REPAIR_WORK now (put_work (complete now work) db2) = Inr db3"
      and q3: "quiet db3 db'"
      using c by (auto simp: result_simps split: option.splits if_splits dest!: publish_quiet)
    have "progress (put_work (complete now work) db2) db3" using n enqueue_progress(1) progress_refl by blast
    then show ?thesis
      using quiet_progress [OF q] complete_progress [OF w] quiet_progress [OF q3] progress_trans by blast
  qed (simp add: progress_refl)
qed

section \<open>Incidents and warrants\<close>

lemma fail_incidents_quiet: "fail_incidents env now hit db = Inr db' \<Longrightarrow> quiet db db'"
proof (induction hit arbitrary: db)
  case (Cons h hit)
  then obtain db1 db2 where "quiet db db1" "quiet db1 db2" "fail_incidents env now hit db2 = Inr db'"
    by (cases h) (auto simp: result_simps dest!: quiet_dests)
  then show ?case using Cons.IH quiet_trans by blast
qed simp

text \<open>A new incident: no row of another table refers to it yet.\<close>

lemma open_incident_progress:
  assumes "open_incident env i title scenario st base manifest catalog actor live profile now uuid db = Inr db'"
  shows "progress db db'"
proof -
  obtain c cols acc db1 where c: "create_incident (control db) i title st now = Inr c"
    and q: "quiet (db\<lparr>control := c, columns := (columns db)(i \<mapsto> cols), access := acc\<rparr>) db1" "quiet db1 db'"
    using assms by (auto simp: open_incident_def Let_def result_simps dest!: quiet_dests)
  let ?d = "db\<lparr>control := c, columns := (columns db)(i \<mapsto> cols), access := acc\<rparr>"
  have "incident_of db i = None" "dom (incidents c) = insert i (dom (incidents (control db)))"
    using c by (auto simp: create_incident_def incident_of_def split: if_splits)
  then have "rows_kept db ?d" by (auto simp: rows_kept_def incident_of_def)
  then have "evolves db ?d"
    by (intro evolves_by_parts) (simp_all add: controls_kept_def control_by_def works_kept_def work_by_def brokers_kept_def)
  then have "progress db ?d" by (simp add: progress_def held_def work_by_def)
  then show ?thesis using q quiet_progress progress_trans by blast
qed

lemma set_pending_rows_kept:
  "rows_kept db (set_pending_warrant i w db')" "published_cases (set_pending_warrant i w db') = published_cases db"
  "control_by (set_pending_warrant i w db') = control_by db'"
  "runtime_work (set_pending_warrant i w db') = runtime_work db'" "broker_db (set_pending_warrant i w db') = broker_db db'"
  if "control db' = control db" "columns db' = columns db" "published_cases db' = published_cases db"
  using that by (auto simp: set_pending_warrant_def rows_kept_def control_by_def)

lemma control_by_put:
  assumes "control_by db w = Some c" "cw_id c' = cw_id c"
  shows "control_by (put_control c' db) v = (if v = w then Some c' else control_by db v)"
proof -
  have "cw_id c = w" using assms(1) row_by_key unfolding control_by_def by fastforce
  then show ?thesis using assms by (auto simp: control_by_def put_control_def row_by_put)
qed

lemma pending_control_ok:
  "pending_control w sha db = Inr c \<Longrightarrow> control_by db w = Some c \<and> cw_status c = PENDING_APPROVAL"
  by (auto simp: pending_control_def result_simps split: option.splits if_splits)

text \<open>The rows of a decision on a pending warrant.\<close>

lemma decided_progress:
  assumes "control_by db w = Some c" "cw_status c = PENDING_APPROVAL" "bound_part c' = bound_part c" "cw_id c' = cw_id c"
  shows "progress db (set_pending_warrant i None (put_control c' db))"
proof -
  let ?d = "set_pending_warrant i None (put_control c' db)"
  note k = set_pending_rows_kept [of "put_control c' db" db]
  have "controls_kept db ?d" using assms k(3) control_by_put [OF assms(1,4)]
    by (auto simp: controls_kept_def put_control_def)
  moreover have "held db ?d \<and> works_kept db ?d" using k(4) same_work_held [of ?d db] by (simp add: put_control_def)
  moreover have "brokers_kept db ?d" using k(5) by (simp add: brokers_kept_def put_control_def)
  moreover have "rows_kept db ?d" "published_cases ?d = published_cases db" using k(1,2) by (simp_all add: put_control_def)
  ultimately show ?thesis using evolves_by_parts unfolding progress_def by blast
qed

lemma set_state_progress: "progress db (set_state i st db)"
proof -
  have "evolves db (set_state i st db)"
    by (rule evolves_by_parts)
      (auto simp: set_state_def controls_kept_def control_by_def works_kept_def work_by_def rows_kept_def brokers_kept_def)
  then show ?thesis by (simp add: progress_def held_def set_state_def work_by_def)
qed

lemma expiry_progress: "expire_warrant_if_needed env w sha actor now uuid db = Inr (db', b) \<Longrightarrow> progress db db'"
proof -
  assume e: "expire_warrant_if_needed env w sha actor now uuid db = Inr (db', b)"
  then obtain c where c: "control_by db w = Some c" "cw_status c = PENDING_APPROVAL"
    using pending_control_ok by (auto simp: expire_warrant_if_needed_def result_simps)
  show ?thesis
  proof (cases "db' = db")
    case False
    then obtain db1 where "quiet (set_pending_warrant (cw_incident_id c) None
        (put_control (c\<lparr>cw_status := CW_EXPIRED, cw_updated_at := now\<rparr>) db)) db1" "quiet db1 db'"
      using e c pending_control_ok
      by (fastforce simp: expire_warrant_if_needed_def result_simps split: if_splits dest!: quiet_dests)
    moreover have "progress db (set_pending_warrant (cw_incident_id c) None
        (put_control (c\<lparr>cw_status := CW_EXPIRED, cw_updated_at := now\<rparr>) db))"
      by (rule decided_progress [OF c]) (simp_all add: bound_part_def)
    ultimately show ?thesis using quiet_progress progress_trans by blast
  qed (simp add: progress_refl)
qed

lemma rejection_progress:
  assumes "reject_warrant env w sha actor reason now uuid c db = Inr db'" "control_by db w = Some c" "cw_status c = PENDING_APPROVAL"
  shows "progress db db'"
proof -
  let ?d = "set_pending_warrant (cw_incident_id c) None (put_control (c\<lparr>cw_status := CW_REJECTED, cw_updated_at := now\<rparr>) db)"
  obtain db1 where q: "quiet (set_state (cw_incident_id c) BLOCKED ?d) db1" "quiet db1 db'"
    using assms(1) by (auto simp: reject_warrant_def result_simps dest!: quiet_dests)
  have "progress db ?d" by (rule decided_progress [OF assms(2,3)]) (simp_all add: bound_part_def)
  from progress_trans [OF this set_state_progress] show ?thesis by (rule progress_quiet [OF _ q])
qed

lemma revision_progress: "request_revision env w sha guidance actor now uuid db = Inr (db', i) \<Longrightarrow> progress db db'"
proof -
  assume r: "request_revision env w sha guidance actor now uuid db = Inr (db', i)"
  then obtain c where c: "control_by db w = Some c" "cw_status c = PENDING_APPROVAL" and pc: "pending_control w sha db = Inr c"
    using pending_control_ok unfolding request_revision_def result_simps by blast
  let ?i = "cw_incident_id c"
  obtain inc cols where ic: "incident_of db ?i = Some inc" "columns db ?i = Some cols"
    using r pc by (cases "incident_of db ?i"; cases "columns db ?i") (simp_all add: request_revision_def result_simps split: if_splits)
  obtain row rows db1 where
    a: "append_locked env ?i ''REVISION_REQUESTED'' actor [(''warrant_id'', PyStr w), (''warrant_sha256'', PyStr sha),
          (''evidence_id'', PyStr (ee_evidence_id guidance))] now uuid (set_pending_warrant ?i None
        (put_control (c\<lparr>cw_status := CW_REJECTED, cw_updated_at := now\<rparr>) (db\<lparr>evidence_rows := rows\<rparr>))) = Inr db1"
    and b: "publish_locked env ?i now db1 = Inr db'"
    using r by (simp add: request_revision_def pc ic result_simps split: if_splits) blast
  note q = append_quiet [OF a] publish_quiet [OF b]
  let ?e = "db\<lparr>evidence_rows := rows\<rparr>"
  have "control_by ?e w = Some c" using c by (simp add: control_by_def)
  then have "progress ?e (set_pending_warrant (cw_incident_id c) None
      (put_control (c\<lparr>cw_status := CW_REJECTED, cw_updated_at := now\<rparr>) ?e))"
    by (rule decided_progress [OF _ c(2)]) (simp_all add: bound_part_def)
  moreover have "progress db ?e" by (simp add: quiet_progress)
  ultimately show ?thesis using q quiet_progress progress_trans by blast
qed

text \<open>An approval: the broker row, the approved control row and the execution work appear together.\<close>

lemma granted_row:
  "warrants (grant_authority env w c document aj now bdb) v = Some row \<Longrightarrow>
     v = w \<and> wr_incident_id row = cw_incident_id c \<and> wr_document_json row = cw_canonical_document c \<or>
     v \<noteq> w \<and> warrants bdb v = Some row"
  by (auto simp: grant_authority_def split: if_splits)

lemma approve_warrant_ok:
  assumes "approve_warrant env w sha actor now uuid c document db = Inr db'"
  obtains approval aj db1 db2 where
    "approve (rt_sha env) (rt_nfc env) (py_hmac (ae_policy env)) (py_mac_keys (ae_policy env)) document now (Some actor) = Inr approval"
    "canonical_approval_bytes (rt_nfc env) approval = Inr aj" "warrants (broker_db db) w = None"
    "\<forall>row \<in> ran (warrants (broker_db db)). wr_nonce_sha256 row \<noteq> rt_sha env (wd_nonce document)"
    "quiet (set_pending_warrant (cw_incident_id c) None
       (put_control (c\<lparr>cw_status := CW_APPROVED, cw_approval_id := Some (approval_id_of w), cw_updated_at := now\<rparr>)
          (db\<lparr>broker_db := grant_authority env w c document aj now (broker_db db)\<rparr>))) db1"
    "enqueue_runtime_work_locked (cw_incident_id c) w APPROVED_EXECUTION_WORK now db1 = Inr db2" "quiet db2 db'"
  using assms
  by (auto simp: approve_warrant_def result_simps Let_def dom_def split: if_splits dest!: quiet_dests intro: that)

lemma approved_broker:
  assumes a: "approve_warrant env w sha actor now uuid c document db = Inr db'"
  obtains approval aj where
    "approve (rt_sha env) (rt_nfc env) (py_hmac (ae_policy env)) (py_mac_keys (ae_policy env)) document now (Some actor) = Inr approval"
    "canonical_approval_bytes (rt_nfc env) approval = Inr aj" "warrants (broker_db db) w = None"
    "\<forall>row \<in> ran (warrants (broker_db db)). wr_nonce_sha256 row \<noteq> rt_sha env (wd_nonce document)"
    "broker_db db' = grant_authority env w c document aj now (broker_db db)"
proof (rule approve_warrant_ok [OF a])
  fix approval aj db1 db2
  assume q: "quiet (set_pending_warrant (cw_incident_id c) None
       (put_control (c\<lparr>cw_status := CW_APPROVED, cw_approval_id := Some (approval_id_of w), cw_updated_at := now\<rparr>)
          (db\<lparr>broker_db := grant_authority env w c document aj now (broker_db db)\<rparr>))) db1"
      "enqueue_runtime_work_locked (cw_incident_id c) w APPROVED_EXECUTION_WORK now db1 = Inr db2" "quiet db2 db'"
  have "broker_db db' = grant_authority env w c document aj now (broker_db db)"
    using q(1,3) enqueue_progress(3) [OF q(2)] by (simp add: quiet_def set_pending_warrant_def put_control_def)
  moreover assume "approve (rt_sha env) (rt_nfc env) (py_hmac (ae_policy env)) (py_mac_keys (ae_policy env)) document now (Some actor) = Inr approval"
    "canonical_approval_bytes (rt_nfc env) approval = Inr aj" "warrants (broker_db db) w = None"
    "\<forall>row \<in> ran (warrants (broker_db db)). wr_nonce_sha256 row \<noteq> rt_sha env (wd_nonce document)"
  ultimately show thesis by (rule that [rotated -1])
qed

lemma broker_frame:
  "controls_kept (db\<lparr>broker_db := B\<rparr>) db' = controls_kept db db'" "works_kept (db\<lparr>broker_db := B\<rparr>) db' = works_kept db db'"
  "rows_kept (db\<lparr>broker_db := B\<rparr>) db' = rows_kept db db'" "held (db\<lparr>broker_db := B\<rparr>) db' = held db db'"
  "stays_published (db\<lparr>broker_db := B\<rparr>) db' = stays_published db db'" "publication_ok (db\<lparr>broker_db := B\<rparr>) = publication_ok db"
  by (simp_all add: controls_kept_def control_by_def works_kept_def work_by_def rows_kept_def held_def stays_published_def
      publication_ok_def incident_of_def)

lemma approval_progress:
  assumes a: "approve_warrant env w sha actor now uuid c document db = Inr db'"
    and c: "control_by db w = Some c" "cw_status c = PENDING_APPROVAL"
  shows "progress db db'"
proof -
  let ?i = "cw_incident_id c"
  obtain aj db2 db3 where q: "quiet (set_pending_warrant ?i None
       (put_control (c\<lparr>cw_status := CW_APPROVED, cw_approval_id := Some (approval_id_of w), cw_updated_at := now\<rparr>)
          (db\<lparr>broker_db := grant_authority env w c document aj now (broker_db db)\<rparr>))) db2"
    and e: "enqueue_runtime_work_locked ?i w APPROVED_EXECUTION_WORK now db2 = Inr db3" and q3: "quiet db3 db'"
    by (rule approve_warrant_ok [OF a])
  define c' where c': "c' = c\<lparr>cw_status := CW_APPROVED, cw_approval_id := Some (approval_id_of w), cw_updated_at := now\<rparr>"
  define B where B: "B = grant_authority env w c document aj now (broker_db db)"
  note q = q [folded c' B]
  let ?d0 = "db\<lparr>broker_db := B\<rparr>" and ?d1 = "set_pending_warrant ?i None (put_control c' (db\<lparr>broker_db := B\<rparr>))"
  have c0: "control_by ?d0 w = Some c" using c by (simp add: control_by_def)
  have p1: "progress ?d1 db'"
    using quiet_progress [OF q] enqueue_progress(1) [OF e] quiet_progress [OF q3] progress_trans by blast
  moreover have "progress ?d0 ?d1" by (rule decided_progress [OF c0 c(2)]) (simp_all add: bound_part_def c')
  ultimately have p0: "progress ?d0 db'" by (rule progress_trans [rotated])
  then have kept: "controls_kept db db'" "works_kept db db'" "rows_kept db db'" "stays_published db db'"
      "publication_ok db \<longrightarrow> publication_ok db'" "held db db'"
    by (simp_all add: progress_def evolves_def broker_frame)
  have "control_by ?d1 w = Some c'"
    using set_pending_rows_kept(3) [of "put_control c' ?d0" ?d0] control_by_put [OF c0, of c'] by (simp add: c' put_control_def)
  then have cw: "control_by db' w = Some c'"
    using p1 by (force simp: progress_def evolves_def controls_kept_def c')
  obtain work where work: "work_by db' (execution_work_id w) = Some work" "wk_kind work = APPROVED_EXECUTION_WORK"
      "wk_warrant_id work = w" "wk_incident_id work = ?i"
    using enqueue_progress(2) [OF e] quiet_work [OF q3] by auto
  have b: "broker_db db' = B"
    using q q3 enqueue_progress(3) [OF e] by (simp add: quiet_def set_pending_warrant_def put_control_def)
  have "authority_ok db'" if ok: "authority_ok db"
  proof -
    have "authority_ok (db'\<lparr>broker_db := broker_db db\<rparr>)"
      by (rule authority_by_parts [OF ok])
        (use kept in \<open>simp_all add: controls_kept_def control_by_def works_kept_def work_by_def brokers_kept_def\<close>)
    then show ?thesis
      using cw work c' by (fastforce simp: authority_ok_def b B control_by_def work_by_def dest: granted_row)
  qed
  then show ?thesis using kept by (simp add: progress_def evolves_def)
qed

lemma decision_progress: "decide_warrant env w b sha actor reason now uuid db = (r, db') \<Longrightarrow> progress db db'"
proof -
  have locked: "progress db db'" if l: "decide_locked env w b sha actor reason now uuid db = Inr db'" for db'
  proof -
    obtain c where c: "pending_control w sha db = Inr c" using l by (auto simp: decide_locked_def result_simps)
    note p = pending_control_ok [OF this]
    show ?thesis
      using l c p approval_progress rejection_progress
      by (auto simp: decide_locked_def result_simps split: option.splits if_splits)
  qed
  assume "decide_warrant env w b sha actor reason now uuid db = (r, db')"
  then consider "db' = db" | "decide_locked env w b sha actor reason now uuid db = Inr db'"
    | "expire_warrant_if_needed env w sha actor now uuid db = Inr (db', True)"
    by (auto simp: decide_warrant_def Let_def split: if_splits sum.splits prod.splits bool.splits)
  then show ?thesis using locked expiry_progress progress_refl by cases blast+
qed

lemma verdict_quiet: "add_verdict env v i run verdict encoded now db = Inr db' \<Longrightarrow> quiet db db'"
  by (auto simp: add_verdict_def result_simps)

lemma store_warrant_progress: "store_warrant env names out document vb run now db = Inr (db', w) \<Longrightarrow> progress db db'"
proof -
  assume "store_warrant env names out document vb run now db = Inr (db', w)"
  then obtain db1 c rows db2 where q1: "quiet db db1" and rows: "add_row cw_id c (control_warrants db1) = Inr rows"
    and q2: "quiet (set_pending_warrant (wd_incident_id document) (Some (wd_warrant_id document)) (db1\<lparr>control_warrants := rows\<rparr>)) db2"
      "quiet db2 db'"
    by (auto simp: store_warrant_def Let_def result_simps dest!: verdict_quiet quiet_dests)
  let ?d = "set_pending_warrant (wd_incident_id document) (Some (wd_warrant_id document)) (db1\<lparr>control_warrants := rows\<rparr>)"
  note k = set_pending_rows_kept [of "db1\<lparr>control_warrants := rows\<rparr>" db1]
  have "controls_kept db1 ?d"
    using add_row_ok(2,3) [OF rows] k(3) by (auto simp: controls_kept_def control_by_def)
  moreover have "held db1 ?d \<and> works_kept db1 ?d" using k(4) same_work_held [of ?d db1] by simp
  ultimately have "progress db1 ?d"
    using k(1,2,5) evolves_by_parts [of db1 ?d] by (simp add: progress_def brokers_kept_def)
  with quiet_progress [OF q1] have "progress db ?d" by (rule progress_trans)
  then show ?thesis by (rule progress_quiet [OF _ q2])
qed

lemma persisted_quiet:
  "persisted_run env uuid i s phase out now db = Inr (db', run) \<Longrightarrow> quiet db db'"
  "persisted_candidate env uuid i agent counsel paths now db = Inr (db', candidate) \<Longrightarrow> quiet db db'"
  by (auto simp: persisted_run_def persisted_candidate_def result_simps Let_def split: option.splits if_splits)

lemma opening_progress: "open_approval env names i out counsel now db = Inr (db', w) \<Longrightarrow> progress db db'"
proof -
  assume "open_approval env names i out counsel now db = Inr (db', w)"
  then obtain db1 db2 db3 document vb run where "quiet db db1" "quiet db1 db2" "quiet db2 db3"
    and s: "store_warrant env names out document vb run now db3 = Inr (db', w)"
    by (auto simp: open_approval_def result_simps dest!: persisted_quiet)
  then have "progress db db3" using quiet_progress quiet_trans by blast
  then show ?thesis using store_warrant_progress [OF s] by (rule progress_trans)
qed

section \<open>Restart\<close>

lemma requeue_row_keeps:
  "requeue_row db now w = Inr w' \<Longrightarrow> wk_id w' = wk_id w \<and> wk_incident_id w' = wk_incident_id w \<and>
     wk_warrant_id w' = wk_warrant_id w \<and> wk_kind w' = wk_kind w \<and> (wk_status w = WORK_COMPLETED \<longrightarrow> w' = w)"
  by (auto simp: requeue_row_def result_simps split: if_splits)

lemma requeue_rows:
  "map_result (requeue_row db now) rows = Inr rows' \<Longrightarrow> row_by wk_id i rows = Some w \<Longrightarrow>
     \<exists>w'. row_by wk_id i rows' = Some w' \<and> requeue_row db now w = Inr w'"
proof (induction rows arbitrary: rows')
  case (Cons x rows)
  then obtain x' xs where "requeue_row db now x = Inr x'" "map_result (requeue_row db now) rows = Inr xs" "rows' = x' # xs"
    by (auto simp: result_simps)
  then show ?case using Cons requeue_row_keeps by (fastforce simp: row_by_def split: if_splits)
qed (simp add: row_by_def)

lemma requeue_evolves: "requeue_interrupted_runtime_work now db = Inr db' \<Longrightarrow> evolves db db'"
proof -
  assume "requeue_interrupted_runtime_work now db = Inr db'"
  then obtain rows where rows: "map_result (requeue_row db now) (runtime_work db) = Inr rows" "db' = db\<lparr>runtime_work := rows\<rparr>"
    by (auto simp: requeue_interrupted_runtime_work_def result_simps)
  have "works_kept db db'"
    unfolding works_kept_def work_by_def rows(2) using requeue_rows [OF rows(1)] requeue_row_keeps by fastforce
  then show ?thesis using only_work_evolves rows(2) by simp
qed

section \<open>The broker process\<close>

lemma claim_keeps_rows:
  "pg_claim_warrant models sha nfc env v s = Inr (s', outcome) \<Longrightarrow> warrants s' w = Some row' \<Longrightarrow>
     \<exists>row. warrants s w = Some row \<and> wr_incident_id row = wr_incident_id row' \<and> wr_document_json row = wr_document_json row'"
  by (cases "warrants s v")
    (auto simp: pg_claim_warrant_def case_prod_beta Let_def split: if_splits sum.splits claim_error.splits)

lemma finish_keeps_rows:
  "pg_finish nfc now result v s = Inr s' \<Longrightarrow> warrants s' w = Some row' \<Longrightarrow>
     \<exists>row. warrants s w = Some row \<and> wr_incident_id row = wr_incident_id row' \<and> wr_document_json row = wr_document_json row'"
  by (auto simp: pg_finish_def result_simps split: option.splits if_splits)

lemma broker_progress:
  assumes "\<And>w row'. warrants s' w = Some row' \<Longrightarrow> \<exists>row. warrants (broker_db db) w = Some row \<and>
      wr_incident_id row = wr_incident_id row' \<and> wr_document_json row = wr_document_json row'"
  shows "progress db (db\<lparr>broker_db := s'\<rparr>)"
proof -
  have "evolves db (db\<lparr>broker_db := s'\<rparr>)"
    using assms by (intro evolves_by_parts) (simp_all add: kept_defs control_by_def work_by_def brokers_kept_def)
  then show ?thesis by (simp add: progress_def held_def work_by_def)
qed

section \<open>Runs of the system\<close>

text \<open>One transaction of the control service or of the broker, with any arguments.\<close>

inductive transaction :: "'z authority_env_scheme \<Rightarrow> runtime_db \<Rightarrow> runtime_db \<Rightarrow> bool" for env where
  opened: "open_incident env i title scenario st base manifest catalog actor live profile now uuid db = Inr db' \<Longrightarrow> transaction env db db'"
| event: "append_published_event env i ty actor p now uuid db = Inr db' \<Longrightarrow> transaction env db db'"
| evidence: "record_evidence env e envelope published now db = Inr db' \<Longrightarrow> transaction env db db'"
| seat_started: "prepare_seat env i s phase clocks uuid1 uuid2 db = Inr db' \<Longrightarrow> transaction env db db'"
| seat_output: "record_seat_output env i s eff phase out n now uuids db = Inr db' \<Longrightarrow> transaction env db db'"
| test_run: "record_test_run env row ty fs uuid db = Inr db' \<Longrightarrow> transaction env db db'"
| review: "begin_review env i now uuid db = Inr db' \<Longrightarrow> transaction env db db'"
| abstain: "fail_closed_abstain env i reason fc now uuid1 uuid2 db = Inr db' \<Longrightarrow> transaction env db db'"
| verdict: "record_verdict env i mag now uuid1 uuid2 db = Inr db' \<Longrightarrow> transaction env db db'"
| escalation: "record_escalation env i s eff k reason message now uuid db = Inr db' \<Longrightarrow> transaction env db db'"
| duplicate: "reject_duplicate_retry env i s eff phase out reason now uuids db = Inr db' \<Longrightarrow> transaction env db db'"
| warrant_opened: "open_approval env names i mag counsel now db = Inr (db', w) \<Longrightarrow> transaction env db db'"
| decision: "decide_warrant env w approve' sha actor reason' now uuid db = (r, db') \<Longrightarrow> transaction env db db'"
| revision: "request_revision env w sha guidance actor now uuid db = Inr (db', i) \<Longrightarrow> transaction env db db'"
| work_claimed: "claim_runtime_work i owner now db = Inr (db', claimed) \<Longrightarrow> transaction env db db'"
| work_failed: "fail_runtime_work env i operation outcome now uuid db = Inr db' \<Longrightarrow> transaction env db db'"
| repaired: "complete_repair_work i w now db = Inr db' \<Longrightarrow> transaction env db db'"
| execution_failed: "record_execution_failure env i w err now uuid db = Inr db' \<Longrightarrow> transaction env db db'"
| result: "project_broker_result env i w e now names' db = Inr (db', br) \<Longrightarrow> transaction env db db'"
| broker_claim: "pg_claim_warrant models (rt_sha env) (rt_nfc env) validator w (broker_db db) = Inr (s', oc) \<Longrightarrow>
    transaction env db (db\<lparr>broker_db := s'\<rparr>)"
| broker_finish: "pg_finish (rt_nfc env) now br w (broker_db db) = Inr s' \<Longrightarrow> transaction env db (db\<lparr>broker_db := s'\<rparr>)"

text \<open>The two scans of a restarted service.\<close>

inductive system_step :: "'z authority_env_scheme \<Rightarrow> runtime_db \<Rightarrow> runtime_db \<Rightarrow> bool" for env where
  runs: "transaction env db db' \<Longrightarrow> system_step env db db'"
| requeued: "requeue_interrupted_runtime_work now db = Inr db' \<Longrightarrow> system_step env db db'"
| failed_closed: "fail_closed_interrupted_incidents env now ids db = Inr (db', n) \<Longrightarrow> system_step env db db'"

lemmas quiet_ops = quiet_transactions quiet_reviews quiet_seat_output

lemmas progress_ops = open_incident_progress opening_progress decision_progress revision_progress claim_progress
  fail_work_progress repair_progress execution_failure_progress result_progress

lemma transaction_progress: "transaction env db db' \<Longrightarrow> progress db db'"
proof (induction rule: transaction.induct)
  case (broker_claim models validator w db s' oc)
  show ?case by (rule broker_progress) (rule claim_keeps_rows [OF broker_claim])
next
  case (broker_finish now br w db s')
  show ?case by (rule broker_progress) (rule finish_keeps_rows [OF broker_finish])
qed (erule quiet_ops [THEN quiet_progress] progress_ops)+

lemma system_evolves: "system_step env db db' \<Longrightarrow> evolves db db'"
proof (induction rule: system_step.induct)
  case (runs db db')
  from transaction_progress [OF this] show ?case by (simp add: progress_def)
next
  case (requeued now db db')
  then show ?case by (rule requeue_evolves)
next
  case (failed_closed now ids db db' n)
  then show ?case
    by (auto simp: fail_closed_interrupted_incidents_def Let_def result_simps dest!: fail_incidents_quiet intro: quiet_evolves)
qed

interpretation running: step_preorder "transaction env" progress for env
  by unfold_locales (rule progress_refl, erule (1) progress_trans, erule transaction_progress)

interpretation system: step_preorder "system_step env" evolves for env
  by unfold_locales (rule evolves_refl, erule (1) evolves_trans, erule system_evolves)

section \<open>A small court\<close>

text \<open>One incident with a pending warrant, and an environment that reads its bytes as the sample document.\<close>

definition court_policy :: authority_policy where
  "court_policy =
     \<lparr>py_repository_root = ''/r'', py_repository = \<lparr>is_symlink = (\<lambda>_. False), resolves_inside = (\<lambda>_. True)\<rparr>,
      py_repository_id = ''r1'', py_approver_identity = ''alice'', py_approval_mac_key_id = ''k1'', py_mac_keys = sample_keys,
      py_hmac = sample_mac, py_runner_digest = zero_digest [], py_environment_digest = zero_digest [], py_warrant_ttl = 900000000\<rparr>"

definition court_env :: authority_env where
  "court_env =
     \<lparr>rt_sha = zero_digest, rt_text = rt_text plain_env, pe_unicode = ascii_unicode, pe_decimal_digits = [48..<58],
      pe_refloat = (\<lambda>_. None), pe_project = (\<lambda>_ _ _. Inr PyNone), rm_result = (\<lambda>_. None), rm_receipt = (\<lambda>_. None), rm_iso = (\<lambda>_. []),
      rm_round_ms = (\<lambda>n. n div 1000), ae_policy = court_policy, ae_warrant_json = (\<lambda>_. Some sample_warrant),
      ae_authority_json = (\<lambda>_. Some sample_authority)\<rparr>"

text \<open>A database with one incident, its pending warrant and nothing else.\<close>

definition court_warrant :: "string \<Rightarrow> string \<Rightarrow> control_warrant_row" where
  "court_warrant document authority =
     \<lparr>cw_id = ''w1'', cw_incident_id = ''i1'', cw_canonical_document = document, cw_warrant_sha256 = zero_digest [],
      cw_authority_json = authority, cw_status = PENDING_APPROVAL, cw_approval_id = None,
      cw_expires_at = Aware 9000000 0, cw_created_at = Aware 1000000 0, cw_updated_at = Aware 1000000 0\<rparr>"

definition court_db :: "incident_state \<Rightarrow> string \<Rightarrow> string \<Rightarrow> runtime_db" where
  "court_db st document authority =
     \<lparr>control = \<lparr>incidents = [''i1'' \<mapsto> \<lparr>inc_id = ''i1'', inc_title = ''Retry'', inc_state = st,
        next_event_sequence = 1, event_chain_head = None, inc_created_at = Aware 0 0, inc_updated_at = Aware 0 0\<rparr>], events = []\<rparr>,
      columns = [''i1'' \<mapsto> \<lparr>ic_scenario = ''webhook-race'', ic_live_trial = False, ic_owner_subject = Some ''op'',
        ic_base_sha = None, ic_repository_manifest_sha256 = None, ic_catalog_sha256 = None,
        ic_pending_warrant_id = Some ''w1''\<rparr>],
      access = \<lparr>principals = [], grants = [], trial_incidents = Map.empty, trial_credentials = Map.empty, trial_budget = None, reservations = []\<rparr>,
      evidence_rows = [], agent_runs = [], candidates = [], verdicts = [],
      control_warrants = [court_warrant document authority], broker_db = empty_db, test_runs = [], runtime_work = [],
      published_cases = Map.empty\<rparr>"


definition public_row :: published_row where
  "public_row = \<lparr>pb_revision = 1, pb_published = True, pb_state = VERIFIED, pb_projection = PyNone, pb_manifest_sha256 = zero_digest [],
     pb_updated_at = Aware 0 0\<rparr>"

definition court_work :: work_row where
  "court_work = \<lparr>wk_id = execution_work_id ''w1'', wk_incident_id = ''i1'', wk_warrant_id = ''w1'', wk_kind = APPROVED_EXECUTION_WORK,
     wk_status = WORK_PENDING, wk_owner_id = None, wk_attempt_count = 0, wk_created_at = Aware 0 0, wk_updated_at = Aware 0 0,
     wk_completed_at = None\<rparr>"

lemma court_simps [simp]:
  "rt_sha court_env = zero_digest" "rt_nfc court_env = id" "pe_project court_env = (\<lambda>_ _ _. Inr PyNone)"
  "ae_policy court_env = court_policy" "ae_warrant_json court_env = (\<lambda>_. Some sample_warrant)"
  "ae_authority_json court_env = (\<lambda>_. Some sample_authority)"
  "py_hmac court_policy = sample_mac" "py_mac_keys court_policy = sample_keys"
  by (simp_all add: court_env_def court_policy_def plain_env_def rt_nfc_def)

lemma court_digest: "digest court_env PyNone = Inr (zero_digest [])"
  by (simp add: digest_def sha256_hex_def canonical_json_def zero_digest_def)

lemma court_same_digest: "same_digest (zero_digest []) (zero_digest []) = Inr True"
  by code_simp

lemma court_approver: "approve zero_digest id sample_mac sample_keys sample_warrant now (Some ''alice'') =
  approve zero_digest id sample_mac sample_keys sample_warrant now None"
  by (simp add: approve_def sample_warrant_def)


lemma court_approves:
  obtains aj ap where "approve zero_digest id sample_mac sample_keys sample_warrant (Aware 2000000 0) (Some ''alice'') = Inr ap"
    "canonical_approval_bytes id ap = Inr aj"
proof -
  obtain a where a: "approve zero_digest id sample_mac sample_keys sample_warrant (Aware 2000000 0) None = Inr a"
    by (rule sample_approval)
  obtain kvs where "normalize id (approval_py a) = Inr (JObj kvs)"
    using sample_approval_ok [OF a] by (elim approval_normalizes [OF nfc_laws_id, rotated]) (simp add: approval_ok_def)
  then show thesis using that a by (simp add: court_approver canonical_approval_bytes_def canonical_json_def)
qed

lemma court_append:
  assumes "next_state_of st ty p = Inr st'"
    "is_ok (canonical_json id (event_material ''i1'' 1 ty actor p ZERO_EVENT_HASH now))"
  obtains c e where "append_event zero_digest id (control (court_db st document authority)) ''i1'' ty actor p now uuid = Inr (c, e)"
    "incidents c = [''i1'' \<mapsto> \<lparr>inc_id = ''i1'', inc_title = ''Retry'', inc_state = st', next_event_sequence = 2,
        event_chain_head = Some (zero_digest []), inc_created_at = Aware 0 0, inc_updated_at = now\<rparr>]"
proof -
  obtain b where "canonical_json id (event_material ''i1'' 1 ty actor p ZERO_EVENT_HASH now) = Inr b"
    using assms(2) by (cases "canonical_json id (event_material ''i1'' 1 ty actor p ZERO_EVENT_HASH now)") auto
  then show thesis
    using that assms(1)
    by (simp add: court_db_def append_event_def events_of_def insert_event_def sha256_hex_def zero_digest_def numeral_2_eq_2 Let_def)
qed

lemma court_pending: "pending_control ''w1'' (zero_digest []) (court_db st document authority) = Inr (court_warrant document authority)"
  by (simp add: pending_control_def control_by_def row_by_def court_db_def court_warrant_def court_same_digest)

text \<open>A write to the incident: the event and the published case.\<close>

lemma court_write:
  assumes "next_state_of st ty p = Inr st'" "st' \<noteq> VERIFIED"
    "is_ok (canonical_json id (event_material ''i1'' 1 ty actor p ZERO_EVENT_HASH now))"
    "control db = control (court_db st document authority)" "columns db ''i1'' \<noteq> None" "published_cases db = Map.empty"
  obtains c where "append_locked court_env ''i1'' ty actor p now uuid db = Inr (db\<lparr>control := c\<rparr>)"
    "\<And>ws. is_ok (publish_locked court_env ''i1'' now (db\<lparr>control := c, runtime_work := ws\<rparr>))"
proof -
  obtain c e where c: "append_event zero_digest id (control (court_db st document authority)) ''i1'' ty actor p now uuid = Inr (c, e)"
    "incidents c = [''i1'' \<mapsto> \<lparr>inc_id = ''i1'', inc_title = ''Retry'', inc_state = st', next_event_sequence = 2,
        event_chain_head = Some (zero_digest []), inc_created_at = Aware 0 0, inc_updated_at = now\<rparr>]"
    by (rule court_append [OF assms(1,3)])
  show thesis
  proof (rule that)
    show "append_locked court_env ''i1'' ty actor p now uuid db = Inr (db\<lparr>control := c\<rparr>)"
      using c(1) by (simp add: append_locked_def assms(4))
    show "is_ok (publish_locked court_env ''i1'' now (db\<lparr>control := c, runtime_work := ws\<rparr>))" for ws
      using assms(2,5,6) by (auto simp: publish_locked_def incident_of_def c(2) court_digest Let_def)
  qed
qed

lemma court_decided:
  "is_ok (decide_locked court_env ''w1'' True (zero_digest []) ''alice'' None (Aware 2000000 0) ''u''
     (court_db APPROVAL_PENDING document authority))"
proof -
  let ?db = "court_db APPROVAL_PENDING document authority" and ?c = "court_warrant document authority" and ?now = "Aware 2000000 0"
  let ?p = "[(''approval_id'', PyStr (approval_id_of ''w1'')), (''warrant_sha256'', PyStr (zero_digest [])), (''approver_identity'', PyStr ''alice'')]"
  obtain aj ap where ap: "approve zero_digest id sample_mac sample_keys sample_warrant ?now (Some ''alice'') = Inr ap"
    "canonical_approval_bytes id ap = Inr aj" by (rule court_approves)
  let ?d = "set_pending_warrant ''i1'' None (put_control (?c\<lparr>cw_status := CW_APPROVED,
      cw_approval_id := Some (approval_id_of ''w1''), cw_updated_at := ?now\<rparr>)
      (?db\<lparr>broker_db := grant_authority court_env ''w1'' ?c sample_warrant aj ?now empty_db\<rparr>))"
  have n: "next_state_of APPROVAL_PENDING ''WARRANT_APPROVED'' ?p = Inr APPROVED" "APPROVED \<noteq> VERIFIED" by code_simp+
  have m: "is_ok (canonical_json id (event_material ''i1'' 1 ''WARRANT_APPROVED'' ''alice'' ?p ZERO_EVENT_HASH ?now))"
    by (simp add: material_simps)
  have k: "control ?d = control ?db" "columns ?d ''i1'' \<noteq> None" "published_cases ?d = Map.empty"
    by (simp_all add: set_pending_warrant_def put_control_def court_db_def)
  obtain c where c: "append_locked court_env ''i1'' ''WARRANT_APPROVED'' ''alice'' ?p ?now ''u'' ?d = Inr (?d\<lparr>control := c\<rparr>)"
    "\<And>ws. is_ok (publish_locked court_env ''i1'' ?now (?d\<lparr>control := c, runtime_work := ws\<rparr>))"
    by (rule court_write [OF n m k, where uuid = "''u''"]) (rule that)
  obtain ws where e: "enqueue_runtime_work_locked ''i1'' ''w1'' APPROVED_EXECUTION_WORK ?now (?d\<lparr>control := c\<rparr>) =
      Inr (?d\<lparr>control := c, runtime_work := ws\<rparr>)"
    by (simp add: enqueue_runtime_work_locked_def work_by_def row_by_def set_pending_warrant_def put_control_def court_db_def)
  have i: "cw_incident_id ?c = ''i1''" "broker_db ?db = empty_db" "instant (cw_expires_at ?c) = 9000000" "incident_of ?db ''i1'' \<noteq> None"
    by (simp_all add: court_warrant_def court_db_def instant_def incident_of_def)
  have "is_ok (approve_warrant court_env ''w1'' (zero_digest []) ''alice'' ?now ''u'' ?c sample_warrant ?db)"
    using c(2) [of ws] by (simp add: approve_warrant_def i ap c(1) e Let_def) (simp add: empty_db_def instant_def)
  then show ?thesis using i(4) by (auto simp: decide_locked_def court_pending locked_incident_def i(1))
qed


lemma court_run:
  obtains db where "decide_locked court_env ''w1'' True (zero_digest []) ''alice'' None (Aware 2000000 0) ''u''
       (court_db APPROVAL_PENDING document authority) = Inr db"
    "(system_step court_env)\<^sup>*\<^sup>* (court_db APPROVAL_PENDING document authority) db" "warrants (broker_db db) ''w1'' \<noteq> None"
proof -
  let ?db = "court_db APPROVAL_PENDING document authority" and ?c = "court_warrant document authority" and ?now = "Aware 2000000 0"
  obtain db where l: "decide_locked court_env ''w1'' True (zero_digest []) ''alice'' None ?now ''u'' ?db = Inr db"
    using court_decided [of document authority] by (auto simp: is_ok_def split: sum.splits)
  have "expire_warrant_if_needed court_env ''w1'' (zero_digest []) ''alice'' ?now ''u'' ?db = Inr (?db, False)"
    by (simp add: expire_warrant_if_needed_def court_pending court_warrant_def instant_def)
  then have "decide_warrant court_env ''w1'' True (zero_digest []) ''alice'' None ?now ''u'' ?db = (Inr (), db)"
    by (simp add: decide_warrant_def l)
  then have "system_step court_env ?db db" by (rule system_step.runs [OF transaction.decision])
  moreover have "approve_warrant court_env ''w1'' (zero_digest []) ''alice'' ?now ''u'' ?c sample_warrant ?db = Inr db"
    using l by (auto simp: decide_locked_def court_pending result_simps)
  then obtain aj where "broker_db db = grant_authority court_env ''w1'' ?c sample_warrant aj ?now (broker_db ?db)"
    by (rule approved_broker)
  then have "warrants (broker_db db) ''w1'' \<noteq> None" by (simp add: grant_authority_def)
  ultimately show thesis using that l by blast
qed

lemma court_broker: "warrants (broker_db (court_db st document authority)) = Map.empty"
  by (simp add: court_db_def empty_db_def)

lemma court_control: "control_by (court_db st document authority) ''w1'' = Some (court_warrant document authority)"
  by (simp add: court_db_def control_by_def row_by_def court_warrant_def)

lemma court_note:
  "\<exists>db row. append_published_event court_env ''i1'' ''NOTE'' ''op'' [] (Aware 1000000 0) ''u''
       ((court_db VERIFIED [] [])\<lparr>published_cases := [''i1'' \<mapsto> public_row]\<rparr>) = Inr db \<and>
     published_cases db ''i1'' = Some row \<and> pb_published row \<and> pb_revision row = 2"
proof -
  have n: "next_state_of VERIFIED ''NOTE'' [] = Inr VERIFIED" by code_simp
  have m: "is_ok (canonical_json id (event_material ''i1'' 1 ''NOTE'' ''op'' [] ZERO_EVENT_HASH (Aware 1000000 0)))"
    by (simp add: material_simps)
  obtain c e where c: "append_event zero_digest id (control (court_db VERIFIED [] [])) ''i1'' ''NOTE'' ''op'' [] (Aware 1000000 0) ''u'' = Inr (c, e)"
    "incidents c = [''i1'' \<mapsto> \<lparr>inc_id = ''i1'', inc_title = ''Retry'', inc_state = VERIFIED, next_event_sequence = 2,
        event_chain_head = Some (zero_digest []), inc_created_at = Aware 0 0, inc_updated_at = Aware 1000000 0\<rparr>]"
    by (rule court_append [OF n m])
  have "incident_of (court_db VERIFIED [] []) ''i1'' \<noteq> None" "columns (court_db VERIFIED [] []) ''i1'' \<noteq> None"
    by (simp_all add: court_db_def incident_of_def)
  then show ?thesis
    by (auto simp: append_published_event_def append_locked_def locked_incident_def incident_of_def c publish_locked_def court_digest Let_def
        public_row_def)
qed

lemma court_rejected:
  "is_ok (decide_locked court_env ''w1'' False (zero_digest []) ''alice'' None (Aware 2000000 0) ''u''
     (court_db APPROVAL_PENDING document authority))"
proof -
  let ?db = "court_db APPROVAL_PENDING document authority" and ?c = "court_warrant document authority" and ?now = "Aware 2000000 0"
  let ?p = "[(''warrant_id'', PyStr ''w1''), (''warrant_sha256'', PyStr (zero_digest []))]"
  let ?d = "set_state ''i1'' BLOCKED (set_pending_warrant ''i1'' None (put_control (?c\<lparr>cw_status := CW_REJECTED, cw_updated_at := ?now\<rparr>) ?db))"
  have n: "next_state_of BLOCKED ''WARRANT_REJECTED'' ?p = Inr BLOCKED" "BLOCKED \<noteq> VERIFIED" by code_simp+
  have m: "is_ok (canonical_json id (event_material ''i1'' 1 ''WARRANT_REJECTED'' ''alice'' ?p ZERO_EVENT_HASH ?now))"
    by (simp add: material_simps)
  have k: "control ?d = control (court_db BLOCKED document authority)" "columns ?d ''i1'' \<noteq> None" "published_cases ?d = Map.empty"
    by (simp_all add: set_state_def set_pending_warrant_def put_control_def court_db_def)
  obtain c where c: "append_locked court_env ''i1'' ''WARRANT_REJECTED'' ''alice'' ?p ?now ''u'' ?d = Inr (?d\<lparr>control := c\<rparr>)"
    "\<And>ws. is_ok (publish_locked court_env ''i1'' ?now (?d\<lparr>control := c, runtime_work := ws\<rparr>))"
    by (rule court_write [OF n m k, where uuid = "''u''"]) (rule that)
  have i: "cw_incident_id ?c = ''i1''" "incident_of ?db ''i1'' \<noteq> None" by (simp_all add: court_warrant_def court_db_def incident_of_def)
  have "is_ok (publish_locked court_env ''i1'' ?now (?d\<lparr>control := c\<rparr>))"
    using c(2) [of "runtime_work ?d"] by simp
  then have "is_ok (reject_warrant court_env ''w1'' (zero_digest []) ''alice'' None ?now ''u'' ?c ?db)"
    by (simp add: reject_warrant_def i(1) c(1))
  then show ?thesis using i(2) by (auto simp: decide_locked_def court_pending locked_incident_def i(1))
qed

section \<open>Properties\<close>

text \<open>C12. Broker authority needs an approval: starting from a database without broker warrants, however the transactions
  of the service and the broker and restarts interleave, every warrant the broker can execute has a control warrant
  that a decision approved, of the same incident and with the same bytes, and its execution is in the work queue.\<close>

theorem broker_authority_needs_approval:
  assumes "(system_step env)\<^sup>*\<^sup>* db0 db" "warrants (broker_db db0) = Map.empty" "warrants (broker_db db) w = Some row"
  shows "\<exists>c work. control_by db w = Some c \<and> cw_status c = CW_APPROVED \<and> cw_incident_id c = wr_incident_id row \<and>
     cw_canonical_document c = wr_document_json row \<and> work_by db (execution_work_id w) = Some work \<and>
     wk_kind work = APPROVED_EXECUTION_WORK \<and> wk_warrant_id work = w \<and> wk_incident_id work = wr_incident_id row"
proof -
  have "authority_ok db0" using assms(2) by (simp add: authority_ok_def)
  with system.rel_runs [OF assms(1)] have "authority_ok db" by (simp add: evolves_def)
  then show ?thesis using assms(3) unfolding authority_ok_def by blast
qed

theorem broker_authority_needs_approval_witness:
  "\<exists>db row c. (system_step court_env)\<^sup>*\<^sup>* (court_db APPROVAL_PENDING [] []) db \<and> warrants (broker_db db) ''w1'' = Some row \<and>
     control_by db ''w1'' = Some c \<and> cw_status c = CW_APPROVED \<and> cw_canonical_document c = wr_document_json row"
proof -
  obtain db where run: "(system_step court_env)\<^sup>*\<^sup>* (court_db APPROVAL_PENDING [] []) db" "warrants (broker_db db) ''w1'' \<noteq> None"
    by (rule court_run)
  then obtain row where row: "warrants (broker_db db) ''w1'' = Some row" by blast
  from broker_authority_needs_approval [OF run(1) court_broker row] run(1) row show ?thesis by blast
qed

text \<open>C13. A decision is final and a document never changes: in every later database the control warrant has the same
  incident, bytes, hash, authority and expiry, and once it was approved, rejected or expired the whole row is the same.\<close>

theorem decision_is_final:
  assumes "(system_step env)\<^sup>*\<^sup>* db db'" "control_by db w = Some c"
  shows "\<exists>c'. control_by db' w = Some c' \<and> cw_incident_id c' = cw_incident_id c \<and>
     cw_canonical_document c' = cw_canonical_document c \<and> cw_warrant_sha256 c' = cw_warrant_sha256 c \<and>
     cw_authority_json c' = cw_authority_json c \<and> cw_expires_at c' = cw_expires_at c \<and>
     (cw_status c \<noteq> PENDING_APPROVAL \<longrightarrow> c' = c)"
proof -
  obtain c' where "control_by db' w = Some c'" "bound_part c' = bound_part c" "cw_status c \<noteq> PENDING_APPROVAL \<longrightarrow> c' = c"
    using system.rel_runs [OF assms(1)] assms(2) unfolding evolves_def controls_kept_def by blast
  then show ?thesis by (auto simp: bound_part_def)
qed

theorem decision_is_final_witness:
  "\<exists>db c'. (system_step court_env)\<^sup>*\<^sup>* (court_db APPROVAL_PENDING [] []) db \<and> warrants (broker_db db) ''w1'' \<noteq> None \<and>
     control_by db ''w1'' = Some c' \<and> cw_expires_at c' = Aware 9000000 0"
proof -
  obtain db where run: "(system_step court_env)\<^sup>*\<^sup>* (court_db APPROVAL_PENDING [] []) db" "warrants (broker_db db) ''w1'' \<noteq> None"
    by (rule court_run)
  from decision_is_final [OF run(1) court_control] run show ?thesis by (auto simp: court_warrant_def)
qed

text \<open>C15. Only verified incidents are public: starting from a database where this holds, such as one without published
  cases, every public case of every later database shows the state VERIFIED and belongs to an incident that is no
  live trial, and it stays public.\<close>

theorem only_verified_cases_are_public:
  assumes "(system_step env)\<^sup>*\<^sup>* db0 db" "publication_ok db0" "published_cases db i = Some row" "pb_published row"
  shows "pb_state row = VERIFIED \<and> (\<exists>c. columns db i = Some c \<and> \<not> ic_live_trial c) \<and>
     (\<forall>db'. (system_step env)\<^sup>*\<^sup>* db db' \<longrightarrow> (\<exists>row'. published_cases db' i = Some row' \<and> pb_published row'))"
proof -
  have "publication_ok db" using system.rel_runs [OF assms(1)] assms(2) by (simp add: evolves_def)
  moreover have "stays_published db db'" if "(system_step env)\<^sup>*\<^sup>* db db'" for db'
    using system.rel_runs [OF that] by (simp add: evolves_def)
  ultimately show ?thesis using assms(3,4) unfolding publication_ok_def stays_published_def by meson
qed

theorem only_verified_cases_are_public_witness:
  "\<exists>db row. (system_step court_env)\<^sup>*\<^sup>* ((court_db VERIFIED [] [])\<lparr>published_cases := [''i1'' \<mapsto> public_row]\<rparr>) db \<and>
     published_cases db ''i1'' = Some row \<and> pb_published row \<and> pb_revision row = 2 \<and> pb_state row = VERIFIED"
proof -
  let ?db = "(court_db VERIFIED [] [])\<lparr>published_cases := [''i1'' \<mapsto> public_row]\<rparr>"
  obtain db row where a: "append_published_event court_env ''i1'' ''NOTE'' ''op'' [] (Aware 1000000 0) ''u'' ?db = Inr db"
    and row: "published_cases db ''i1'' = Some row" "pb_published row" "pb_revision row = 2" using court_note by blast
  have run: "(system_step court_env)\<^sup>*\<^sup>* ?db db" using system_step.runs [OF transaction.event [OF a]] by blast
  have "publication_ok ?db" by (simp add: publication_ok_def court_db_def incident_of_def public_row_def)
  from only_verified_cases_are_public [OF run this row(1,2)] run row show ?thesis by blast
qed

text \<open>C16. Claimed work is not claimed again: after a claim of a work item succeeded, whatever transactions follow, no
  later claim of it succeeds; only the scan of a restarted service offers interrupted work again.\<close>

theorem claimed_work_is_not_claimed_again:
  assumes "claim_runtime_work i owner now db = Inr (db1, Some work)" "(transaction env)\<^sup>*\<^sup>* db1 db2"
    and "claim_runtime_work i owner' now' db2 = Inr (db3, claimed)"
  shows "claimed = None"
proof -
  obtain w where w: "work_by db i = Some w" "wk_status w = WORK_PENDING" "db1 = put_work work db" "wk_id work = wk_id w"
      "wk_status work = WORK_RUNNING"
    using assms(1) by (auto simp: claim_runtime_work_def result_simps Let_def split: option.splits if_splits)
  have "wk_id w = i" using w(1) row_by_key unfolding work_by_def by fastforce
  then have "work_by db1 i = Some work" using w by (simp add: work_by_def put_work_def row_by_put)
  then obtain w' where "work_by db2 i = Some w'" "wk_status w' \<noteq> WORK_PENDING"
    using running.rel_runs [OF assms(2)] w(5) unfolding progress_def held_def by fastforce
  then show ?thesis using assms(3) by (auto simp: claim_runtime_work_def)
qed

theorem claimed_work_is_not_claimed_again_witness:
  "\<exists>db1 work db2 claimed. claim_runtime_work (execution_work_id ''w1'') ''a'' (Aware 1 0) ((court_db APPROVED [] [])\<lparr>runtime_work := [court_work]\<rparr>) =
       Inr (db1, Some work) \<and> wk_attempt_count work = 1 \<and>
     claim_runtime_work (execution_work_id ''w1'') ''b'' (Aware 2 0) db1 = Inr (db2, claimed) \<and> claimed = None"
proof -
  let ?i = "execution_work_id ''w1''"
  let ?db = "(court_db APPROVED [] [])\<lparr>runtime_work := [court_work]\<rparr>"
  define work where "work = court_work\<lparr>wk_status := WORK_RUNNING, wk_owner_id := Some ''a'', wk_attempt_count := 1, wk_updated_at := Aware 1 0\<rparr>"
  have c: "claim_runtime_work ?i ''a'' (Aware 1 0) ?db = Inr (put_work work ?db, Some work)"
    by (simp add: claim_runtime_work_def work_by_def row_by_def court_work_def court_db_def locked_incident_def incident_of_def work_def Let_def)
  have d: "claim_runtime_work ?i ''b'' (Aware 2 0) (put_work work ?db) = Inr (put_work work ?db, None)"
    by (simp add: claim_runtime_work_def work_by_def row_by_def put_work_def put_row_def court_work_def work_def)
  have "(transaction court_env)\<^sup>*\<^sup>* (put_work work ?db) (put_work work ?db)" by simp
  from claimed_work_is_not_claimed_again [OF c this d] c d show ?thesis by (auto simp: work_def)
qed

text \<open>C14. An approval writes what the broker's own store would: when the stored bytes of the control warrant are the canonical
  bytes of the document and authority that they are read as, and the columns agree with the document, then the broker
  tables after the decision are those of the store's \<open>add_approved\<close> for the approval of the service.\<close>

theorem approval_writes_what_the_store_would:
  assumes "decide_locked env w True sha actor reason now uuid db = Inr db'" "control_by db w = Some c"
    and "ae_warrant_json env (cw_canonical_document c) = Some d" "canonical_warrant_bytes (rt_nfc env) d = Inr (cw_canonical_document c)"
    and "canonical_authority_bytes (rt_nfc env) au = Inr (cw_authority_json c)"
    and "wd_warrant_id d = w" "wd_incident_id d = cw_incident_id c" "au_incident_id au = cw_incident_id c"
  shows "\<exists>approval.
     approve (rt_sha env) (rt_nfc env) (py_hmac (ae_policy env)) (py_mac_keys (ae_policy env)) d now (Some actor) = Inr approval \<and>
     pg_add_approved (rt_sha env) (rt_nfc env) (d, approval, au, now) (broker_db db) = Inr (broker_db db')"
proof -
  have pc: "pending_control w sha db = Inr c" and a: "approve_warrant env w sha actor now uuid c d db = Inr db'"
    using assms(1-3) pending_control_ok by (fastforce simp: decide_locked_def result_simps)+
  obtain approval aj where ap: "approve (rt_sha env) (rt_nfc env) (py_hmac (ae_policy env)) (py_mac_keys (ae_policy env)) d now
        (Some actor) = Inr approval" "canonical_approval_bytes (rt_nfc env) approval = Inr aj"
    and fresh: "warrants (broker_db db) w = None" "\<forall>row \<in> ran (warrants (broker_db db)). wr_nonce_sha256 row \<noteq> rt_sha env (wd_nonce d)"
    and "broker_db db' = grant_authority env w c d aj now (broker_db db)"
    by (rule approved_broker [OF a])
  moreover have "pg_add_approved (rt_sha env) (rt_nfc env) (d, approval, au, now) (broker_db db) =
      Inr (grant_authority env w c d aj now (broker_db db))"
    using assms(4-8) ap(2) fresh by (auto simp: pg_add_approved_def canonical_or_raise_def Let_def grant_authority_def)
  ultimately show ?thesis using ap(1) by simp
qed

theorem approval_writes_what_the_store_would_witness:
  "\<exists>document authority db approval. pg_add_approved zero_digest id (sample_warrant, approval, sample_authority, Aware 2000000 0) empty_db = Inr (broker_db db) \<and>
     decide_locked court_env ''w1'' True (zero_digest []) ''alice'' None (Aware 2000000 0) ''u'' (court_db APPROVAL_PENDING document authority) = Inr db"
proof -
  obtain document where d: "canonical_warrant_bytes id sample_warrant = Inr document"
    by (rule canonical_warrant_bytes_ok [OF nfc_laws_id sample_warrant_aware])
  obtain kvs where "normalize id (py_fields (authority_fields sample_authority)) = Inr (JObj kvs)"
    by (rule authority_normalizes [OF nfc_laws_id])
  then obtain authority where au: "canonical_authority_bytes id sample_authority = Inr authority"
    by (simp add: canonical_authority_bytes_def canonical_json_def)
  obtain db where l: "decide_locked court_env ''w1'' True (zero_digest []) ''alice'' None (Aware 2000000 0) ''u''
      (court_db APPROVAL_PENDING document authority) = Inr db" by (rule court_run)
  have "broker_db (court_db APPROVAL_PENDING document authority) = empty_db" by (simp add: court_db_def)
  then show ?thesis
    using approval_writes_what_the_store_would [OF l court_control, of sample_warrant sample_authority] l d au
    by (auto simp: court_warrant_def sample_warrant_def sample_authority_def from_warrant_def)
qed

text \<open>C38. A rejection goes around the state machine: the incident becomes BLOCKED although the event that is written is no
  state event, so the state that the timeline replays to is still the old one.\<close>

theorem rejection_bypasses_the_state_machine:
  assumes "decide_locked env w False sha actor reason now uuid db = Inr db'" "control_by db w = Some c"
    and "incident_of db (cw_incident_id c) = Some inc"
    and "replay origin (events_of (control db) (cw_incident_id c)) = Inr (inc_state inc)"
  shows "\<exists>inc'. incident_of db' (cw_incident_id c) = Some inc' \<and> inc_state inc' = BLOCKED \<and>
     replay origin (events_of (control db') (cw_incident_id c)) = Inr (inc_state inc)"
proof -
  let ?i = "cw_incident_id c"
  have pc: "pending_control w sha db = Inr c" and r: "reject_warrant env w sha actor reason now uuid c db = Inr db'"
    using assms(1,2) pending_control_ok by (fastforce simp: decide_locked_def result_simps split: option.splits)+
  let ?d = "set_state ?i BLOCKED (set_pending_warrant ?i None (put_control (c\<lparr>cw_status := CW_REJECTED, cw_updated_at := now\<rparr>) db))"
  obtain p e where a: "append_event (rt_sha env) (rt_nfc env) (control ?d) ?i ''WARRANT_REJECTED'' actor p now uuid = Inr (control db', e)"
    using r publish_frame(1) by (fastforce simp: reject_warrant_def append_locked_def result_simps)
  have row: "incidents (control ?d) ?i = Some (inc\<lparr>inc_state := BLOCKED\<rparr>)" "events (control ?d) = events (control db)"
    using assms(3) by (simp_all add: incident_of_def set_state_def set_pending_warrant_def put_control_def)
  have same: "next_state_of st ''WARRANT_REJECTED'' q = Inr st" for st q
    by (simp add: next_state_of_def STATE_EVENT_TYPES_def)
  from a show ?thesis
  proof (rule append_event_ok)
    fix row
    assume "incidents (control ?d) ?i = Some row" and e: "ev_incident_id e = ?i" "ev_type e = ''WARRANT_REJECTED''"
      and evs: "events (control db') = events (control ?d) @ [e]"
      and new: "\<exists>row'. incidents (control db') ?i = Some row' \<and> next_event_sequence row' = Suc (next_event_sequence row) \<and>
        event_chain_head row' = Some (ev_event_hash e) \<and> next_state_of (inc_state row) ''WARRANT_REJECTED'' p = Inr (inc_state row')"
    then obtain row' where "incidents (control db') ?i = Some row'" "inc_state row' = BLOCKED" using row(1) by (auto simp: same)
    moreover have "events_of (control db') ?i = events_of (control db) ?i @ [e]" using evs row(2) e(1) by (simp add: events_of_def)
    ultimately show ?thesis using assms(4) e(2) by (auto simp: incident_of_def replay_append same)
  qed
qed

theorem rejection_bypasses_the_state_machine_witness:
  "\<exists>db inc. decide_locked court_env ''w1'' False (zero_digest []) ''alice'' None (Aware 2000000 0) ''u'' (court_db APPROVAL_PENDING [] []) = Inr db \<and>
     incident_of db ''i1'' = Some inc \<and> inc_state inc = BLOCKED \<and> replay APPROVAL_PENDING (events_of (control db) ''i1'') = Inr APPROVAL_PENDING"
proof -
  let ?db = "court_db APPROVAL_PENDING [] []"
  obtain db where l: "decide_locked court_env ''w1'' False (zero_digest []) ''alice'' None (Aware 2000000 0) ''u'' ?db = Inr db"
    using court_rejected [of "[]" "[]"] by (auto simp: is_ok_def split: sum.splits)
  obtain inc where inc: "incident_of ?db (cw_incident_id (court_warrant [] [])) = Some inc" "inc_state inc = APPROVAL_PENDING"
    by (simp add: incident_of_def court_db_def court_warrant_def)
  have "replay APPROVAL_PENDING (events_of (control ?db) (cw_incident_id (court_warrant [] []))) = Inr (inc_state inc)"
    by (simp add: inc(2) events_of_def court_db_def)
  from rejection_bypasses_the_state_machine [OF l court_control inc(1) this] l inc(2) show ?thesis by (auto simp: court_warrant_def)
qed

end
