(* ===== verification/Spec2Isabelle.thy ===== *)
theory Spec2Isabelle
  imports CP_Timeline CP_Paths CP_Warrant CP_Store CP_Coordinator CP_ExportRoundtrip CP_Victim CP_Worktree CP_Sanitizer CP_System
begin

text \<open>
  CrossPatch: a review court for patches proposed by language models, and its webhook test service.

  \<^bold>\<open>The program.\<close> An incident is opened with sanitised evidence. A coordinator runs five model seats
  (Inspector, Prosecutor, Counsel, Magistrate, Bailiff) over it, validates what each returns, lets a seat
  retry with more effort when its retry differs in substance, and remands the candidate patch at most a
  few times before it returns CLEAR, BLOCK or ABSTAIN. A cleared candidate becomes a warrant: a document
  that binds the repository, base commit, patch bytes, allowed paths and catalogued test plans. A human
  approves the exact bytes of the warrant with a MAC; the broker claims the warrant once, prepares a
  disposable tree, runs catalogued plans and nothing else, and records a receipt. Every step appends to a
  hash-chained timeline whose events drive the incident's state machine. A finished case is exported as a
  signed archive and verified elsewhere. The webhook service is the program the demonstration repairs.

  \<^bold>\<open>Theories and sources\<close> (paths below \<^verbatim>\<open>backend/src/crosspatch\<close> unless \<^verbatim>\<open>victim/\<close> is written).
  \<^item> \<open>CP_Prelude\<close>: results of code that may raise, character predicates, splitting, joining, hex.
  \<^item> \<open>CP_Json\<close>, \<open>CP_JsonParse\<close>: \<^verbatim>\<open>domain/hashing.py\<close> (\<^verbatim>\<open>_normalize\<close>, \<^verbatim>\<open>canonical_json\<close>, \<^verbatim>\<open>sha256_hex\<close>) and the
    strict \<^verbatim>\<open>json.loads\<close> the other modules use. Canonical text determines its value and is read back.
  \<^item> \<open>CP_Domain\<close>: \<^verbatim>\<open>domain/enums.py\<close>, \<^verbatim>\<open>seats.py\<close>, \<^verbatim>\<open>state_machine.py\<close>. No run of the machine reaches
    VERIFIED without a verdict, an approval and an execution.
  \<^item> \<open>CP_Timeline\<close>: \<^verbatim>\<open>db/repositories.py\<close> over the rows of \<^verbatim>\<open>db/models.py\<close>. The chain invariant of every
    sequence of operations, and that a chain with a changed event cannot keep the head hash.
  \<^item> \<open>CP_Catalog\<close>: \<^verbatim>\<open>runner/catalog.py\<close>, \<^verbatim>\<open>runner/results.py\<close>. What may run, and the receipts of it.
  \<^item> \<open>CP_Paths\<close>: \<^verbatim>\<open>broker/paths.py\<close>. Which paths a unified diff changes and which are forbidden.
  \<^item> \<open>CP_Warrant\<close>, \<open>CP_Approval\<close>: \<^verbatim>\<open>broker/warrant.py\<close>, \<^verbatim>\<open>broker/approval.py\<close>. Canonical bytes, parsers, the
    binding of a hash and of a MAC to one document.
  \<^item> \<open>CP_Broker\<close>, \<open>CP_Store\<close>: \<^verbatim>\<open>broker/broker.py\<close>, \<^verbatim>\<open>broker/store.py\<close>. The locale \<open>warrant_store\<close> is the contract of a
    store (a claim moves an approved warrant to CONSUMING and nothing moves it back); the in-memory and the
    PostgreSQL store interpret it, single use follows for both, and the second refines the first.
  \<^item> \<open>CP_Fingerprint\<close>, \<open>CP_Escalation\<close>, \<open>CP_Evidence\<close>, \<open>CP_Coordinator\<close>: the outputs of \<^verbatim>\<open>domain/schemas.py\<close> and their
    semantic fingerprints, \<^verbatim>\<open>orchestration/escalation.py\<close>, the evidence data, and \<^verbatim>\<open>orchestration/coordinator.py\<close>
    with its failure taxonomy. The locale \<open>retry_policy\<close> carries the tracker's invariant; the locale
    \<open>review_relation\<close> is what holds between a review's start and end, interpreted for three relations.
  \<^item> \<open>CP_Regex\<close>, \<open>CP_Sanitizer\<close>: the part of Python's \<^verbatim>\<open>re\<close> the sanitizer uses, and \<^verbatim>\<open>evidence/sanitizer.py\<close>.
  \<^item> \<open>CP_Export\<close>, \<open>CP_ExportRoundtrip\<close>: \<^verbatim>\<open>export/builder.py\<close>, \<^verbatim>\<open>export/verifier.py\<close>. An accepted archive is bound to
    its signed manifest; an archive built from well-formed artifacts within the limits is accepted.
  \<^item> \<open>CP_Worktree\<close>: \<^verbatim>\<open>runner/worktree.py\<close>, \<^verbatim>\<open>runner/candidate_context.py\<close>. A prepared tree differs from the base
    commit in the allowed paths only.
  \<^item> \<open>CP_Victim\<close>: \<^verbatim>\<open>victim/src/victim\<close> (tables, worker, signing, requests) and \<^verbatim>\<open>runner/reproduction.py\<close>. The
    interleavings of the vulnerable service, and that the reproduction reports its two defects.
  \<^item> \<open>CP_Access\<close>: \<^verbatim>\<open>runtime/auth.py\<close>, \<^verbatim>\<open>runtime/live_trials.py\<close>, the guards of \<^verbatim>\<open>api/dependencies.py\<close>, and the expiry
    rule of \<^verbatim>\<open>config.py\<close>. The budget is the balance of its reservations, quotas bound the reservations of
    a credential whatever the order of clock readings, settlements may pass the cap, a revoked token stays revoked, and approval takes the configured secrets.
  \<^item> \<open>CP_Tables\<close>: the rows of \<^verbatim>\<open>db/models.py\<close> as one database and the append inside a transaction.
  \<^item> \<open>CP_Publication\<close>: \<^verbatim>\<open>public_titles.py\<close>, \<^verbatim>\<open>publication_policy.py\<close>, the event details of \<^verbatim>\<open>runtime/projection.py\<close>, and from
    \<^verbatim>\<open>runtime/database.py\<close> the redaction of published evidence and the rule of \<^verbatim>\<open>_publish_locked\<close>.
  \<^item> \<open>CP_Runtime\<close>: the transactions of \<^verbatim>\<open>RuntimeStore\<close> in \<^verbatim>\<open>runtime/database.py\<close>: incidents, evidence, seat outputs, the work
    queue, broker results and restart recovery.
  \<^item> \<open>CP_Authority\<close>: \<^verbatim>\<open>runtime/authority.py\<close> (verdicts, escalations, the opening of a warrant, decisions on it) and
    \<^verbatim>\<open>runtime/scenarios.py\<close>.
  \<^item> \<open>CP_System\<close>: these transactions and the broker's on one database, in any order. The locale \<open>step_preorder\<close> lifts what
    every step keeps to runs, for the service alone and with restarts: broker rows need an approval, decisions are
    final, only verified incidents are public, claimed work is not claimed again; an approval writes what the
    broker's own store would.

  \<^bold>\<open>How state and operations correspond.\<close> A class or row is a record with the source's fields under a
  short prefix; an enumeration is a datatype; a table is a map or a list of rows. An operation takes the
  state and returns an error or the new state with its value; a transaction that raises leaves the state
  as it was, because its result carries no state. Where the source keeps a changed state while it raises
  (the tracker, the coordinator's trace, the broker's execution) the result is a pair of the raise or value and the state.
  Row and advisory locks make a transaction of the stores one step; the clock is read before the transaction, so
  the readings of a run are in no order. Where the source takes no lock (the vulnerable victim) the
  statements are separate steps and an inductive relation interleaves them; there an event is cleared only while no
  request for it is open, as the reproducers do, and one worker runs. Cancellation of a broker task is a branch of
  the execution: it can strike inside the worktree block or inside the last \<^verbatim>\<open>finish\<close>. A tracker's history includes the
  restorations the service makes before repairs and revisions. Strings are UTF-8 bytes (lone surrogates
  raise no encoding error); the sanitizer, which counts and classifies characters, works on code points.

  \<^bold>\<open>Parameters.\<close> Code outside the repository is an argument: SHA-256 (\<open>sha\<close>, injective and of
  64 hex digits where a theorem needs it), HMAC and Ed25519, the Unicode tables (NFC, NFKC, case folding,
  word characters), \<^verbatim>\<open>repr\<close> of foreign values, the ZIP reader and writer, Git, the clock, the model
  provider behind the coordinator, the runner process behind the broker, HTTP and lock waits of the reproduction, and the
  parsers of the third-party model classes. The published document of an incident, which the store assembles from
  the rows, is an argument too: what is modelled is when it is public. What a
  theorem assumes of them is a premise of it, and its witness instantiates them.

  \<^bold>\<open>Loops and fuel.\<close> Recursion over data is structural or has a measure. The remand loop has fuel; nine rounds
  suffice because a candidate can be remanded at most as often as the retry budget of eight allows, and
  termination is proved for any runtime. The outbox drain and the chunked read have the source's own limits. Regular
  expression scans advance by at least the minimal width of the pattern, so scans are total.

  \<^bold>\<open>Not modelled.\<close> HTTP, MCP and command line adapters, the model provider's SDK, the asynchronous control service
  and its factories, the read queries and the seat and warrant summaries of the read model, process
  groups and sockets of the runner, migrations and most settings, evidence file storage, and the
  release scripts: they are wiring around the modelled operations, or their behaviour is that of the
  operating system or of services outside the repository.
\<close>

end
